(* ===== verification/Prelude.thy ===== *)
theory Prelude
  imports Main "HOL-Library.Word" "HOL-Library.Monad_Syntax"
begin

text \<open>
  Shared vocabulary of the development: machine words, byte-addressed arrays with bounds-checked
  loads and stores, C strings, and the generic facts about them.

  A C array is a list of bytes.  A load or store outside the array is undefined behaviour in C and
  is the value \<open>None\<close> here, so a theorem that an operation returns \<open>Some\<close> is a memory-safety
  statement.  The targets of the repository (arm64-v8a, armeabi-v7a) are little-endian: a 16, 32 or
  64 bit load assembles its bytes least significant first, and \<open>ntohs\<close>/\<open>ntohl\<close> (the macros
  \<open>nswap16\<close>, \<open>nswap32\<close>, \<open>nswap64\<close> of \<open>ns_turn_defs.h\<close>) reverse the bytes of a word.
\<close>

unbundle bit_operations_syntax

type_synonym u8 = "8 word"
type_synonym u16 = "16 word"
type_synonym u32 = "32 word"
type_synonym u64 = "64 word"
type_synonym mem = "u8 list"

named_theorems byte_simps \<open>assembling words from bytes and taking them apart\<close>
named_theorems mem_simps \<open>loads and stores inside the array\<close>

subsection \<open>Words and their bytes\<close>

definition byte_of :: "nat \<Rightarrow> 'a::len word \<Rightarrow> u8" where
  "byte_of k w = ucast (drop_bit (8 * k) w)"

definition le16 :: "u8 \<Rightarrow> u8 \<Rightarrow> u16" where
  "le16 b0 b1 = ucast b0 OR push_bit 8 (ucast b1)"

definition le32 :: "u8 \<Rightarrow> u8 \<Rightarrow> u8 \<Rightarrow> u8 \<Rightarrow> u32" where
  "le32 b0 b1 b2 b3 =
     ucast b0 OR push_bit 8 (ucast b1) OR push_bit 16 (ucast b2) OR push_bit 24 (ucast b3)"

definition le64 :: "u8 \<Rightarrow> u8 \<Rightarrow> u8 \<Rightarrow> u8 \<Rightarrow> u8 \<Rightarrow> u8 \<Rightarrow> u8 \<Rightarrow> u8 \<Rightarrow> u64" where
  "le64 b0 b1 b2 b3 b4 b5 b6 b7 =
     ucast (le32 b0 b1 b2 b3) OR push_bit 32 (ucast (le32 b4 b5 b6 b7))"

definition bytes16 :: "u16 \<Rightarrow> mem" where
  "bytes16 w = [byte_of 0 w, byte_of 1 w]"

definition bytes32 :: "u32 \<Rightarrow> mem" where
  "bytes32 w = [byte_of 0 w, byte_of 1 w, byte_of 2 w, byte_of 3 w]"

definition bytes64 :: "u64 \<Rightarrow> mem" where
  "bytes64 w = [byte_of 0 w, byte_of 1 w, byte_of 2 w, byte_of 3 w,
                byte_of 4 w, byte_of 5 w, byte_of 6 w, byte_of 7 w]"

definition nswap16 :: "u16 \<Rightarrow> u16" where
  "nswap16 w = le16 (byte_of 1 w) (byte_of 0 w)"

definition nswap32 :: "u32 \<Rightarrow> u32" where
  "nswap32 w = le32 (byte_of 3 w) (byte_of 2 w) (byte_of 1 w) (byte_of 0 w)"

text \<open>
  \<open>nswap64\<close> is the loop of \<open>_ioa_ntoh64\<close>, which swaps the outermost pair of bytes, then the next,
  until the two pointers meet: the bytes come out reversed.
\<close>

fun swap_ends :: "mem \<Rightarrow> nat \<Rightarrow> nat \<Rightarrow> nat \<Rightarrow> mem" where
  "swap_ends m src dst 0 = m"
| "swap_ends m src dst (Suc k) =
     (if src < dst then swap_ends (m[dst := m ! src, src := m ! dst]) (src + 1) (dst - 1) k else m)"

definition nswap64 :: "u64 \<Rightarrow> u64" where
  "nswap64 v = (let m = swap_ends (bytes64 v) 0 7 8
     in le64 (m ! 0) (m ! 1) (m ! 2) (m ! 3) (m ! 4) (m ! 5) (m ! 6) (m ! 7))"

lemma u8_high_bit [simp]: "8 \<le> n \<Longrightarrow> \<not> bit (x :: u8) n"
  using bit_imp_le_length [of x n] by auto

lemma u16_high_bit [simp]: "16 \<le> n \<Longrightarrow> \<not> bit (x :: u16) n"
  using bit_imp_le_length [of x n] by auto

lemma byte_of_le16 [byte_simps]:
  "byte_of 0 (le16 x y) = x" "byte_of (Suc 0) (le16 x y) = y"
  by (auto intro!: bit_word_eqI simp: byte_of_def le16_def bit_simps)

lemma byte_of_le32 [byte_simps]:
  "byte_of 0 (le32 a b c d) = a" "byte_of (Suc 0) (le32 a b c d) = b"
  "byte_of 2 (le32 a b c d) = c" "byte_of 3 (le32 a b c d) = d"
  by (auto intro!: bit_word_eqI simp: byte_of_def le32_def bit_simps)

lemma le16_byte_of [byte_simps]: "le16 (byte_of 0 w) (byte_of (Suc 0) w) = w"
  by (rule bit_word_eqI) (auto simp: byte_of_def le16_def bit_simps)

lemma le32_byte_of [byte_simps]:
  "le32 (byte_of 0 w) (byte_of (Suc 0) w) (byte_of 2 w) (byte_of 3 w) = w"
proof (rule bit_word_eqI)
  fix n assume "n < LENGTH(32)"
  then consider "n < 8" | "8 \<le> n" "n < 16" | "16 \<le> n" "n < 24" | "24 \<le> n" "n < 32"
    by fastforce
  then show "bit (le32 (byte_of 0 w) (byte_of (Suc 0) w) (byte_of 2 w) (byte_of 3 w)) n = bit w n"
    by cases (auto simp: byte_of_def le32_def bit_simps less_diff_conv2)
qed

lemma nswap16_le16 [byte_simps]: "nswap16 (le16 x y) = le16 y x"
  by (simp add: nswap16_def byte_simps)

lemma nswap32_le32 [byte_simps]: "nswap32 (le32 a b c d) = le32 d c b a"
  by (simp add: nswap32_def byte_simps)

lemma nswap16_nswap16 [simp]: "nswap16 (nswap16 w) = w"
  by (simp add: nswap16_def byte_simps)

lemma nswap32_nswap32 [simp]: "nswap32 (nswap32 w) = w"
  by (simp add: nswap32_def byte_simps)

lemma byte_of_nswap16 [byte_simps]:
  "byte_of 0 (nswap16 w) = byte_of (Suc 0) w" "byte_of (Suc 0) (nswap16 w) = byte_of 0 w"
  by (simp_all add: nswap16_def byte_simps)

lemma byte_of_nswap32 [byte_simps]:
  "byte_of 0 (nswap32 w) = byte_of 3 w" "byte_of (Suc 0) (nswap32 w) = byte_of 2 w"
  "byte_of 2 (nswap32 w) = byte_of (Suc 0) w" "byte_of 3 (nswap32 w) = byte_of 0 w"
  by (simp_all add: nswap32_def byte_simps)

lemma unat_u8_less: "unat (x :: u8) < 256"
  using unsigned_less [of x] by simp

lemma unat_u16_less: "unat (x :: u16) < 65536"
  using unsigned_less [of x] by simp

lemma unat_le16: "unat (le16 x y) = unat x + 256 * unat y"
proof -
  have "le16 x y = ucast x + push_bit 8 (ucast y)"
    unfolding le16_def
    by (rule sym, rule disjunctive_add) (auto simp: bit_simps)
  then have eq: "le16 x y = of_nat (unat x + 256 * unat y)"
    by (simp add: push_bit_eq_mult)
  have "unat x + 256 * unat y < 2 ^ LENGTH(16)"
    using unat_u8_less [of x] unat_u8_less [of y] by simp
  then show ?thesis
    unfolding eq by (simp only: unat_of_nat mod_less)
qed

lemma le16_inject [simp]: "le16 a b = le16 c d \<longleftrightarrow> a = c \<and> b = d"
  by (metis byte_of_le16)

lemma length_bytes [simp]:
  "length (bytes16 v) = 2" "length (bytes32 w) = 4" "length (bytes64 x) = 8"
  by (simp_all add: bytes16_def bytes32_def bytes64_def)

text \<open>Equality of short words bit by bit: the finite conjunction that decides masks and shifts.\<close>

lemma all_less_16:
  "(\<forall>n < 16. P n) \<longleftrightarrow> P 0 \<and> P (Suc 0) \<and> P 2 \<and> P 3 \<and> P 4 \<and> P 5 \<and> P 6 \<and> P 7 \<and> P 8 \<and> P 9
     \<and> P 10 \<and> P 11 \<and> P 12 \<and> P 13 \<and> P 14 \<and> P (15 :: nat)"
  by (auto simp: All_less_Suc numeral_eq_Suc)

lemma all_less_8:
  "(\<forall>n < 8. P n) \<longleftrightarrow> P 0 \<and> P (Suc 0) \<and> P 2 \<and> P 3 \<and> P 4 \<and> P 5 \<and> P 6 \<and> P (7 :: nat)"
  by (auto simp: All_less_Suc numeral_eq_Suc)

lemma u16_eq_iff: "x = (y :: u16) \<longleftrightarrow> (\<forall>n<16. bit x n = bit y n)"
  by (auto intro: bit_word_eqI)

lemma u8_eq_iff: "x = (y :: u8) \<longleftrightarrow> (\<forall>n<8. bit x n = bit y n)"
  by (auto intro: bit_word_eqI)

subsection \<open>Loads and stores\<close>

definition rd8 :: "mem \<Rightarrow> nat \<Rightarrow> u8 option" where
  "rd8 m i = (if i < length m then Some (m ! i) else None)"

definition rd16 :: "mem \<Rightarrow> nat \<Rightarrow> u16 option" where
  "rd16 m i = (if i + 2 \<le> length m then Some (le16 (m ! i) (m ! (i + 1))) else None)"

definition rd32 :: "mem \<Rightarrow> nat \<Rightarrow> u32 option" where
  "rd32 m i = (if i + 4 \<le> length m
     then Some (le32 (m ! i) (m ! (i + 1)) (m ! (i + 2)) (m ! (i + 3))) else None)"

definition rdn :: "mem \<Rightarrow> nat \<Rightarrow> nat \<Rightarrow> mem option" where
  "rdn m i n = (if i + n \<le> length m then Some (take n (drop i m)) else None)"

definition wrn :: "mem \<Rightarrow> nat \<Rightarrow> mem \<Rightarrow> mem option" where
  "wrn m i bs = (if i + length bs \<le> length m
     then Some (take i m @ bs @ drop (i + length bs) m) else None)"

definition wr8 :: "mem \<Rightarrow> nat \<Rightarrow> u8 \<Rightarrow> mem option" where
  "wr8 m i b = wrn m i [b]"

definition wr16 :: "mem \<Rightarrow> nat \<Rightarrow> u16 \<Rightarrow> mem option" where
  "wr16 m i w = wrn m i (bytes16 w)"

definition wr32 :: "mem \<Rightarrow> nat \<Rightarrow> u32 \<Rightarrow> mem option" where
  "wr32 m i w = wrn m i (bytes32 w)"

lemma rd8_Some [mem_simps]: "i < length m \<Longrightarrow> rd8 m i = Some (m ! i)"
  by (simp add: rd8_def)

lemma rd16_Some [mem_simps]: "i + 2 \<le> length m \<Longrightarrow> rd16 m i = Some (le16 (m ! i) (m ! (i + 1)))"
  by (simp add: rd16_def)

lemma rd32_Some [mem_simps]:
  "i + 4 \<le> length m \<Longrightarrow> rd32 m i = Some (le32 (m ! i) (m ! (i + 1)) (m ! (i + 2)) (m ! (i + 3)))"
  by (simp add: rd32_def)

lemma rdn_Some [mem_simps]: "i + n \<le> length m \<Longrightarrow> rdn m i n = Some (take n (drop i m))"
  by (simp add: rdn_def)

lemma wrn_append [mem_simps]:
  "i = length a \<Longrightarrow> length bs = length b \<Longrightarrow> wrn (a @ b @ c) i bs = Some (a @ bs @ c)"
  by (simp add: wrn_def)

lemma wrn_Some [mem_simps]:
  "i + length bs \<le> length m \<Longrightarrow> wrn m i bs = Some (take i m @ bs @ drop (i + length bs) m)"
  by (simp add: wrn_def)

lemma wrn_SomeD:
  assumes "wrn m i bs = Some m'"
  shows "i + length bs \<le> length m" and "length m' = length m"
    and "m' = take i m @ bs @ drop (i + length bs) m"
  using assms by (auto simp: wrn_def split: if_splits)

lemma wrn_nth_other:
  assumes "wrn m i bs = Some m'" and "j < i \<or> i + length bs \<le> j"
  shows "m' ! j = m ! j"
proof -
  have m': "m' = take i m @ bs @ drop (i + length bs) m" and le: "i + length bs \<le> length m"
    using wrn_SomeD [OF assms(1)] by blast+
  show ?thesis
    using assms(2) le by (auto simp: m' nth_append)
qed

lemma wrn_nth_in:
  assumes "wrn m i bs = Some m'" and "i \<le> j" and "j < i + length bs"
  shows "m' ! j = bs ! (j - i)"
  using assms by (auto simp: wrn_def nth_append min_def split: if_splits)

subsection \<open>C integers\<close>

text \<open>A signed 32-bit result; leaving the range of \<open>int\<close> is undefined behaviour.\<close>

definition c_int :: "int \<Rightarrow> int option" where
  "c_int i = (if - (2 ^ 31) \<le> i \<and> i < 2 ^ 31 then Some i else None)"

lemma c_int_Some [simp]: "- (2 ^ 31) \<le> i \<Longrightarrow> i < 2 ^ 31 \<Longrightarrow> c_int i = Some i"
  by (simp add: c_int_def)

subsection \<open>C strings\<close>

text \<open>
  A \<open>char*\<close> is the array from the pointer to the end of its object; running off the array before
  a NUL is undefined behaviour.
\<close>

fun c_strlen :: "mem \<Rightarrow> nat option" where
  "c_strlen [] = None"
| "c_strlen (c # cs) = (if c = 0 then Some 0 else map_option Suc (c_strlen cs))"

definition c_str :: "mem \<Rightarrow> mem option" where
  "c_str s = map_option (\<lambda>n. take n s) (c_strlen s)"

text \<open>\<open>strncpy\<close>: at most \<open>n\<close> bytes up to the NUL, the rest filled with NULs.\<close>

fun c_strncpy :: "nat \<Rightarrow> mem \<Rightarrow> mem option" where
  "c_strncpy 0 s = Some []"
| "c_strncpy (Suc n) [] = None"
| "c_strncpy (Suc n) (c # cs) =
     (if c = 0 then Some (replicate (Suc n) 0) else map_option ((#) c) (c_strncpy n cs))"

text \<open>\<open>strcmp(s,t) == 0\<close>: both are read up to the first difference or the common NUL.\<close>

fun c_streq :: "mem \<Rightarrow> mem \<Rightarrow> bool option" where
  "c_streq (a # as) (b # bs) = (if a \<noteq> b then Some False else if a = 0 then Some True else c_streq as bs)"
| "c_streq _ _ = None"

text \<open>The array of a C string literal.\<close>

definition chars :: "string \<Rightarrow> mem" where
  "chars s = map of_char s"

definition c_lit :: "string \<Rightarrow> mem" where
  "c_lit s = chars s @ [0]"

lemma c_strlen_Some:
  "c_strlen s = Some n \<Longrightarrow> n < length s \<and> s ! n = 0 \<and> (\<forall>i<n. s ! i \<noteq> 0)"
proof (induction s arbitrary: n rule: c_strlen.induct)
  case (2 c cs)
  then show ?case
    by (auto split: if_splits simp: nth_Cons split: nat.splits)
qed simp

lemma c_strlen_append: "0 \<notin> set s \<Longrightarrow> c_strlen (s @ 0 # t) = Some (length s)"
  by (induction s) auto

lemma c_str_append [simp]: "0 \<notin> set s \<Longrightarrow> c_str (s @ 0 # t) = Some s"
  by (simp add: c_str_def c_strlen_append)

lemma c_streq_append:
  "0 \<notin> set s \<Longrightarrow> 0 \<notin> set t \<Longrightarrow> c_streq (s @ 0 # x) (t @ 0 # y) = Some (s = t)"
proof (induction s arbitrary: t)
  case Nil
  then show ?case by (cases t) auto
next
  case (Cons c s)
  then show ?case by (cases t) auto
qed

lemma c_strncpy_short:
  "0 \<notin> set s \<Longrightarrow> length s < n \<Longrightarrow> c_strncpy n (s @ 0 # t) = Some (s @ replicate (n - length s) 0)"
proof (induction s arbitrary: n)
  case Nil
  then show ?case by (cases n) auto
next
  case (Cons c s)
  then obtain k where "n = Suc k" by (cases n) auto
  with Cons show ?case by simp
qed

lemma c_strncpy_long:
  "0 \<notin> set s \<Longrightarrow> n \<le> length s \<Longrightarrow> c_strncpy n (s @ t) = Some (take n s)"
proof (induction s arbitrary: n)
  case Nil
  then show ?case by simp
next
  case (Cons c s)
  then show ?case by (cases n) auto
qed

end
