(* ===== verification/Io_Addr.thy ===== *)
theory Io_Addr
  imports Prelude
begin

text \<open>
  Socket addresses: \<open>client/ns_turn_ioaddr.c\<close>.

  \<open>ioa_addr\<close> is the union of \<open>struct sockaddr\<close>, \<open>sockaddr_in\<close> and \<open>sockaddr_in6\<close>.  The family
  (offset 0) and the port (offset 2) lie at the same place in both variants; \<open>sin_addr\<close> occupies
  bytes 4-7 (the \<open>sin6_flowinfo\<close> of the other variant), \<open>sin6_addr\<close> bytes 8-23 and
  \<open>sin6_scope_id\<close> bytes 24-27.  The five fields below therefore are the 28 bytes of the union.
  Port and IPv4 address hold the value the host reads from memory in network byte order.
  A pointer the code compares with NULL is an \<open>option\<close>.
\<close>

subsection \<open>The data\<close>

record ioa_addr =
  sa_family :: u16
  sin_port :: u16
  sin_addr :: u32
  sin6_addr :: mem
  sin6_scope_id :: u32

record sockaddr_in =
  in_family :: u16
  in_port :: u16
  in_addr :: u32
  in_zero :: mem

record ioa_addr_range =
  range_min :: ioa_addr
  range_max :: ioa_addr

abbreviation AF_INET :: u16 where "AF_INET \<equiv> 2"
abbreviation AF_INET6 :: u16 where "AF_INET6 \<equiv> 10"

definition wf_addr :: "ioa_addr \<Rightarrow> bool" where
  "wf_addr a \<longleftrightarrow> length (sin6_addr a) = 16"

definition zero_addr :: ioa_addr where
  "zero_addr = \<lparr>sa_family = 0, sin_port = 0, sin_addr = 0, sin6_addr = replicate 16 0,
                sin6_scope_id = 0\<rparr>"

text \<open>The loops over the sixteen address bytes: every byte at an index in the range is zero.\<close>

definition zero_bytes :: "mem \<Rightarrow> nat \<Rightarrow> bool" where
  "zero_bytes u n \<longleftrightarrow> list_all (\<lambda>i. u ! i = 0) [0..<n]"

definition le64_at :: "mem \<Rightarrow> nat \<Rightarrow> u64" where
  "le64_at u i = le64 (u ! i) (u ! (i + 1)) (u ! (i + 2)) (u ! (i + 3))
                      (u ! (i + 4)) (u ! (i + 5)) (u ! (i + 6)) (u ! (i + 7))"

subsection \<open>Tests, hashes, copies, equality\<close>

definition get_ioa_addr_len :: "ioa_addr \<Rightarrow> u32" where
  "get_ioa_addr_len addr = (if sa_family addr = AF_INET then 16
     else if sa_family addr = AF_INET6 then 28 else 0)"

definition addr_set_any :: "ioa_addr option \<Rightarrow> ioa_addr option" where
  "addr_set_any addr = (case addr of None \<Rightarrow> None | Some _ \<Rightarrow> Some zero_addr)"

definition addr_any :: "ioa_addr option \<Rightarrow> bool" where
  "addr_any addr = (case addr of None \<Rightarrow> True | Some a \<Rightarrow>
     if sa_family a = AF_INET then sin_addr a = 0 \<and> sin_port a = 0
     else if sa_family a = AF_INET6 then
       (if sin_port a \<noteq> 0 then False else zero_bytes (sin6_addr a) 16)
     else True)"

definition addr_any_no_port :: "ioa_addr option \<Rightarrow> bool" where
  "addr_any_no_port addr = (case addr of None \<Rightarrow> True | Some a \<Rightarrow>
     if sa_family a = AF_INET then sin_addr a = 0
     else if sa_family a = AF_INET6 then zero_bytes (sin6_addr a) 16
     else True)"

definition hash_int32 :: "u32 \<Rightarrow> u32" where
  "hash_int32 a0 = (let a1 = a0 XOR drop_bit 4 a0;
                        a2 = (a1 XOR 0xdeadbeef) + push_bit 5 a1
                    in a2 XOR drop_bit 11 a2)"

definition hash_int64 :: "u64 \<Rightarrow> u64" where
  "hash_int64 a0 = (let a1 = a0 XOR drop_bit 4 a0;
                        a2 = (a1 XOR 0xdeadbeefdeadbeef) + push_bit 5 a1
                    in a2 XOR drop_bit 11 a2)"

definition addr_hash :: "ioa_addr option \<Rightarrow> u32" where
  "addr_hash addr = (case addr of None \<Rightarrow> 0 | Some a \<Rightarrow>
     if sa_family a = AF_INET then hash_int32 (sin_addr a + ucast (sin_port a))
     else ucast (push_bit 3 (hash_int64 (le64_at (sin6_addr a) 0))
                 + hash_int64 (le64_at (sin6_addr a) 8 + ucast (sin_port a))))"

definition addr_hash_no_port :: "ioa_addr option \<Rightarrow> u32" where
  "addr_hash_no_port addr = (case addr of None \<Rightarrow> 0 | Some a \<Rightarrow>
     if sa_family a = AF_INET then hash_int32 (sin_addr a)
     else ucast (push_bit 3 (hash_int64 (le64_at (sin6_addr a) 0))
                 + hash_int64 (le64_at (sin6_addr a) 8)))"

definition addr_cpy :: "ioa_addr option \<Rightarrow> ioa_addr option \<Rightarrow> ioa_addr option" where
  "addr_cpy dst src = (case (dst, src) of (Some _, Some s) \<Rightarrow> Some s | _ \<Rightarrow> dst)"

text \<open>\<open>sockaddr_in\<close> is 16 bytes long: its \<open>sin_zero\<close> lies over the first half of \<open>sin6_addr\<close>.\<close>

definition addr_cpy4 :: "ioa_addr option \<Rightarrow> sockaddr_in option \<Rightarrow> ioa_addr option" where
  "addr_cpy4 dst src = (case (dst, src) of
     (Some d, Some s) \<Rightarrow> Some (d\<lparr>sa_family := in_family s, sin_port := in_port s,
        sin_addr := in_addr s, sin6_addr := in_zero s @ drop 8 (sin6_addr d)\<rparr>)
   | _ \<Rightarrow> dst)"

text \<open>\<open>sockaddr_in6\<close> is 28 bytes long, the whole union.\<close>

definition addr_cpy6 :: "ioa_addr option \<Rightarrow> ioa_addr option \<Rightarrow> ioa_addr option" where
  "addr_cpy6 dst src = (case (dst, src) of (Some _, Some s) \<Rightarrow> Some s | _ \<Rightarrow> dst)"

definition addr_eq :: "ioa_addr option \<Rightarrow> ioa_addr option \<Rightarrow> bool" where
  "addr_eq a1 a2 = (case (a1, a2) of
     (None, _) \<Rightarrow> a2 = None
   | (Some _, None) \<Rightarrow> False
   | (Some x, Some y) \<Rightarrow>
       sa_family x = sa_family y \<and>
       (if sa_family x = AF_INET \<and> sin_port x = sin_port y then sin_addr x = sin_addr y
        else if sa_family x = AF_INET6 \<and> sin_port x = sin_port y then sin6_addr x = sin6_addr y
        else False))"

definition addr_eq_no_port :: "ioa_addr option \<Rightarrow> ioa_addr option \<Rightarrow> bool" where
  "addr_eq_no_port a1 a2 = (case (a1, a2) of
     (None, _) \<Rightarrow> a2 = None
   | (Some _, None) \<Rightarrow> False
   | (Some x, Some y) \<Rightarrow>
       sa_family x = sa_family y \<and>
       (if sa_family x = AF_INET then sin_addr x = sin_addr y
        else if sa_family x = AF_INET6 then sin6_addr x = sin6_addr y
        else False))"

subsection \<open>Ports\<close>

definition addr_set_port :: "ioa_addr option \<Rightarrow> int \<Rightarrow> ioa_addr option" where
  "addr_set_port addr port = (case addr of None \<Rightarrow> None | Some a \<Rightarrow>
     if sa_family a = AF_INET then Some (a\<lparr>sin_port := nswap16 (word_of_int port)\<rparr>)
     else if sa_family a = AF_INET6 then Some (a\<lparr>sin_port := nswap16 (word_of_int port)\<rparr>)
     else Some a)"

definition addr_get_port :: "ioa_addr option \<Rightarrow> int" where
  "addr_get_port addr = (case addr of None \<Rightarrow> 0 | Some a \<Rightarrow>
     if sa_family a = AF_INET then uint (nswap16 (sin_port a))
     else if sa_family a = AF_INET6 then uint (nswap16 (sin_port a))
     else 0)"

subsection \<open>Ranges\<close>

definition ioa_addr_range_set ::
    "ioa_addr_range option \<Rightarrow> ioa_addr option \<Rightarrow> ioa_addr option \<Rightarrow> ioa_addr_range option" where
  "ioa_addr_range_set rng addr_min addr_max = (case rng of None \<Rightarrow> None | Some r \<Rightarrow>
     Some \<lparr>range_min = (case addr_min of Some a \<Rightarrow> a | None \<Rightarrow> zero_addr),
           range_max = (case addr_max of Some a \<Rightarrow> a | None \<Rightarrow> zero_addr)\<rparr>)"

definition addr_less_eq :: "ioa_addr option \<Rightarrow> ioa_addr option \<Rightarrow> bool" where
  "addr_less_eq addr1 addr2 = (case (addr1, addr2) of
     (None, _) \<Rightarrow> True
   | (Some _, None) \<Rightarrow> False
   | (Some x, Some y) \<Rightarrow>
       if sa_family x \<noteq> sa_family y then sa_family x < sa_family y
       else if sa_family x = AF_INET then nswap32 (sin_addr x) \<le> nswap32 (sin_addr y)
       else if sa_family x = AF_INET6 then
         list_all (\<lambda>i. \<not> sin6_addr x ! i > sin6_addr y ! i) [0..<16]
       else True)"

definition ioa_addr_in_range :: "ioa_addr_range option \<Rightarrow> ioa_addr option \<Rightarrow> bool" where
  "ioa_addr_in_range rng addr = (case (rng, addr) of
     (Some r, Some a) \<Rightarrow>
       (if addr_any (Some (range_min r)) \<or> addr_less_eq (Some (range_min r)) (Some a)
        then (if addr_any (Some (range_max r)) then True
              else addr_less_eq (Some a) (Some (range_max r)))
        else False)
   | _ \<Rightarrow> False)"

definition ioa_addr_range_cpy ::
    "ioa_addr_range option \<Rightarrow> ioa_addr_range option \<Rightarrow> ioa_addr_range option" where
  "ioa_addr_range_cpy dest src = (case (dest, src) of
     (Some d, Some s) \<Rightarrow> Some (d\<lparr>range_min := range_min s, range_max := range_max s\<rparr>)
   | _ \<Rightarrow> dest)"

subsection \<open>Kinds of addresses\<close>

text \<open>The first byte in memory of the IPv4 address is the low byte of \<open>sin_addr\<close>.\<close>

definition ioa_addr_is_multicast :: "ioa_addr option \<Rightarrow> bool" where
  "ioa_addr_is_multicast addr = (case addr of None \<Rightarrow> False | Some a \<Rightarrow>
     if sa_family a = AF_INET then byte_of 0 (sin_addr a) > 223
     else if sa_family a = AF_INET6 then sin6_addr a ! 0 = 255
     else False)"

definition ioa_addr_is_loopback :: "ioa_addr option \<Rightarrow> bool" where
  "ioa_addr_is_loopback addr = (case addr of None \<Rightarrow> False | Some a \<Rightarrow>
     if sa_family a = AF_INET then byte_of 0 (sin_addr a) = 127
     else if sa_family a = AF_INET6 then
       (if sin6_addr a ! 15 = 1 then zero_bytes (sin6_addr a) 15 else False)
     else False)"

definition ioa_addr_is_zero :: "ioa_addr option \<Rightarrow> bool" where
  "ioa_addr_is_zero addr = (case addr of None \<Rightarrow> False | Some a \<Rightarrow>
     if sa_family a = AF_INET then byte_of 0 (sin_addr a) = 0
     else if sa_family a = AF_INET6 then zero_bytes (sin6_addr a) 16
     else False)"

subsection \<open>The table of public and private addresses\<close>

text \<open>
  The file-level arrays \<open>public_addrs\<close>, \<open>private_addrs\<close> with their count \<open>mcount\<close> and byte size
  \<open>msz\<close>; a pointer takes eight bytes.
\<close>

record addr_map =
  public_addrs :: "ioa_addr list"
  private_addrs :: "ioa_addr list"
  mcount :: nat
  msz :: nat

definition empty_map :: addr_map where
  "empty_map = \<lparr>public_addrs = [], private_addrs = [], mcount = 0, msz = 0\<rparr>"

definition ioa_addr_add_mapping :: "addr_map \<Rightarrow> ioa_addr \<Rightarrow> ioa_addr \<Rightarrow> addr_map" where
  "ioa_addr_add_mapping st apub apriv =
     \<lparr>public_addrs = take (mcount st) (public_addrs st) @ [apub],
      private_addrs = take (mcount st) (private_addrs st) @ [apriv],
      mcount = mcount st + 1, msz = msz st + 8\<rparr>"

text \<open>The search loop: the first entry of \<open>from\<close> that agrees up to the port selects the entry of
  \<open>to\<close> with the same index; the port of the address being mapped is kept.\<close>

fun map_addr_loop :: "ioa_addr list \<Rightarrow> ioa_addr list \<Rightarrow> ioa_addr \<Rightarrow> ioa_addr" where
  "map_addr_loop (f # fs) (t # ts) a =
     (if addr_eq_no_port (Some a) (Some f)
      then the (addr_set_port (Some t) (addr_get_port (Some a)))
      else map_addr_loop fs ts a)"
| "map_addr_loop _ _ a = a"

definition map_addr_from_public_to_private :: "addr_map \<Rightarrow> ioa_addr \<Rightarrow> ioa_addr" where
  "map_addr_from_public_to_private st a =
     map_addr_loop (take (mcount st) (public_addrs st)) (take (mcount st) (private_addrs st)) a"

definition map_addr_from_private_to_public :: "addr_map \<Rightarrow> ioa_addr \<Rightarrow> ioa_addr" where
  "map_addr_from_private_to_public st a =
     map_addr_loop (take (mcount st) (private_addrs st)) (take (mcount st) (public_addrs st)) a"

subsection \<open>Equality, hashing and ports\<close>

definition inet_addr :: "ioa_addr \<Rightarrow> bool" where
  "inet_addr a \<longleftrightarrow> sa_family a = AF_INET \<or> sa_family a = AF_INET6"

lemma wf_zero_addr [simp]: "wf_addr zero_addr"
  by (simp add: wf_addr_def zero_addr_def)

lemma zero_bytes_iff: "n \<le> length u \<Longrightarrow> zero_bytes u n \<longleftrightarrow> take n u = replicate n 0"
  by (auto simp: zero_bytes_def list_all_iff list_eq_iff_nth_eq)

lemma addr_eq_no_port_sym: "addr_eq_no_port a b = addr_eq_no_port b a"
  by (auto simp: addr_eq_no_port_def split: option.splits)

lemma addr_eq_no_port_trans:
  "addr_eq_no_port a b \<Longrightarrow> addr_eq_no_port b c \<Longrightarrow> addr_eq_no_port a c"
  by (auto simp: addr_eq_no_port_def split: option.splits if_splits)

lemma addr_eq_no_port_refl: "inet_addr a \<Longrightarrow> addr_eq_no_port (Some a) (Some a)"
  by (auto simp: addr_eq_no_port_def inet_addr_def)

lemma addr_eq_iff:
  "addr_eq (Some a) (Some b) \<longleftrightarrow> addr_eq_no_port (Some a) (Some b) \<and> sin_port a = sin_port b"
  by (auto simp: addr_eq_def addr_eq_no_port_def)

lemma addr_get_port_set_port:
  "inet_addr a \<Longrightarrow> addr_get_port (addr_set_port (Some a) p) = p mod 65536"
  by (auto simp: inet_addr_def addr_get_port_def addr_set_port_def uint_word_of_int)

lemma addr_set_port_get_port:
  assumes "inet_addr a" and "inet_addr b"
  shows "addr_set_port (Some b) (addr_get_port (Some a)) = Some (b\<lparr>sin_port := sin_port a\<rparr>)"
  using assms by (auto simp: inet_addr_def addr_get_port_def addr_set_port_def)

lemma addr_eq_no_port_upd_port [simp]:
  "addr_eq_no_port (Some (a\<lparr>sin_port := p\<rparr>)) b = addr_eq_no_port (Some a) b"
  "addr_eq_no_port b (Some (a\<lparr>sin_port := p\<rparr>)) = addr_eq_no_port b (Some a)"
  by (auto simp: addr_eq_no_port_def split: option.splits)

lemma addr_eq_no_port_inet: "addr_eq_no_port (Some a) (Some b) \<Longrightarrow> inet_addr a \<and> inet_addr b"
  by (auto simp: addr_eq_no_port_def inet_addr_def split: if_splits)

text \<open>\<open>addr_eq\<close> is an equivalence relation on the IPv4 and IPv6 addresses, and addresses it
  identifies have the same hash: what a hash table keyed by addresses needs.\<close>

lemma addr_eq_hash_compatible:
  assumes "addr_eq (Some a) (Some b)"
  shows "addr_eq (Some a) (Some a) \<and> addr_eq (Some b) (Some a)
    \<and> (addr_eq (Some b) (Some c) \<longrightarrow> addr_eq (Some a) (Some c))
    \<and> addr_hash (Some a) = addr_hash (Some b)
    \<and> addr_hash_no_port (Some a) = addr_hash_no_port (Some b)"
proof -
  have ab: "addr_eq_no_port (Some a) (Some b)" and port: "sin_port a = sin_port b"
    using assms by (simp_all add: addr_eq_iff)
  have "addr_hash (Some a) = addr_hash (Some b)"
    and "addr_hash_no_port (Some a) = addr_hash_no_port (Some b)"
    using ab port
    by (auto simp: addr_hash_def addr_hash_no_port_def addr_eq_no_port_def split: if_splits)
  with ab port show ?thesis
    by (auto simp: addr_eq_iff addr_eq_no_port_refl addr_eq_no_port_sym
        dest: addr_eq_no_port_inet intro: addr_eq_no_port_trans)
qed

definition sample4 :: "u32 \<Rightarrow> u16 \<Rightarrow> ioa_addr" where
  "sample4 ip port = zero_addr\<lparr>sa_family := AF_INET, sin_addr := ip, sin_port := port\<rparr>"

definition sample6 :: "mem \<Rightarrow> u16 \<Rightarrow> ioa_addr" where
  "sample6 ip port = zero_addr\<lparr>sa_family := AF_INET6, sin6_addr := ip, sin_port := port\<rparr>"

subsection \<open>Ordering and ranges\<close>

text \<open>For IPv4 a range with two proper bounds accepts exactly the IPv4 addresses whose value in
  host byte order lies between the bounds.\<close>

lemma ipv4_range_exact:
  assumes "sa_family (range_min r) = AF_INET" and "sa_family (range_max r) = AF_INET"
    and "sa_family a = AF_INET"
    and "\<not> addr_any (Some (range_min r))" and "\<not> addr_any (Some (range_max r))"
  shows "ioa_addr_in_range (Some r) (Some a) \<longleftrightarrow>
    nswap32 (sin_addr (range_min r)) \<le> nswap32 (sin_addr a)
    \<and> nswap32 (sin_addr a) \<le> nswap32 (sin_addr (range_max r))"
  using assms by (simp add: ioa_addr_in_range_def addr_less_eq_def)

text \<open>The IPv6 comparison asks every byte to be at most its counterpart instead of comparing the
  addresses lexicographically, so it is not a total order: there are IPv6 addresses neither of which
  is below the other, and the range from 1::0 to 2::0 rejects 1::1, which lies inside it.\<close>

lemma ipv6_less_eq_not_total:
  "\<exists>lo a hi. wf_addr lo \<and> wf_addr a \<and> wf_addr hi
     \<and> sa_family lo = AF_INET6 \<and> sa_family a = AF_INET6 \<and> sa_family hi = AF_INET6
     \<and> \<not> addr_less_eq (Some a) (Some hi) \<and> \<not> addr_less_eq (Some hi) (Some a)
     \<and> sin6_addr lo = [0, 1] @ replicate 14 0
     \<and> sin6_addr a = [0, 1] @ replicate 13 0 @ [1]
     \<and> sin6_addr hi = [0, 2] @ replicate 14 0
     \<and> \<not> ioa_addr_in_range (Some \<lparr>range_min = lo, range_max = hi\<rparr>) (Some a)"
  by (rule exI [of _ "sample6 ([0, 1] @ replicate 14 0) 0"],
      rule exI [of _ "sample6 ([0, 1] @ replicate 13 0 @ [1]) 0"],
      rule exI [of _ "sample6 ([0, 2] @ replicate 14 0) 0"]) code_simp

subsection \<open>Address translation\<close>

text \<open>
  The contract the message layer relies on: translating an address to its public form and back gives
  the same address and port.
\<close>

locale addr_translation =
  fixes to_public :: "ioa_addr \<Rightarrow> ioa_addr"
    and to_private :: "ioa_addr \<Rightarrow> ioa_addr"
    and ok :: "ioa_addr \<Rightarrow> bool"
  assumes there_and_back: "ok a \<Longrightarrow> addr_eq (Some (to_private (to_public a))) (Some a)"
    and keeps_port: "ok a \<Longrightarrow> sin_port (to_public a) = sin_port a"
    and keeps_wf: "ok a \<Longrightarrow> wf_addr (to_public a) \<and> inet_addr (to_public a)"
begin

lemma to_public_injective:
  assumes "ok a" and "ok b" and "to_public a = to_public b"
  shows "addr_eq (Some a) (Some b)"
proof -
  have "addr_eq (Some (to_private (to_public a))) (Some a)"
    and "addr_eq (Some (to_private (to_public a))) (Some b)"
    using there_and_back [OF assms(1)] there_and_back [OF assms(2)] assms(3) by simp_all
  then show ?thesis
    by (auto simp: addr_eq_iff addr_eq_no_port_sym intro: addr_eq_no_port_trans)
qed

end

definition map_inv :: "addr_map \<Rightarrow> bool" where
  "map_inv st \<longleftrightarrow> mcount st = length (public_addrs st) \<and> mcount st = length (private_addrs st)
     \<and> msz st = 8 * mcount st
     \<and> (\<forall>a \<in> set (public_addrs st) \<union> set (private_addrs st). wf_addr a \<and> inet_addr a)"

fun distinct_no_port :: "ioa_addr list \<Rightarrow> bool" where
  "distinct_no_port [] = True"
| "distinct_no_port (a # as) =
     (list_all (\<lambda>b. \<not> addr_eq_no_port (Some a) (Some b)) as \<and> distinct_no_port as)"

text \<open>Addresses the table translates back and forth: a private entry, or no entry at all.\<close>

definition translatable :: "addr_map \<Rightarrow> ioa_addr \<Rightarrow> bool" where
  "translatable st a \<longleftrightarrow> map_inv st \<and> distinct_no_port (public_addrs st)
     \<and> distinct_no_port (private_addrs st) \<and> wf_addr a \<and> inet_addr a
     \<and> (list_ex (\<lambda>b. addr_eq_no_port (Some a) (Some b)) (private_addrs st)
        \<or> list_all (\<lambda>b. \<not> addr_eq_no_port (Some a) (Some b)) (public_addrs st))"

lemma map_inv_empty: "map_inv empty_map"
  by (simp add: map_inv_def empty_map_def)

lemma map_inv_add:
  "map_inv st \<Longrightarrow> wf_addr p \<and> inet_addr p \<Longrightarrow> wf_addr q \<and> inet_addr q \<Longrightarrow>
   map_inv (ioa_addr_add_mapping st p q)"
  by (auto simp: map_inv_def ioa_addr_add_mapping_def)

lemma map_addr_loop_none:
  "list_all (\<lambda>b. \<not> addr_eq_no_port (Some a) (Some b)) fs \<Longrightarrow> map_addr_loop fs ts a = a"
  by (induction fs ts a rule: map_addr_loop.induct) auto

lemma map_addr_loop_some:
  assumes "length fs = length ts" and "\<forall>t \<in> set ts. inet_addr t"
    and "list_ex (\<lambda>b. addr_eq_no_port (Some a) (Some b)) fs"
  shows "\<exists>i < length fs. addr_eq_no_port (Some a) (Some (fs ! i))
    \<and> map_addr_loop fs ts a = (ts ! i)\<lparr>sin_port := sin_port a\<rparr>"
  using assms
proof (induction fs ts a rule: map_addr_loop.induct)
  case (1 f fs t ts a)
  show ?case
  proof (cases "addr_eq_no_port (Some a) (Some f)")
    case True
    then have "inet_addr a" by (blast dest: addr_eq_no_port_inet)
    with True "1.prems"(2) show ?thesis
      by (intro exI [of _ 0]) (simp add: addr_set_port_get_port)
  next
    case False
    with 1 show ?thesis by auto
  qed
qed auto

lemma distinct_no_port_nth:
  "distinct_no_port xs \<Longrightarrow> i < length xs \<Longrightarrow> j < length xs \<Longrightarrow> i < j \<Longrightarrow>
   \<not> addr_eq_no_port (Some (xs ! i)) (Some (xs ! j))"
proof (induction xs arbitrary: i j)
  case (Cons x xs)
  then show ?case
    by (cases i; cases j) (auto simp: list_all_iff)
qed simp

lemma distinct_no_port_unique:
  assumes "distinct_no_port xs" and "i < length xs" and "j < length xs"
    and "addr_eq_no_port (Some (xs ! i)) (Some (xs ! j))"
  shows "i = j"
  using distinct_no_port_nth [OF assms(1)] assms(2-4) addr_eq_no_port_sym
  by (metis linorder_neqE_nat)

lemma map_roundtrip_entry:
  assumes len: "length fs = length ts"
    and inet: "\<forall>t \<in> set ts. inet_addr t" "\<forall>f \<in> set fs. inet_addr f"
    and dist: "distinct_no_port ts"
    and hit: "list_ex (\<lambda>b. addr_eq_no_port (Some a) (Some b)) fs"
  shows "addr_eq (Some (map_addr_loop ts fs (map_addr_loop fs ts a))) (Some a)"
proof -
  obtain i where i: "i < length fs" "addr_eq_no_port (Some a) (Some (fs ! i))"
    and there: "map_addr_loop fs ts a = (ts ! i)\<lparr>sin_port := sin_port a\<rparr>"
    using map_addr_loop_some [OF len inet(1) hit] by blast
  let ?b = "(ts ! i)\<lparr>sin_port := sin_port a\<rparr>"
  have "addr_eq_no_port (Some ?b) (Some (ts ! i))"
    using i(1) inet(1) len by (simp add: addr_eq_no_port_refl)
  then have hit': "list_ex (\<lambda>b. addr_eq_no_port (Some ?b) (Some b)) ts"
    using i(1) len by (force simp: list_ex_iff)
  obtain j where j: "j < length ts" "addr_eq_no_port (Some ?b) (Some (ts ! j))"
    and home: "map_addr_loop ts fs ?b = (fs ! j)\<lparr>sin_port := sin_port a\<rparr>"
    using map_addr_loop_some [OF len [symmetric] inet(2) hit'] by auto
  have "i = j"
    using distinct_no_port_unique [OF dist, of i j] i(1) j len by simp
  with i(2) there home show ?thesis
    by (simp add: addr_eq_iff addr_eq_no_port_sym)
qed

lemma translatable_unfold:
  assumes "translatable st a"
  shows "length (private_addrs st) = length (public_addrs st)"
    and "\<forall>t \<in> set (public_addrs st). inet_addr t \<and> wf_addr t"
    and "\<forall>t \<in> set (private_addrs st). inet_addr t \<and> wf_addr t"
    and "distinct_no_port (public_addrs st)" and "inet_addr a" and "wf_addr a"
    and "map_addr_from_private_to_public st = map_addr_loop (private_addrs st) (public_addrs st)"
    and "map_addr_from_public_to_private st = map_addr_loop (public_addrs st) (private_addrs st)"
  using assms
  by (auto simp: translatable_def map_inv_def fun_eq_iff map_addr_from_private_to_public_def
      map_addr_from_public_to_private_def)

interpretation addr_table: addr_translation
  "map_addr_from_private_to_public st" "map_addr_from_public_to_private st" "translatable st"
proof
  fix a assume ok: "translatable st a"
  note u = translatable_unfold [OF ok]
  show "addr_eq (Some (map_addr_from_public_to_private st (map_addr_from_private_to_public st a)))
          (Some a)"
  proof (cases "list_ex (\<lambda>b. addr_eq_no_port (Some a) (Some b)) (private_addrs st)")
    case True
    then show ?thesis
      using map_roundtrip_entry [of "private_addrs st" "public_addrs st" a] u by auto
  next
    case False
    then have "list_all (\<lambda>b. \<not> addr_eq_no_port (Some a) (Some b)) (private_addrs st)"
      and "list_all (\<lambda>b. \<not> addr_eq_no_port (Some a) (Some b)) (public_addrs st)"
      using ok by (auto simp: translatable_def list_ex_iff list_all_iff)
    then show ?thesis
      using u(5) by (simp add: u(7,8) map_addr_loop_none addr_eq_iff addr_eq_no_port_refl)
  qed
next
  fix a assume ok: "translatable st a"
  note u = translatable_unfold [OF ok]
  show "sin_port (map_addr_from_private_to_public st a) = sin_port a"
    using map_addr_loop_some [of "private_addrs st" "public_addrs st" a]
      map_addr_loop_none [of a "private_addrs st" "public_addrs st"] u
    by (fastforce simp: list_ex_iff list_all_iff)
next
  fix a assume ok: "translatable st a"
  note u = translatable_unfold [OF ok]
  show "wf_addr (map_addr_from_private_to_public st a)
    \<and> inet_addr (map_addr_from_private_to_public st a)"
    using map_addr_loop_some [of "private_addrs st" "public_addrs st" a]
      map_addr_loop_none [of a "private_addrs st" "public_addrs st"] u
    by (fastforce simp: list_ex_iff list_all_iff wf_addr_def inet_addr_def)
qed

text \<open>The address table translates back what it translated: with distinct entries, an address
  that is a private entry, or no entry at all, comes back as the same address and port.\<close>

lemma addr_map_roundtrip:
  assumes "translatable st a"
  shows "addr_eq (Some (map_addr_from_public_to_private st (map_addr_from_private_to_public st a)))
           (Some a)"
  using assms by (rule addr_table.there_and_back)

end
