(* ===== verification/C_Strings.thy ===== *)
theory C_Strings
  imports Prelude
begin

text \<open>
  C strings beyond the prelude: skipping blanks, decimal numbers in and out, and single stores into an array
  given in pieces.  Reading behind the array is \<open>None\<close> throughout.
\<close>

lemma rd8_at: "length a = i \<Longrightarrow> rd8 (a @ c # rest) i = Some c"
  by (auto simp: rd8_def)

lemma wr8_at: "length a = i \<Longrightarrow> wr8 (a @ c # rest) i d = Some (a @ d # rest)"
  by (simp add: wr8_def wrn_def)

text \<open>The loop \<open>while(*s && (*s==' ')) ++s\<close> from offset \<open>i\<close>.\<close>

function skip_blanks :: "mem \<Rightarrow> nat \<Rightarrow> nat option" where
  "skip_blanks m i = do {
     c \<leftarrow> rd8 m i;
     if c \<noteq> 0 \<and> c = 32 then skip_blanks m (i + 1) else Some i }"
  by pat_completeness auto
termination
  by (relation "measure (\<lambda>(m, i). length m - i)") (auto simp: rd8_def split: if_splits)

declare skip_blanks.simps [simp del]

lemma skip_blanks_eq:
  "0 \<notin> set u \<Longrightarrow> skip_blanks (a @ u @ 0 # x) (length a) = Some (length a + length (takeWhile (\<lambda>c. c = 32) u))"
proof (induction u arbitrary: a)
  case Nil
  then show ?case
    by (simp add: skip_blanks.simps rd8_at)
next
  case (Cons c u)
  then show ?case
    using Cons.IH [of "a @ [c]"] by (auto simp: skip_blanks.simps [of _ "length a"] rd8_at)
qed

text \<open>The characters \<open>isspace\<close> accepts, and a run of decimal digits.\<close>

fun skip_space :: "mem \<Rightarrow> mem option" where
  "skip_space [] = None"
| "skip_space (c # cs) = (if c = 32 \<or> 9 \<le> c \<and> c \<le> 13 then skip_space cs else Some (c # cs))"

fun scan_digits :: "nat \<Rightarrow> mem \<Rightarrow> nat option" where
  "scan_digits acc [] = None"
| "scan_digits acc (c # cs) =
     (if 48 \<le> c \<and> c \<le> 57 then scan_digits (10 * acc + unat (c - 48)) cs else Some acc)"

text \<open>\<open>atoi\<close>: a value outside \<open>int\<close> is undefined.\<close>

definition c_atoi :: "mem \<Rightarrow> int option" where
  "c_atoi s = do {
     s1 \<leftarrow> skip_space s;
     let neg = (s1 \<noteq> [] \<and> hd s1 = 45);
     let s2 = (if s1 \<noteq> [] \<and> (hd s1 = 45 \<or> hd s1 = 43) then tl s1 else s1);
     v \<leftarrow> scan_digits 0 s2;
     c_int (if neg then - int v else int v) }"

text \<open>\<open>%d\<close> of a number that is not negative.\<close>

fun dec_string :: "nat \<Rightarrow> mem" where
  "dec_string n = (if n < 10 then [48 + of_nat n] else dec_string (n div 10) @ [48 + of_nat (n mod 10)])"

declare dec_string.simps [simp del]

lemma digit_bounds:
  assumes "d < 10"
  shows "48 \<le> (48 + of_nat d :: u8)" and "(48 + of_nat d :: u8) \<le> 57" and "unat (48 + of_nat d - 48 :: u8) = d"
  using assms by (simp_all add: word_le_nat_alt unat_plus_if' unat_of_nat)

lemma dec_string_digits: "\<forall>c\<in>set (dec_string n). 48 \<le> c \<and> c \<le> 57"
proof (induction n rule: dec_string.induct)
  case (1 n)
  then show ?case
    using digit_bounds [of n] digit_bounds [of "n mod 10"] by (subst dec_string.simps) auto
qed

lemma dec_string_Nil: "dec_string n \<noteq> []"
  by (subst dec_string.simps) simp

lemma scan_digits_append:
  "\<forall>c\<in>set s. 48 \<le> c \<and> c \<le> 57 \<Longrightarrow> scan_digits acc (s @ t) = scan_digits (fold (\<lambda>c a. 10 * a + unat (c - 48)) s acc) t"
  by (induction s arbitrary: acc) simp_all

lemma dec_string_value: "fold (\<lambda>c a. 10 * a + unat (c - 48)) (dec_string n) 0 = n"
proof (induction n rule: dec_string.induct)
  case (1 n)
  then show ?case
    using digit_bounds(3) [of n] digit_bounds(3) [of "n mod 10"] by (subst dec_string.simps) simp
qed

lemma atoi_dec_string:
  assumes "int n < 2 ^ 31"
  shows "c_atoi (dec_string n @ 0 # x) = Some (int n)"
proof -
  obtain c t where ct: "dec_string n = c # t"
    using dec_string_Nil [of n] by (cases "dec_string n") auto
  have c: "48 \<le> c" "c \<le> 57"
    using dec_string_digits [of n] by (simp_all add: ct)
  then have "skip_space (dec_string n @ 0 # x) = Some (dec_string n @ 0 # x)" "c \<noteq> 45" "c \<noteq> 43"
    by (auto simp: ct word_le_nat_alt word_unat_eq_iff)
  moreover have "scan_digits 0 (dec_string n @ 0 # x) = Some n"
    using scan_digits_append [OF dec_string_digits [of n], of 0 "0 # x"] by (simp add: dec_string_value)
  ultimately show ?thesis
    using assms by (simp add: c_atoi_def ct)
qed

text \<open>The first occurrence of a character that is not NUL, before the NUL: \<open>strstr\<close> with a needle of one character.\<close>

fun c_strchr :: "mem \<Rightarrow> u8 \<Rightarrow> nat \<Rightarrow> nat option option" where
  "c_strchr [] ch i = None"
| "c_strchr (c # cs) ch i = (if c = ch then Some (Some i) else if c = 0 then Some None else c_strchr cs ch (i + 1))"

lemma c_strchr_found: "0 \<notin> set s \<Longrightarrow> ch \<notin> set s \<Longrightarrow> c_strchr (s @ ch # t) ch i = Some (Some (i + length s))"
  by (induction s arbitrary: i) auto

lemma c_strchr_absent: "0 \<notin> set s \<Longrightarrow> ch \<notin> set s \<Longrightarrow> ch \<noteq> 0 \<Longrightarrow> c_strchr (s @ 0 # t) ch i = Some None"
  by (induction s arbitrary: i) auto

subsection \<open>Hexadecimal digits\<close>

definition hex_digit :: "u8 \<Rightarrow> u8" where
  "hex_digit n = (if n < 10 then 48 + n else 87 + n)"

definition hex_val :: "u8 \<Rightarrow> nat option" where
  "hex_val c = (if 48 \<le> c \<and> c \<le> 57 then Some (unat (c - 48))
     else if 97 \<le> c \<and> c \<le> 102 then Some (unat (c - 87))
     else if 65 \<le> c \<and> c \<le> 70 then Some (unat (c - 55)) else None)"

lemma unat_hex_digit: "n < 16 \<Longrightarrow> unat (hex_digit n) = (if unat n < 10 then 48 + unat n else 87 + unat n)"
  by (simp add: hex_digit_def word_less_nat_alt unat_plus_if')

lemma hex_val_digit: "n < 16 \<Longrightarrow> hex_val (hex_digit n) = Some (unat n)"
  by (simp add: hex_val_def word_le_nat_alt unat_hex_digit unat_sub word_less_nat_alt)

lemma hex_digit_plain:
  assumes "n < 16"
  shows "hex_digit n \<notin> {0, 32, 43, 45}" and "\<not> (9 \<le> hex_digit n \<and> hex_digit n \<le> 13)"
  using assms by (auto simp: word_unat_eq_iff word_le_nat_alt unat_hex_digit)

lemma hi_lo: "(c :: u8) div 16 < 16" "c mod 16 < 16" "16 * unat (c div 16) + unat (c mod 16) = unat c"
proof -
  have "unat c < 256"
    using unat_u8_less [of c] by simp
  then show "c div 16 < 16" "c mod 16 < 16" "16 * unat (c div 16) + unat (c mod 16) = unat c"
    by (simp_all add: word_less_nat_alt unat_div unat_mod)
qed

definition hexs :: "mem \<Rightarrow> mem" where
  "hexs m = concat (map (\<lambda>c. [hex_digit (c div 16), hex_digit (c mod 16)]) m)"

lemma hexs_simps [simp]:
  "hexs [] = []" "hexs (c # m) = hex_digit (c div 16) # hex_digit (c mod 16) # hexs m"
  by (simp_all add: hexs_def)

lemma length_hexs [simp]: "length (hexs m) = 2 * length m"
  by (induction m) simp_all

lemma hexs_no_nul: "0 \<notin> set (hexs m)"
  using hex_digit_plain(1) hi_lo(1,2) by (induction m) auto

end
