(* ===== verification/Io_Addr_Text.thy ===== *)
theory Io_Addr_Text
  imports Io_Addr C_Strings
begin

text \<open>
  Socket addresses as text: the remaining functions of \<open>client/ns_turn_ioaddr.c\<close>.

  \<open>inet_pton\<close>, \<open>inet_ntop\<close> and \<open>getaddrinfo\<close> belong to the operating system: the record \<open>resolver\<close>
  has a field for each of them.  A parser gets the characters of the string and answers \<open>None\<close> for a result other
  than 1; \<open>getaddrinfo\<close> answers \<open>None\<close> for an error or an empty result.  What the code relies on is \<open>inet_ok\<close>.
\<close>

record addrinfo =
  ai_family :: u16
  ai_addr :: ioa_addr

record resolver =
  pton4 :: "mem \<Rightarrow> u32 option"
  pton6 :: "mem \<Rightarrow> mem option"
  ntop4 :: "u32 \<Rightarrow> mem"
  ntop6 :: "mem \<Rightarrow> mem"
  getaddrinfo :: "mem \<Rightarrow> addrinfo list option"

subsection \<open>From text\<close>

text \<open>The loop that cuts blanks off the end of the string of length \<open>len\<close> at offset \<open>p\<close>.\<close>

fun trim_loop :: "mem \<Rightarrow> nat \<Rightarrow> nat \<Rightarrow> (mem \<times> nat) option" where
  "trim_loop m p 0 = Some (m, 0)"
| "trim_loop m p (Suc n) = do {
     c \<leftarrow> rd8 m (p + n);
     if c = 32 then do { m' \<leftarrow> wr8 m (p + n) 0; trim_loop m' p n } else Some (m, Suc n) }"

text \<open>The loop over the results of \<open>getaddrinfo\<close>, run for IPv4 first and for IPv6 if nothing was found.\<close>

fun ai_loop :: "addrinfo list \<Rightarrow> u16 \<Rightarrow> int \<Rightarrow> ioa_addr option" where
  "ai_loop [] family port = None"
| "ai_loop (ai # ais) family port =
     (if ai_family ai = family \<and> (ai_family ai = AF_INET \<or> ai_family ai = AF_INET6)
      then Some ((ai_addr ai)\<lparr>sin_port := nswap16 (word_of_int port)\<rparr>)
      else ai_loop ais family port)"

definition make_ioa_addr :: "resolver \<Rightarrow> mem option \<Rightarrow> int \<Rightarrow> ioa_addr option \<Rightarrow> (int \<times> ioa_addr option) option" where
  "make_ioa_addr R saddr0 port addr = (case (saddr0, addr) of
     (Some sa, Some _) \<Rightarrow> do {
       ssaddr \<leftarrow> c_strncpy 257 sa;
       ssaddr \<leftarrow> wr8 ssaddr 256 0;
       p \<leftarrow> skip_blanks ssaddr 0;
       n \<leftarrow> c_strlen (drop p ssaddr);
       (ssaddr, len) \<leftarrow> trim_loop ssaddr p n;
       s \<leftarrow> c_str (drop p ssaddr);
       let np = nswap16 (word_of_int port);
       if len = 0 then Some (0, Some (zero_addr\<lparr>sa_family := AF_INET, sin_port := np\<rparr>))
       else (case pton4 R s of
         Some a \<Rightarrow> Some (0, Some (zero_addr\<lparr>sa_family := AF_INET, sin_port := np, sin_addr := a\<rparr>))
       | None \<Rightarrow> (case pton6 R s of
           Some a \<Rightarrow> Some (0, Some (zero_addr\<lparr>sa_family := AF_INET6, sin_port := np, sin6_addr := a\<rparr>))
         | None \<Rightarrow> (case getaddrinfo R s of
             None \<Rightarrow> Some (-1, Some zero_addr)
           | Some ais \<Rightarrow> (case ai_loop ais AF_INET port of
               Some a \<Rightarrow> Some (0, Some a)
             | None \<Rightarrow> (case ai_loop ais AF_INET6 port of
                 Some a \<Rightarrow> Some (0, Some a)
               | None \<Rightarrow> Some (0, Some zero_addr)))))) }
   | _ \<Rightarrow> Some (-1, addr))"

text \<open>
  The string without port: its offset in the array, or \<open>None\<close> for NULL, with the array, in which a NUL
  ends it, and the port.
\<close>

definition get_addr_string_and_port :: "mem \<Rightarrow> int \<Rightarrow> (nat option \<times> mem \<times> int) option" where
  "get_addr_string_and_port m port = do {
     s \<leftarrow> skip_blanks m 0;
     c \<leftarrow> rd8 m s;
     if c = 91 then do {
       let s = s + 1;
       t \<leftarrow> c_strchr (drop s m) 93 s;
       case t of None \<Rightarrow> Some (None, m, port)
       | Some tail \<Rightarrow> do {
           m \<leftarrow> wr8 m tail 0;
           tail \<leftarrow> skip_blanks m (tail + 1);
           d \<leftarrow> rd8 m tail;
           if d = 58 then do { v \<leftarrow> c_atoi (drop (tail + 1) m); Some (Some s, m, v) }
           else if d = 0 then Some (Some s, m, 0)
           else Some (None, m, port) } }
     else do {
       t \<leftarrow> c_strchr (drop s m) 58 s;
       case t of None \<Rightarrow> Some (Some s, m, 0)
       | Some tail \<Rightarrow> do {
           m \<leftarrow> wr8 m tail 0;
           v \<leftarrow> c_atoi (drop (tail + 1) m);
           Some (Some s, m, v) } } }"

definition make_ioa_addr_from_full_string ::
    "resolver \<Rightarrow> mem \<Rightarrow> int \<Rightarrow> ioa_addr option \<Rightarrow> (int \<times> ioa_addr option) option" where
  "make_ioa_addr_from_full_string R saddr default_port addr = (case addr of None \<Rightarrow> Some (-1, None)
   | Some _ \<Rightarrow> do {
       u \<leftarrow> c_str saddr;
       (sa, m, port) \<leftarrow> get_addr_string_and_port (u @ [0]) 0;
       case sa of None \<Rightarrow> Some (-1, addr)
       | Some p \<Rightarrow> make_ioa_addr R (Some (drop p m)) (if port < 1 then default_port else port) addr })"

subsection \<open>To text\<close>

text \<open>\<open>snprintf\<close> of at most 65 characters, NUL included, and the \<open>strncpy\<close> of the string without port.\<close>

definition put65 :: "mem \<Rightarrow> mem \<Rightarrow> mem option" where
  "put65 saddr text = wrn saddr 0 (take 64 text @ [0])"

definition copy65 :: "mem \<Rightarrow> mem \<Rightarrow> mem option" where
  "copy65 saddr addrtmp = do { bs \<leftarrow> c_strncpy 65 (addrtmp @ [0]); wrn saddr 0 bs }"

definition addr_to_string :: "resolver \<Rightarrow> ioa_addr option \<Rightarrow> mem option \<Rightarrow> (int \<times> mem option) option" where
  "addr_to_string R addr saddr = (case (addr, saddr) of
     (Some a, Some s) \<Rightarrow>
       if sa_family a = AF_INET then do {
         let addrtmp = ntop4 R (sin_addr a);
         s \<leftarrow> (if addr_get_port addr > 0 then put65 s (addrtmp @ [58] @ dec_string (nat (addr_get_port addr)))
               else copy65 s addrtmp);
         Some (0, Some s) }
       else if sa_family a = AF_INET6 then do {
         let addrtmp = ntop6 R (sin6_addr a);
         s \<leftarrow> (if addr_get_port addr > 0 then put65 s ([91] @ addrtmp @ [93, 58] @ dec_string (nat (addr_get_port addr)))
               else copy65 s addrtmp);
         Some (0, Some s) }
       else Some (-1, saddr)
   | _ \<Rightarrow> Some (-1, saddr))"

definition addr_to_string_no_port :: "resolver \<Rightarrow> ioa_addr option \<Rightarrow> mem option \<Rightarrow> (int \<times> mem option) option" where
  "addr_to_string_no_port R addr saddr = (case (addr, saddr) of
     (Some a, Some s) \<Rightarrow>
       if sa_family a = AF_INET then do { s \<leftarrow> copy65 s (ntop4 R (sin_addr a)); Some (0, Some s) }
       else if sa_family a = AF_INET6 then do { s \<leftarrow> copy65 s (ntop6 R (sin6_addr a)); Some (0, Some s) }
       else Some (-1, saddr)
   | _ \<Rightarrow> Some (-1, saddr))"

subsection \<open>What the system's converters promise\<close>

text \<open>
  The printed form is parsed back, is not empty, and has only the characters of its notation: digits and full
  stops for IPv4; hexadecimal digits, full stops and colons for IPv6, which the IPv4 parser refuses.
\<close>

definition digit_or :: "u8 set \<Rightarrow> mem \<Rightarrow> bool" where
  "digit_or extra t \<longleftrightarrow> (\<forall>c\<in>set t. 48 \<le> c \<and> c \<le> 57 \<or> c \<in> extra)"

definition inet_ok :: "resolver \<Rightarrow> bool" where
  "inet_ok R \<longleftrightarrow> (\<forall>a. pton4 R (ntop4 R a) = Some a \<and> ntop4 R a \<noteq> [] \<and> length (ntop4 R a) \<le> 15 \<and> digit_or {46} (ntop4 R a))
   \<and> (\<forall>u. length u = 16 \<longrightarrow> pton6 R (ntop6 R u) = Some u \<and> pton4 R (ntop6 R u) = None \<and> ntop6 R u \<noteq> []
        \<and> length (ntop6 R u) \<le> 45 \<and> digit_or {46, 58, 97, 98, 99, 100, 101, 102} (ntop6 R u))"

lemma digit_or_notin: "digit_or extra t \<Longrightarrow> c \<notin> extra \<Longrightarrow> \<not> (48 \<le> c \<and> c \<le> 57) \<Longrightarrow> c \<notin> set t"
  by (auto simp: digit_or_def)

text \<open>A word: neither NUL nor blank in it, not empty, short enough for the local array.\<close>

definition addr_word :: "mem \<Rightarrow> bool" where
  "addr_word t \<longleftrightarrow> 0 \<notin> set t \<and> 32 \<notin> set t \<and> t \<noteq> [] \<and> length t \<le> 256"

lemma skip_blanks_word:
  assumes "t \<noteq> []" and "hd t \<noteq> 32" and "hd t \<noteq> 0"
  shows "skip_blanks (a @ t) (length a) = Some (length a)"
  using assms by (cases t) (simp_all add: skip_blanks.simps rd8_at)

lemma trim_word: "0 \<notin> set t \<Longrightarrow> 32 \<notin> set t \<Longrightarrow> trim_loop (t @ r) 0 (length t) = Some (t @ r, length t)"
proof (cases t rule: rev_cases)
  case (snoc s c)
  assume "32 \<notin> set t"
  then have "rd8 (t @ r) (length s) = Some c" "c \<noteq> 32"
    using rd8_at [of s "length s" c r] by (simp_all add: snoc)
  then show ?thesis
    by (simp add: snoc)
qed simp

lemma strncpy_padded:
  assumes "0 \<notin> set t" and "length t < n"
  shows "c_strncpy n (t @ 0 # x) = Some (t @ 0 # replicate (n - Suc (length t)) 0)"
proof -
  have "n - length t = Suc (n - Suc (length t))"
    using assms(2) by simp
  then show ?thesis
    using c_strncpy_short [OF assms, of x] by (simp only: replicate_Suc)
qed

lemma make_ioa_addr_word:
  assumes "addr_word t"
  shows "pton4 R t = Some v \<Longrightarrow> make_ioa_addr R (Some (t @ 0 # x)) port (Some b) =
      Some (0, Some (zero_addr\<lparr>sa_family := AF_INET, sin_port := nswap16 (word_of_int port), sin_addr := v\<rparr>))"
    and "pton4 R t = None \<Longrightarrow> pton6 R t = Some u \<Longrightarrow> make_ioa_addr R (Some (t @ 0 # x)) port (Some b) =
      Some (0, Some (zero_addr\<lparr>sa_family := AF_INET6, sin_port := nswap16 (word_of_int port), sin6_addr := u\<rparr>))"
proof -
  let ?z = "replicate (256 - length t) (0 :: u8)"
  have t: "0 \<notin> set t" "32 \<notin> set t" "t \<noteq> []" "length t < 257"
    using assms by (simp_all add: addr_word_def)
  have cp: "c_strncpy 257 (t @ 0 # x) = Some (t @ 0 # ?z)"
    using strncpy_padded [OF t(1,4), of x] by simp
  have e: "t @ 0 # ?z = (t @ ?z) @ [0]"
    by (simp add: replicate_append_same)
  have w: "wr8 (t @ 0 # ?z) 256 0 = Some (t @ 0 # ?z)"
    unfolding e using t(4) by (intro wr8_at) simp
  have sk: "skip_blanks (t @ 0 # ?z) 0 = Some 0"
    using skip_blanks_word [of "t @ 0 # ?z" "[]"] t by (cases t) auto
  have sl: "c_strlen (t @ 0 # ?z) = Some (length t)" "c_str (t @ 0 # ?z) = Some t"
    using t(1) by (simp_all add: c_strlen_append)
  note run = make_ioa_addr_def Let_def option.case prod.case cp bind.bind_lunit w sk drop_0 sl trim_word [OF t(1,2)]
  show "make_ioa_addr R (Some (t @ 0 # x)) port (Some b) =
      Some (0, Some (zero_addr\<lparr>sa_family := AF_INET, sin_port := nswap16 (word_of_int port), sin_addr := v\<rparr>))" if "pton4 R t = Some v"
    using t(3) by (simp only: run that list.size) simp
  show "make_ioa_addr R (Some (t @ 0 # x)) port (Some b) =
      Some (0, Some (zero_addr\<lparr>sa_family := AF_INET6, sin_port := nswap16 (word_of_int port), sin6_addr := u\<rparr>))"
    if "pton4 R t = None" "pton6 R t = Some u"
    using t(3) by (simp only: run that list.size) simp
qed

lemma split_port4:
  assumes "0 \<notin> set t" and "32 \<notin> set t" and "58 \<notin> set t" and "t \<noteq> []" and "hd t \<noteq> 91" and "int n < 2 ^ 31"
  shows "get_addr_string_and_port (t @ [58] @ dec_string n @ [0]) port = Some (Some 0, t @ 0 # dec_string n @ [0], int n)"
proof -
  let ?m = "t @ [58] @ dec_string n @ [0]"
  have sk: "skip_blanks ?m 0 = Some 0"
    using skip_blanks_word [of ?m "[]"] assms(1,2,4) by (cases t) auto
  have rd: "rd8 ?m 0 = Some (hd t)"
    using assms(4) by (cases t) (simp_all add: rd8_def)
  have ch: "c_strchr ?m 58 0 = Some (Some (length t))"
    using c_strchr_found [OF assms(1,3), of "dec_string n @ [0]" 0] by simp
  have w: "wr8 ?m (length t) 0 = Some (t @ 0 # dec_string n @ [0])"
    using wr8_at [of t "length t" 58 "dec_string n @ [0]" 0] by simp
  show ?thesis
    unfolding get_addr_string_and_port_def Let_def
    using assms(5) atoi_dec_string [OF assms(6), of "[]"] by (simp only: sk rd bind.bind_lunit drop_0 ch option.case w) simp
qed

lemma split_port6:
  assumes "0 \<notin> set t" and "93 \<notin> set t" and "int n < 2 ^ 31"
  shows "get_addr_string_and_port ([91] @ t @ [93, 58] @ dec_string n @ [0]) port =
    Some (Some 1, [91] @ t @ [0, 58] @ dec_string n @ [0], int n)"
proof -
  let ?m = "[91] @ t @ [93, 58] @ dec_string n @ [0]" and ?m' = "[91] @ t @ [0, 58] @ dec_string n @ [0]"
  have sk: "skip_blanks ?m 0 = Some 0" "rd8 ?m 0 = Some 91"
    using skip_blanks_word [of ?m "[]"] by (simp_all add: rd8_def)
  have ch: "c_strchr (drop (0 + 1) ?m) 93 (0 + 1) = Some (Some (1 + length t))"
    using c_strchr_found [OF assms(1,2), of "58 # dec_string n @ [0]" 1] by simp
  have w: "wr8 ?m (1 + length t) 0 = Some ?m'"
    using wr8_at [of "[91] @ t" "1 + length t" 93 "58 # dec_string n @ [0]" 0] by simp
  have sk2: "skip_blanks ?m' (1 + length t + 1) = Some (1 + length t + 1)"
    using skip_blanks_word [of "58 # dec_string n @ [0]" "[91] @ t @ [0]"] by simp
  have rd2: "rd8 ?m' (1 + length t + 1) = Some 58"
    using rd8_at [of "[91] @ t @ [0]" "1 + length t + 1" 58 "dec_string n @ [0]"] by simp
  have d: "drop (1 + length t + 1 + 1) ?m' = dec_string n @ [0]"
    by simp
  show ?thesis
    unfolding get_addr_string_and_port_def Let_def
    using atoi_dec_string [OF assms(3), of "[]"] by (simp only: sk bind.bind_lunit ch option.case w sk2 rd2 d if_True) simp
qed

lemma dec_string_no_nul: "0 \<notin> set (dec_string n)"
  using dec_string_digits [of n] by (auto simp: word_le_nat_alt)

lemma length_dec_string_pow: "n < 10 ^ Suc k \<Longrightarrow> length (dec_string n) \<le> Suc k"
proof (induction k arbitrary: n)
  case 0
  then show ?case
    by (subst dec_string.simps) simp
next
  case (Suc k)
  then have "n div 10 < 10 ^ Suc k"
    by (simp add: less_mult_imp_div_less mult.commute)
  then show ?case
    using Suc.IH by (subst dec_string.simps) simp
qed

lemma length_dec_string: "n < 65536 \<Longrightarrow> length (dec_string n) \<le> 5"
  using length_dec_string_pow [of n 4] by simp

lemma put65_short:
  assumes "length text \<le> 64" and "65 \<le> length s"
  shows "put65 s text = Some (text @ 0 # drop (length text + 1) s)"
  using assms by (simp add: put65_def wrn_def)

lemma from_full_string:
  assumes "0 \<notin> set text" and "get_addr_string_and_port (text @ [0]) 0 = Some (Some p, m, port)" and "1 \<le> port"
  shows "make_ioa_addr_from_full_string R (text @ 0 # x) dp (Some b) = make_ioa_addr R (Some (drop p m)) port (Some b)"
  using assms by (simp add: make_ioa_addr_from_full_string_def)

text \<open>C23: Round trip of an address with a port through text: what \<open>addr_to_string\<close> writes, IPv4 and IPv6,
  \<open>make_ioa_addr_from_full_string\<close> reads back as an equal address, whatever default port it is given.\<close>

theorem addr_text_roundtrip:
  assumes "inet_ok R" and "wf_addr a" and "sa_family a = AF_INET \<or> sa_family a = AF_INET6" and "sin_port a \<noteq> 0"
    and "65 \<le> length s"
  shows "\<exists>s' c. addr_to_string R (Some a) (Some s) = Some (0, Some s') \<and> length s' = length s
    \<and> make_ioa_addr_from_full_string R s' dp (Some b) = Some (0, Some c) \<and> addr_eq (Some c) (Some a)"
proof -
  define n where "n = unat (nswap16 (sin_port a))"
  have port: "addr_get_port (Some a) = int n" "n < 65536"
    using assms(3) unat_u16_less [of "nswap16 (sin_port a)"] by (auto simp: addr_get_port_def n_def)
  have "nswap16 0 = 0"
    by (simp add: nswap16_def le16_def byte_of_def)
  then have "nswap16 (sin_port a) \<noteq> 0"
    using assms(4) by (metis nswap16_nswap16)
  then have pos: "0 < n"
    by (simp add: n_def unat_gt_0)
  have bk: "nswap16 (word_of_int (int n)) = sin_port a"
    by (simp add: n_def)
  have small: "int n < 2 ^ 31"
    using port(2) by simp
  show ?thesis
  proof (cases "sa_family a = AF_INET")
    case True
    let ?t = "ntop4 R (sin_addr a)"
    have t: "pton4 R ?t = Some (sin_addr a)" "?t \<noteq> []" "length ?t \<le> 15" "digit_or {46} ?t"
      using assms(1) by (simp_all add: inet_ok_def)
    have no: "0 \<notin> set ?t" "32 \<notin> set ?t" "58 \<notin> set ?t" "91 \<notin> set ?t"
      using digit_or_notin [OF t(4)] by simp_all
    let ?text = "?t @ [58] @ dec_string n"
    have len: "length ?text \<le> 64"
      using t(3) length_dec_string [OF port(2)] by simp
    have "addr_to_string R (Some a) (Some s) = Some (0, Some (?text @ 0 # drop (length ?text + 1) s))"
      using True pos put65_short [OF len assms(5)] by (simp add: addr_to_string_def port(1))
    moreover have g: "get_addr_string_and_port (?text @ [0]) 0 = Some (Some 0, ?t @ 0 # dec_string n @ [0], int n)"
      using split_port4 [OF no(1-3) t(2) _ small] no(4) t(2) by (cases ?t) auto
    moreover have "addr_word ?t"
      using no t(2,3) by (simp add: addr_word_def)
    then have "make_ioa_addr_from_full_string R (?text @ 0 # drop (length ?text + 1) s) dp (Some b) =
        Some (0, Some (zero_addr\<lparr>sa_family := AF_INET, sin_port := sin_port a, sin_addr := sin_addr a\<rparr>))"
      using from_full_string [OF _ g, of R _ dp b] make_ioa_addr_word(1) [OF _ t(1)] no(1) dec_string_no_nul pos bk by auto
    ultimately show ?thesis
      using True len assms(5) by (auto simp: addr_eq_def)
  next
    case False
    let ?t = "ntop6 R (sin6_addr a)"
    have t: "pton6 R ?t = Some (sin6_addr a)" "pton4 R ?t = None" "?t \<noteq> []" "length ?t \<le> 45"
      "digit_or {46, 58, 97, 98, 99, 100, 101, 102} ?t"
      using assms(1,2) by (simp_all add: inet_ok_def wf_addr_def)
    have no: "0 \<notin> set ?t" "32 \<notin> set ?t" "93 \<notin> set ?t"
      using digit_or_notin [OF t(5)] by simp_all
    let ?text = "[91] @ ?t @ [93, 58] @ dec_string n"
    have len: "length ?text \<le> 64"
      using t(4) length_dec_string [OF port(2)] by simp
    have "addr_to_string R (Some a) (Some s) = Some (0, Some (?text @ 0 # drop (length ?text + 1) s))"
      using False assms(3) pos put65_short [OF len assms(5)] by (simp add: addr_to_string_def port(1))
    moreover have g: "get_addr_string_and_port (?text @ [0]) 0 = Some (Some 1, [91] @ ?t @ [0, 58] @ dec_string n @ [0], int n)"
      using split_port6 [OF no(1,3) small] by simp
    moreover have "addr_word ?t"
      using no t(3,4) by (simp add: addr_word_def)
    then have "make_ioa_addr_from_full_string R (?text @ 0 # drop (length ?text + 1) s) dp (Some b) =
        Some (0, Some (zero_addr\<lparr>sa_family := AF_INET6, sin_port := sin_port a, sin6_addr := sin6_addr a\<rparr>))"
      using from_full_string [OF _ g, of R _ dp b] make_ioa_addr_word(2) [OF _ t(2,1)] no(1) dec_string_no_nul pos bk by auto
    ultimately show ?thesis
      using False assms(3) len assms(5) by (auto simp: addr_eq_def)
  qed
qed

text \<open>C24: An IPv6 address without a port whose text starts with two colons, such as the loopback address, does not
  survive: \<open>addr_to_string\<close> writes it without brackets, \<open>make_ioa_addr_from_full_string\<close> takes its first colon for the one
  before a port, and the address comes back as the IPv4 wildcard.\<close>

theorem ipv6_text_without_port_misread:
  assumes "inet_ok R" and "wf_addr a" and "sa_family a = AF_INET6" and "sin_port a = 0" and "65 \<le> length s"
    and "ntop6 R (sin6_addr a) = 58 # 58 # t"
  shows "\<exists>s'. addr_to_string R (Some a) (Some s) = Some (0, Some s')
    \<and> make_ioa_addr_from_full_string R s' dp (Some b) =
        Some (0, Some (zero_addr\<lparr>sa_family := AF_INET, sin_port := nswap16 (word_of_int dp)\<rparr>))"
proof -
  let ?t = "58 # 58 # t"
  have t: "0 \<notin> set ?t" "length ?t \<le> 45"
    using assms(1,2) digit_or_notin [of "{46, 58, 97, 98, 99, 100, 101, 102}" ?t 0]
    by (auto simp: inet_ok_def wf_addr_def simp flip: assms(6))
  have cp: "c_strncpy 65 (?t @ [0]) = Some (?t @ 0 # replicate (65 - Suc (length ?t)) 0)"
    using t by (intro strncpy_padded) simp_all
  let ?s = "?t @ 0 # replicate (65 - Suc (length ?t)) 0 @ drop 65 s"
  have "copy65 s ?t = Some ?s"
    unfolding copy65_def cp bind.bind_lunit using t(2) assms(5) by (simp add: wrn_def)
  then have "addr_to_string R (Some a) (Some s) = Some (0, Some ?s)"
    using assms(3,4,6) by (simp add: addr_to_string_def addr_get_port_def nswap16_def le16_def byte_of_def)
  moreover have g: "get_addr_string_and_port (?t @ [0]) 0 = Some (Some 0, 0 # 58 # t @ [0], 0)"
    by (simp add: get_addr_string_and_port_def skip_blanks.simps rd8_def wr8_def wrn_def c_atoi_def)
  moreover have "c_str ?s = Some ?t"
    using t(1) by (rule c_str_append)
  moreover have "make_ioa_addr R (Some (0 # 58 # t @ [0])) dp (Some b) =
      Some (0, Some (zero_addr\<lparr>sa_family := AF_INET, sin_port := nswap16 (word_of_int dp)\<rparr>))"
  proof -
    let ?z = "replicate 256 (0 :: u8)"
    have c: "c_strncpy 257 (0 # 58 # t @ [0]) = Some (0 # ?z)"
      using strncpy_padded [of "[]" 257 "58 # t @ [0]"] by simp
    have w: "wr8 (0 # ?z) 256 0 = Some (0 # ?z)"
      using wr8_at [of "replicate 256 0" 256 0 "[]" 0] by (simp add: replicate_append_same)
    have "skip_blanks (0 # ?z) 0 = Some 0" "c_strlen (0 # ?z) = Some 0" "c_str (0 # ?z) = Some []"
      by (simp_all add: skip_blanks.simps rd8_def c_str_def)
    then show ?thesis
      by (simp only: make_ioa_addr_def option.case prod.case c w bind.bind_lunit drop_0 trim_loop.simps Let_def) simp
  qed
  ultimately show ?thesis
    by (simp only: make_ioa_addr_from_full_string_def option.case bind.bind_lunit prod.case) simp
qed

subsection \<open>A resolver that keeps the promises\<close>

fun unhex :: "mem \<Rightarrow> mem" where
  "unhex (a # b # r) = of_nat (16 * the (hex_val a) + the (hex_val b)) # unhex r"
| "unhex _ = []"

lemma unhex_hexs: "unhex (hexs u) = u"
  by (induction u) (simp_all add: hex_val_digit hi_lo)

definition sample_resolver :: resolver where
  "sample_resolver = \<lparr>
     pton4 = (\<lambda>s. if s \<noteq> [] \<and> list_all (\<lambda>c. 48 \<le> c \<and> c \<le> 57) s then map_option of_nat (scan_digits 0 (s @ [0])) else None),
     pton6 = (\<lambda>s. case s of a # b # r \<Rightarrow> if a = 58 \<and> b = 58 then Some (unhex r) else None | _ \<Rightarrow> None),
     ntop4 = (\<lambda>a. dec_string (unat a)), ntop6 = (\<lambda>u. 58 # 58 # hexs u), getaddrinfo = (\<lambda>_. None)\<rparr>"

lemma hex_digit_or:
  assumes "n < 16"
  shows "48 \<le> hex_digit n \<and> hex_digit n \<le> 57 \<or> hex_digit n \<in> {46, 58, 97, 98, 99, 100, 101, 102}"
proof -
  have "unat n < 16"
    using assms by (simp add: word_less_nat_alt)
  then consider "unat n < 10" | "unat n = 10" | "unat n = 11" | "unat n = 12" | "unat n = 13" | "unat n = 14" | "unat n = 15"
    by linarith
  then show ?thesis
    by cases (simp_all add: word_le_nat_alt word_unat_eq_iff unat_hex_digit [OF assms])
qed

lemma sample_resolver_ok: "inet_ok sample_resolver"
proof -
  have l: "length (dec_string (unat a)) \<le> 15" for a :: u32
  proof -
    have "unat a < 2 ^ 32"
      using unsigned_less [where 'a = nat, of a] by simp
    then show ?thesis
      using length_dec_string_pow [of "unat a" 9] by simp
  qed
  have v: "scan_digits 0 (dec_string n @ [0]) = Some n" for n
    using scan_digits_append [OF dec_string_digits [of n], of 0 "[0]"] by (simp add: dec_string_value)
  have d: "digit_or {46, 58, 97, 98, 99, 100, 101, 102} (hexs u)" for u
    using hex_digit_or hi_lo(1,2) by (induction u) (simp_all add: digit_or_def)
  show ?thesis
    using l d dec_string_digits dec_string_Nil
    by (auto simp: inet_ok_def sample_resolver_def v unhex_hexs digit_or_def list_all_iff)
qed

text \<open>The two addresses of the witnesses: 1.2.3.4 with port 3478 and the IPv6 loopback without a port.\<close>

definition text_addr4 :: ioa_addr where
  "text_addr4 = zero_addr\<lparr>sa_family := AF_INET, sin_port := nswap16 3478, sin_addr := 0x04030201\<rparr>"

definition text_addr6 :: ioa_addr where
  "text_addr6 = zero_addr\<lparr>sa_family := AF_INET6, sin6_addr := replicate 15 0 @ [1]\<rparr>"

theorem addr_text_roundtrip_witness:
  "\<exists>s' c. addr_to_string sample_resolver (Some text_addr4) (Some (replicate 65 0)) = Some (0, Some s')
    \<and> make_ioa_addr_from_full_string sample_resolver s' 80 (Some zero_addr) = Some (0, Some c) \<and> addr_eq (Some c) (Some text_addr4)"
proof -
  have "wf_addr text_addr4" "sa_family text_addr4 = AF_INET" "sin_port text_addr4 \<noteq> 0"
    by (simp_all add: text_addr4_def wf_addr_def zero_addr_def nswap16_def le16_def byte_of_def drop_bit_eq_div)
  then show ?thesis
    using addr_text_roundtrip [OF sample_resolver_ok, of text_addr4 "replicate 65 0" 80 zero_addr] by auto
qed

theorem ipv6_text_without_port_misread_witness:
  "\<exists>s' c. addr_to_string sample_resolver (Some text_addr6) (Some (replicate 65 0)) = Some (0, Some s')
    \<and> make_ioa_addr_from_full_string sample_resolver s' 80 (Some zero_addr) = Some (0, Some c) \<and> sa_family c = AF_INET"
proof -
  have "wf_addr text_addr6" "sa_family text_addr6 = AF_INET6" "sin_port text_addr6 = 0"
    by (simp_all add: text_addr6_def wf_addr_def zero_addr_def)
  moreover have "ntop6 sample_resolver (sin6_addr text_addr6) = 58 # 58 # hexs (sin6_addr text_addr6)"
    by (simp add: sample_resolver_def)
  ultimately show ?thesis
    using ipv6_text_without_port_misread [OF sample_resolver_ok, of text_addr6 "replicate 65 0" _ 80 zero_addr] by fastforce
qed

end
