(* ===== verification/Sockets.thy ===== *)
theory Sockets
  imports Io_Addr_Text
begin

text \<open>
  The socket helpers of \<open>common/apputils.c\<close> over the system calls they make.

  The operating system is a parameter: the record \<open>os\<close> has a field per system call, over an arbitrary type of worlds.
  A call takes the world and returns its C result and the world after it; \<open>errno\<close> is read off the world.  A loop that
  repeats a call while it fails in a transient way may run forever: \<open>retry\<close> is such a loop, and \<open>None\<close> its not
  returning.  The options set on a socket are data, so a world can react to them.  Text that is only printed is left out.
\<close>

subsection \<open>The system\<close>

datatype sockopt = SO_REUSEADDR int | SO_REUSEPORT int | SO_KEEPALIVE int | SO_RCVBUF int | SO_SNDBUF int | SO_RCVTIMEO int
  | SO_BINDTODEVICE mem | IPV6_V6ONLY int | IPV6_UNICAST_HOPS int | IP_TTL int | IPV6_TCLASS int | IP_TOS int
  | IP_MTU_DISCOVER int | IPV6_MTU_DISCOVER int

record 'w os =
  os_errno :: "'w \<Rightarrow> int"
  os_socket :: "u16 \<Rightarrow> int \<Rightarrow> int \<Rightarrow> 'w \<Rightarrow> int \<times> 'w"
  os_setsockopt :: "int \<Rightarrow> sockopt \<Rightarrow> 'w \<Rightarrow> int \<times> 'w"
  os_bind :: "int \<Rightarrow> ioa_addr \<Rightarrow> 'w \<Rightarrow> int \<times> 'w"
  os_connect :: "int \<Rightarrow> ioa_addr \<Rightarrow> 'w \<Rightarrow> int \<times> 'w"
  os_getsockname :: "int \<Rightarrow> u32 \<Rightarrow> ioa_addr \<Rightarrow> 'w \<Rightarrow> int \<times> ioa_addr \<times> 'w"
  os_sendto :: "int \<Rightarrow> mem \<Rightarrow> ioa_addr \<Rightarrow> 'w \<Rightarrow> int \<times> 'w"
  os_recv :: "int \<Rightarrow> nat \<Rightarrow> 'w \<Rightarrow> int \<times> mem \<times> 'w"
  os_close :: "int \<Rightarrow> 'w \<Rightarrow> 'w"
  os_sleep :: "int \<Rightarrow> 'w \<Rightarrow> 'w"

abbreviation (input) EINTR :: int where "EINTR \<equiv> 4"
abbreviation (input) EBADF :: int where "EBADF \<equiv> 9"
abbreviation (input) EAGAIN :: int where "EAGAIN \<equiv> 11"
abbreviation (input) ENOMEM :: int where "ENOMEM \<equiv> 12"
abbreviation (input) EACCES :: int where "EACCES \<equiv> 13"
abbreviation (input) EMSGSIZE :: int where "EMSGSIZE \<equiv> 90"
abbreviation (input) EADDRINUSE :: int where "EADDRINUSE \<equiv> 98"
abbreviation (input) ECONNRESET :: int where "ECONNRESET \<equiv> 104"
abbreviation (input) ENOBUFS :: int where "ENOBUFS \<equiv> 105"
abbreviation (input) ECONNREFUSED :: int where "ECONNREFUSED \<equiv> 111"
abbreviation (input) EHOSTDOWN :: int where "EHOSTDOWN \<equiv> 112"
abbreviation (input) EINPROGRESS :: int where "EINPROGRESS \<equiv> 115"

abbreviation (input) SOCK_DGRAM :: int where "SOCK_DGRAM \<equiv> 2"

text \<open>\<open>do r = call(); while(again(r))\<close>.\<close>

partial_function (option) retry :: "('w \<Rightarrow> 'r \<times> 'w) \<Rightarrow> ('r \<Rightarrow> 'w \<Rightarrow> bool) \<Rightarrow> 'w \<Rightarrow> ('r \<times> 'w) option" where
  "retry call again w = (case call w of (r, w') \<Rightarrow> if again r w' then retry call again w' else Some (r, w'))"

subsection \<open>Kinds of sockets\<close>

datatype SOCKET_TYPE = UNKNOWN_SOCKET | TCP_SOCKET | UDP_SOCKET | TLS_SOCKET | SCTP_SOCKET | TLS_SCTP_SOCKET
  | DTLS_SOCKET | TCP_SOCKET_PROXY | TENTATIVE_SCTP_SOCKET | TENTATIVE_TCP_SOCKET

definition is_stream_socket :: "SOCKET_TYPE \<Rightarrow> bool" where
  "is_stream_socket st = (case st of TCP_SOCKET \<Rightarrow> True | TCP_SOCKET_PROXY \<Rightarrow> True | TLS_SOCKET \<Rightarrow> True
     | TENTATIVE_TCP_SOCKET \<Rightarrow> True | SCTP_SOCKET \<Rightarrow> True | TLS_SCTP_SOCKET \<Rightarrow> True | TENTATIVE_SCTP_SOCKET \<Rightarrow> True
     | _ \<Rightarrow> False)"

definition is_tcp_socket :: "SOCKET_TYPE \<Rightarrow> bool" where
  "is_tcp_socket st = (case st of TCP_SOCKET \<Rightarrow> True | TLS_SOCKET \<Rightarrow> True | TENTATIVE_TCP_SOCKET \<Rightarrow> True | _ \<Rightarrow> False)"

definition is_sctp_socket :: "SOCKET_TYPE \<Rightarrow> bool" where
  "is_sctp_socket st = (case st of SCTP_SOCKET \<Rightarrow> True | TLS_SCTP_SOCKET \<Rightarrow> True | TENTATIVE_SCTP_SOCKET \<Rightarrow> True | _ \<Rightarrow> False)"

definition socket_type_name :: "SOCKET_TYPE \<Rightarrow> string" where
  "socket_type_name st = (case st of TCP_SOCKET \<Rightarrow> ''TCP'' | SCTP_SOCKET \<Rightarrow> ''SCTP'' | UDP_SOCKET \<Rightarrow> ''UDP''
     | TLS_SOCKET \<Rightarrow> ''TLS/TCP'' | TLS_SCTP_SOCKET \<Rightarrow> ''TLS/SCTP'' | DTLS_SOCKET \<Rightarrow> ''DTLS''
     | TENTATIVE_TCP_SOCKET \<Rightarrow> ''TLS/TCP ?'' | TENTATIVE_SCTP_SOCKET \<Rightarrow> ''TLS/SCTP ?'' | _ \<Rightarrow> ''UNKNOWN'')"

subsection \<open>Options\<close>

text \<open>The loop that halves the size until the system takes it; it returns the size that was set, 0 for none.\<close>

function bufsize_loop :: "'w os \<Rightarrow> int \<Rightarrow> (int \<Rightarrow> sockopt) \<Rightarrow> int \<Rightarrow> 'w \<Rightarrow> int \<times> 'w" where
  "bufsize_loop S fd opt sz w =
     (if sz > 0 then
        (case os_setsockopt S fd (opt sz) w of (r, w') \<Rightarrow>
           if r < 0 then bufsize_loop S fd opt (sz div 2) w' else (sz, w'))
      else (sz, w))"
  by pat_completeness auto
termination
  by (relation "measure (\<lambda>(S, fd, opt, sz, w). nat sz)") auto

declare bufsize_loop.simps [simp del]

definition set_sock_buf_size :: "'w os \<Rightarrow> int \<Rightarrow> int \<Rightarrow> 'w \<Rightarrow> int \<times> 'w" where
  "set_sock_buf_size S fd sz0 w =
     (case bufsize_loop S fd SO_RCVBUF sz0 w of (_, w) \<Rightarrow>
        case bufsize_loop S fd SO_SNDBUF sz0 w of (_, w) \<Rightarrow> (0, w))"

definition socket_tcp_set_keepalive :: "'w os \<Rightarrow> int \<Rightarrow> SOCKET_TYPE \<Rightarrow> 'w \<Rightarrow> int \<times> 'w" where
  "socket_tcp_set_keepalive S fd st w = (case os_setsockopt S fd (SO_KEEPALIVE 1) w of (_, w) \<Rightarrow> (0, w))"

definition socket_set_reusable :: "'w os \<Rightarrow> int \<Rightarrow> int \<Rightarrow> SOCKET_TYPE \<Rightarrow> 'w \<Rightarrow> int \<times> 'w" where
  "socket_set_reusable S fd flag st w =
     (if fd < 0 then (-1, w)
      else (case os_setsockopt S fd (SO_REUSEADDR flag) w of (_, w) \<Rightarrow>
              case os_setsockopt S fd (SO_REUSEPORT flag) w of (_, w) \<Rightarrow> (0, w)))"

text \<open>\<open>ifr.ifr_name\<close> has 16 bytes, which \<open>strncpy\<close> fills.\<close>

definition sock_bind_to_device :: "'w os \<Rightarrow> int \<Rightarrow> mem option \<Rightarrow> 'w \<Rightarrow> (int \<times> 'w) option" where
  "sock_bind_to_device S fd ifname w = (case ifname of None \<Rightarrow> Some (0, w)
   | Some s \<Rightarrow> if fd \<ge> 0 then do {
       c \<leftarrow> rd8 s 0;
       if c \<noteq> 0 then do {
         name \<leftarrow> c_strncpy 16 s;
         let (r, w) = os_setsockopt S fd (SO_BINDTODEVICE name) w;
         Some (if r < 0 then -1 else 0, w) }
       else Some (0, w) }
     else Some (0, w))"

text \<open>The macros for the time to live and the type of service; \<open>TTL_DEFAULT\<close> is 64 and \<open>TOS_DEFAULT\<close> is 0.\<close>

definition CORRECT_RAW_TTL :: "int \<Rightarrow> int" where
  "CORRECT_RAW_TTL ttl = (if ttl < 0 \<or> ttl > 255 then 64 else ttl)"

definition CORRECT_RAW_TOS :: "int \<Rightarrow> int" where
  "CORRECT_RAW_TOS tos = (if tos < 0 \<or> tos > 255 then 0 else tos)"

definition set_raw_socket_ttl :: "'w os \<Rightarrow> int \<Rightarrow> u16 \<Rightarrow> int \<Rightarrow> 'w \<Rightarrow> int \<times> 'w" where
  "set_raw_socket_ttl S fd family ttl w =
     (case os_setsockopt S fd (if family = AF_INET6 then IPV6_UNICAST_HOPS (CORRECT_RAW_TTL ttl)
        else IP_TTL (CORRECT_RAW_TTL ttl)) w of (r, w) \<Rightarrow> (if r < 0 then -1 else 0, w))"

definition set_raw_socket_tos :: "'w os \<Rightarrow> int \<Rightarrow> u16 \<Rightarrow> int \<Rightarrow> 'w \<Rightarrow> int \<times> 'w" where
  "set_raw_socket_tos S fd family tos w =
     (case os_setsockopt S fd (if family = AF_INET6 then IPV6_TCLASS (CORRECT_RAW_TOS tos) else IP_TOS tos) w of
        (r, w) \<Rightarrow> (if r < 0 then -1 else 0, w))"

text \<open>\<open>IP_PMTUDISC_DONT\<close> is 0 and \<open>IP_PMTUDISC_DO\<close> is 2, for both families.\<close>

definition set_socket_df :: "'w os \<Rightarrow> int \<Rightarrow> u16 \<Rightarrow> int \<Rightarrow> 'w \<Rightarrow> int \<times> 'w" where
  "set_socket_df S fd family val w =
     os_setsockopt S fd ((if family = AF_INET then IP_MTU_DISCOVER else IPV6_MTU_DISCOVER) (if val = 0 then 0 else 2)) w"

subsection \<open>Connecting and binding\<close>

text \<open>The result, \<open>out_errno\<close> (when the pointer is given) and the world.\<close>

definition addr_connect :: "'w os \<Rightarrow> int \<Rightarrow> ioa_addr option \<Rightarrow> int option \<Rightarrow> 'w \<Rightarrow> (int \<times> int option \<times> 'w) option" where
  "addr_connect S fd addr out_errno w = (case addr of None \<Rightarrow> Some (-1, out_errno, w)
   | Some a \<Rightarrow>
       if fd < 0 then Some (-1, out_errno, w)
       else if sa_family a = AF_INET \<or> sa_family a = AF_INET6 then do {
         (e, w) \<leftarrow> retry (os_connect S fd a) (\<lambda>e w. e < 0 \<and> os_errno S w = EINTR) w;
         Some (e, map_option (\<lambda>_. os_errno S w) out_errno, w) }
       else Some (-1, out_errno, w))"

definition addr_bind :: "'w os \<Rightarrow> int \<Rightarrow> ioa_addr option \<Rightarrow> int \<Rightarrow> SOCKET_TYPE \<Rightarrow> 'w \<Rightarrow> (int \<times> 'w) option" where
  "addr_bind S fd addr reusable st w = (case addr of None \<Rightarrow> Some (-1, w)
   | Some a \<Rightarrow>
       if fd < 0 then Some (-1, w)
       else do {
         let (_, w) = socket_set_reusable S fd reusable st w;
         if sa_family a = AF_INET then
           retry (os_bind S fd a) (\<lambda>r w. r < 0 \<and> os_errno S w = EINTR) w
         else if sa_family a = AF_INET6 then do {
           let (_, w) = os_setsockopt S fd (IPV6_V6ONLY 0) w;
           retry (os_bind S fd a) (\<lambda>r w. r < 0 \<and> os_errno S w = EINTR) w }
         else Some (-1, w) })"

text \<open>\<open>a0\<close> is what the uninitialised local address holds.\<close>

definition addr_get_from_sock :: "'w os \<Rightarrow> ioa_addr \<Rightarrow> int \<Rightarrow> ioa_addr option \<Rightarrow> 'w \<Rightarrow> int \<times> ioa_addr option \<times> 'w" where
  "addr_get_from_sock S a0 fd addr w =
     (if fd < 0 \<or> addr = None then (-1, addr, w)
      else let a = a0\<lparr>sa_family := AF_INET6\<rparr> in
        case os_getsockname S fd (get_ioa_addr_len a) a w of (r, a, w) \<Rightarrow>
          if r < 0 then
            let a = a\<lparr>sa_family := AF_INET\<rparr> in
            case os_getsockname S fd (get_ioa_addr_len a) a w of (r, a, w) \<Rightarrow>
              if r < 0 then (-1, addr, w) else (0, addr_cpy addr (Some a), w)
          else (0, addr_cpy addr (Some a), w))"

definition handle_socket_error :: "int \<Rightarrow> int" where
  "handle_socket_error errno =
     (if errno = EINTR then 1 else if errno = ENOBUFS then 1 else if errno = EAGAIN then 1
      else if errno = EMSGSIZE then 1 else if errno = EBADF then 0 else if errno = EHOSTDOWN then 1
      else if errno = ECONNRESET \<or> errno = ECONNREFUSED then 0 else if errno = ENOMEM then 0
      else if errno = EACCES then 1 else 0)"

subsection \<open>Loops that end\<close>

text \<open>The world after \<open>n\<close> failed attempts, and the result of the attempt after them.\<close>

fun attempts :: "('w \<Rightarrow> 'r \<times> 'w) \<Rightarrow> nat \<Rightarrow> 'w \<Rightarrow> 'w" where
  "attempts call 0 w = w"
| "attempts call (Suc n) w = attempts call n (snd (call w))"

definition attempt :: "('w \<Rightarrow> 'r \<times> 'w) \<Rightarrow> nat \<Rightarrow> 'w \<Rightarrow> 'r \<times> 'w" where
  "attempt call n w = call (attempts call n w)"

lemma retry_once:
  assumes "call w = (r, w')" and "\<not> again r w'"
  shows "retry call again w = Some (r, w')"
  using assms by (subst retry.simps) simp

lemma retry_more:
  assumes "call w = (r, w')" and "again r w'"
  shows "retry call again w = retry call again w'"
  using assms by (subst retry.simps) simp

lemma retry_ends:
  assumes "\<forall>k<n. case_prod again (attempt call k w)" and "\<not> case_prod again (attempt call n w)"
  shows "retry call again w = Some (attempt call n w)"
  using assms
proof (induction n arbitrary: w)
  case 0
  then show ?case
    by (cases "call w") (auto simp: attempt_def intro: retry_once)
next
  case (Suc n)
  obtain r w' where c: "call w = (r, w')"
    by (cases "call w")
  have "again r w'"
    using Suc.prems(1) [rule_format, of 0] by (simp add: attempt_def c)
  moreover have "\<forall>k<n. case_prod again (attempt call k w')"
    using Suc.prems(1) by (auto simp: attempt_def c dest: spec [of _ "Suc k" for k])
  moreover have "\<not> case_prod again (attempt call n w')" "attempt call (Suc n) w = attempt call n w'"
    using Suc.prems(2) by (simp_all add: attempt_def c)
  ultimately show ?case
    using Suc.IH [of w'] retry_more [of call w r w' again] c by simp
qed

text \<open>From every world some attempt is final: then the loop returns the result of an attempt.\<close>

definition ends :: "('w \<Rightarrow> 'r \<times> 'w) \<Rightarrow> ('r \<Rightarrow> 'w \<Rightarrow> bool) \<Rightarrow> bool" where
  "ends call again \<longleftrightarrow> (\<forall>w. \<exists>n. \<not> case_prod again (attempt call n w))"

lemma ends_retry:
  assumes "ends call again"
  shows "\<exists>r w' w1. retry call again w = Some (r, w') \<and> call w1 = (r, w')"
proof -
  obtain n where "\<not> case_prod again (attempt call n w)" "\<forall>k<n. case_prod again (attempt call k w)"
    using assms exists_least_iff [of "\<lambda>n. \<not> case_prod again (attempt call n w)"] unfolding ends_def by metis
  then have "retry call again w = Some (call (attempts call n w))"
    using retry_ends [of n again call w] by (simp add: attempt_def)
  then show ?thesis
    by (metis surj_pair)
qed

text \<open>Conversely, what the loop returns is the first attempt that is not to be repeated.\<close>

lemma retry_Some:
  assumes "retry call again w = Some (r, w')"
  shows "\<exists>n. attempt call n w = (r, w') \<and> \<not> again r w' \<and> (\<forall>k<n. case_prod again (attempt call k w))"
proof -
  define P where "P call again w x \<longleftrightarrow> (\<exists>n. attempt call n w = x \<and> \<not> case_prod again x \<and>
    (\<forall>k<n. case_prod again (attempt call k w)))"
    for call :: "'b \<Rightarrow> 'a \<times> 'b" and again :: "'a \<Rightarrow> 'b \<Rightarrow> bool" and w x
  have "P call again w (r, w')"
  proof (rule retry.raw_induct [where P = P, OF _ assms])
    fix f call again w x
    assume IH: "\<And>call again w x. f call again w = Some x \<Longrightarrow> P call again w x"
      and eq: "(case call w of (r, w') \<Rightarrow> if again r w' then f call again w' else Some (r, w')) = Some x"
    obtain r w' where c: "call w = (r, w')"
      by (cases "call w")
    show "P call again w x"
    proof (cases "again r w'")
      case True
      then have "f call again w' = Some x"
        using eq c by simp
      from IH [OF this] obtain n where
        "attempt call n w' = x \<and> \<not> case_prod again x \<and> (\<forall>k<n. case_prod again (attempt call k w'))"
        unfolding P_def by (elim exE)
      then show ?thesis
        unfolding P_def using True
        by (intro exI [of _ "Suc n"]) (auto simp: attempt_def c less_Suc_eq_0_disj)
    next
      case False
      then show ?thesis
        using eq c unfolding P_def by (intro exI [of _ 0]) (auto simp: attempt_def)
    qed
  qed
  then show ?thesis
    by (simp add: P_def)
qed

text \<open>What the attempts to be repeated leave alone, \<open>I\<close>, is the same when the last attempt is made.\<close>

lemma retry_keeps:
  assumes "retry call again w = Some (r, w')" and "\<And>w r w'. call w = (r, w') \<Longrightarrow> again r w' \<Longrightarrow> I w' = I w"
  shows "\<exists>w1. I w1 = I w \<and> call w1 = (r, w')"
proof -
  obtain n where n: "attempt call n w = (r, w')" "\<forall>k<n. case_prod again (attempt call k w)"
    using retry_Some [OF assms(1)] by blast
  have "I (attempts call n w) = I w"
    using n(2)
  proof (induction n arbitrary: w)
    case (Suc n)
    obtain r1 w1 where c: "call w = (r1, w1)"
      by (cases "call w")
    have "again r1 w1"
      using Suc.prems [rule_format, of 0] by (simp add: attempt_def c)
    moreover have "\<forall>k<n. case_prod again (attempt call k w1)"
      using Suc.prems by (auto simp: attempt_def c dest: spec [of _ "Suc k" for k])
    ultimately show ?case
      using Suc.IH [of w1] assms(2) [OF c] by (simp add: c)
  qed simp
  then show ?thesis
    using n(1) by (auto simp: attempt_def)
qed

text \<open>The loops around a system call return exactly when some attempt is not to be repeated, and then with the result
  and the world of the first such attempt.\<close>

lemma retry_returns_first_final:
  "retry call again w = Some (r, w') \<longleftrightarrow>
    (\<exists>n. attempt call n w = (r, w') \<and> \<not> again r w' \<and> list_all (\<lambda>k. case_prod again (attempt call k w)) [0..<n])"
proof
  assume "retry call again w = Some (r, w')"
  then obtain n where "attempt call n w = (r, w')" "\<not> again r w'" "\<forall>k<n. case_prod again (attempt call k w)"
    using retry_Some [of call again w r w'] by blast
  then show "\<exists>n. attempt call n w = (r, w') \<and> \<not> again r w' \<and> list_all (\<lambda>k. case_prod again (attempt call k w)) [0..<n]"
    by (intro exI [of _ n]) (simp add: list_all_iff)
next
  assume "\<exists>n. attempt call n w = (r, w') \<and> \<not> again r w' \<and> list_all (\<lambda>k. case_prod again (attempt call k w)) [0..<n]"
  then obtain n where n: "attempt call n w = (r, w')" "\<not> again r w'" "\<forall>k<n. case_prod again (attempt call k w)"
    by (auto simp: list_all_iff)
  then show "retry call again w = Some (r, w')"
    using retry_ends [of n again call w] by simp
qed

text \<open>The size of a socket buffer: the loop stops at the first of \<open>sz\<close>, \<open>sz / 2\<close>, \<open>sz / 4\<close>, \dots that is accepted.\<close>

lemma bufsize_loop_bounds:
  "0 \<le> sz \<Longrightarrow> bufsize_loop S fd opt sz w = (sz', w') \<Longrightarrow> 0 \<le> sz' \<and> sz' \<le> sz \<and> (\<exists>k. sz' = sz div 2 ^ k)"
proof (induction S fd opt sz w arbitrary: sz' w' rule: bufsize_loop.induct)
  case (1 S fd opt sz w)
  obtain r w1 where c: "os_setsockopt S fd (opt sz) w = (r, w1)"
    by (cases "os_setsockopt S fd (opt sz) w")
  show ?case
  proof (cases "sz > 0 \<and> r < 0")
    case True
    then have run: "bufsize_loop S fd opt (sz div 2) w1 = (sz', w')"
      using "1.prems" c by (subst (asm) bufsize_loop.simps) simp
    obtain k where k: "0 \<le> sz'" "sz' \<le> sz div 2" "sz' = sz div 2 div 2 ^ k"
      using "1.IH" [OF _ c [symmetric] _ _ run] True by auto
    then have "sz' = sz div 2 ^ Suc k" "sz' \<le> sz"
      using True by (simp_all add: zdiv_zmult2_eq)
    then show ?thesis
      using k(1) by blast
  next
    case False
    then have "sz' = sz"
      using "1.prems" c by (subst (asm) bufsize_loop.simps) (auto split: if_splits)
    then show ?thesis
      using "1.prems" by (auto intro: exI [of _ 0])
  qed
qed

text \<open>A system for the witnesses: its calls succeed and leave the world alone, and \<open>bs\<close> is what is received.\<close>

definition sample_os :: "ioa_addr \<Rightarrow> mem \<Rightarrow> 'w os" where
  "sample_os la bs = \<lparr>os_errno = \<lambda>w. 0, os_socket = \<lambda>f ty p w. (3, w), os_setsockopt = \<lambda>fd opt w. (0, w),
     os_bind = \<lambda>fd a w. (0, w), os_connect = \<lambda>fd a w. (0, w), os_getsockname = \<lambda>fd l a w. (0, la, w),
     os_sendto = \<lambda>fd m a w. (int (length m), w), os_recv = \<lambda>fd n w. (int (length bs), bs, w),
     os_close = \<lambda>fd w. w, os_sleep = \<lambda>n w. w\<rparr>"

end
