(* ===== verification/Stun_Header.thy ===== *)
theory Stun_Header
  imports Prelude
begin

text \<open>
  The fixed 20-byte STUN header: \<open>client/ns_turn_msg.c\<close>, the sections on low-level binary access,
  message types, initialisation and transaction identifiers, over the constants of
  \<open>client/ns_turn_msg_defs.h\<close>.

  A message is the caller's array \<open>buf\<close> (never NULL) and the length \<open>len\<close> the caller passes along.
  A function that stores through \<open>buf\<close> or \<open>*len\<close> returns their new values.  Predicates return
  \<open>bool\<close>; every function that touches \<open>buf\<close> returns \<open>None\<close> when it would leave the array.
\<close>

subsection \<open>Constants\<close>

abbreviation STUN_HEADER_LENGTH :: nat where "STUN_HEADER_LENGTH \<equiv> 20"
abbreviation MAX_STUN_MESSAGE_SIZE :: int where "MAX_STUN_MESSAGE_SIZE \<equiv> 65507"
abbreviation STUN_TID_SIZE :: nat where "STUN_TID_SIZE \<equiv> 12"
abbreviation STUN_MAGIC_COOKIE :: u32 where "STUN_MAGIC_COOKIE \<equiv> 0x2112A442"

abbreviation STUN_METHOD_BINDING :: u16 where "STUN_METHOD_BINDING \<equiv> 0x0001"
abbreviation STUN_METHOD_ALLOCATE :: u16 where "STUN_METHOD_ALLOCATE \<equiv> 0x0003"
abbreviation STUN_METHOD_REFRESH :: u16 where "STUN_METHOD_REFRESH \<equiv> 0x0004"
abbreviation STUN_METHOD_SEND :: u16 where "STUN_METHOD_SEND \<equiv> 0x0006"
abbreviation STUN_METHOD_DATA :: u16 where "STUN_METHOD_DATA \<equiv> 0x0007"
abbreviation STUN_METHOD_CREATE_PERMISSION :: u16 where "STUN_METHOD_CREATE_PERMISSION \<equiv> 0x0008"
abbreviation STUN_METHOD_CHANNEL_BIND :: u16 where "STUN_METHOD_CHANNEL_BIND \<equiv> 0x0009"
abbreviation STUN_METHOD_CONNECT :: u16 where "STUN_METHOD_CONNECT \<equiv> 0x000a"
abbreviation STUN_METHOD_CONNECTION_BIND :: u16 where "STUN_METHOD_CONNECTION_BIND \<equiv> 0x000b"
abbreviation STUN_METHOD_CONNECTION_ATTEMPT :: u16 where "STUN_METHOD_CONNECTION_ATTEMPT \<equiv> 0x000c"

definition STUN_VALID_CHANNEL :: "u16 \<Rightarrow> bool" where
  "STUN_VALID_CHANNEL chn \<longleftrightarrow> chn \<ge> 0x4000 \<and> chn \<le> 0x7FFF"

definition IS_STUN_REQUEST :: "u16 \<Rightarrow> bool" where
  "IS_STUN_REQUEST msg_type \<longleftrightarrow> msg_type AND 0x0110 = 0x0000"

definition IS_STUN_INDICATION :: "u16 \<Rightarrow> bool" where
  "IS_STUN_INDICATION msg_type \<longleftrightarrow> msg_type AND 0x0110 = 0x0010"

definition IS_STUN_SUCCESS_RESP :: "u16 \<Rightarrow> bool" where
  "IS_STUN_SUCCESS_RESP msg_type \<longleftrightarrow> msg_type AND 0x0110 = 0x0100"

definition IS_STUN_ERR_RESP :: "u16 \<Rightarrow> bool" where
  "IS_STUN_ERR_RESP msg_type \<longleftrightarrow> msg_type AND 0x0110 = 0x0110"

definition GET_STUN_REQUEST :: "u16 \<Rightarrow> u16" where
  "GET_STUN_REQUEST msg_type = msg_type AND 0xFEEF"

definition GET_STUN_INDICATION :: "u16 \<Rightarrow> u16" where
  "GET_STUN_INDICATION msg_type = (msg_type AND 0xFEEF) OR 0x0010"

definition GET_STUN_SUCCESS_RESP :: "u16 \<Rightarrow> u16" where
  "GET_STUN_SUCCESS_RESP msg_type = (msg_type AND 0xFEEF) OR 0x0100"

definition GET_STUN_ERR_RESP :: "u16 \<Rightarrow> u16" where
  "GET_STUN_ERR_RESP msg_type = msg_type OR 0x0110"

subsection \<open>Randomness\<close>

text \<open>
  What the environment delivers to one call: whether \<open>RAND_bytes\<close>/\<open>RAND_pseudo_bytes\<close> succeed,
  the bytes they write, and the values successive calls of \<open>random()\<close> return.
\<close>

record entropy =
  rand_ok :: bool
  rand_out :: "nat \<Rightarrow> u8"
  rand_long :: "nat \<Rightarrow> u64"

definition turn_random :: "entropy \<Rightarrow> u64" where
  "turn_random e = (if rand_ok e
     then le64 (rand_out e 0) (rand_out e 1) (rand_out e 2) (rand_out e 3)
               (rand_out e 4) (rand_out e 5) (rand_out e 6) (rand_out e 7)
     else rand_long e 0)"

definition turn_random_tid_size :: "entropy \<Rightarrow> mem" where
  "turn_random_tid_size e = (if rand_ok e then map (rand_out e) [0..<12]
     else concat (map (\<lambda>i. bytes32 (ucast (rand_long e i))) [0..<3]))"

definition generate_random_nonce :: "entropy \<Rightarrow> nat \<Rightarrow> mem" where
  "generate_random_nonce e sz = (if rand_ok e then map (rand_out e) [0..<sz]
     else map (\<lambda>i. ucast (rand_long e i)) [0..<sz])"

subsection \<open>Method names\<close>

definition stun_method_str :: "u16 \<Rightarrow> int \<times> mem" where
  "stun_method_str method =
     (if method = STUN_METHOD_BINDING then (0, c_lit ''BINDING'')
      else if method = STUN_METHOD_ALLOCATE then (0, c_lit ''ALLOCATE'')
      else if method = STUN_METHOD_REFRESH then (0, c_lit ''REFRESH'')
      else if method = STUN_METHOD_SEND then (0, c_lit ''SEND'')
      else if method = STUN_METHOD_DATA then (0, c_lit ''DATA'')
      else if method = STUN_METHOD_CREATE_PERMISSION then (0, c_lit ''CREATE_PERMISSION'')
      else if method = STUN_METHOD_CHANNEL_BIND then (0, c_lit ''CHANNEL_BIND'')
      else if method = STUN_METHOD_CONNECT then (0, c_lit ''CONNECT'')
      else if method = STUN_METHOD_CONNECTION_BIND then (0, c_lit ''CONNECTION_BIND'')
      else if method = STUN_METHOD_CONNECTION_ATTEMPT then (0, c_lit ''CONNECTION_ATTEMPT'')
      else (-1, c_lit ''UNKNOWN''))"

subsection \<open>The length field\<close>

definition stun_get_command_message_len_str :: "mem \<Rightarrow> nat \<Rightarrow> int option" where
  "stun_get_command_message_len_str buf len =
     (if len < STUN_HEADER_LENGTH then Some (-1)
      else do {
        w \<leftarrow> rd16 buf 2;
        let bufLen = unat (nswap16 w) + STUN_HEADER_LENGTH;
        if bufLen > len then Some (-1) else Some (int bufLen) })"

definition stun_set_command_message_len_str :: "mem \<Rightarrow> int \<Rightarrow> (int \<times> mem) option" where
  "stun_set_command_message_len_str buf len =
     (if len < 20 then Some (-1, buf)
      else do {
        b \<leftarrow> wr16 buf 2 (nswap16 (word_of_int (len - 20)));
        Some (0, b) })"

subsection \<open>Low-level binary\<close>

definition stun_make_type :: "u16 \<Rightarrow> u16" where
  "stun_make_type method0 = (let method = method0 AND 0x0FFF in
     (method AND 0x000F) OR push_bit 1 (method AND 0x0070) OR
     push_bit 2 (method AND 0x0380) OR push_bit 2 (method AND 0x0C00))"

definition type_method :: "u16 \<Rightarrow> u16" where
  "type_method tt = (tt AND 0x000F) OR drop_bit 1 (tt AND 0x00E0) OR
     drop_bit 2 (tt AND 0x0E00) OR drop_bit 2 (tt AND 0x3000)"

definition stun_get_method_str :: "mem \<Rightarrow> nat \<Rightarrow> u16 option" where
  "stun_get_method_str buf len = (if len < 2 then Some (-1)
     else do { w \<leftarrow> rd16 buf 0; Some (type_method (nswap16 w)) })"

definition stun_get_msg_type_str :: "mem \<Rightarrow> nat \<Rightarrow> u16 option" where
  "stun_get_msg_type_str buf len = (if len < 2 then Some (-1)
     else do { w \<leftarrow> rd16 buf 0; Some (nswap16 w AND 0x3FFF) })"

definition is_channel_msg_str :: "mem \<Rightarrow> nat \<Rightarrow> bool option" where
  "is_channel_msg_str buf blen = (if blen \<ge> 4
     then do { w \<leftarrow> rd16 buf 0; Some (STUN_VALID_CHANNEL (nswap16 w)) } else Some False)"

subsection \<open>Message types\<close>

definition stun_is_command_message_str :: "mem \<Rightarrow> nat \<Rightarrow> bool option" where
  "stun_is_command_message_str buf blen =
     (if blen \<ge> STUN_HEADER_LENGTH then do {
        t \<leftarrow> rd16 buf 0;
        if \<not> STUN_VALID_CHANNEL (nswap16 t) then do {
          b0 \<leftarrow> rd8 buf 0;
          if b0 AND 0xC0 = 0 then do {
            c \<leftarrow> rd32 buf 4;
            if nswap32 c = STUN_MAGIC_COOKIE then do {
              l \<leftarrow> rd16 buf 2;
              let len = nswap16 l;
              if len AND 0x0003 = 0 then
                if unat len + STUN_HEADER_LENGTH = blen then Some True else Some False
              else Some False }
            else Some False }
          else Some False }
        else Some False }
      else Some False)"

text \<open>The out-parameter \<open>cookie\<close> is written only on success.\<close>

definition old_stun_is_command_message_str :: "mem \<Rightarrow> nat \<Rightarrow> u32 \<Rightarrow> (bool \<times> u32) option" where
  "old_stun_is_command_message_str buf blen cookie =
     (if blen \<ge> STUN_HEADER_LENGTH then do {
        t \<leftarrow> rd16 buf 0;
        if \<not> STUN_VALID_CHANNEL (nswap16 t) then do {
          b0 \<leftarrow> rd8 buf 0;
          if b0 AND 0xC0 = 0 then do {
            c \<leftarrow> rd32 buf 4;
            if nswap32 c \<noteq> STUN_MAGIC_COOKIE then do {
              l \<leftarrow> rd16 buf 2;
              let len = nswap16 l;
              if len AND 0x0003 = 0 then
                if unat len + STUN_HEADER_LENGTH = blen then Some (True, nswap32 c)
                else Some (False, cookie)
              else Some (False, cookie) }
            else Some (False, cookie) }
          else Some (False, cookie) }
        else Some (False, cookie) }
      else Some (False, cookie))"

definition stun_is_command_message_offset_str :: "mem \<Rightarrow> nat \<Rightarrow> nat \<Rightarrow> bool option" where
  "stun_is_command_message_offset_str buf blen offset =
     stun_is_command_message_str (drop offset buf) blen"

definition stun_is_request_str :: "mem \<Rightarrow> nat \<Rightarrow> bool option" where
  "stun_is_request_str buf len = do {
     c \<leftarrow> is_channel_msg_str buf len;
     if c then Some False else do {
       t \<leftarrow> stun_get_msg_type_str buf len; Some (IS_STUN_REQUEST t) } }"

definition stun_is_success_response_str :: "mem \<Rightarrow> nat \<Rightarrow> bool option" where
  "stun_is_success_response_str buf len = do {
     c \<leftarrow> is_channel_msg_str buf len;
     if c then Some False else do {
       t \<leftarrow> stun_get_msg_type_str buf len; Some (IS_STUN_SUCCESS_RESP t) } }"

definition stun_is_response_str :: "mem \<Rightarrow> nat \<Rightarrow> bool option" where
  "stun_is_response_str buf len = do {
     c \<leftarrow> is_channel_msg_str buf len;
     if c then Some False else do {
       t \<leftarrow> stun_get_msg_type_str buf len;
       if IS_STUN_SUCCESS_RESP t then Some True
       else if IS_STUN_ERR_RESP t then Some True
       else Some False } }"

definition stun_is_indication_str :: "mem \<Rightarrow> nat \<Rightarrow> bool option" where
  "stun_is_indication_str buf len = do {
     c \<leftarrow> is_channel_msg_str buf len;
     if c then Some False else do {
       t \<leftarrow> stun_get_msg_type_str buf len; Some (IS_STUN_INDICATION t) } }"

definition stun_make_request :: "u16 \<Rightarrow> u16" where
  "stun_make_request method = GET_STUN_REQUEST (stun_make_type method)"

definition stun_make_indication :: "u16 \<Rightarrow> u16" where
  "stun_make_indication method = GET_STUN_INDICATION (stun_make_type method)"

definition stun_make_success_response :: "u16 \<Rightarrow> u16" where
  "stun_make_success_response method = GET_STUN_SUCCESS_RESP (stun_make_type method)"

definition stun_make_error_response :: "u16 \<Rightarrow> u16" where
  "stun_make_error_response method = GET_STUN_ERR_RESP (stun_make_type method)"

subsection \<open>Transaction identifiers\<close>

text \<open>The loop of \<open>stun_tid_equals\<close>; the pointers are equal exactly when both are NULL or alias.\<close>

fun tid_equal_from :: "mem \<Rightarrow> mem \<Rightarrow> nat \<Rightarrow> nat \<Rightarrow> bool" where
  "tid_equal_from id1 id2 i 0 = True"
| "tid_equal_from id1 id2 i (Suc k) =
     (if id1 ! i \<noteq> id2 ! i then False else tid_equal_from id1 id2 (i + 1) k)"

definition stun_tid_equals :: "mem option \<Rightarrow> mem option \<Rightarrow> bool" where
  "stun_tid_equals id1 id2 = (case (id1, id2) of
     (None, None) \<Rightarrow> True
   | (None, Some _) \<Rightarrow> False
   | (Some _, None) \<Rightarrow> False
   | (Some a, Some b) \<Rightarrow> tid_equal_from a b 0 STUN_TID_SIZE)"

definition stun_tid_cpy :: "mem option \<Rightarrow> mem option \<Rightarrow> mem option" where
  "stun_tid_cpy id1 id2 = (case (id1, id2) of
     (Some _, Some b) \<Rightarrow> Some (take STUN_TID_SIZE b) | _ \<Rightarrow> id1)"

definition stun_tid_from_message_str :: "mem \<Rightarrow> nat \<Rightarrow> mem option" where
  "stun_tid_from_message_str buf len = rdn buf 8 STUN_TID_SIZE"

definition stun_tid_message_cpy :: "mem \<Rightarrow> mem option \<Rightarrow> mem option" where
  "stun_tid_message_cpy buf tid = (case tid of None \<Rightarrow> Some buf
     | Some t \<Rightarrow> do { bs \<leftarrow> rdn t 0 STUN_TID_SIZE; wrn buf 8 bs })"

definition stun_tid_generate :: "entropy \<Rightarrow> mem option \<Rightarrow> mem option" where
  "stun_tid_generate e tid = (case tid of None \<Rightarrow> None | Some _ \<Rightarrow> Some (turn_random_tid_size e))"

text \<open>
  With no \<open>id\<close> the code uses a local temporary; either way the fresh identifier ends up in the
  message, and in \<open>*id\<close> when the caller gave one.
\<close>

definition stun_tid_generate_in_message_str ::
    "entropy \<Rightarrow> mem \<Rightarrow> mem option \<Rightarrow> (mem \<times> mem option) option" where
  "stun_tid_generate_in_message_str e buf tid = do {
     let fresh = stun_tid_generate e (Some (turn_random_tid_size e));
     b \<leftarrow> stun_tid_message_cpy buf fresh;
     Some (b, case tid of None \<Rightarrow> None | Some _ \<Rightarrow> fresh) }"

subsection \<open>Initialisation\<close>

definition stun_init_buffer_str :: "mem \<Rightarrow> (mem \<times> nat) option" where
  "stun_init_buffer_str buf = do {
     b \<leftarrow> wrn buf 0 (replicate STUN_HEADER_LENGTH 0);
     Some (b, STUN_HEADER_LENGTH) }"

definition old_stun_init_command_str :: "entropy \<Rightarrow> u16 \<Rightarrow> mem \<Rightarrow> u32 \<Rightarrow> (mem \<times> nat) option" where
  "old_stun_init_command_str e message_type buf cookie = do {
     (b, len) \<leftarrow> stun_init_buffer_str buf;
     let mt = message_type AND 0x3FFF;
     b \<leftarrow> wr16 b 0 (nswap16 mt);
     b \<leftarrow> wr16 b 2 0;
     b \<leftarrow> wr32 b 4 (nswap32 cookie);
     (b, _) \<leftarrow> stun_tid_generate_in_message_str e b None;
     Some (b, len) }"

definition stun_init_command_str :: "entropy \<Rightarrow> u16 \<Rightarrow> mem \<Rightarrow> (mem \<times> nat) option" where
  "stun_init_command_str e message_type buf = do {
     (b, len) \<leftarrow> stun_init_buffer_str buf;
     let mt = message_type AND 0x3FFF;
     b \<leftarrow> wr16 b 0 (nswap16 mt);
     b \<leftarrow> wr16 b 2 0;
     b \<leftarrow> wr32 b 4 (nswap32 STUN_MAGIC_COOKIE);
     (b, _) \<leftarrow> stun_tid_generate_in_message_str e b None;
     Some (b, len) }"

definition stun_init_request_str :: "entropy \<Rightarrow> u16 \<Rightarrow> mem \<Rightarrow> (mem \<times> nat) option" where
  "stun_init_request_str e method buf = stun_init_command_str e (stun_make_request method) buf"

definition stun_init_indication_str :: "entropy \<Rightarrow> u16 \<Rightarrow> mem \<Rightarrow> (mem \<times> nat) option" where
  "stun_init_indication_str e method buf = stun_init_command_str e (stun_make_indication method) buf"

definition stun_init_success_response_str ::
    "entropy \<Rightarrow> u16 \<Rightarrow> mem \<Rightarrow> mem option \<Rightarrow> (mem \<times> nat) option" where
  "stun_init_success_response_str e method buf tid = do {
     (b, len) \<leftarrow> stun_init_command_str e (stun_make_success_response method) buf;
     b \<leftarrow> stun_tid_message_cpy b tid;
     Some (b, len) }"

definition old_stun_init_success_response_str ::
    "entropy \<Rightarrow> u16 \<Rightarrow> mem \<Rightarrow> mem option \<Rightarrow> u32 \<Rightarrow> (mem \<times> nat) option" where
  "old_stun_init_success_response_str e method buf tid cookie = do {
     (b, len) \<leftarrow> old_stun_init_command_str e (stun_make_success_response method) buf cookie;
     b \<leftarrow> stun_tid_message_cpy b tid;
     Some (b, len) }"

subsection \<open>The bytes of a header\<close>

text \<open>
  The layout of RFC 5389: type, length, cookie in network byte order, then the identifier.  Every
  array of at least twenty bytes starts with such a header, so facts about headers are facts about
  arbitrary input.
\<close>

definition header :: "u16 \<Rightarrow> u16 \<Rightarrow> u32 \<Rightarrow> mem \<Rightarrow> mem" where
  "header mt ln ck tid =
     [byte_of 1 mt, byte_of 0 mt, byte_of 1 ln, byte_of 0 ln,
      byte_of 3 ck, byte_of 2 ck, byte_of 1 ck, byte_of 0 ck] @ tid"

named_theorems header_simps \<open>loads from and stores to a header\<close>

lemma length_header [simp]: "length (header mt ln ck tid) = 8 + length tid"
  by (simp add: header_def)

lemma header_exhaust:
  assumes "20 \<le> length buf"
  obtains mt ln ck tid where "buf = header mt ln ck tid @ drop 20 buf" and "length tid = 12"
proof
  let ?mt = "le16 (buf ! 1) (buf ! 0)" and ?ln = "le16 (buf ! 3) (buf ! 2)"
    and ?ck = "le32 (buf ! 7) (buf ! 6) (buf ! 5) (buf ! 4)" and ?tid = "take 12 (drop 8 buf)"
  have "buf = take 8 buf @ take 12 (drop 8 buf) @ drop 20 buf"
    using take_add [of 8 12 buf] append_take_drop_id [of 20 buf] by simp
  moreover have "take 8 buf = [buf ! 0, buf ! 1, buf ! 2, buf ! 3, buf ! 4, buf ! 5, buf ! 6, buf ! 7]"
    using assms by (intro nth_equalityI) (auto simp: nth_Cons numeral_eq_Suc less_Suc_eq)
  ultimately show "buf = header ?mt ?ln ?ck ?tid @ drop 20 buf"
    by (simp add: header_def byte_simps)
  show "length ?tid = 12"
    using assms by simp
qed

lemma header_nth:
  "(header mt ln ck tid @ x) ! 0 = byte_of 1 mt" "(header mt ln ck tid @ x) ! Suc 0 = byte_of 0 mt"
  "(header mt ln ck tid @ x) ! 2 = byte_of 1 ln" "(header mt ln ck tid @ x) ! 3 = byte_of 0 ln"
  "(header mt ln ck tid @ x) ! 4 = byte_of 3 ck" "(header mt ln ck tid @ x) ! 5 = byte_of 2 ck"
  "(header mt ln ck tid @ x) ! 6 = byte_of 1 ck" "(header mt ln ck tid @ x) ! 7 = byte_of 0 ck"
  by (simp_all add: header_def)

lemma rd_header [header_simps]:
  "rd16 (header mt ln ck tid @ x) 0 = Some (nswap16 mt)"
  "rd16 (header mt ln ck tid @ x) 2 = Some (nswap16 ln)"
  "rd32 (header mt ln ck tid @ x) 4 = Some (nswap32 ck)"
  "rd8 (header mt ln ck tid @ x) 0 = Some (byte_of (Suc 0) mt)"
  by (simp_all add: rd16_def rd32_def rd8_def header_nth nswap16_def nswap32_def)

lemma rd_header_tid [header_simps]:
  "length tid = 12 \<Longrightarrow> rdn (header mt ln ck tid @ x) 8 12 = Some tid"
  by (simp add: rdn_def header_def)

lemma wr_header_len [header_simps]:
  "wr16 (header mt ln ck tid @ x) 2 (nswap16 w) = Some (header mt w ck tid @ x)"
  by (simp add: wr16_def wrn_def header_def bytes16_def byte_simps numeral_eq_Suc)

lemma wr_header_tid [header_simps]:
  "length tid = 12 \<Longrightarrow> length tid' = 12 \<Longrightarrow>
   wrn (header mt ln ck tid @ x) 8 tid' = Some (header mt ln ck tid' @ x)"
  by (simp add: wrn_def header_def numeral_eq_Suc)

lemma message_len_header [header_simps]:
  "stun_get_command_message_len_str (header mt ln ck tid @ x) len =
     Some (if len < 20 \<or> len < unat ln + 20 then -1 else int (unat ln + 20))"
  by (simp add: stun_get_command_message_len_str_def header_simps)

lemma set_message_len_header [header_simps]:
  "20 \<le> l \<Longrightarrow> stun_set_command_message_len_str (header mt ln ck tid @ x) l =
     Some (0, header mt (word_of_int (l - 20)) ck tid @ x)"
  by (simp add: stun_set_command_message_len_str_def header_simps)

subsection \<open>Types and classes\<close>

lemma unat_drop14: "unat (drop_bit 14 w) = unat (w :: u16) div 16384"
  by (simp only: unat_drop_bit_eq) (simp add: drop_bit_eq_div)

lemma valid_channel_iff: "STUN_VALID_CHANNEL w \<longleftrightarrow> drop_bit 14 w = 1"
proof -
  have "drop_bit 14 w = 1 \<longleftrightarrow> unat w div 16384 = 1"
    by (simp add: word_unat_eq_iff unat_drop14)
  also have "\<dots> \<longleftrightarrow> 16384 \<le> unat w \<and> unat w < 32768"
    by (auto simp: div_nat_eqI dest: arg_cong [of _ _ "\<lambda>x. x * 16384"])
  also have "\<dots> \<longleftrightarrow> STUN_VALID_CHANNEL w"
    by (auto simp: STUN_VALID_CHANNEL_def word_le_nat_alt)
  finally show ?thesis ..
qed

lemma top_bits_iff: "byte_of (Suc 0) mt AND 0xC0 = 0 \<longleftrightarrow> drop_bit 14 (mt :: u16) = 0"
proof -
  have "byte_of (Suc 0) mt AND 0xC0 = 0 \<longleftrightarrow> \<not> bit mt 14 \<and> \<not> bit mt 15"
    unfolding u8_eq_iff all_less_8 by (simp add: byte_of_def bit_simps)
  also have "\<dots> \<longleftrightarrow> drop_bit 14 mt = 0"
    unfolding u16_eq_iff all_less_16 by (simp add: bit_simps)
  finally show ?thesis .
qed

lemmas make_defs = stun_make_request_def stun_make_indication_def stun_make_success_response_def
  stun_make_error_response_def GET_STUN_REQUEST_def GET_STUN_INDICATION_def
  GET_STUN_SUCCESS_RESP_def GET_STUN_ERR_RESP_def stun_make_type_def Let_def

lemmas class_defs = IS_STUN_REQUEST_def IS_STUN_INDICATION_def IS_STUN_SUCCESS_RESP_def
  IS_STUN_ERR_RESP_def

lemma type_method_make:
  "type_method (stun_make_request m) = m AND 0x0FFF"
  "type_method (stun_make_indication m) = m AND 0x0FFF"
  "type_method (stun_make_success_response m) = m AND 0x0FFF"
  "type_method (stun_make_error_response m) = m AND 0x0FFF"
  unfolding u16_eq_iff all_less_16 by (simp_all add: make_defs type_method_def bit_simps
    del: push_bit_Suc drop_bit_Suc)

lemma class_make:
  "stun_make_request m AND 0x0110 = 0"
  "stun_make_indication m AND 0x0110 = 0x0010"
  "stun_make_success_response m AND 0x0110 = 0x0100"
  "stun_make_error_response m AND 0x0110 = 0x0110"
  unfolding u16_eq_iff all_less_16 by (simp_all add: make_defs bit_simps
    del: push_bit_Suc drop_bit_Suc)

lemma make_fits:
  "stun_make_request m AND 0x3FFF = stun_make_request m"
  "stun_make_indication m AND 0x3FFF = stun_make_indication m"
  "stun_make_success_response m AND 0x3FFF = stun_make_success_response m"
  "stun_make_error_response m AND 0x3FFF = stun_make_error_response m"
  unfolding u16_eq_iff all_less_16 by (simp_all add: make_defs bit_simps
    del: push_bit_Suc drop_bit_Suc)

lemma masked_top [simp]: "drop_bit 14 (mt AND 0x3FFF :: u16) = 0"
  unfolding u16_eq_iff all_less_16 by (simp add: bit_simps)

lemma masked_idem: "(mt AND 0x3FFF) AND 0x3FFF = (mt AND 0x3FFF :: u16)"
  unfolding u16_eq_iff all_less_16 by (simp add: bit_simps)

lemma make_top [simp]:
  "drop_bit 14 (stun_make_request m) = 0" "drop_bit 14 (stun_make_indication m) = 0"
  "drop_bit 14 (stun_make_success_response m) = 0" "drop_bit 14 (stun_make_error_response m) = 0"
  by (metis masked_top make_fits)+

text \<open>The four message types of a method carry the method's twelve bits and exactly one class:
  decoding gives the method back and the four class tests are mutually exclusive and exhaustive.\<close>

lemma message_type_roundtrip:
  "type_method (stun_make_request m) = m AND 0x0FFF
   \<and> type_method (stun_make_indication m) = m AND 0x0FFF
   \<and> type_method (stun_make_success_response m) = m AND 0x0FFF
   \<and> type_method (stun_make_error_response m) = m AND 0x0FFF
   \<and> IS_STUN_REQUEST (stun_make_request m) \<and> IS_STUN_INDICATION (stun_make_indication m)
   \<and> IS_STUN_SUCCESS_RESP (stun_make_success_response m)
   \<and> IS_STUN_ERR_RESP (stun_make_error_response m)
   \<and> length (filter (\<lambda>c. c t)
        [IS_STUN_REQUEST, IS_STUN_INDICATION, IS_STUN_SUCCESS_RESP, IS_STUN_ERR_RESP]) = 1"
proof -
  have "t AND 0x0110 = 0 \<or> t AND 0x0110 = 0x0010 \<or> t AND 0x0110 = 0x0100 \<or> t AND 0x0110 = 0x0110"
    unfolding u16_eq_iff all_less_16 by (simp add: bit_simps) blast
  then show ?thesis
    by (auto simp: type_method_make class_make class_defs)
qed

subsection \<open>Recognising a message\<close>

lemma mod4_iff: "w AND 0x0003 = 0 \<longleftrightarrow> unat (w :: u16) mod 4 = 0"
proof -
  have "w AND 0x0003 = take_bit 2 w"
    unfolding u16_eq_iff all_less_16 by (simp add: bit_simps)
  moreover have "unat (take_bit 2 w) = unat w mod 4"
    by (simp add: unsigned_take_bit_eq) (simp add: take_bit_eq_mod)
  ultimately show ?thesis
    by (simp add: word_unat_eq_iff)
qed

lemma is_command_header [header_simps]:
  "stun_is_command_message_str (header mt ln ck tid @ x) blen =
     Some (20 \<le> blen \<and> drop_bit 14 mt = 0 \<and> ck = STUN_MAGIC_COOKIE \<and> unat ln mod 4 = 0
           \<and> unat ln + 20 = blen)"
  by (simp add: stun_is_command_message_str_def header_simps top_bits_iff valid_channel_iff mod4_iff)

lemma msg_type_header [header_simps]:
  "2 \<le> len \<Longrightarrow> stun_get_msg_type_str (header mt ln ck tid @ x) len = Some (mt AND 0x3FFF)"
  "2 \<le> len \<Longrightarrow> stun_get_method_str (header mt ln ck tid @ x) len = Some (type_method mt)"
  "4 \<le> len \<Longrightarrow> is_channel_msg_str (header mt ln ck tid @ x) len = Some (drop_bit 14 mt = 1)"
  by (simp_all add: stun_get_msg_type_str_def stun_get_method_str_def is_channel_msg_str_def
      header_simps valid_channel_iff)

lemma class_header [header_simps]:
  assumes "4 \<le> len" and "drop_bit 14 mt = 0"
  shows "stun_is_request_str (header mt ln ck tid @ x) len = Some (IS_STUN_REQUEST mt)"
    and "stun_is_success_response_str (header mt ln ck tid @ x) len = Some (IS_STUN_SUCCESS_RESP mt)"
    and "stun_is_indication_str (header mt ln ck tid @ x) len = Some (IS_STUN_INDICATION mt)"
    and "stun_is_response_str (header mt ln ck tid @ x) len
           = Some (IS_STUN_SUCCESS_RESP mt \<or> IS_STUN_ERR_RESP mt)"
proof -
  have "(mt AND 0x3FFF) AND 0x0110 = mt AND 0x0110"
    unfolding u16_eq_iff all_less_16 by (simp add: bit_simps)
  then show "stun_is_request_str (header mt ln ck tid @ x) len = Some (IS_STUN_REQUEST mt)"
    "stun_is_success_response_str (header mt ln ck tid @ x) len = Some (IS_STUN_SUCCESS_RESP mt)"
    "stun_is_indication_str (header mt ln ck tid @ x) len = Some (IS_STUN_INDICATION mt)"
    "stun_is_response_str (header mt ln ck tid @ x) len
           = Some (IS_STUN_SUCCESS_RESP mt \<or> IS_STUN_ERR_RESP mt)"
    using assms by (simp_all add: stun_is_request_str_def stun_is_success_response_str_def
        stun_is_indication_str_def stun_is_response_str_def header_simps class_defs)
qed

text \<open>C6: On any received datagram of \<open>blen\<close> bytes, the recogniser reads only bytes of the
  datagram and accepts exactly the well-formed ones: twenty bytes at least, the two top bits zero,
  the magic cookie, and a length field that is a multiple of four and accounts for the rest.\<close>

theorem is_command_message_exact:
  assumes "blen \<le> length buf"
  shows "stun_is_command_message_str buf blen = Some (20 \<le> blen
    \<and> (\<exists>mt ln tid. take 20 buf = header mt ln STUN_MAGIC_COOKIE tid \<and> length tid = 12
         \<and> unat mt < 0x4000 \<and> unat ln mod 4 = 0 \<and> blen = 20 + unat ln))"
proof (cases "20 \<le> blen")
  case False
  then show ?thesis
    by (simp add: stun_is_command_message_str_def)
next
  case True
  with assms obtain mt ln ck tid where
    buf: "buf = header mt ln ck tid @ drop 20 buf" and tid: "length tid = 12"
    using header_exhaust by (metis le_trans)
  have top: "drop_bit 14 m = 0 \<longleftrightarrow> unat m < 0x4000" for m :: u16
    by (simp add: word_unat_eq_iff unat_drop14 div_eq_0_iff)
  have take: "take 20 buf = header mt ln ck tid"
    by (subst buf) (simp add: tid)
  have inj: "header mt ln ck tid = header mt' ln' ck' tid' \<longleftrightarrow>
      mt = mt' \<and> ln = ln' \<and> ck = ck' \<and> tid = tid'" for mt' ln' ck' tid'
    by (auto simp: header_def) (metis le16_byte_of le32_byte_of One_nat_def)+
  show ?thesis
    by (subst buf) (auto simp: is_command_header take inj top tid True)
qed

theorem is_command_message_exact_witness:
  "let buf = header 1 0 STUN_MAGIC_COOKIE (replicate 12 7) @ [1, 2, 3] in
   20 \<le> length buf \<and> stun_is_command_message_str buf 20 = Some True"
proof -
  let ?buf = "header 1 0 STUN_MAGIC_COOKIE (replicate 12 7) @ [1, 2, 3] :: mem"
  have len: "20 \<le> length ?buf"
    by simp
  have "take 20 ?buf = header 1 0 STUN_MAGIC_COOKIE (replicate 12 7)"
    by simp
  then have "\<exists>mt ln tid. take 20 ?buf = header mt ln STUN_MAGIC_COOKIE tid \<and> length tid = 12
         \<and> unat mt < 0x4000 \<and> unat ln mod 4 = 0 \<and> 20 = 20 + unat ln"
    by (intro exI [of _ 1] exI [of _ 0] exI [of _ "replicate 12 7"]) simp
  then show ?thesis
    using is_command_message_exact [OF len] len by (simp add: Let_def)
qed

subsection \<open>What initialisation produces\<close>

lemma length_tid_random [simp]: "length (turn_random_tid_size e) = 12"
  by (simp add: turn_random_tid_size_def length_concat comp_def upt_rec)

lemma tid_generate_in_message [header_simps]:
  "length tid = 12 \<Longrightarrow> stun_tid_generate_in_message_str e (header mt ln ck tid @ x) None =
     Some (header mt ln ck (turn_random_tid_size e) @ x, None)"
  by (simp add: stun_tid_generate_in_message_str_def stun_tid_generate_def
      stun_tid_message_cpy_def header_simps rdn_def)

lemma tid_message_cpy_header [header_simps]:
  "length tid = 12 \<Longrightarrow> length t = 12 \<Longrightarrow>
   stun_tid_message_cpy (header mt ln ck tid @ x) (Some t) = Some (header mt ln ck t @ x)"
  "stun_tid_message_cpy buf None = Some buf"
  by (simp_all add: stun_tid_message_cpy_def header_simps rdn_def)

lemma replicate20_header: "replicate 20 0 = header 0 0 0 (replicate 12 0)"
  by (simp add: header_def byte_of_def numeral_eq_Suc)

lemma wr_header_type [header_simps]:
  "wr16 (header mt ln ck tid @ x) 0 (nswap16 w) = Some (header w ln ck tid @ x)"
  by (simp add: wr16_def wrn_def header_def bytes16_def byte_simps numeral_eq_Suc)

lemma wr_header_cookie [header_simps]:
  "wr32 (header mt ln ck tid @ x) 4 (nswap32 w) = Some (header mt ln w tid @ x)"
  by (simp add: wr32_def wrn_def header_def bytes32_def byte_simps)

lemma nswap16_0 [simp]: "nswap16 0 = 0"
  by (simp add: nswap16_def byte_of_def le16_def)

lemma old_init_command_header:
  assumes "20 \<le> length buf"
  shows "old_stun_init_command_str e mt buf cookie =
    Some (header (mt AND 0x3FFF) 0 cookie (turn_random_tid_size e) @ drop 20 buf, 20)"
proof -
  have "stun_init_buffer_str buf = Some (header 0 0 0 (replicate 12 0) @ drop 20 buf, 20)"
    using assms by (simp add: stun_init_buffer_str_def wrn_def flip: replicate20_header)
  moreover have "wr16 (header a b c t @ x) 2 0 = Some (header a 0 c t @ x)" for a b c t x
    using wr_header_len [of a b c t x 0] by simp
  ultimately show ?thesis
    by (simp add: old_stun_init_command_str_def header_simps)
qed

lemma init_command_header:
  "20 \<le> length buf \<Longrightarrow> stun_init_command_str e mt buf =
    Some (header (mt AND 0x3FFF) 0 STUN_MAGIC_COOKIE (turn_random_tid_size e) @ drop 20 buf, 20)"
  using old_init_command_header [of buf e mt STUN_MAGIC_COOKIE]
  by (simp add: old_stun_init_command_str_def stun_init_command_str_def)

lemma init_header:
  assumes "20 \<le> length buf"
  shows "stun_init_request_str e m buf =
      Some (header (stun_make_request m) 0 STUN_MAGIC_COOKIE (turn_random_tid_size e) @ drop 20 buf, 20)"
    and "stun_init_indication_str e m buf =
      Some (header (stun_make_indication m) 0 STUN_MAGIC_COOKIE (turn_random_tid_size e) @ drop 20 buf, 20)"
    and "length t = 12 \<Longrightarrow> stun_init_success_response_str e m buf (Some t) =
      Some (header (stun_make_success_response m) 0 STUN_MAGIC_COOKIE t @ drop 20 buf, 20)"
    and "length t = 12 \<Longrightarrow> old_stun_init_success_response_str e m buf (Some t) ck =
      Some (header (stun_make_success_response m) 0 ck t @ drop 20 buf, 20)"
  using assms
  by (simp_all add: stun_init_request_str_def stun_init_indication_str_def
      stun_init_success_response_str_def old_stun_init_success_response_str_def
      init_command_header old_init_command_header make_fits header_simps)

text \<open>A freshly initialised request is a complete command message of the requested method and
  class with no attribute, whatever the buffer held before; its identifier is the random one.\<close>

lemma init_request_wellformed:
  assumes "20 \<le> length buf"
  shows "\<exists>b. stun_init_request_str e m buf = Some (b, 20) \<and> length b = length buf
    \<and> stun_is_command_message_str b 20 = Some True
    \<and> stun_is_request_str b 20 = Some True
    \<and> stun_get_method_str b 20 = Some (m AND 0x0FFF)
    \<and> stun_tid_from_message_str b 20 = Some (turn_random_tid_size e)
    \<and> stun_get_command_message_len_str b 20 = Some 20"
  using assms
  by (simp add: init_header header_simps type_method_make class_make class_defs
      stun_tid_from_message_str_def)

definition sample_entropy :: entropy where
  "sample_entropy = \<lparr>rand_ok = True, rand_out = (\<lambda>i. of_nat i), rand_long = (\<lambda>_. 0)\<rparr>"

lemma tid_equal_from_iff:
  "tid_equal_from a b i k \<longleftrightarrow> (\<forall>j. i \<le> j \<and> j < i + k \<longrightarrow> a ! j = b ! j)"
proof (induction k arbitrary: i)
  case (Suc k)
  have "(\<forall>j. i \<le> j \<and> j < i + Suc k \<longrightarrow> a ! j = b ! j) \<longleftrightarrow>
      a ! i = b ! i \<and> (\<forall>j. Suc i \<le> j \<and> j < Suc i + k \<longrightarrow> a ! j = b ! j)"
    by (metis Suc_le_eq add_Suc add_Suc_right le_eq_less_or_eq less_add_Suc1 order_refl)
  with Suc show ?case by simp
qed auto

lemma tid_equals_iff:
  assumes "length a = 12" and "length b = 12"
  shows "stun_tid_equals (Some a) (Some b) \<longleftrightarrow> a = b"
  using assms by (auto simp: stun_tid_equals_def tid_equal_from_iff list_eq_iff_nth_eq)

end
