(* ===== verification/Msg_Addr.thy ===== *)
theory Msg_Addr
  imports Io_Addr
begin

text \<open>
  Encoding of addresses inside STUN attributes, plain and XOR-ed with the magic cookie and the
  transaction identifier: \<open>client/ns_turn_msg_addr.c\<close>.

  The encoder writes into the caller's array \<open>cfield\<close> and reports the length through \<open>clen\<close>; its
  result is the return code, the new array and the new length.  The decoder reads the attribute value
  at the start of \<open>cfield\<close> and updates the address \<open>ca\<close>.
\<close>

subsection \<open>The operations\<close>

definition stun_addr_encode ::
    "ioa_addr option \<Rightarrow> mem \<Rightarrow> int \<Rightarrow> bool \<Rightarrow> u32 \<Rightarrow> mem \<Rightarrow> (int \<times> mem \<times> int) option" where
  "stun_addr_encode ca cfield clen xor_ed mc tsx_id = (case ca of None \<Rightarrow> Some (-1, cfield, clen)
   | Some a \<Rightarrow>
     if sa_family a = AF_INET \<or> sa_family a = 0 then do {
       b \<leftarrow> wr8 cfield 0 0;
       b \<leftarrow> wr8 b 1 1;
       if xor_ed then do {
         b \<leftarrow> wr16 b 2 (sin_port a XOR nswap16 (ucast (drop_bit 16 mc)));
         b \<leftarrow> wr32 b 4 (sin_addr a XOR nswap32 mc);
         Some (0, b, 8) }
       else do {
         b \<leftarrow> wr16 b 2 (sin_port a);
         b \<leftarrow> wr32 b 4 (sin_addr a);
         Some (0, b, 8) } }
     else if sa_family a = AF_INET6 then do {
       b \<leftarrow> wr8 cfield 0 0;
       b \<leftarrow> wr8 b 1 2;
       if xor_ed then do {
         let magic = nswap32 mc;
         b \<leftarrow> wr16 b 2 (sin_port a XOR nswap16 (ucast (drop_bit 16 mc)));
         b \<leftarrow> wrn b 4 (map (\<lambda>i. sin6_addr a ! i XOR byte_of i magic) [0..<4]);
         b \<leftarrow> wrn b 8 (map (\<lambda>i. sin6_addr a ! (i + 4) XOR tsx_id ! i) [0..<12]);
         Some (0, b, 20) }
       else do {
         b \<leftarrow> wr16 b 2 (sin_port a);
         b \<leftarrow> wrn b 4 (take 16 (sin6_addr a));
         Some (0, b, 20) } }
     else Some (-1, cfield, clen))"

definition stun_addr_decode ::
    "ioa_addr option \<Rightarrow> mem \<Rightarrow> int \<Rightarrow> bool \<Rightarrow> u32 \<Rightarrow> mem \<Rightarrow> (int \<times> ioa_addr option) option" where
  "stun_addr_decode ca cfield len xor_ed mc tsx_id = (case ca of None \<Rightarrow> Some (-1, None)
   | Some a \<Rightarrow>
     if len = 0 \<or> len < 8 then Some (-1, Some a)
     else do {
       f0 \<leftarrow> rd8 cfield 0;
       if f0 \<noteq> 0 then Some (-1, Some a)
       else do {
         f1 \<leftarrow> rd8 cfield 1;
         if f1 = 1 then do {
           let a = a\<lparr>sa_family := AF_INET\<rparr>;
           if len \<noteq> 8 then Some (-1, Some a)
           else do {
             p \<leftarrow> rd16 cfield 2;
             ip \<leftarrow> rd32 cfield 4;
             let a = a\<lparr>sin_port := p, sin_addr := ip\<rparr>;
             if xor_ed then
               Some (0, Some (a\<lparr>sin_port := sin_port a XOR nswap16 (ucast (drop_bit 16 mc)),
                                sin_addr := sin_addr a XOR nswap32 mc\<rparr>))
             else Some (0, Some a) } }
         else if f1 = 2 then do {
           let a = a\<lparr>sa_family := AF_INET6\<rparr>;
           if len \<noteq> 20 then Some (-1, Some a)
           else do {
             p \<leftarrow> rd16 cfield 2;
             ip \<leftarrow> rdn cfield 4 16;
             let a = a\<lparr>sin_port := p, sin6_addr := ip\<rparr>;
             if xor_ed then do {
               let magic = nswap32 mc;
               Some (0, Some (a\<lparr>sin_port := sin_port a XOR nswap16 (ucast (drop_bit 16 mc)),
                 sin6_addr := map (\<lambda>i. ip ! i XOR byte_of i magic) [0..<4]
                              @ map (\<lambda>i. ip ! (i + 4) XOR tsx_id ! i) [0..<12]\<rparr>)) }
             else Some (0, Some a) } }
         else Some (-1, Some a) } })"

subsection \<open>The encoded bytes\<close>

definition xport :: "bool \<Rightarrow> u32 \<Rightarrow> u16 \<Rightarrow> u16" where
  "xport x mc p = (if x then p XOR nswap16 (ucast (drop_bit 16 mc)) else p)"

definition xaddr4 :: "bool \<Rightarrow> u32 \<Rightarrow> u32 \<Rightarrow> u32" where
  "xaddr4 x mc ip = (if x then ip XOR nswap32 mc else ip)"

definition xmask6 :: "bool \<Rightarrow> u32 \<Rightarrow> mem \<Rightarrow> mem" where
  "xmask6 x mc tid = (if x then bytes32 (nswap32 mc) @ take 12 tid else replicate 16 0)"

definition xaddr6 :: "bool \<Rightarrow> u32 \<Rightarrow> mem \<Rightarrow> mem \<Rightarrow> mem" where
  "xaddr6 x mc tid ip = map2 (XOR) ip (xmask6 x mc tid)"

definition enc_addr :: "ioa_addr \<Rightarrow> bool \<Rightarrow> u32 \<Rightarrow> mem \<Rightarrow> mem" where
  "enc_addr a x mc tid =
     (if sa_family a = AF_INET6
      then [0, 2] @ bytes16 (xport x mc (sin_port a)) @ xaddr6 x mc tid (sin6_addr a)
      else [0, 1] @ bytes16 (xport x mc (sin_port a)) @ bytes32 (xaddr4 x mc (sin_addr a)))"

text \<open>The family 0 of a zeroed address is encoded, and comes back, as IPv4.\<close>

definition norm_addr :: "ioa_addr \<Rightarrow> ioa_addr" where
  "norm_addr a = (if sa_family a = 0 then a\<lparr>sa_family := AF_INET\<rparr> else a)"

lemma xport_xport [simp]: "xport x mc (xport x mc p) = p"
  by (simp add: xport_def xor.assoc)

lemma xaddr4_xaddr4 [simp]: "xaddr4 x mc (xaddr4 x mc p) = p"
  by (simp add: xaddr4_def xor.assoc)

lemma length_xmask6 [simp]: "length tid = 12 \<Longrightarrow> length (xmask6 x mc tid) = 16"
  by (simp add: xmask6_def)

lemma length_xaddr6 [simp]: "length tid = 12 \<Longrightarrow> length ip = 16 \<Longrightarrow> length (xaddr6 x mc tid ip) = 16"
  by (simp add: xaddr6_def)

lemma xaddr6_xaddr6 [simp]:
  "length tid = 12 \<Longrightarrow> length ip = 16 \<Longrightarrow> xaddr6 x mc tid (xaddr6 x mc tid ip) = ip"
  by (simp add: xaddr6_def list_eq_iff_nth_eq xor.assoc)

lemma xaddr6_plain: "length ip = 16 \<Longrightarrow> xaddr6 False mc tid ip = ip"
  by (simp add: xaddr6_def xmask6_def list_eq_iff_nth_eq)

lemma xaddr6_split:
  assumes "length ip = 16" and "length tid = 12"
  shows "map (\<lambda>i. ip ! i XOR byte_of i (nswap32 mc)) [0..<4]
         @ map (\<lambda>i. ip ! (i + 4) XOR tid ! i) [0..<12] = xaddr6 True mc tid ip"
proof (rule nth_equalityI)
  fix i
  assume "i < length (map (\<lambda>i. ip ! i XOR byte_of i (nswap32 mc)) [0..<4]
         @ map (\<lambda>i. ip ! (i + 4) XOR tid ! i) [0..<12])"
  then have i: "i < 16" by simp
  have "bytes32 w ! j = byte_of j w" if "j < 4" for w j
    using that by (auto simp: bytes32_def nth_Cons numeral_eq_Suc less_Suc_eq split: nat.splits)
  with i show "(map (\<lambda>i. ip ! i XOR byte_of i (nswap32 mc)) [0..<4]
         @ map (\<lambda>i. ip ! (i + 4) XOR tid ! i) [0..<12]) ! i = xaddr6 True mc tid ip ! i"
    using assms by (cases "i < 4") (simp_all add: xaddr6_def xmask6_def nth_append less_diff_conv2)
qed (simp add: assms)

lemma length_enc_addr:
  "length tid = 12 \<Longrightarrow> wf_addr a \<Longrightarrow> length (enc_addr a x mc tid) = (if sa_family a = AF_INET6 then 20 else 8)"
  by (simp add: enc_addr_def wf_addr_def)

lemma encode_bytes:
  assumes "20 \<le> length cfield" and "length tid = 12" and "wf_addr a"
    and "sa_family a = 0 \<or> inet_addr a"
  shows "stun_addr_encode (Some a) cfield clen x mc tid =
    Some (0, enc_addr a x mc tid @ drop (length (enc_addr a x mc tid)) cfield,
          int (length (enc_addr a x mc tid)))"
proof -
  note defs = stun_addr_encode_def wr8_def wr16_def wr32_def wrn_def enc_addr_def xport_def
    xaddr4_def Let_def
  have ip: "length (sin6_addr a) = 16"
    using assms(3) by (simp add: wf_addr_def)
  have room: "18 \<le> length cfield - 2" "16 \<le> length cfield - 4" "4 \<le> length cfield - 4"
    "2 \<le> length cfield - Suc (Suc 0)" "Suc 0 \<le> length cfield - Suc 0"
    using assms(1) by simp_all
  consider "sa_family a = AF_INET \<or> sa_family a = 0" | "sa_family a = AF_INET6"
    using assms(4) by (auto simp: inet_addr_def)
  then show ?thesis
  proof cases
    case 1
    then have "sa_family a \<noteq> AF_INET6" by auto
    with 1 show ?thesis
      using assms(1) room by (simp add: defs)
  next
    case 2
    show ?thesis
    proof (cases x)
      case True
      have "map (\<lambda>i. sin6_addr a ! i XOR byte_of i (nswap32 mc)) [0..<4]
          @ map (\<lambda>i. sin6_addr a ! (i + 4) XOR tid ! i) [0..<12] @ r
          = xaddr6 True mc tid (sin6_addr a) @ r" for r
        using xaddr6_split [OF ip assms(2), of mc] by (simp flip: append_assoc)
      then show ?thesis
        using 2 True assms(1,2) ip room by (simp add: defs)
    next
      case False
      then show ?thesis
        using 2 assms(1) ip room by (simp add: defs xaddr6_plain)
    qed
  qed
qed

lemma decode_bytes:
  assumes "length tid = 12" and "wf_addr a" and "sa_family a = 0 \<or> inet_addr a"
  shows "stun_addr_decode (Some c) (enc_addr a x mc tid @ rest) (int (length (enc_addr a x mc tid)))
      x mc tid =
    Some (0, Some (if sa_family a = AF_INET6
      then c\<lparr>sa_family := AF_INET6, sin_port := sin_port a, sin6_addr := sin6_addr a\<rparr>
      else c\<lparr>sa_family := AF_INET, sin_port := sin_port a, sin_addr := sin_addr a\<rparr>))"
proof (cases "sa_family a = AF_INET6")
  case True
  have ip: "length (sin6_addr a) = 16"
    using assms(2) by (simp add: wf_addr_def)
  let ?y = "xaddr6 x mc tid (sin6_addr a)"
  have "x \<Longrightarrow> map (\<lambda>i. ?y ! i XOR byte_of i (nswap32 mc)) [0..<4]
         @ map (\<lambda>i. ?y ! (i + 4) XOR tid ! i) [0..<12] = sin6_addr a"
    using xaddr6_split [of ?y tid mc] ip assms(1) by simp
  moreover have "xport x mc (sin_port a) XOR nswap16 (ucast (drop_bit 16 mc)) = sin_port a" if x
    using that xport_xport [of x mc "sin_port a"] by (simp add: xport_def)
  ultimately show ?thesis
    using True ip assms(1)
    by (cases x) (simp_all add: stun_addr_decode_def enc_addr_def rd8_def rd16_def rdn_def bytes16_def
        byte_simps xaddr6_plain xport_def)
next
  case False
  have "xport x mc (sin_port a) XOR nswap16 (ucast (drop_bit 16 mc)) = sin_port a" if x
    using that xport_xport [of x mc "sin_port a"] by (simp add: xport_def)
  moreover have "xaddr4 x mc (sin_addr a) XOR nswap32 mc = sin_addr a" if x
    using that xaddr4_xaddr4 [of x mc "sin_addr a"] by (simp add: xaddr4_def)
  ultimately show ?thesis
    using False
    by (cases x) (simp_all add: stun_addr_decode_def enc_addr_def rd8_def rd16_def rd32_def
        bytes16_def bytes32_def byte_simps xport_def xaddr4_def)
qed

text \<open>C3: Round trip of the address codec, plain and XOR-ed, IPv4 and IPv6: decoding what was
  encoded succeeds and gives the same address and port, for every cookie and transaction
  identifier.  A zeroed address (family 0) comes back as IPv4.\<close>

theorem addr_codec_roundtrip:
  assumes "20 \<le> length cfield" and "length tid = 12" and "wf_addr a"
    and "sa_family a = 0 \<or> inet_addr a"
  shows "\<exists>b n c. stun_addr_encode (Some a) cfield clen x mc tid = Some (0, b, n)
    \<and> stun_addr_decode (Some zero_addr) b n x mc tid = Some (0, Some c)
    \<and> wf_addr c \<and> addr_eq (Some c) (Some (norm_addr a))"
proof -
  have "addr_eq (Some (if sa_family a = AF_INET6
      then zero_addr\<lparr>sa_family := AF_INET6, sin_port := sin_port a, sin6_addr := sin6_addr a\<rparr>
      else zero_addr\<lparr>sa_family := AF_INET, sin_port := sin_port a, sin_addr := sin_addr a\<rparr>))
      (Some (norm_addr a))"
    using assms(4) by (auto simp: addr_eq_def norm_addr_def inet_addr_def)
  moreover have "wf_addr (if sa_family a = AF_INET6
      then zero_addr\<lparr>sa_family := AF_INET6, sin_port := sin_port a, sin6_addr := sin6_addr a\<rparr>
      else zero_addr\<lparr>sa_family := AF_INET, sin_port := sin_port a, sin_addr := sin_addr a\<rparr>)"
    using assms(3) by (simp add: wf_addr_def zero_addr_def)
  ultimately show ?thesis
    using encode_bytes [OF assms] decode_bytes [OF assms(2-4), of zero_addr x mc] by simp
qed

theorem addr_codec_roundtrip_witness:
  "\<exists>b n c. stun_addr_encode (Some (sample6 [1, 2, 3, 4, 5, 6, 7, 8, 9, 10, 11, 12, 13, 14, 15, 16] 80))
       (replicate 64 0) 0 True 0x2112A442 [1, 2, 3, 4, 5, 6, 7, 8, 9, 10, 11, 12] = Some (0, b, n)
    \<and> stun_addr_decode (Some zero_addr) b n True 0x2112A442 [1, 2, 3, 4, 5, 6, 7, 8, 9, 10, 11, 12]
        = Some (0, Some c)"
  using addr_codec_roundtrip [of "replicate 64 0" "[1, 2, 3, 4, 5, 6, 7, 8, 9, 10, 11, 12]"
      "sample6 [1, 2, 3, 4, 5, 6, 7, 8, 9, 10, 11, 12, 13, 14, 15, 16] 80" 0 True "0x2112A442"]
  by (auto simp: sample6_def wf_addr_def inet_addr_def)

end
