(* ===== verification/Stun_Attr.thy ===== *)
theory Stun_Attr
  imports Stun_Header Msg_Addr
begin

text \<open>
  STUN attributes: the ATTR section of \<open>client/ns_turn_msg.c\<close> (reading, iterating, appending, the
  typed attributes).

  A \<open>stun_attr_ref\<close> is a pointer into the message: here the offset of the attribute in \<open>buf\<close>,
  \<open>None\<close> for NULL.  The three \<open>while(attr)\<close> loops of the file share the shape
  ``inspect, else go to the next attribute'' and are instances of one terminating loop.

  The specification of the whole section is the list of attributes \<open>parse_attrs\<close> of the bytes after
  the header: every accessor is related to that list, and \<open>stun_attr_add_str\<close> appends to it.
\<close>

subsection \<open>Attribute types\<close>

abbreviation STUN_ATTRIBUTE_MAPPED_ADDRESS :: u16 where "STUN_ATTRIBUTE_MAPPED_ADDRESS \<equiv> 0x0001"
abbreviation OLD_STUN_ATTRIBUTE_RESPONSE_ADDRESS :: u16 where "OLD_STUN_ATTRIBUTE_RESPONSE_ADDRESS \<equiv> 0x0002"
abbreviation STUN_ATTRIBUTE_CHANGE_REQUEST :: u16 where "STUN_ATTRIBUTE_CHANGE_REQUEST \<equiv> 0x0003"
abbreviation OLD_STUN_ATTRIBUTE_SOURCE_ADDRESS :: u16 where "OLD_STUN_ATTRIBUTE_SOURCE_ADDRESS \<equiv> 0x0004"
abbreviation OLD_STUN_ATTRIBUTE_CHANGED_ADDRESS :: u16 where "OLD_STUN_ATTRIBUTE_CHANGED_ADDRESS \<equiv> 0x0005"
abbreviation STUN_ATTRIBUTE_USERNAME :: u16 where "STUN_ATTRIBUTE_USERNAME \<equiv> 0x0006"
abbreviation STUN_ATTRIBUTE_MESSAGE_INTEGRITY :: u16 where "STUN_ATTRIBUTE_MESSAGE_INTEGRITY \<equiv> 0x0008"
abbreviation STUN_ATTRIBUTE_ERROR_CODE :: u16 where "STUN_ATTRIBUTE_ERROR_CODE \<equiv> 0x0009"
abbreviation OLD_STUN_ATTRIBUTE_REFLECTED_FROM :: u16 where "OLD_STUN_ATTRIBUTE_REFLECTED_FROM \<equiv> 0x000B"
abbreviation STUN_ATTRIBUTE_CHANNEL_NUMBER :: u16 where "STUN_ATTRIBUTE_CHANNEL_NUMBER \<equiv> 0x000C"
abbreviation STUN_ATTRIBUTE_LIFETIME :: u16 where "STUN_ATTRIBUTE_LIFETIME \<equiv> 0x000D"
abbreviation STUN_ATTRIBUTE_XOR_PEER_ADDRESS :: u16 where "STUN_ATTRIBUTE_XOR_PEER_ADDRESS \<equiv> 0x0012"
abbreviation STUN_ATTRIBUTE_DATA :: u16 where "STUN_ATTRIBUTE_DATA \<equiv> 0x0013"
abbreviation STUN_ATTRIBUTE_REALM :: u16 where "STUN_ATTRIBUTE_REALM \<equiv> 0x0014"
abbreviation STUN_ATTRIBUTE_NONCE :: u16 where "STUN_ATTRIBUTE_NONCE \<equiv> 0x0015"
abbreviation STUN_ATTRIBUTE_XOR_RELAYED_ADDRESS :: u16 where "STUN_ATTRIBUTE_XOR_RELAYED_ADDRESS \<equiv> 0x0016"
abbreviation STUN_ATTRIBUTE_REQUESTED_ADDRESS_FAMILY :: u16 where "STUN_ATTRIBUTE_REQUESTED_ADDRESS_FAMILY \<equiv> 0x0017"
abbreviation STUN_ATTRIBUTE_EVEN_PORT :: u16 where "STUN_ATTRIBUTE_EVEN_PORT \<equiv> 0x0018"
abbreviation STUN_ATTRIBUTE_REQUESTED_TRANSPORT :: u16 where "STUN_ATTRIBUTE_REQUESTED_TRANSPORT \<equiv> 0x0019"
abbreviation STUN_ATTRIBUTE_OAUTH_ACCESS_TOKEN :: u16 where "STUN_ATTRIBUTE_OAUTH_ACCESS_TOKEN \<equiv> 0x001B"
abbreviation STUN_ATTRIBUTE_XOR_MAPPED_ADDRESS :: u16 where "STUN_ATTRIBUTE_XOR_MAPPED_ADDRESS \<equiv> 0x0020"
abbreviation STUN_ATTRIBUTE_RESERVATION_TOKEN :: u16 where "STUN_ATTRIBUTE_RESERVATION_TOKEN \<equiv> 0x0022"
abbreviation STUN_ATTRIBUTE_PADDING :: u16 where "STUN_ATTRIBUTE_PADDING \<equiv> 0x0026"
abbreviation STUN_ATTRIBUTE_RESPONSE_PORT :: u16 where "STUN_ATTRIBUTE_RESPONSE_PORT \<equiv> 0x0027"
abbreviation STUN_ATTRIBUTE_CONNECTION_ID :: u16 where "STUN_ATTRIBUTE_CONNECTION_ID \<equiv> 0x002A"
abbreviation STUN_ATTRIBUTE_NEW_BANDWIDTH :: u16 where "STUN_ATTRIBUTE_NEW_BANDWIDTH \<equiv> 0x8010"
abbreviation STUN_ATTRIBUTE_ALTERNATE_SERVER :: u16 where "STUN_ATTRIBUTE_ALTERNATE_SERVER \<equiv> 0x8023"
abbreviation STUN_ATTRIBUTE_FINGERPRINT :: u16 where "STUN_ATTRIBUTE_FINGERPRINT \<equiv> 0x8028"
abbreviation STUN_ATTRIBUTE_RESPONSE_ORIGIN :: u16 where "STUN_ATTRIBUTE_RESPONSE_ORIGIN \<equiv> 0x802B"
abbreviation STUN_ATTRIBUTE_OTHER_ADDRESS :: u16 where "STUN_ATTRIBUTE_OTHER_ADDRESS \<equiv> 0x802C"
abbreviation STUN_ATTRIBUTE_THIRD_PARTY_AUTHORIZATION :: u16 where "STUN_ATTRIBUTE_THIRD_PARTY_AUTHORIZATION \<equiv> 0x802E"
abbreviation STUN_ATTRIBUTE_ORIGIN :: u16 where "STUN_ATTRIBUTE_ORIGIN \<equiv> 0x802F"
abbreviation STUN_ATTRIBUTE_MOBILITY_TICKET :: u16 where "STUN_ATTRIBUTE_MOBILITY_TICKET \<equiv> 0x8030"
abbreviation STUN_ATTRIBUTE_ADDITIONAL_ADDRESS_FAMILY :: u16 where "STUN_ATTRIBUTE_ADDITIONAL_ADDRESS_FAMILY \<equiv> 0x8032"
abbreviation STUN_ATTRIBUTE_ADDRESS_ERROR_CODE :: u16 where "STUN_ATTRIBUTE_ADDRESS_ERROR_CODE \<equiv> 0x8033"

subsection \<open>Reading one attribute\<close>

type_synonym attr_ref = "nat option"

definition stun_attr_get_type :: "mem \<Rightarrow> attr_ref \<Rightarrow> int option" where
  "stun_attr_get_type buf attr = (case attr of
     Some p \<Rightarrow> do { w \<leftarrow> rd16 buf p; Some (uint (nswap16 w)) }
   | None \<Rightarrow> Some (-1))"

definition stun_attr_get_len :: "mem \<Rightarrow> attr_ref \<Rightarrow> int option" where
  "stun_attr_get_len buf attr = (case attr of
     Some p \<Rightarrow> do { w \<leftarrow> rd16 buf (p + 2); Some (uint (nswap16 w)) }
   | None \<Rightarrow> Some (-1))"

definition stun_attr_get_value :: "mem \<Rightarrow> attr_ref \<Rightarrow> nat option option" where
  "stun_attr_get_value buf attr = (case attr of
     Some p \<Rightarrow> do {
       w \<leftarrow> rd16 buf (p + 2);
       let len = uint (nswap16 w);
       if len < 1 then Some None else Some (Some (p + 4)) }
   | None \<Rightarrow> Some None)"

definition stun_get_requested_address_family :: "mem \<Rightarrow> attr_ref \<Rightarrow> int option" where
  "stun_get_requested_address_family buf attr = (case attr of
     Some p \<Rightarrow> do {
       w \<leftarrow> rd16 buf (p + 2);
       let len = uint (nswap16 w);
       if len \<noteq> 4 then Some (-1)
       else do {
         val \<leftarrow> rd8 buf (p + 4);
         if val = 0x01 then Some (uint val)
         else if val = 0x02 then Some (uint val)
         else Some (-1) } }
   | None \<Rightarrow> Some 0)"

definition stun_attr_get_channel_number :: "mem \<Rightarrow> attr_ref \<Rightarrow> u16 option" where
  "stun_attr_get_channel_number buf attr = (case attr of
     Some p \<Rightarrow> do {
       value \<leftarrow> stun_attr_get_value buf (Some p);
       len \<leftarrow> stun_attr_get_len buf (Some p);
       case value of
         Some v \<Rightarrow> if len \<ge> 2 then do {
             w \<leftarrow> rd16 buf v;
             let cn = nswap16 w;
             if STUN_VALID_CHANNEL cn then Some cn else Some 0 }
           else Some 0
       | None \<Rightarrow> Some 0 }
   | None \<Rightarrow> Some 0)"

text \<open>\<open>band_limit_t\<close> is \<open>unsigned long\<close>; the shift \<open>bps << 7\<close> happens in 32 bits.\<close>

definition stun_attr_get_bandwidth :: "mem \<Rightarrow> attr_ref \<Rightarrow> u64 option" where
  "stun_attr_get_bandwidth buf attr = (case attr of
     Some p \<Rightarrow> do {
       value \<leftarrow> stun_attr_get_value buf (Some p);
       len \<leftarrow> stun_attr_get_len buf (Some p);
       case value of
         Some v \<Rightarrow> if len \<ge> 4 then do {
             w \<leftarrow> rd32 buf v;
             let bps = nswap32 w;
             Some (ucast (push_bit 7 bps :: u32)) }
           else Some 0
       | None \<Rightarrow> Some 0 }
   | None \<Rightarrow> Some 0)"

definition stun_attr_get_reservation_token_value :: "mem \<Rightarrow> attr_ref \<Rightarrow> u64 option" where
  "stun_attr_get_reservation_token_value buf attr = (case attr of
     Some p \<Rightarrow> do {
       value \<leftarrow> stun_attr_get_value buf (Some p);
       len \<leftarrow> stun_attr_get_len buf (Some p);
       case value of
         Some v \<Rightarrow> if len = 8 then do {
             bs \<leftarrow> rdn buf v 8;
             Some (nswap64 (le64_at bs 0)) }
           else Some 0
       | None \<Rightarrow> Some 0 }
   | None \<Rightarrow> Some 0)"

definition addr_attr_types :: "u16 list" where
  "addr_attr_types = [STUN_ATTRIBUTE_XOR_MAPPED_ADDRESS, STUN_ATTRIBUTE_XOR_PEER_ADDRESS,
     STUN_ATTRIBUTE_XOR_RELAYED_ADDRESS, STUN_ATTRIBUTE_MAPPED_ADDRESS,
     STUN_ATTRIBUTE_ALTERNATE_SERVER, OLD_STUN_ATTRIBUTE_RESPONSE_ADDRESS,
     OLD_STUN_ATTRIBUTE_SOURCE_ADDRESS, OLD_STUN_ATTRIBUTE_CHANGED_ADDRESS,
     OLD_STUN_ATTRIBUTE_REFLECTED_FROM, STUN_ATTRIBUTE_RESPONSE_ORIGIN,
     STUN_ATTRIBUTE_OTHER_ADDRESS]"

definition stun_attr_is_addr :: "mem \<Rightarrow> attr_ref \<Rightarrow> bool option" where
  "stun_attr_is_addr buf attr = (case attr of
     Some p \<Rightarrow> do {
       t \<leftarrow> stun_attr_get_type buf (Some p);
       Some (t \<in> set (map uint addr_attr_types)) }
   | None \<Rightarrow> Some False)"

definition stun_attr_get_even_port :: "mem \<Rightarrow> attr_ref \<Rightarrow> u8 option" where
  "stun_attr_get_even_port buf attr = (case attr of
     Some p \<Rightarrow> do {
       value \<leftarrow> stun_attr_get_value buf (Some p);
       case value of
         Some v \<Rightarrow> do { b \<leftarrow> rd8 buf v; if b > 0x7F then Some 1 else Some 0 }
       | None \<Rightarrow> Some 0 }
   | None \<Rightarrow> Some 0)"

subsection \<open>Iterating\<close>

text \<open>Rounding an attribute length up to the next multiple of four, as done in three places.\<close>

definition pad4 :: "nat \<Rightarrow> nat" where
  "pad4 attrlen = (let rem4 = attrlen mod 4 in if rem4 \<noteq> 0 then attrlen + 4 - rem4 else attrlen)"

definition stun_attr_check_valid :: "mem \<Rightarrow> nat \<Rightarrow> nat \<Rightarrow> attr_ref option" where
  "stun_attr_check_valid buf attr remaining =
     (if remaining \<ge> 4 then do {
        l \<leftarrow> stun_attr_get_len buf (Some attr);
        let attrlen = pad4 (nat l);
        if attrlen \<le> remaining - 4 then Some (Some attr) else Some None }
      else Some None)"

definition stun_attr_get_first_str :: "mem \<Rightarrow> nat \<Rightarrow> attr_ref option" where
  "stun_attr_get_first_str buf len = do {
     bufLen \<leftarrow> stun_get_command_message_len_str buf len;
     if bufLen > 20 then stun_attr_check_valid buf 20 (nat (bufLen - 20)) else Some None }"

definition stun_attr_get_next_str :: "mem \<Rightarrow> nat \<Rightarrow> attr_ref \<Rightarrow> attr_ref option" where
  "stun_attr_get_next_str buf len prev = (case prev of
     None \<Rightarrow> stun_attr_get_first_str buf len
   | Some p \<Rightarrow> do {
       e \<leftarrow> stun_get_command_message_len_str buf len;
       l \<leftarrow> stun_attr_get_len buf (Some p);
       let attrlen = pad4 (nat l);
       if int attrlen < e - int p - 4 then do {
         let attr_end = p + 4 + attrlen;
         stun_attr_check_valid buf attr_end (nat (e - int attr_end)) }
       else Some None })"

lemma command_len_bound:
  assumes "stun_get_command_message_len_str buf len = Some e"
  shows "e < 65556" and "e \<le> int len"
proof -
  from assms consider "e = -1" | y where "e = int (unat (nswap16 y) + 20)" "unat (nswap16 y) + 20 \<le> len"
    by (auto simp: stun_get_command_message_len_str_def bind_eq_Some_conv Let_def not_less
        split: if_splits)
  then have "e < 65556 \<and> e \<le> int len"
  proof cases
    case (2 y)
    then show ?thesis
      using unat_u16_less [of "nswap16 y"] by linarith
  qed simp
  then show "e < 65556" and "e \<le> int len" by simp_all
qed

lemma attr_next_increases:
  assumes "stun_attr_get_next_str buf len (Some p) = Some (Some q)"
  shows "p < q" and "q < 65556"
proof -
  from assms obtain e l where e: "stun_get_command_message_len_str buf len = Some e"
    and q: "q = p + 4 + pad4 (nat l)" and lt: "int (pad4 (nat l)) < e - int p - 4"
    by (auto simp: stun_attr_get_next_str_def stun_attr_check_valid_def bind_eq_Some_conv Let_def
        split: if_splits)
  show "p < q" using q by simp
  show "q < 65556" using q lt command_len_bound(1) [OF e] by simp
qed

lemma attr_next_measure:
  "stun_attr_get_next_str buf len (Some p) = Some (Some q) \<Longrightarrow> 65557 - q < 65557 - p"
  using attr_next_increases [of buf len p q] by simp

text \<open>
  \<open>while(attr) { body; attr = stun_attr_get_next_str(buf,len,attr); }\<close> where \<open>body\<close> may return a
  value from the function (\<open>Some (Some r)\<close>) or fall through (\<open>Some None\<close>).
\<close>

function attr_scan ::
    "mem \<Rightarrow> nat \<Rightarrow> (nat \<Rightarrow> 'a option option) \<Rightarrow> attr_ref \<Rightarrow> 'a option option" where
  "attr_scan buf len body None = Some None"
| "attr_scan buf len body (Some p) =
     (case body p of
        None \<Rightarrow> None
      | Some (Some r) \<Rightarrow> Some (Some r)
      | Some None \<Rightarrow>
          (case stun_attr_get_next_str buf len (Some p) of
             None \<Rightarrow> None
           | Some attr \<Rightarrow> attr_scan buf len body attr))"
  by pat_completeness auto
termination
  by (relation "measure (\<lambda>(buf, len, body, attr). case attr of None \<Rightarrow> 0
      | Some p \<Rightarrow> Suc (65557 - p))")
     (auto split: option.splits dest: attr_next_measure)

definition stun_attr_get_first_by_type_str :: "mem \<Rightarrow> nat \<Rightarrow> u16 \<Rightarrow> attr_ref option" where
  "stun_attr_get_first_by_type_str buf len attr_type = do {
     attr \<leftarrow> stun_attr_get_first_str buf len;
     attr_scan buf len (\<lambda>p. do {
       t \<leftarrow> stun_attr_get_type buf (Some p);
       if t = uint attr_type then Some (Some p) else Some None }) attr }"

definition stun_attr_get_first_channel_number_str :: "mem \<Rightarrow> nat \<Rightarrow> u16 option" where
  "stun_attr_get_first_channel_number_str buf len = do {
     attr \<leftarrow> stun_attr_get_first_str buf len;
     r \<leftarrow> attr_scan buf len (\<lambda>p. do {
       t \<leftarrow> stun_attr_get_type buf (Some p);
       if t = uint STUN_ATTRIBUTE_CHANNEL_NUMBER then do {
         ret \<leftarrow> stun_attr_get_channel_number buf (Some p);
         if STUN_VALID_CHANNEL ret then Some (Some ret) else Some None }
       else Some None }) attr;
     Some (case r of Some ret \<Rightarrow> ret | None \<Rightarrow> 0) }"

subsection \<open>Appending\<close>

text \<open>
  \<open>avalue\<close> is the array behind the value pointer, \<open>None\<close> for NULL.  When the buffer holds no
  complete message, \<open>clen\<close> is -1 and the attribute would be written in front of the array.
\<close>

definition stun_attr_add_str ::
    "mem \<Rightarrow> nat \<Rightarrow> u16 \<Rightarrow> mem option \<Rightarrow> int \<Rightarrow> (int \<times> mem \<times> nat) option" where
  "stun_attr_add_str buf len attr avalue alen0 = do {
     let alen = (if avalue = None then 0 else if alen0 < 0 then 0 else alen0);
     clen \<leftarrow> stun_get_command_message_len_str buf len;
     newlen0 \<leftarrow> c_int (clen + 4 + alen);
     let newlenrem4 = newlen0 mod 4;
     newlen \<leftarrow> c_int (if newlenrem4 \<noteq> 0 then newlen0 + (4 - newlenrem4) else newlen0);
     if newlen \<ge> MAX_STUN_MESSAGE_SIZE then Some (-1, buf, len)
     else if clen < 0 then None
     else do {
       (_, b) \<leftarrow> stun_set_command_message_len_str buf newlen;
       b \<leftarrow> wr16 b (nat clen) (nswap16 attr);
       b \<leftarrow> wr16 b (nat clen + 2) (nswap16 (word_of_int alen));
       b \<leftarrow> (case avalue of
              Some v \<Rightarrow> if alen > 0 then do { bs \<leftarrow> rdn v 0 (nat alen); wrn b (nat clen + 4) bs } else Some b
            | None \<Rightarrow> Some b);
       Some (0, b, nat newlen) } }"

subsection \<open>The list of attributes\<close>

definition attr_len :: "mem \<Rightarrow> nat" where
  "attr_len r = unat (le16 (r ! 3) (r ! 2))"

text \<open>The type-length-value format of RFC 5389: the attributes encoded by the bytes \<open>r\<close>.\<close>

fun parse_attrs :: "mem \<Rightarrow> (u16 \<times> mem) list" where
  "parse_attrs r =
     (if 4 \<le> length r \<and> 4 + pad4 (attr_len r) \<le> length r
      then (le16 (r ! 1) (r ! 0), take (attr_len r) (drop 4 r))
           # parse_attrs (drop (4 + pad4 (attr_len r)) r)
      else [])"

declare parse_attrs.simps [simp del]

text \<open>The attributes of a message: those of the bytes the length field covers.\<close>

definition attrs_of :: "mem \<Rightarrow> nat \<Rightarrow> (u16 \<times> mem) list" where
  "attrs_of buf len =
     (let n = unat (le16 (buf ! 3) (buf ! 2))
      in if 20 \<le> len \<and> 20 + n \<le> len then parse_attrs (take n (drop 20 buf)) else [])"

text \<open>The attribute at an offset, as the accessors see it.\<close>

definition attr_at :: "mem \<Rightarrow> nat \<Rightarrow> u16 \<times> mem" where
  "attr_at buf p = (le16 (buf ! (p + 1)) (buf ! p),
     take (unat (le16 (buf ! (p + 3)) (buf ! (p + 2)))) (drop (p + 4) buf))"

text \<open>Offsets of the attributes, the first at \<open>p\<close>, in the bytes \<open>r\<close>.\<close>

function attr_offsets :: "nat \<Rightarrow> mem \<Rightarrow> nat list" where
  "attr_offsets p r =
     (if 4 \<le> length r \<and> 4 + pad4 (attr_len r) \<le> length r
      then p # attr_offsets (p + 4 + pad4 (attr_len r)) (drop (4 + pad4 (attr_len r)) r)
      else [])"
  by pat_completeness auto
termination
  by (relation "measure (\<lambda>(p, r). length r)") auto

declare attr_offsets.simps [simp del]

text \<open>What scanning a list of offsets with a loop body computes.\<close>

fun scan_list :: "(nat \<Rightarrow> 'a option option) \<Rightarrow> nat list \<Rightarrow> 'a option option" where
  "scan_list body [] = Some None"
| "scan_list body (p # ps) = (case body p of
     None \<Rightarrow> None | Some (Some r) \<Rightarrow> Some (Some r) | Some None \<Rightarrow> scan_list body ps)"

lemma pad4_bounds: "n \<le> pad4 n" "pad4 n < n + 4" "pad4 n mod 4 = 0"
proof -
  show "n \<le> pad4 n" "pad4 n < n + 4"
    by (auto simp: pad4_def Let_def)
  show "pad4 n mod 4 = 0"
    by (auto simp: pad4_def Let_def) presburger
qed

text \<open>A sub-range of the message that ends where the length field says.\<close>

definition region :: "mem \<Rightarrow> nat \<Rightarrow> nat \<Rightarrow> mem" where
  "region buf p e = take (e - p) (drop p buf)"

lemma length_region [simp]: "e \<le> length buf \<Longrightarrow> length (region buf p e) = e - p"
  by (simp add: region_def)

lemma region_nth:
  "e \<le> length buf \<Longrightarrow> p + i < e \<Longrightarrow> region buf p e ! i = buf ! (p + i)"
  by (simp add: region_def)

lemma drop_region: "drop k (region buf p e) = region buf (p + k) e"
  by (simp add: region_def drop_take add.commute)

lemma attr_len_region:
  "e \<le> length buf \<Longrightarrow> p + 4 \<le> e \<Longrightarrow>
   attr_len (region buf p e) = unat (le16 (buf ! (p + 3)) (buf ! (p + 2)))"
  by (simp add: attr_len_def region_nth)

lemma get_len_Some:
  "p + 4 \<le> length buf \<Longrightarrow>
   stun_attr_get_len buf (Some p) = Some (int (unat (le16 (buf ! (p + 3)) (buf ! (p + 2)))))"
  by (simp add: stun_attr_get_len_def rd16_def byte_simps add.commute numeral_eq_Suc)

lemma get_type_Some:
  "p + 4 \<le> length buf \<Longrightarrow>
   stun_attr_get_type buf (Some p) = Some (uint (fst (attr_at buf p)))"
  by (simp add: stun_attr_get_type_def rd16_def byte_simps attr_at_def)

lemma get_value_of_len:
  "stun_attr_get_len buf (Some p) = Some l \<Longrightarrow>
   stun_attr_get_value buf (Some p) = Some (if l < 1 then None else Some (p + 4))"
  unfolding stun_attr_get_len_def stun_attr_get_value_def by (cases "rd16 buf (p + 2)") auto

text \<open>An offset holds a whole attribute of the message that ends at \<open>e\<close>.\<close>

definition attr_fits :: "mem \<Rightarrow> nat \<Rightarrow> nat \<Rightarrow> bool" where
  "attr_fits buf e p \<longleftrightarrow> p + 4 \<le> e \<and> p + 4 + pad4 (attr_len (region buf p e)) \<le> e"

lemma check_valid_region:
  assumes "e \<le> length buf" and "p \<le> e"
  shows "stun_attr_check_valid buf p (e - p) = Some (if attr_fits buf e p then Some p else None)"
proof (cases "p + 4 \<le> e")
  case True
  with assms show ?thesis
    by (auto simp: stun_attr_check_valid_def get_len_Some attr_fits_def attr_len_region)
next
  case False
  with assms show ?thesis
    by (auto simp: stun_attr_check_valid_def attr_fits_def)
qed

lemma offsets_region:
  assumes "e \<le> length buf"
  shows "attr_offsets p (region buf p e) =
    (if attr_fits buf e p
     then p # attr_offsets (p + 4 + pad4 (attr_len (region buf p e)))
            (region buf (p + 4 + pad4 (attr_len (region buf p e))) e)
     else [])"
  using assms
  by (subst attr_offsets.simps) (auto simp: attr_fits_def drop_region add.assoc add.left_commute)

lemma parse_region:
  assumes "e \<le> length buf"
  shows "parse_attrs (region buf p e) =
    (if attr_fits buf e p
     then attr_at buf p # parse_attrs (region buf (p + 4 + pad4 (attr_len (region buf p e))) e)
     else [])"
proof (cases "attr_fits buf e p")
  case True
  let ?n = "attr_len (region buf p e)"
  have fits: "p + 4 \<le> e" "p + 4 + ?n \<le> e"
    using True pad4_bounds(1) [of ?n] by (auto simp: attr_fits_def)
  have "take ?n (drop 4 (region buf p e)) = take ?n (drop (p + 4) buf)"
    using fits by (simp add: region_def drop_take add.commute)
  then have "(le16 (region buf p e ! 1) (region buf p e ! 0), take ?n (drop 4 (region buf p e)))
      = attr_at buf p"
    using assms fits by (simp add: attr_at_def region_nth attr_len_region)
  with True assms show ?thesis
    by (subst parse_attrs.simps) (auto simp: attr_fits_def drop_region add.assoc)
next
  case False
  with assms show ?thesis
    by (subst parse_attrs.simps) (auto simp: attr_fits_def)
qed

lemma parse_offsets:
  assumes "e \<le> length buf"
  shows "parse_attrs (region buf p e) = map (attr_at buf) (attr_offsets p (region buf p e))"
proof (induction "e - p" arbitrary: p rule: less_induct)
  case less
  let ?q = "p + 4 + pad4 (attr_len (region buf p e))"
  show ?case
  proof (cases "attr_fits buf e p")
    case True
    then have "e - ?q < e - p"
      by (auto simp: attr_fits_def)
    then show ?thesis
      using True less [of ?q] by (simp add: parse_region [OF assms, of p] offsets_region [OF assms, of p])
  next
    case False
    then show ?thesis
      by (simp add: parse_region [OF assms, of p] offsets_region [OF assms, of p])
  qed
qed

lemma offsets_fit:
  assumes "e \<le> length buf" and "q \<in> set (attr_offsets p (region buf p e))"
  shows "attr_fits buf e q \<and> p \<le> q"
  using assms(2)
proof (induction "e - p" arbitrary: p rule: less_induct)
  case less
  let ?q = "p + 4 + pad4 (attr_len (region buf p e))"
  have fits: "attr_fits buf e p"
    using less.prems by (auto simp: offsets_region [OF assms(1), of p] split: if_splits)
  then have "e - ?q < e - p"
    by (auto simp: attr_fits_def)
  moreover have "q = p \<or> q \<in> set (attr_offsets ?q (region buf ?q e))"
    using less.prems fits by (simp add: offsets_region [OF assms(1), of p])
  ultimately show ?case
    using less.hyps [of ?q] fits by auto
qed

subsection \<open>The loops visit exactly the list\<close>

lemma next_region:
  assumes "stun_get_command_message_len_str buf len = Some (int e)" and "e \<le> length buf"
    and "attr_fits buf e p"
  shows "stun_attr_get_next_str buf len (Some p) =
    (let q = p + 4 + pad4 (attr_len (region buf p e))
     in Some (if attr_fits buf e q then Some q else None))"
proof -
  let ?n = "pad4 (attr_len (region buf p e))"
  let ?q = "p + 4 + ?n"
  have p: "p + 4 \<le> e" and q: "?q \<le> e"
    using assms(3) by (auto simp: attr_fits_def)
  have l: "stun_attr_get_len buf (Some p) = Some (int (attr_len (region buf p e)))"
    using assms(2) p by (simp add: get_len_Some attr_len_region)
  show ?thesis
  proof (cases "?q < e")
    case True
    then have "int ?n < int e - int p - 4" and "nat (int e - int ?q) = e - ?q"
      by linarith+
    with q show ?thesis
      by (simp add: stun_attr_get_next_str_def assms(1) l check_valid_region [OF assms(2)] Let_def)
  next
    case False
    then have "\<not> int ?n < int e - int p - 4" and "\<not> attr_fits buf e ?q"
      by (auto simp: attr_fits_def)
    then show ?thesis
      by (simp add: stun_attr_get_next_str_def assms(1) l Let_def)
  qed
qed

lemma attr_scan_region:
  assumes "stun_get_command_message_len_str buf len = Some (int e)" and "e \<le> length buf"
  shows "attr_scan buf len body (if attr_fits buf e p then Some p else None) =
    scan_list body (attr_offsets p (region buf p e))"
proof (induction "e - p" arbitrary: p rule: less_induct)
  case less
  let ?q = "p + 4 + pad4 (attr_len (region buf p e))"
  show ?case
  proof (cases "attr_fits buf e p")
    case True
    then have "e - ?q < e - p"
      by (auto simp: attr_fits_def)
    then have ih: "attr_scan buf len body (if attr_fits buf e ?q then Some ?q else None) =
        scan_list body (attr_offsets ?q (region buf ?q e))"
      by (rule less)
    have nxt: "stun_attr_get_next_str buf len (Some p) =
        Some (if attr_fits buf e ?q then Some ?q else None)"
      using next_region [OF assms True] by (simp add: Let_def)
    show ?thesis
      by (simp only: True if_True attr_scan.simps nxt option.case ih
          offsets_region [OF assms(2), of p] scan_list.simps)
  next
    case False
    then show ?thesis
      by (simp add: offsets_region [OF assms(2), of p])
  qed
qed

lemma first_str_region:
  assumes "stun_get_command_message_len_str buf len = Some (int e)" and "e \<le> length buf" and "20 \<le> e"
  shows "stun_attr_get_first_str buf len = Some (if attr_fits buf e 20 then Some 20 else None)"
proof (cases "e = 20")
  case True
  then show ?thesis
    by (simp add: stun_attr_get_first_str_def assms(1) attr_fits_def)
next
  case False
  then have "20 < int e" and "nat (int e - 20) = e - 20"
    using assms(3) by linarith+
  then show ?thesis
    by (simp only: stun_attr_get_first_str_def assms(1) bind.bind_lunit if_True
        check_valid_region [OF assms(2,3)])
qed

definition message_offsets :: "mem \<Rightarrow> nat \<Rightarrow> nat list" where
  "message_offsets buf len =
     (let n = unat (le16 (buf ! 3) (buf ! 2))
      in if 20 \<le> len \<and> 20 + n \<le> len then attr_offsets 20 (region buf 20 (20 + n)) else [])"

lemma command_len_eq:
  assumes "len \<le> length buf"
  shows "stun_get_command_message_len_str buf len =
    (let n = unat (le16 (buf ! 3) (buf ! 2))
     in Some (if 20 \<le> len \<and> 20 + n \<le> len then int (20 + n) else -1))"
  using assms
  by (auto simp: stun_get_command_message_len_str_def rd16_def byte_simps Let_def)

lemma attrs_of_offsets:
  "len \<le> length buf \<Longrightarrow> attrs_of buf len = map (attr_at buf) (message_offsets buf len)"
  using parse_offsets [of "20 + unat (le16 (buf ! 3) (buf ! 2))" buf 20]
  by (simp add: attrs_of_def message_offsets_def Let_def region_def)

lemma message_offsets_in:
  assumes "len \<le> length buf" and "p \<in> set (message_offsets buf len)"
  shows "20 \<le> p" and "p + 4 + length (snd (attr_at buf p)) \<le> len"
    and "snd (attr_at buf p) = take (nat (the (stun_attr_get_len buf (Some p)))) (drop (p + 4) buf)"
    and "length (snd (attr_at buf p)) = nat (the (stun_attr_get_len buf (Some p)))"
proof -
  let ?e = "20 + unat (le16 (buf ! 3) (buf ! 2))"
  have e: "?e \<le> len" "?e \<le> length buf" and p: "p \<in> set (attr_offsets 20 (region buf 20 ?e))"
    using assms by (auto simp: message_offsets_def Let_def split: if_splits)
  have fit: "attr_fits buf ?e p" and "20 \<le> p"
    using offsets_fit [OF e(2) p] by auto
  then show "20 \<le> p" by simp
  let ?n = "unat (le16 (buf ! (p + 3)) (buf ! (p + 2)))"
  have "p + 4 \<le> ?e" and "p + 4 + pad4 (attr_len (region buf p ?e)) \<le> ?e"
    using fit by (simp_all only: attr_fits_def)
  moreover from this(1) have "attr_len (region buf p ?e) = ?n"
    by (rule attr_len_region [OF e(2)])
  ultimately have n: "p + 4 + ?n \<le> ?e" and "p + 4 \<le> length buf"
    using e pad4_bounds(1) [of ?n] by simp_all
  then show "snd (attr_at buf p) = take (nat (the (stun_attr_get_len buf (Some p)))) (drop (p + 4) buf)"
    by (simp only: get_len_Some attr_at_def snd_conv option.sel nat_int)
  show "p + 4 + length (snd (attr_at buf p)) \<le> len"
    using n e by (simp add: attr_at_def)
  show "length (snd (attr_at buf p)) = nat (the (stun_attr_get_len buf (Some p)))"
    using n e \<open>p + 4 \<le> length buf\<close> by (simp only: get_len_Some) (simp add: attr_at_def)
qed

text \<open>Every scan of a message visits the attributes in order and stays inside the array.\<close>

lemma attr_scan_message:
  assumes "len \<le> length buf"
  shows "do { attr \<leftarrow> stun_attr_get_first_str buf len; attr_scan buf len body attr } =
    scan_list body (message_offsets buf len)"
proof -
  let ?n = "unat (le16 (buf ! 3) (buf ! 2))"
  show ?thesis
  proof (cases "20 \<le> len \<and> 20 + ?n \<le> len")
    case True
    then have l: "stun_get_command_message_len_str buf len = Some (int (20 + ?n))"
      and e: "20 + ?n \<le> length buf"
      using command_len_eq [OF assms] assms by (auto simp: Let_def)
    have first: "stun_attr_get_first_str buf len =
        Some (if attr_fits buf (20 + ?n) 20 then Some 20 else None)"
      by (rule first_str_region [OF l e]) simp
    show ?thesis
      using True by (simp only: first bind.bind_lunit attr_scan_region [OF l e])
        (simp add: message_offsets_def Let_def)
  next
    case False
    then have l: "stun_get_command_message_len_str buf len = Some (-1)"
      and o: "message_offsets buf len = []"
      using command_len_eq [OF assms] by (auto simp: Let_def message_offsets_def)
    then show ?thesis
      by (simp add: stun_attr_get_first_str_def)
  qed
qed

lemma scan_list_find:
  assumes "\<forall>p \<in> set ps. body p = Some (if P p then Some p else None)"
  shows "scan_list body ps = Some (find P ps)"
  using assms by (induction ps) auto

lemma find_map_option: "find P (map f xs) = map_option f (find (\<lambda>x. P (f x)) xs)"
  by (induction xs) auto

lemma first_by_type_find:
  assumes "len \<le> length buf"
  shows "stun_attr_get_first_by_type_str buf len ty =
    Some (find (\<lambda>p. fst (attr_at buf p) = ty) (message_offsets buf len))"
proof -
  have "p + 4 \<le> length buf" if "p \<in> set (message_offsets buf len)" for p
    using message_offsets_in [OF assms that] assms by simp
  then show ?thesis
    unfolding stun_attr_get_first_by_type_str_def attr_scan_message [OF assms]
    by (intro scan_list_find) (simp add: get_type_Some word_uint_eq_iff [symmetric])
qed

text \<open>C2: Looking an attribute up is memory-safe and total on any received bytes, terminates, and
  returns the first attribute of the requested type in the message's attribute list; the attribute
  found lies inside the message.\<close>

theorem first_by_type_correct:
  assumes "len \<le> length buf"
  shows "\<exists>r. stun_attr_get_first_by_type_str buf len ty = Some r
    \<and> map_option (attr_at buf) r = find (\<lambda>(t, v). t = ty) (attrs_of buf len)
    \<and> (\<forall>p. r = Some p \<longrightarrow> 20 \<le> p \<and> p + 4 + length (snd (attr_at buf p)) \<le> len)"
proof -
  let ?r = "find (\<lambda>p. fst (attr_at buf p) = ty) (message_offsets buf len)"
  have "20 \<le> p \<and> p + 4 + length (snd (attr_at buf p)) \<le> len" if "?r = Some p" for p
  proof -
    have "p \<in> set (message_offsets buf len)"
      using that by (auto simp: find_Some_iff)
    then show ?thesis
      using message_offsets_in [OF assms] by blast
  qed
  then show ?thesis
    by (intro exI [of _ ?r])
       (simp add: first_by_type_find [OF assms] attrs_of_offsets [OF assms] find_map_option
         case_prod_beta)
qed

theorem first_by_type_correct_witness:
  "let buf = header 0x0101 12 STUN_MAGIC_COOKIE (replicate 12 7) @ [0x80, 0x22, 0, 1, 65, 0, 0, 0, 0, 0x25, 0, 0]
   in \<exists>p. stun_attr_get_first_by_type_str buf 32 0x0025 = Some (Some p) \<and> attr_at buf p = (0x0025, []) \<and> p + 4 \<le> 32"
proof -
  define buf where "buf = header 0x0101 12 STUN_MAGIC_COOKIE (replicate 12 7) @ [0x80, 0x22, 0, 1, 65, 0, 0, 0, 0, 0x25, 0, 0]"
  have "attrs_of buf 32 = [(0x8022, [65]), (0x0025, [])]" and "32 \<le> length buf"
    unfolding buf_def by code_simp+
  then show ?thesis
    unfolding buf_def [symmetric] Let_def using first_by_type_correct [of 32 buf "0x0025"] by auto
qed

end
