(* ===== verification/Attr_Store.thy ===== *)
theory Attr_Store
  imports Stun_Attr
begin

text \<open>
  A message under construction as a store of attributes.

  \<open>stun_msg\<close> relates the caller's array and length to the header fields and the attribute list they
  represent.  Appending with \<open>stun_attr_add_str\<close> is shown to append to that list, to leave the header
  fields alone and to refuse a message that would reach 65507 bytes.  The locale \<open>attr_store\<close> states
  that contract for the clients that build messages attribute by attribute.
\<close>

subsection \<open>Byte sequences made of whole attributes\<close>

definition enc_attr :: "u16 \<Rightarrow> mem \<Rightarrow> mem \<Rightarrow> mem" where
  "enc_attr ty v pad = bytes16 (nswap16 ty) @ bytes16 (nswap16 (of_nat (length v))) @ v @ pad"

fun attrs_exact :: "mem \<Rightarrow> bool" where
  "attrs_exact r =
     (if 4 \<le> length r \<and> 4 + pad4 (attr_len r) \<le> length r
      then attrs_exact (drop (4 + pad4 (attr_len r)) r) else r = [])"

declare attrs_exact.simps [simp del]

lemma attrs_exact_Nil [simp]: "attrs_exact []"
  by (simp add: attrs_exact.simps)

lemma parse_attrs_Nil [simp]: "parse_attrs [] = []"
  by (simp add: parse_attrs.simps)

lemma attr_len_append: "4 \<le> length r \<Longrightarrow> attr_len (r @ s) = attr_len r"
  by (simp add: attr_len_def nth_append)

lemma exact_append:
  assumes "attrs_exact r"
  shows "parse_attrs (r @ s) = parse_attrs r @ parse_attrs s"
    and "attrs_exact s \<Longrightarrow> attrs_exact (r @ s)"
    and "length r mod 4 = 0"
proof -
  have "parse_attrs (r @ s) = parse_attrs r @ parse_attrs s \<and> (attrs_exact s \<longrightarrow> attrs_exact (r @ s))
      \<and> length r mod 4 = 0"
    using assms
  proof (induction r rule: attrs_exact.induct)
    case (1 r)
    show ?case
    proof (cases "r = []")
      case False
      let ?k = "4 + pad4 (attr_len r)"
      have le: "4 \<le> length r" "?k \<le> length r" and ex: "attrs_exact (drop ?k r)"
        using 1(2) False by (simp_all add: attrs_exact.simps [of r] split: if_splits)
      have len: "attr_len (r @ s) = attr_len r"
        using le by (simp add: attr_len_append)
      have hd: "(r @ s) ! 0 = r ! 0" "(r @ s) ! 1 = r ! 1"
        using False le(1) by (simp_all add: nth_append)
      have "attr_len r \<le> length r - 4"
        using le pad4_bounds(1) [of "attr_len r"] by linarith
      moreover have "drop ?k (r @ s) = drop ?k r @ s"
        using le by simp
      moreover note 1(1) [OF conjI [OF le] ex]
      ultimately have "parse_attrs (r @ s) = parse_attrs r @ parse_attrs s"
        and "attrs_exact s \<longrightarrow> attrs_exact (r @ s)"
        using le by (simp_all add: parse_attrs.simps [of "r @ s"] parse_attrs.simps [of r]
            attrs_exact.simps [of "r @ s"] len hd del: One_nat_def)
      moreover have "(length r - ?k) mod 4 = 0"
        using 1(1) [OF conjI [OF le] ex] by simp
      then have "length r mod 4 = 0"
        using le pad4_bounds(3) [of "attr_len r"] by presburger
      ultimately show ?thesis by blast
    qed simp
  qed
  then show "parse_attrs (r @ s) = parse_attrs r @ parse_attrs s"
    and "attrs_exact s \<Longrightarrow> attrs_exact (r @ s)" and "length r mod 4 = 0"
    by blast+
qed

lemma length_enc_attr [simp]: "length (enc_attr ty v pad) = 4 + length v + length pad"
  by (simp add: enc_attr_def)

lemma enc_attr_exact:
  assumes "length v < 65536" and "length v + length pad = pad4 (length v)"
  shows "parse_attrs (enc_attr ty v pad) = [(ty, v)]" and "attrs_exact (enc_attr ty v pad)"
proof -
  have l: "attr_len (enc_attr ty v pad) = length v"
    using assms(1)
    by (simp add: attr_len_def enc_attr_def bytes16_def byte_simps unat_of_nat)
  have "le16 (enc_attr ty v pad ! 1) (enc_attr ty v pad ! 0) = ty"
    and "drop 4 (enc_attr ty v pad) = v @ pad"
    by (simp_all add: enc_attr_def bytes16_def byte_simps)
  then show "parse_attrs (enc_attr ty v pad) = [(ty, v)]" and "attrs_exact (enc_attr ty v pad)"
    using assms(2) by (simp_all add: parse_attrs.simps [of "enc_attr ty v pad"]
        attrs_exact.simps [of "enc_attr ty v pad"] l)
qed

subsection \<open>The represented message\<close>

definition stun_msg :: "mem \<Rightarrow> nat \<Rightarrow> u16 \<Rightarrow> u32 \<Rightarrow> mem \<Rightarrow> (u16 \<times> mem) list \<Rightarrow> bool" where
  "stun_msg buf len mt ck tid as \<longleftrightarrow>
     (\<exists>r rest. buf = header mt (of_nat (length r)) ck tid @ r @ rest \<and> len = 20 + length r
        \<and> length tid = 12 \<and> len < 65507 \<and> attrs_exact r \<and> parse_attrs r = as)"

lemma stun_msgE:
  assumes "stun_msg buf len mt ck tid as"
  obtains r rest where "buf = header mt (of_nat (length r)) ck tid @ r @ rest" "len = 20 + length r"
    "length tid = 12" "length r < 65487" "attrs_exact r" "parse_attrs r = as"
    "unat (of_nat (length r) :: u16) = length r"
  using assms by (auto simp: stun_msg_def unat_of_nat)

lemma stun_msg_new:
  "length tid = 12 \<Longrightarrow> stun_msg (header mt 0 ck tid @ x) 20 mt ck tid []"
  unfolding stun_msg_def by (intro exI [of _ "[]"] exI [of _ x]) simp

lemma stun_msg_len:
  assumes "stun_msg buf len mt ck tid as"
  shows "stun_get_command_message_len_str buf len = Some (int len)" and "len \<le> length buf"
    and "20 \<le> len" and "len < 65507" and "len mod 4 = 0"
proof -
  obtain r rest where m: "buf = header mt (of_nat (length r)) ck tid @ r @ rest" "len = 20 + length r"
    "length tid = 12" "length r < 65487" "attrs_exact r" "unat (of_nat (length r) :: u16) = length r"
    using stun_msgE [OF assms] by metis
  then show "stun_get_command_message_len_str buf len = Some (int len)" and "len \<le> length buf"
    and "20 \<le> len" and "len < 65507"
    by (simp_all add: header_simps)
  show "len mod 4 = 0"
    using m(2) exact_append(3) [OF m(5)] by presburger
qed

lemma header_len_bytes:
  "(header mt ln ck tid @ x) ! 3 = byte_of 0 ln" "(header mt ln ck tid @ x) ! 2 = byte_of (Suc 0) ln"
  by (simp_all add: header_def bytes16_def byte_simps nth_append numeral_eq_Suc)

lemma stun_msg_attrs:
  assumes "stun_msg buf len mt ck tid as"
  shows "attrs_of buf len = as"
proof -
  obtain r rest where m: "buf = header mt (of_nat (length r)) ck tid @ r @ rest" "len = 20 + length r"
    "length tid = 12" "parse_attrs r = as" "unat (of_nat (length r) :: u16) = length r"
    using stun_msgE [OF assms] by metis
  have "unat (le16 (buf ! 3) (buf ! 2)) = length r"
    unfolding m(1) header_len_bytes using m(5) by (simp add: byte_simps)
  moreover have "drop 20 buf = r @ rest"
    using m(1,3) by simp
  ultimately show ?thesis
    using m(2,4) by (simp add: attrs_of_def Let_def)
qed

text \<open>What the accessors of the header see of a represented message.\<close>

lemma stun_msg_view:
  assumes "stun_msg buf len mt ck tid as"
  shows "stun_tid_from_message_str buf len = Some tid"
    and "stun_get_method_str buf len = Some (type_method mt)"
    and "stun_get_msg_type_str buf len = Some (mt AND 0x3FFF)"
    and "is_channel_msg_str buf len = Some (drop_bit 14 mt = 1)"
    and "drop_bit 14 mt = 0 \<Longrightarrow> stun_is_command_message_str buf len = Some (ck = STUN_MAGIC_COOKIE)"
    and "drop_bit 14 mt = 0 \<Longrightarrow> stun_is_request_str buf len = Some (IS_STUN_REQUEST mt)"
    and "drop_bit 14 mt = 0 \<Longrightarrow> stun_is_indication_str buf len = Some (IS_STUN_INDICATION mt)"
    and "drop_bit 14 mt = 0 \<Longrightarrow> stun_is_success_response_str buf len = Some (IS_STUN_SUCCESS_RESP mt)"
proof -
  have len: "len mod 4 = 0"
    using stun_msg_len(5) [OF assms] .
  obtain r rest where m: "buf = header mt (of_nat (length r)) ck tid @ r @ rest" "len = 20 + length r"
    "length tid = 12" "unat (of_nat (length r) :: u16) = length r"
    using stun_msgE [OF assms] by metis
  have "length r mod 4 = 0"
    using len m(2) by presburger
  then show "drop_bit 14 mt = 0 \<Longrightarrow> stun_is_command_message_str buf len = Some (ck = STUN_MAGIC_COOKIE)"
    using m by (simp add: header_simps)
  show "stun_tid_from_message_str buf len = Some tid"
    using m by (simp add: stun_tid_from_message_str_def header_simps)
  show "stun_get_method_str buf len = Some (type_method mt)"
    "stun_get_msg_type_str buf len = Some (mt AND 0x3FFF)"
    "is_channel_msg_str buf len = Some (drop_bit 14 mt = 1)"
    "drop_bit 14 mt = 0 \<Longrightarrow> stun_is_request_str buf len = Some (IS_STUN_REQUEST mt)"
    "drop_bit 14 mt = 0 \<Longrightarrow> stun_is_indication_str buf len = Some (IS_STUN_INDICATION mt)"
    "drop_bit 14 mt = 0 \<Longrightarrow> stun_is_success_response_str buf len = Some (IS_STUN_SUCCESS_RESP mt)"
    using m by (simp_all add: header_simps)
qed

subsection \<open>Appending an attribute\<close>

text \<open>The length the code computes: the sum rounded up to a multiple of four.\<close>

lemma newlen_eq:
  assumes "l mod 4 = 0"
  shows "(if (int l + 4 + int k) mod 4 \<noteq> 0 then int l + 4 + int k + (4 - (int l + 4 + int k) mod 4)
      else int l + 4 + int k) = int (l + 4 + pad4 k)"
proof -
  have m: "(int l + 4 + int k) mod 4 = int (k mod 4)"
  proof -
    have "(int l + 4 + int k) mod 4 = int ((l + 4 + k) mod 4)"
      by (simp add: zmod_int)
    also have "(l + 4 + k) mod 4 = k mod 4"
      using assms by presburger
    finally show ?thesis .
  qed
  have "k mod 4 < 4" by simp
  then show ?thesis
    by (simp add: m Let_def pad4_def)
qed

text \<open>The three stores, on the part of the array behind the message.\<close>

lemma store_attr:
  assumes "length h = l" and "length old = 4 + pad4 n" and "n \<le> length v"
  shows "do { b \<leftarrow> wr16 (h @ old @ rest) l (nswap16 ty);
              b \<leftarrow> wr16 b (l + 2) (nswap16 (of_nat n));
              b \<leftarrow> (if 0 < n then do { bs \<leftarrow> rdn v 0 n; wrn b (l + 4) bs } else Some b);
              f b } = f (h @ enc_attr ty (take n v) (drop (4 + n) old) @ rest)"
proof -
  obtain o1 o2 o3 where old: "old = o1 @ o2 @ o3" and o: "length o1 = 2" "length o2 = 2"
    and o3: "length o3 = pad4 n"
  proof (rule that [of "take 2 old" "take 2 (drop 2 old)" "drop 2 (drop 2 old)"])
    show "old = take 2 old @ take 2 (drop 2 old) @ drop 2 (drop 2 old)"
      by (simp only: append_take_drop_id)
  qed (use assms(2) in simp_all)
  have w1: "wr16 (h @ old @ rest) l w = Some (h @ bytes16 w @ o2 @ o3 @ rest)" for w
    using o assms(1) by (simp add: wr16_def old wrn_def)
  have w2: "wr16 (h @ bytes16 u @ o2 @ o3 @ rest) (l + 2) w =
      Some (h @ bytes16 u @ bytes16 w @ o3 @ rest)" for u w
    using o assms(1) by (simp add: wr16_def wrn_def)
  have w3: "wrn (h @ bytes16 u @ bytes16 w @ o3 @ rest) (l + 4) (take n v) =
      Some (h @ bytes16 u @ bytes16 w @ take n v @ drop n o3 @ rest)" for u w
    using o3 assms pad4_bounds(1) [of n] by (simp add: wrn_def)
  have "drop (4 + n) old = drop n o3"
    using o by (simp add: old)
  then show ?thesis
    using assms(3) by (cases "n = 0") (simp_all add: w1 w2 w3 rdn_def enc_attr_def min_absorb2
        del: add_2_eq_Suc')
qed

lemma add_attr_step:
  assumes "stun_get_command_message_len_str buf l = Some (int l)" and "l mod 4 = 0"
    and "l + 4 + pad4 n < 65507" and "20 \<le> l"
    and "stun_set_command_message_len_str buf (int (l + 4 + pad4 n)) = Some (0, h @ old @ rest)"
    and "length h = l" and "length old = 4 + pad4 n" and "n \<le> length v"
  shows "stun_attr_add_str buf l ty (Some v) (int n) =
    Some (0, h @ enc_attr ty (take n v) (drop (4 + n) old) @ rest, l + 4 + pad4 n)"
proof -
  have n: "n \<le> pad4 n"
    by (rule pad4_bounds)
  have c1: "c_int (int l + 4 + int n) = Some (int l + 4 + int n)"
    and c2: "c_int (int (l + 4 + pad4 n)) = Some (int (l + 4 + pad4 n))"
    using assms(3) n by (auto intro!: c_int_Some)
  have big: "\<not> int (l + 4 + pad4 n) \<ge> MAX_STUN_MESSAGE_SIZE" "\<not> int l < 0" "\<not> int n < 0"
    using assms(3) by linarith+
  show ?thesis
    unfolding stun_attr_add_str_def Let_def
    by (simp only: assms(1) big if_False option.distinct bind.bind_lunit c1 newlen_eq [OF assms(2)] c2
        assms(5) prod.case nat_int option.case of_nat_0_less_iff of_int_of_nat_eq
        store_attr [OF assms(6-8)])
qed

lemma attr_added:
  assumes "stun_msg buf len mt ck tid as" and "n \<le> length v"
    and "len + 4 + pad4 n < 65507" and "len + 4 + pad4 n \<le> length buf"
  shows "\<exists>b. stun_attr_add_str buf len ty (Some v) (int n) = Some (0, b, len + 4 + pad4 n)
    \<and> stun_msg b (len + 4 + pad4 n) mt ck tid (as @ [(ty, take n v)]) \<and> length b = length buf"
proof -
  obtain r rest0 where m: "buf = header mt (of_nat (length r)) ck tid @ r @ rest0" "len = 20 + length r"
    "length tid = 12" "attrs_exact r" "parse_attrs r = as"
    using stun_msgE [OF assms(1)] by metis
  define old rest where "old = take (4 + pad4 n) rest0" and "rest = drop (4 + pad4 n) rest0"
  have rest0: "rest0 = old @ rest"
    by (simp add: old_def rest_def)
  have old: "length old = 4 + pad4 n"
    using assms(4) m(1-3) by (simp add: old_def)
  let ?a = "enc_attr ty (take n v) (drop (4 + n) old)"
  let ?h = "header mt (of_nat (length (r @ old))) ck tid"
  have np: "n \<le> pad4 n"
    by (rule pad4_bounds)
  then have la: "length ?a = 4 + pad4 n"
    using old assms(2) by simp
  have ex: "attrs_exact ?a" "parse_attrs ?a = [(ty, take n v)]"
    using enc_attr_exact [of "take n v" "drop (4 + n) old" ty] old np assms(2,3)
    by (simp_all add: min_absorb2)
  have "word_of_int (int (len + 4 + pad4 n) - 20) = (of_nat (length (r @ old)) :: u16)"
    using old m(2) by (simp add: of_nat_add algebra_simps)
  moreover have "20 \<le> int (len + 4 + pad4 n)"
    using m(2) by simp
  ultimately have "stun_set_command_message_len_str buf (int (len + 4 + pad4 n)) =
      Some (0, (?h @ r) @ old @ rest)"
    by (simp only: set_message_len_header m(1) rest0 append_assoc)
  then have "stun_attr_add_str buf len ty (Some v) (int n) =
      Some (0, (?h @ r) @ ?a @ rest, len + 4 + pad4 n)"
    using stun_msg_len [OF assms(1)] assms(2,3) old m(2,3) by (intro add_attr_step) simp_all
  moreover have "stun_msg ((?h @ r) @ ?a @ rest) (len + 4 + pad4 n) mt ck tid (as @ [(ty, take n v)])"
  proof -
    have "length (r @ old) = length (r @ ?a)" and "len + 4 + pad4 n = 20 + length (r @ ?a)"
      using la old m(2) by simp_all
    moreover have "attrs_exact (r @ ?a)" and "parse_attrs (r @ ?a) = as @ [(ty, take n v)]"
      using exact_append(1,2) [OF m(4), of ?a] ex m(5) by simp_all
    ultimately show ?thesis
      unfolding stun_msg_def using m(3) assms(3)
      by (intro exI [of _ "r @ ?a"] exI [of _ rest]) (simp only: append_assoc simp_thms)
  qed
  moreover have "length ((?h @ r) @ ?a @ rest) = length buf"
    using m(1,3) la old by (simp add: rest0)
  ultimately show ?thesis by blast
qed

lemma c_int_cases: "c_int i = None \<or> c_int i = Some i"
  by (simp add: c_int_def)

text \<open>For a length near \<open>INT_MAX\<close> the sum overflows instead; either way nothing is stored.\<close>

lemma attr_too_long:
  assumes "stun_msg buf len mt ck tid as" and "65507 \<le> len + 4 + pad4 n"
  shows "stun_attr_add_str buf len ty (Some v) (int n) \<in> {None, Some (-1, buf, len)}"
proof -
  note l = stun_msg_len [OF assms(1)]
  have big: "int (len + 4 + pad4 n) \<ge> MAX_STUN_MESSAGE_SIZE" "\<not> int n < 0"
    using assms(2) by linarith+
  consider "c_int (int len + 4 + int n) = None"
    | "c_int (int len + 4 + int n) = Some (int len + 4 + int n)" "c_int (int (len + 4 + pad4 n)) = None"
    | "c_int (int len + 4 + int n) = Some (int len + 4 + int n)"
      "c_int (int (len + 4 + pad4 n)) = Some (int (len + 4 + pad4 n))"
    using c_int_cases by metis
  then show ?thesis
    unfolding stun_attr_add_str_def Let_def
    by cases (simp_all only: l(1) big if_False if_True option.distinct bind.bind_lunit bind.bind_lzero
        newlen_eq [OF l(5)] insert_iff simp_thms)
qed

lemma attr_refused:
  assumes "stun_msg buf len mt ck tid as" and "n < 2000000000" and "65507 \<le> len + 4 + pad4 n"
  shows "stun_attr_add_str buf len ty (Some v) (int n) = Some (-1, buf, len)"
proof -
  note l = stun_msg_len [OF assms(1)]
  have c1: "c_int (int len + 4 + int n) = Some (int len + 4 + int n)"
    and c2: "c_int (int (len + 4 + pad4 n)) = Some (int (len + 4 + pad4 n))"
    using assms(2) l(4) pad4_bounds(2) [of n] by (auto intro!: c_int_Some)
  have big: "int (len + 4 + pad4 n) \<ge> MAX_STUN_MESSAGE_SIZE" "\<not> int n < 0"
    using assms(3) by linarith+
  show ?thesis
    unfolding stun_attr_add_str_def Let_def
    by (simp only: l(1) big if_False if_True option.distinct bind.bind_lunit c1 newlen_eq [OF l(5)] c2)
qed

subsection \<open>The contract of the store\<close>

locale attr_store =
  fixes inv :: "'s \<Rightarrow> bool"
    and attrs :: "'s \<Rightarrow> (u16 \<times> mem) list"
    and add :: "u16 \<Rightarrow> mem \<Rightarrow> 's \<Rightarrow> 's option"
    and first :: "u16 \<Rightarrow> 's \<Rightarrow> mem option"
    and fits :: "'s \<Rightarrow> nat \<Rightarrow> bool"
  assumes add_fits: "inv s \<Longrightarrow> fits s (length v) \<Longrightarrow>
      \<exists>s'. add ty v s = Some s' \<and> inv s' \<and> attrs s' = attrs s @ [(ty, v)]"
    and add_full: "inv s \<Longrightarrow> \<not> fits s (length v) \<Longrightarrow> add ty v s = None"
    and first_attrs: "inv s \<Longrightarrow> first ty s = map_option snd (find (\<lambda>(t, v). t = ty) (attrs s))"
begin

lemma added:
  assumes "inv s" and "add ty v s = Some s'"
  shows "inv s'" and "attrs s' = attrs s @ [(ty, v)]" and "fits s (length v)"
proof -
  show "fits s (length v)"
    using add_full [OF assms(1)] assms(2) by (metis option.distinct(1))
  then show "inv s'" and "attrs s' = attrs s @ [(ty, v)]"
    using add_fits [OF assms(1)] assms(2) by (metis option.inject)+
qed

lemma find_snoc: "find P (xs @ [x]) = (case find P xs of Some y \<Rightarrow> Some y | None \<Rightarrow> if P x then Some x else None)"
  by (induction xs) auto

lemma lookup_added:
  assumes "inv s" and "add ty v s = Some s'"
  shows "first ty' s' = (case first ty' s of Some w \<Rightarrow> Some w
    | None \<Rightarrow> if ty = ty' then Some v else None)"
  using added [OF assms] assms(1)
  by (auto simp: first_attrs find_snoc split: option.splits)

end

text \<open>Adding a sequence of attributes, stopping at the first that is refused.\<close>

fun add_all :: "(u16 \<Rightarrow> mem \<Rightarrow> 's \<Rightarrow> 's option) \<Rightarrow> (u16 \<times> mem) list \<Rightarrow> 's \<Rightarrow> 's option" where
  "add_all add [] s = Some s"
| "add_all add ((ty, v) # as) s = (case add ty v s of None \<Rightarrow> None | Some s' \<Rightarrow> add_all add as s')"

context attr_store
begin

lemma all_added:
  assumes "inv s" and "add_all add as s = Some s'"
  shows "inv s' \<and> attrs s' = attrs s @ as"
  using assms
proof (induction as arbitrary: s)
  case (Cons a as)
  obtain ty v where a: "a = (ty, v)" by fastforce
  obtain s1 where s1: "add ty v s = Some s1" and r: "add_all add as s1 = Some s'"
    using Cons.prems(2) by (auto simp: a split: option.splits)
  show ?case
    using Cons.IH [OF added(1) [OF Cons.prems(1) s1] r] added(2) [OF Cons.prems(1) s1] by (simp add: a)
qed simp

lemma lookup_all_added:
  assumes "inv s" and "attrs s = []" and "distinct (map fst as)" and "add_all add as s = Some s'"
  shows "(ty, v) \<in> set as \<Longrightarrow> first ty s' = Some v"
    and "ty \<notin> fst ` set as \<Longrightarrow> first ty s' = None"
proof -
  have s': "inv s'" "attrs s' = as"
    using all_added [OF assms(1,4)] assms(2) by simp_all
  have "find (\<lambda>(t, v). t = ty) as = Some (ty, v)" if "(ty, v) \<in> set as" "distinct (map fst as)" for as :: "(u16 \<times> mem) list"
    using that by (induction as) (auto simp: image_iff)
  then show "(ty, v) \<in> set as \<Longrightarrow> first ty s' = Some v"
    using s' assms(3) by (simp add: first_attrs)
  have "find (\<lambda>(t, v). t = ty) as = None" if "ty \<notin> fst ` set as"
    using that by (auto simp: find_None_iff image_iff)
  then show "ty \<notin> fst ` set as \<Longrightarrow> first ty s' = None"
    using s' by (simp add: first_attrs)
qed

end

text \<open>The message buffer provides the contract.\<close>

definition msg_inv :: "u16 \<Rightarrow> u32 \<Rightarrow> mem \<Rightarrow> mem \<times> nat \<Rightarrow> bool" where
  "msg_inv mt ck tid m \<longleftrightarrow> (\<exists>as. stun_msg (fst m) (snd m) mt ck tid as) \<and> 65507 \<le> length (fst m)"

definition msg_attrs :: "mem \<times> nat \<Rightarrow> (u16 \<times> mem) list" where
  "msg_attrs m = attrs_of (fst m) (snd m)"

definition msg_add :: "u16 \<Rightarrow> mem \<Rightarrow> mem \<times> nat \<Rightarrow> (mem \<times> nat) option" where
  "msg_add ty v m = (case stun_attr_add_str (fst m) (snd m) ty (Some v) (int (length v)) of
     Some (r, b, l) \<Rightarrow> if r = 0 then Some (b, l) else None | None \<Rightarrow> None)"

text \<open>The value of an attribute, read the way every caller does: pointer and length.\<close>

definition read_attr :: "mem \<Rightarrow> attr_ref \<Rightarrow> mem option" where
  "read_attr buf attr = do {
     l \<leftarrow> stun_attr_get_len buf attr;
     v \<leftarrow> stun_attr_get_value buf attr;
     case v of Some p \<Rightarrow> rdn buf p (nat l) | None \<Rightarrow> Some [] }"

definition msg_first :: "u16 \<Rightarrow> mem \<times> nat \<Rightarrow> mem option" where
  "msg_first ty m = do {
     attr \<leftarrow> stun_attr_get_first_by_type_str (fst m) (snd m) ty;
     case attr of Some p \<Rightarrow> read_attr (fst m) (Some p) | None \<Rightarrow> None }"

definition msg_fits :: "mem \<times> nat \<Rightarrow> nat \<Rightarrow> bool" where
  "msg_fits m n \<longleftrightarrow> snd m + 4 + pad4 n < 65507"

lemma read_attr_at:
  assumes "p + 4 + length (snd (attr_at buf p)) \<le> length buf"
    and "length (snd (attr_at buf p)) = unat (le16 (buf ! (p + 3)) (buf ! (p + 2)))"
  shows "read_attr buf (Some p) = Some (snd (attr_at buf p))"
proof -
  let ?n = "unat (le16 (buf ! (p + 3)) (buf ! (p + 2)))"
  have "p + 4 + ?n \<le> length buf" and "p + 4 \<le> length buf"
    using assms by simp_all
  moreover have "uint w < 1 \<longleftrightarrow> unat w = 0" for w :: u16
  proof -
    have "int (unat w) = uint w" by simp
    then show ?thesis by linarith
  qed
  then have "stun_attr_get_value buf (Some p) = Some (if ?n = 0 then None else Some (p + 4))"
    using \<open>p + 4 \<le> length buf\<close>
    by (simp add: stun_attr_get_value_def rd16_def byte_simps add.commute numeral_eq_Suc)
  ultimately show ?thesis
    by (simp add: read_attr_def get_len_Some attr_at_def rdn_def)
qed

lemma first_by_type_msg:
  assumes "stun_msg buf len mt ck tid as"
  obtains r where "stun_attr_get_first_by_type_str buf len ty = Some r"
    and "map_option (\<lambda>p. the (read_attr buf (Some p))) r = map_option snd (find (\<lambda>(t, v). t = ty) as)"
    and "\<And>p. r = Some p \<Longrightarrow> read_attr buf (Some p) = Some (snd (attr_at buf p)) \<and> 20 \<le> p
       \<and> p + 4 + length (snd (attr_at buf p)) \<le> len"
proof -
  note len = stun_msg_len(2) [OF assms]
  let ?r = "find (\<lambda>p. fst (attr_at buf p) = ty) (message_offsets buf len)"
  have rd: "read_attr buf (Some p) = Some (snd (attr_at buf p)) \<and> 20 \<le> p
       \<and> p + 4 + length (snd (attr_at buf p)) \<le> len" if "?r = Some p" for p
  proof -
    have "p \<in> set (message_offsets buf len)"
      using that by (auto simp: find_Some_iff)
    note o = message_offsets_in [OF len this]
    have "p + 4 \<le> length buf"
      using o(2) len by simp
    then have "nat (the (stun_attr_get_len buf (Some p))) = unat (le16 (buf ! (p + 3)) (buf ! (p + 2)))"
      by (simp only: get_len_Some option.sel nat_int)
    then have "read_attr buf (Some p) = Some (snd (attr_at buf p))"
      using o len by (intro read_attr_at) (linarith, metis)
    then show ?thesis
      using o by simp
  qed
  have "as = map (attr_at buf) (message_offsets buf len)"
    using attrs_of_offsets [OF len] stun_msg_attrs [OF assms] by simp
  then have "find (\<lambda>(t, v). t = ty) as = map_option (attr_at buf) ?r"
    by (simp add: find_map_option case_prod_beta)
  then have "map_option snd (find (\<lambda>(t, v). t = ty) as) = map_option (\<lambda>p. snd (attr_at buf p)) ?r"
    by (simp add: option.map_comp comp_def)
  also have "\<dots> = map_option (\<lambda>p. the (read_attr buf (Some p))) ?r"
    using rd by (cases ?r) auto
  finally show thesis
    using that [of ?r] first_by_type_find [OF len, of ty] rd by metis
qed

interpretation msg: attr_store "msg_inv mt ck tid" msg_attrs msg_add msg_first msg_fits for mt ck tid
proof
  fix m :: "mem \<times> nat" and v ty
  obtain buf len where m: "m = (buf, len)" by fastforce
  assume "msg_inv mt ck tid m"
  then obtain as where rep: "stun_msg buf len mt ck tid as" and cap: "65507 \<le> length buf"
    by (auto simp: msg_inv_def m)
  have attrs: "msg_attrs m = as"
    using stun_msg_attrs [OF rep] by (simp add: msg_attrs_def m)
  show "\<exists>m'. msg_add ty v m = Some m' \<and> msg_inv mt ck tid m' \<and> msg_attrs m' = msg_attrs m @ [(ty, v)]"
    if fit: "msg_fits m (length v)"
  proof -
    obtain b where b: "stun_attr_add_str buf len ty (Some v) (int (length v)) =
        Some (0, b, len + 4 + pad4 (length v))"
      and rep': "stun_msg b (len + 4 + pad4 (length v)) mt ck tid (as @ [(ty, v)])"
      and "length b = length buf"
    proof -
      have "len + 4 + pad4 (length v) < 65507" and "len + 4 + pad4 (length v) \<le> length buf"
        using fit cap by (simp_all add: msg_fits_def m)
      then show thesis
        using attr_added [OF rep order_refl, of v ty] that by auto
    qed
    then show ?thesis
      using attrs stun_msg_attrs [OF rep'] cap
      by (auto simp: msg_add_def msg_inv_def msg_attrs_def m)
  qed
  show "msg_add ty v m = None" if "\<not> msg_fits m (length v)"
    using attr_too_long [OF rep, of "length v" ty v] that
    by (auto simp: msg_add_def msg_fits_def m split: option.splits)
  show "msg_first ty m = map_option snd (find (\<lambda>(t, v). t = ty) (msg_attrs m))"
    unfolding attrs
    by (rule first_by_type_msg [OF rep, of ty]) (auto simp: msg_first_def m split: option.splits)
qed

text \<open>C1: Appending an attribute refines appending to the list of attributes: as long as the
  message stays below 65507 bytes it succeeds, leaves the header fields and the earlier attributes
  alone and grows the message by the padded attribute; otherwise it reports -1 and changes nothing.\<close>

theorem attr_add_refines_append:
  assumes "stun_msg buf len mt ck tid as" and "65507 \<le> length buf"
    and "n \<le> length v" and "n < 2000000000"
  shows "if len + 4 + pad4 n < 65507
    then \<exists>b. stun_attr_add_str buf len ty (Some v) (int n) = Some (0, b, len + 4 + pad4 n)
           \<and> stun_msg b (len + 4 + pad4 n) mt ck tid (as @ [(ty, take n v)])
           \<and> attrs_of b (len + 4 + pad4 n) = attrs_of buf len @ [(ty, take n v)]
           \<and> length b = length buf
    else stun_attr_add_str buf len ty (Some v) (int n) = Some (-1, buf, len)"
proof (cases "len + 4 + pad4 n < 65507")
  case True
  moreover from this have "len + 4 + pad4 n \<le> length buf"
    using assms(2) by linarith
  ultimately show ?thesis
    using attr_added [OF assms(1,3), of ty] stun_msg_attrs [OF assms(1)] stun_msg_attrs
    by (metis (no_types, lifting))
next
  case False
  then show ?thesis
    using attr_refused [OF assms(1,4)] by simp
qed

text \<open>A request built by initialising a buffer and appending attributes of different types
  is a complete request of the method, whose lookups return for each type the value that was
  appended, and nothing for a type that was not.\<close>

lemma build_then_lookup:
  assumes "65507 \<le> length buf" and "distinct (map fst as)"
    and "stun_init_request_str e m buf = Some s"
    and "add_all msg_add as s = Some (b, l)"
  shows "(\<forall>(ty, v) \<in> set as. msg_first ty (b, l) = Some v)
    \<and> (\<forall>ty. ty \<notin> fst ` set as \<longrightarrow> msg_first ty (b, l) = None)
    \<and> attrs_of b l = as
    \<and> stun_is_command_message_str b l = Some True \<and> stun_is_request_str b l = Some True
    \<and> stun_get_method_str b l = Some (m AND 0x0FFF)
    \<and> stun_tid_from_message_str b l = Some (turn_random_tid_size e)"
proof -
  let ?mt = "stun_make_request m" and ?tid = "turn_random_tid_size e"
  have s: "s = (header ?mt 0 STUN_MAGIC_COOKIE ?tid @ drop 20 buf, 20)"
    using assms(1,3) by (simp add: init_header)
  then have rep: "stun_msg (fst s) (snd s) ?mt STUN_MAGIC_COOKIE ?tid []"
    by (simp add: stun_msg_new)
  then have inv: "msg_inv ?mt STUN_MAGIC_COOKIE ?tid s"
    using s assms(1) by (auto simp: msg_inv_def)
  have none: "msg_attrs s = []"
    using stun_msg_attrs [OF rep] by (simp add: msg_attrs_def)
  have "msg_inv ?mt STUN_MAGIC_COOKIE ?tid (b, l)" and as: "attrs_of b l = as"
    using msg.all_added [OF inv assms(4)] none by (simp_all add: msg_attrs_def)
  then obtain as' where rep': "stun_msg b l ?mt STUN_MAGIC_COOKIE ?tid as'"
    by (auto simp: msg_inv_def)
  show ?thesis
    using msg.lookup_all_added [OF inv none assms(2,4)] as
    by (auto simp: stun_msg_view [OF rep'] class_make class_defs type_method_make)
qed

theorem attr_add_refines_append_witness:
  "\<exists>b. stun_attr_add_str (header 1 0 STUN_MAGIC_COOKIE (replicate 12 7) @ replicate 65487 0) 20
       STUN_ATTRIBUTE_USERNAME (Some [1, 2, 3, 4, 5]) 5 = Some (0, b, 32)
     \<and> attrs_of b 32 = [(STUN_ATTRIBUTE_USERNAME, [1, 2, 3, 4, 5])]"
proof -
  let ?h = "header 1 0 STUN_MAGIC_COOKIE (replicate 12 7)"
  have rep: "stun_msg (?h @ replicate 65487 0) 20 1 STUN_MAGIC_COOKIE (replicate 12 7) []"
    by (rule stun_msg_new) simp
  have "65507 \<le> length (?h @ replicate 65487 0 :: mem)"
    by simp
  from attr_add_refines_append [OF rep this, of 5 "[1, 2, 3, 4, 5]" STUN_ATTRIBUTE_USERNAME]
  show ?thesis
    using stun_msg_attrs [OF rep] by (auto simp: pad4_def)
qed

end
