(* ===== verification/Attr_Last.thy ===== *)
theory Attr_Last
  imports Attr_Store
begin

text \<open>
  The attribute appended last: where it sits, that a lookup finds it, and that its value may be
  overwritten in place.  Both users of this pattern in \<open>client/ns_turn_msg.c\<close>, FINGERPRINT and
  MESSAGE-INTEGRITY, first append a dummy value, then compute over the message and patch the value.
\<close>

text \<open>The bytes of the first attribute are its encoding.\<close>

lemma first_attr_bytes:
  assumes "4 \<le> length r" and "4 + pad4 (attr_len r) \<le> length r"
  shows "take (4 + pad4 (attr_len r)) r = enc_attr (fst (le16 (r ! 1) (r ! 0), take (attr_len r) (drop 4 r)))
    (snd (le16 (r ! 1) (r ! 0), take (attr_len r) (drop 4 r)))
    (take (pad4 (attr_len r) - attr_len r) (drop (4 + attr_len r) r))"
proof -
  let ?n = "attr_len r"
  have n: "?n \<le> pad4 ?n" "?n \<le> length r - 4"
    using pad4_bounds(1) [of ?n] assms by auto
  obtain a b c d t where r: "r = a # b # c # d # t"
    using assms(1) by (auto simp: numeral_eq_Suc Suc_le_length_iff)
  have "unat (le16 d c) = ?n"
    by (simp add: r attr_len_def)
  moreover have "of_nat (unat (le16 d c)) = le16 d c"
    by simp
  ultimately have "of_nat ?n = le16 d c"
    by simp
  moreover have "take (4 + k) (a # b # c # d # t) = a # b # c # d # take k t"
    and "drop (4 + k) (a # b # c # d # t) = drop k t" for k
    by (simp_all add: numeral_eq_Suc)
  moreover have "?n \<le> length t"
    using n(2) by (simp add: r)
  moreover have "take (pad4 ?n) t = take ?n t @ take (pad4 ?n - ?n) (drop ?n t)"
    using n(1) by (metis le_add_diff_inverse take_add)
  ultimately show ?thesis
    by (simp add: r enc_attr_def bytes16_def byte_simps min_absorb2)
qed

lemma exact_snocE:
  assumes "attrs_exact r" and "parse_attrs r = as @ [(ty, v)]"
  obtains r0 pad where "r = r0 @ enc_attr ty v pad" "attrs_exact r0" "parse_attrs r0 = as"
    "length v + length pad = pad4 (length v)" "length v < 65536"
proof -
  have "\<exists>r0 pad. r = r0 @ enc_attr ty v pad \<and> attrs_exact r0 \<and> parse_attrs r0 = as
      \<and> length v + length pad = pad4 (length v) \<and> length v < 65536"
    using assms
  proof (induction r arbitrary: as rule: attrs_exact.induct)
    case (1 r)
    let ?n = "attr_len r" and ?k = "4 + pad4 (attr_len r)"
    have le: "4 \<le> length r" "?k \<le> length r"
      using 1(3) by (auto simp: parse_attrs.simps [of r] split: if_splits)
    have ex: "attrs_exact (drop ?k r)"
      using 1(2) le by (simp add: attrs_exact.simps [of r])
    let ?a = "(le16 (r ! 1) (r ! 0), take ?n (drop 4 r))"
    have parse: "?a # parse_attrs (drop ?k r) = as @ [(ty, v)]"
      using 1(3) le by (simp add: parse_attrs.simps [of r])
    have n: "?n \<le> pad4 ?n" "?n < 65536" "?n \<le> length r - 4"
      using pad4_bounds(1) [of ?n] unat_u16_less le by (auto simp: attr_len_def)
    note first = first_attr_bytes [OF le]
    have lens: "length (snd ?a) = ?n" "length (take (pad4 ?n - ?n) (drop (4 + ?n) r)) = pad4 ?n - ?n"
      using n le by simp_all
    show ?case
    proof (cases as)
      case Nil
      then have "parse_attrs (drop ?k r) = []" and a: "ty = fst ?a" "v = snd ?a"
        using parse by simp_all
      then have "drop ?k r = []"
        using ex by (auto simp: parse_attrs.simps [of "drop ?k r"] attrs_exact.simps [of "drop ?k r"]
            split: if_splits)
      then have "r = [] @ enc_attr ty v (take (pad4 ?n - ?n) (drop (4 + ?n) r))"
        using first a by (metis append_Nil append_Nil2 append_take_drop_id)
      then show ?thesis
        using a lens n Nil by (intro exI [of _ "[]"] exI) auto
    next
      case (Cons b as')
      then have b: "?a = b" and rest: "parse_attrs (drop ?k r) = as' @ [(ty, v)]"
        using parse by simp_all
      then obtain r0 pad where ih: "drop ?k r = r0 @ enc_attr ty v pad" "attrs_exact r0"
          "parse_attrs r0 = as'" "length v + length pad = pad4 (length v)" "length v < 65536"
        using 1(1) [OF conjI [OF le] ex rest] by auto
      let ?e = "enc_attr (fst ?a) (snd ?a) (take (pad4 ?n - ?n) (drop (4 + ?n) r))"
      have "r = (?e @ r0) @ enc_attr ty v pad"
        using first ih(1) by (metis append_assoc append_take_drop_id)
      moreover have "parse_attrs ?e = [b]" and "attrs_exact ?e"
        using enc_attr_exact [of "snd ?a" "take (pad4 ?n - ?n) (drop (4 + ?n) r)" "fst ?a"] lens n b [symmetric]
        by simp_all
      ultimately show ?thesis
        using ih exact_append [of ?e] Cons by (intro exI [of _ "?e @ r0"] exI [of _ pad]) simp
    qed
  qed
  then show thesis
    using that by blast
qed

lemma offsets_append:
  "attrs_exact r \<Longrightarrow> attr_offsets p (r @ s) = attr_offsets p r @ attr_offsets (p + length r) s"
proof (induction r arbitrary: p rule: attrs_exact.induct)
  case (1 r)
  let ?k = "4 + pad4 (attr_len r)"
  show ?case
  proof (cases "r = []")
    case True
    then show ?thesis by (simp add: attr_offsets.simps [of p "[]"])
  next
    case False
    have le: "4 \<le> length r" "?k \<le> length r" and ex: "attrs_exact (drop ?k r)"
      using 1(2) False by (simp_all add: attrs_exact.simps [of r] split: if_splits)
    show ?thesis
      using 1(1) [OF conjI [OF le] ex, of "p + 4 + pad4 (attr_len r)"] le
      by (simp add: attr_offsets.simps [of p "r @ s"] attr_offsets.simps [of p r] attr_len_append
          add.assoc)
  qed
qed

text \<open>The shape of a message whose last attribute is known.\<close>

lemma stun_msg_snocE:
  assumes "stun_msg buf len mt ck tid (as @ [(ty, v)])"
  obtains r0 pad rest where
    "buf = header mt (of_nat (len - 20)) ck tid @ r0 @ enc_attr ty v pad @ rest"
    "len = 20 + length r0 + 4 + pad4 (length v)" "length v + length pad = pad4 (length v)"
    "attrs_exact r0" "parse_attrs r0 = as" "length tid = 12" "len < 65507"
proof -
  obtain r rest where m: "buf = header mt (of_nat (length r)) ck tid @ r @ rest" "len = 20 + length r"
    "length tid = 12" "length r < 65487" "attrs_exact r" "parse_attrs r = as @ [(ty, v)]"
    using stun_msgE [OF assms] by metis
  obtain r0 pad where r: "r = r0 @ enc_attr ty v pad" "attrs_exact r0" "parse_attrs r0 = as"
    "length v + length pad = pad4 (length v)"
    using exact_snocE [OF m(5,6)] by metis
  have "length r = len - 20" and len: "len = 20 + length r0 + 4 + pad4 (length v)"
    using m(2) r(1,4) by simp_all
  then have "buf = header mt (of_nat (len - 20)) ck tid @ r @ rest"
    using m(1) by simp
  then have "buf = header mt (of_nat (len - 20)) ck tid @ r0 @ enc_attr ty v pad @ rest"
    by (simp only: r(1) append_assoc)
  moreover have "len < 65507"
    using m(2,4) by simp
  ultimately show thesis
    using that [OF _ len r(4,2,3) m(3)] by simp
qed

lemma stun_msg_snocI:
  assumes "buf = header mt (of_nat (len - 20)) ck tid @ r0 @ enc_attr ty v pad @ rest"
    and "len = 20 + length r0 + 4 + pad4 (length v)" and "length v + length pad = pad4 (length v)"
    and "attrs_exact r0" and "parse_attrs r0 = as" and "length tid = 12" and "len < 65507"
  shows "stun_msg buf len mt ck tid (as @ [(ty, v)])"
proof -
  have v: "length v < 65536"
    using assms(2,7) pad4_bounds(1) [of "length v"] by linarith
  let ?r = "r0 @ enc_attr ty v pad"
  have "len - 20 = length ?r" and "len = 20 + length ?r"
    using assms(2,3) by simp_all
  moreover have "attrs_exact ?r" and "parse_attrs ?r = as @ [(ty, v)]"
    using enc_attr_exact [OF v assms(3), of ty] assms(5)
      exact_append(1,2) [OF assms(4), of "enc_attr ty v pad"] by simp_all
  ultimately show ?thesis
    unfolding stun_msg_def using assms(1,6,7)
    by (intro exI [of _ ?r] exI [of _ rest]) (simp only: append_assoc simp_thms)
qed

lemma msg_len_field:
  assumes "stun_msg buf len mt ck tid as"
  shows "unat (le16 (buf ! 3) (buf ! 2)) = len - 20"
proof -
  obtain r rest where m: "buf = header mt (of_nat (length r)) ck tid @ r @ rest" "len = 20 + length r"
    "unat (of_nat (length r) :: u16) = length r"
    using stun_msgE [OF assms] by metis
  then show ?thesis
    unfolding m(1) header_len_bytes by (simp add: byte_simps)
qed

lemma offsets_msg:
  assumes "stun_msg buf len mt ck tid as"
  shows "message_offsets buf len = attr_offsets 20 (region buf 20 len)"
  using msg_len_field [OF assms] stun_msg_len(3) [OF assms] by (simp add: message_offsets_def Let_def)

text \<open>The last attribute is the last one visited, and sits where the message ended before.\<close>

lemma offsets_snoc:
  assumes "stun_msg buf len mt ck tid (as @ [(ty, v)])"
  shows "\<exists>ps. message_offsets buf len = ps @ [len - 4 - pad4 (length v)] \<and> map (attr_at buf) ps = as
    \<and> attr_at buf (len - 4 - pad4 (length v)) = (ty, v)"
proof -
  obtain r0 pad rest where m: "buf = header mt (of_nat (len - 20)) ck tid @ r0 @ enc_attr ty v pad @ rest"
    "len = 20 + length r0 + 4 + pad4 (length v)" "length v + length pad = pad4 (length v)"
    "attrs_exact r0" "length tid = 12" "len < 65507"
    using stun_msg_snocE [OF assms] by metis
  let ?q = "len - 4 - pad4 (length v)" and ?e = "enc_attr ty v pad"
  have v: "length v < 65536"
    using m(2,6) pad4_bounds(1) [of "length v"] by linarith
  have e: "attr_len ?e = length v" "length ?e = 4 + pad4 (length v)"
    using v m(3)
    by (simp_all add: attr_len_def enc_attr_def bytes16_def byte_simps unat_of_nat)
  have "region buf 20 len = r0 @ ?e"
    using m(1,5) e(2) m(2) by (simp add: region_def)
  moreover have "attr_offsets (20 + length r0) ?e = [20 + length r0]"
    using e by (simp add: attr_offsets.simps [of _ ?e] attr_offsets.simps [of _ "[]"])
  moreover have q: "?q = 20 + length r0"
    using m(2) by simp
  ultimately have offs: "message_offsets buf len = attr_offsets 20 r0 @ [?q]"
    unfolding offsets_msg [OF assms] q using offsets_append [OF m(4), of 20 ?e] by simp
  have "map (attr_at buf) (message_offsets buf len) = as @ [(ty, v)]"
    using attrs_of_offsets [OF stun_msg_len(2) [OF assms]] stun_msg_attrs [OF assms] by simp
  then show ?thesis
    unfolding offs by auto
qed

lemma first_by_type_last:
  assumes "stun_msg buf len mt ck tid (as @ [(ty, v)])" and "ty \<notin> fst ` set as"
  shows "stun_attr_get_first_by_type_str buf len ty = Some (Some (len - 4 - pad4 (length v)))"
    and "attr_at buf (len - 4 - pad4 (length v)) = (ty, v)"
proof -
  let ?q = "len - 4 - pad4 (length v)"
  obtain ps where ps: "message_offsets buf len = ps @ [?q]" "map (attr_at buf) ps = as"
    and last: "attr_at buf ?q = (ty, v)"
    using offsets_snoc [OF assms(1)] by blast
  show "attr_at buf ?q = (ty, v)" by (rule last)
  have "find (\<lambda>p. fst (attr_at buf p) = ty) ps = None"
    using assms(2) ps(2) by (fastforce simp: find_None_iff)
  then have "find (\<lambda>p. fst (attr_at buf p) = ty) (message_offsets buf len) = Some ?q"
    unfolding ps(1) using last by (simp add: msg.find_snoc)
  then show "stun_attr_get_first_by_type_str buf len ty = Some (Some ?q)"
    by (simp add: first_by_type_find [OF stun_msg_len(2) [OF assms(1)]])
qed

lemma len_last:
  assumes "stun_msg buf len mt ck tid (as @ [(ty, v)])"
  shows "le16 (buf ! (len - 4 - pad4 (length v) + 3)) (buf ! (len - 4 - pad4 (length v) + 2)) = of_nat (length v)"
    and "24 + pad4 (length v) \<le> len"
proof -
  obtain r0 pad rest where m: "buf = header mt (of_nat (len - 20)) ck tid @ r0 @ enc_attr ty v pad @ rest"
    "len = 20 + length r0 + 4 + pad4 (length v)" "length tid = 12"
    using stun_msg_snocE [OF assms] by metis
  let ?q = "len - 4 - pad4 (length v)"
  have d: "drop ?q buf = enc_attr ty v pad @ rest" and "?q \<le> length buf"
    using m by simp_all
  then have "buf ! (?q + k) = (enc_attr ty v pad @ rest) ! k" for k
    by (metis nth_drop)
  then show "le16 (buf ! (?q + 3)) (buf ! (?q + 2)) = of_nat (length v)"
    by (simp only:) (simp add: enc_attr_def bytes16_def byte_simps)
  show "24 + pad4 (length v) \<le> len"
    using m(2) by simp
qed

lemma stun_msg_set_last:
  assumes "stun_msg buf len mt ck tid (as @ [(ty, v)])" and "length w = length v"
  shows "\<exists>b. wrn buf (len - pad4 (length v)) w = Some b \<and> stun_msg b len mt ck tid (as @ [(ty, w)])
    \<and> length b = length buf \<and> take (len - pad4 (length v)) b = take (len - pad4 (length v)) buf"
proof -
  obtain r0 pad rest where m: "buf = header mt (of_nat (len - 20)) ck tid @ r0 @ enc_attr ty v pad @ rest"
    "len = 20 + length r0 + 4 + pad4 (length v)" "length v + length pad = pad4 (length v)"
    "attrs_exact r0" "parse_attrs r0 = as" "length tid = 12" "len < 65507"
    using stun_msg_snocE [OF assms(1)] by metis
  define h where "h = header mt (of_nat (len - 20)) ck tid @ r0 @ bytes16 (nswap16 ty)
      @ bytes16 (nswap16 (of_nat (length v)))"
  have buf: "buf = h @ v @ pad @ rest"
    using m(1) by (simp add: enc_attr_def h_def)
  have lh: "len - pad4 (length v) = length h"
    using m(2,6) by (simp add: h_def)
  have "wrn buf (len - pad4 (length v)) w = Some (h @ w @ pad @ rest)"
    unfolding buf by (rule wrn_append) (use lh assms(2) in simp_all)
  moreover have "stun_msg (h @ w @ pad @ rest) len mt ck tid (as @ [(ty, w)])"
    by (rule stun_msg_snocI [of _ _ _ _ _ r0 _ _ pad rest])
       (use m assms(2) in \<open>simp_all add: enc_attr_def h_def\<close>)
  ultimately show ?thesis
    using assms(2) lh by (auto simp: buf)
qed

end
