(* ===== verification/Attr_Typed.thy ===== *)
theory Attr_Typed
  imports Attr_Last
begin

text \<open>
  Attributes with structured values: addresses, channel numbers, bandwidth, error codes and the
  NAT-discovery attributes of RFC 5780 (\<open>client/ns_turn_msg.c\<close>, sections ATTR and RFC 5780), with
  \<open>get_default_reason\<close> and \<open>stun_adjust_allocate_lifetime\<close>.

  The file-level address table of \<open>client/ns_turn_ioaddr.c\<close> is the argument \<open>tbl\<close>.  An
  \<open>ioa_addr*\<close> that is filled in is passed as its old contents and returned as its new ones.
\<close>

subsection \<open>Lifetime\<close>

definition stun_adjust_allocate_lifetime :: "u32 \<Rightarrow> u32 \<Rightarrow> u32 \<Rightarrow> u32" where
  "stun_adjust_allocate_lifetime lifetime max_allowed_lifetime max_lifetime =
     (let lifetime = (if lifetime = 0 then 600
                      else if lifetime < 600 then 600
                      else if lifetime > max_allowed_lifetime then max_allowed_lifetime
                      else lifetime)
      in if max_lifetime \<noteq> 0 \<and> max_lifetime < lifetime then max_lifetime else lifetime)"

subsection \<open>Addresses\<close>

definition is_xor_type :: "u16 \<Rightarrow> bool" where
  "is_xor_type attr_type \<longleftrightarrow> attr_type = STUN_ATTRIBUTE_XOR_MAPPED_ADDRESS
     \<or> attr_type = STUN_ATTRIBUTE_XOR_PEER_ADDRESS \<or> attr_type = STUN_ATTRIBUTE_XOR_RELAYED_ADDRESS"

text \<open>Only the bytes the encoder wrote are copied out of the local \<open>cfield[64]\<close>.\<close>

definition stun_attr_add_addr_str ::
    "addr_map \<Rightarrow> mem \<Rightarrow> nat \<Rightarrow> u16 \<Rightarrow> ioa_addr \<Rightarrow> (int \<times> mem \<times> nat) option" where
  "stun_attr_add_addr_str tbl buf len attr_type ca = do {
     tid \<leftarrow> stun_tid_from_message_str buf len;
     let xor_ed = is_xor_type attr_type;
     let public_addr = map_addr_from_private_to_public tbl ca;
     (r, cfield, clen) \<leftarrow> stun_addr_encode (Some public_addr) (replicate 64 0) 0 xor_ed STUN_MAGIC_COOKIE tid;
     if r < 0 then Some (-1, buf, len)
     else do {
       (r, b, l) \<leftarrow> stun_attr_add_str buf len attr_type (Some cfield) clen;
       if r < 0 then Some (-1, b, l) else Some (0, b, l) } }"

definition stun_attr_get_addr_str ::
    "addr_map \<Rightarrow> mem \<Rightarrow> nat \<Rightarrow> attr_ref \<Rightarrow> ioa_addr \<Rightarrow> ioa_addr option \<Rightarrow> (int \<times> ioa_addr) option" where
  "stun_attr_get_addr_str tbl buf len attr ca default_addr = do {
     tid \<leftarrow> stun_tid_from_message_str buf len;
     let ca = zero_addr;
     attr_type \<leftarrow> stun_attr_get_type buf attr;
     if attr_type < 0 then Some (-1, ca)
     else do {
       let xor_ed = is_xor_type (word_of_int attr_type);
       cfield \<leftarrow> stun_attr_get_value buf attr;
       case cfield of None \<Rightarrow> Some (-1, ca)
       | Some q \<Rightarrow> do {
           l \<leftarrow> stun_attr_get_len buf attr;
           (r, public_addr) \<leftarrow> stun_addr_decode (Some zero_addr) (drop q buf) l xor_ed STUN_MAGIC_COOKIE tid;
           if r < 0 then Some (-1, ca)
           else do {
             pa \<leftarrow> public_addr;
             let ca = map_addr_from_public_to_private tbl pa;
             case default_addr of
               Some d \<Rightarrow>
                 if addr_any_no_port (Some ca) \<and> \<not> addr_any_no_port (Some d)
                 then do {
                   let port = addr_get_port (Some ca);
                   c \<leftarrow> addr_set_port (addr_cpy (Some ca) (Some d)) port;
                   Some (0, c) }
                 else Some (0, ca)
             | None \<Rightarrow> Some (0, ca) } } } }"

text \<open>
  The loop over the attributes with the state the body updates: \<open>body p st\<close> gives the new state and
  whether the function returned.
\<close>

function attr_scan_st ::
    "mem \<Rightarrow> nat \<Rightarrow> (nat \<Rightarrow> 'st \<Rightarrow> (bool \<times> 'st) option) \<Rightarrow> 'st \<Rightarrow> attr_ref \<Rightarrow> (bool \<times> 'st) option" where
  "attr_scan_st buf len body st None = Some (False, st)"
| "attr_scan_st buf len body st (Some p) =
     (case body p st of
        None \<Rightarrow> None
      | Some (returned, st') \<Rightarrow>
          if returned then Some (True, st')
          else (case stun_attr_get_next_str buf len (Some p) of
             None \<Rightarrow> None
           | Some attr \<Rightarrow> attr_scan_st buf len body st' attr))"
  by pat_completeness auto
termination
  by (relation "measure (\<lambda>(buf, len, body, st, attr). case attr of None \<Rightarrow> 0
      | Some p \<Rightarrow> Suc (65557 - p))")
     (auto split: option.splits dest: attr_next_measure)

definition stun_attr_get_first_addr_str ::
    "addr_map \<Rightarrow> mem \<Rightarrow> nat \<Rightarrow> u16 \<Rightarrow> ioa_addr \<Rightarrow> ioa_addr option \<Rightarrow> (int \<times> ioa_addr) option" where
  "stun_attr_get_first_addr_str tbl buf len attr_type ca default_addr = do {
     attr \<leftarrow> stun_attr_get_first_str buf len;
     (found, ca) \<leftarrow> attr_scan_st buf len (\<lambda>p ca. do {
         is_addr \<leftarrow> stun_attr_is_addr buf (Some p);
         t \<leftarrow> stun_attr_get_type buf (Some p);
         if is_addr \<and> uint attr_type = t then do {
           (r, ca) \<leftarrow> stun_attr_get_addr_str tbl buf len (Some p) ca default_addr;
           Some (r = 0, ca) }
         else Some (False, ca) }) ca attr;
     Some (if found then 0 else -1, ca) }"

subsection \<open>Channel number, bandwidth\<close>

definition stun_attr_add_channel_number_str :: "mem \<Rightarrow> nat \<Rightarrow> u16 \<Rightarrow> (int \<times> mem \<times> nat) option" where
  "stun_attr_add_channel_number_str buf len chnumber =
     stun_attr_add_str buf len STUN_ATTRIBUTE_CHANNEL_NUMBER (Some (bytes16 (nswap16 chnumber) @ bytes16 0)) 4"

definition stun_attr_add_bandwidth_str :: "mem \<Rightarrow> nat \<Rightarrow> u64 \<Rightarrow> (int \<times> mem \<times> nat) option" where
  "stun_attr_add_bandwidth_str buf len bps0 =
     (let bps = ucast (drop_bit 7 bps0) :: u32
      in stun_attr_add_str buf len STUN_ATTRIBUTE_NEW_BANDWIDTH (Some (bytes32 (nswap32 bps))) 4)"

subsection \<open>Error codes\<close>

definition default_reason_text :: "int \<Rightarrow> string" where
  "default_reason_text error_code =
     (if error_code = 300 then ''Try Alternate''
      else if error_code = 400 then ''Bad Request''
      else if error_code = 401 then ''Unauthorized''
      else if error_code = 403 then ''Forbidden''
      else if error_code = 404 then ''Not Found''
      else if error_code = 420 then ''Unknown Attribute''
      else if error_code = 437 then ''Allocation Mismatch''
      else if error_code = 438 then ''Stale Nonce''
      else if error_code = 440 then ''Address Family not Supported''
      else if error_code = 441 then ''Wrong Credentials''
      else if error_code = 442 then ''Unsupported Transport Protocol''
      else if error_code = 443 then ''Peer Address Family Mismatch''
      else if error_code = 446 then ''Connection Already Exists''
      else if error_code = 447 then ''Connection Timeout or Failure''
      else if error_code = 486 then ''Allocation Quota Reached''
      else if error_code = 487 then ''Role Conflict''
      else if error_code = 500 then ''Server Error''
      else if error_code = 508 then ''Insufficient Capacity''
      else ''Unknown error'')"

definition get_default_reason :: "int \<Rightarrow> mem" where
  "get_default_reason error_code = c_lit (default_reason_text error_code)"

text \<open>
  The 513-byte local \<open>avalue\<close> both error attributes fill, and the length they pass on: four bytes and
  the reason, rounded up by hand.
\<close>

definition error_avalue :: "u8 \<Rightarrow> int \<Rightarrow> mem \<Rightarrow> (mem \<times> int) option" where
  "error_avalue b0 error_code reason = do {
     r \<leftarrow> c_strncpy 509 reason;
     let avalue = [b0, 0, word_of_int (error_code div 100), word_of_int (error_code mod 100)] @ r;
     avalue \<leftarrow> wr8 avalue 512 0;
     n \<leftarrow> c_strlen (drop 4 avalue);
     let alen = 4 + int n;
     let rem = alen mod 4;
     Some (avalue, if rem \<noteq> 0 then alen + (4 - rem) else alen) }"

text \<open>The error codes of the callers are not negative, so C's truncating division is \<open>div\<close>.\<close>

definition stun_attr_add_address_error_code :: "mem \<Rightarrow> nat \<Rightarrow> int \<Rightarrow> nat \<Rightarrow> (int \<times> mem \<times> nat) option" where
  "stun_attr_add_address_error_code buf len requested_address_family error_code = do {
     (avalue, alen) \<leftarrow> error_avalue (word_of_int requested_address_family) (int error_code)
        (get_default_reason (int error_code));
     (_, b, l) \<leftarrow> stun_attr_add_str buf len STUN_ATTRIBUTE_ADDRESS_ERROR_CODE (Some avalue) alen;
     Some (0, b, l) }"

text \<open>Both out-parameters are given; the result is the return value and their new contents.\<close>

definition stun_attr_get_address_error_code :: "mem \<Rightarrow> nat \<Rightarrow> (int \<times> int \<times> int) option" where
  "stun_attr_get_address_error_code buf len =
     (if len \<noteq> 0 then do {
        sar \<leftarrow> stun_attr_get_first_by_type_str buf len STUN_ATTRIBUTE_ADDRESS_ERROR_CODE;
        case sar of None \<Rightarrow> Some (0, 0, 0)
        | Some p \<Rightarrow> do {
            value \<leftarrow> stun_attr_get_value buf (Some p);
            case value of None \<Rightarrow> Some (-1, 0, 0)
            | Some v \<Rightarrow> do {
                alen \<leftarrow> stun_attr_get_len buf (Some p);
                if alen \<noteq> 4 then Some (-1, 0, 0)
                else do {
                  v0 \<leftarrow> rd8 buf v;
                  v2 \<leftarrow> rd8 buf (v + 2);
                  v3 \<leftarrow> rd8 buf (v + 3);
                  Some (0, uint v0, uint v2 * 100 + uint v3) } } } }
      else Some (0, 0, 0))"

subsection \<open>NAT discovery (RFC 5780)\<close>

definition stun_attr_get_change_request_str :: "mem \<Rightarrow> attr_ref \<Rightarrow> (int \<times> (u8 \<times> u8) option) option" where
  "stun_attr_get_change_request_str buf attr = do {
     l \<leftarrow> stun_attr_get_len buf attr;
     if l = 4 then do {
       value \<leftarrow> stun_attr_get_value buf attr;
       case value of Some v \<Rightarrow> do {
           b \<leftarrow> rd8 buf (v + 3);
           Some (0, Some (b AND 0x04, b AND 0x02)) }
       | None \<Rightarrow> Some (-1, None) }
     else Some (-1, None) }"

definition stun_attr_add_change_request_str :: "mem \<Rightarrow> nat \<Rightarrow> bool \<Rightarrow> bool \<Rightarrow> (int \<times> mem \<times> nat) option" where
  "stun_attr_add_change_request_str buf len change_ip change_port =
     (let b = (if change_ip then (if change_port then 0x06 else 0x04)
               else if change_port then 0x02 else 0)
      in stun_attr_add_str buf len STUN_ATTRIBUTE_CHANGE_REQUEST (Some [0, 0, 0, b]) 4)"

definition stun_attr_get_response_port_str :: "mem \<Rightarrow> attr_ref \<Rightarrow> int option" where
  "stun_attr_get_response_port_str buf attr = do {
     l \<leftarrow> stun_attr_get_len buf attr;
     if l \<ge> 2 then do {
       value \<leftarrow> stun_attr_get_value buf attr;
       case value of Some v \<Rightarrow> do { w \<leftarrow> rd16 buf v; Some (uint (nswap16 w)) } | None \<Rightarrow> Some (-1) }
     else Some (-1) }"

definition stun_attr_add_response_port_str :: "mem \<Rightarrow> nat \<Rightarrow> u16 \<Rightarrow> (int \<times> mem \<times> nat) option" where
  "stun_attr_add_response_port_str buf len port =
     stun_attr_add_str buf len STUN_ATTRIBUTE_RESPONSE_PORT (Some (bytes16 (nswap16 port) @ [0, 0])) 4"

definition stun_attr_get_padding_len_str :: "mem \<Rightarrow> attr_ref \<Rightarrow> int option" where
  "stun_attr_get_padding_len_str buf attr = do {
     len \<leftarrow> stun_attr_get_len buf attr;
     if len < 0 then Some (-1) else Some (uint (word_of_int len :: u16)) }"

definition stun_attr_add_padding_str :: "mem \<Rightarrow> nat \<Rightarrow> u16 \<Rightarrow> (int \<times> mem \<times> nat) option" where
  "stun_attr_add_padding_str buf len padding_len =
     stun_attr_add_str buf len STUN_ATTRIBUTE_PADDING (Some (replicate 65535 0)) (uint padding_len)"

subsection \<open>Reading the attribute appended last\<close>

lemma last_attr_access:
  assumes "stun_msg buf len mt ck tid (as @ [(ty, v)])" and "p = len - 4 - pad4 (length v)"
  shows "stun_attr_get_type buf (Some p) = Some (uint ty)"
    and "stun_attr_get_len buf (Some p) = Some (int (length v))"
    and "v \<noteq> [] \<Longrightarrow> stun_attr_get_value buf (Some p) = Some (Some (p + 4))"
    and "\<exists>rest. drop (p + 4) buf = v @ rest"
    and "p + 4 + length v \<le> length buf"
proof -
  obtain r0 pad rest where m: "buf = header mt (of_nat (len - 20)) ck tid @ r0 @ enc_attr ty v pad @ rest"
    "len = 20 + length r0 + 4 + pad4 (length v)" "length v + length pad = pad4 (length v)"
    "length tid = 12" "len < 65507"
    using stun_msg_snocE [OF assms(1)] by metis
  have p: "p = 20 + length r0"
    using assms(2) m(2) by simp
  have d: "drop p buf = bytes16 (nswap16 ty) @ bytes16 (nswap16 (of_nat (length v))) @ v @ pad @ rest"
    using m(1,4) by (simp add: p enc_attr_def)
  have len: "p + 4 + length v \<le> length buf"
    using m by (simp add: p)
  then show "p + 4 + length v \<le> length buf" .
  have nth: "buf ! (p + k) = drop p buf ! k" for k
    using len by (simp add: nth_drop)
  have p0: "buf ! p = drop p buf ! 0"
    using nth [of 0] by simp
  have "rd16 buf p = Some (nswap16 ty)" and "rd16 buf (p + 2) = Some (nswap16 (of_nat (length v)))"
    using len nth [of 1] nth [of 2] nth [of 3] p0
    by (simp_all add: rd16_def d bytes16_def byte_simps nswap16_def numeral_eq_Suc)
  moreover have "uint (of_nat (length v) :: u16) = int (length v)"
  proof -
    have "length v < 65536"
      using m(2,5) pad4_bounds(1) [of "length v"] by linarith
    then show ?thesis
      by (simp only: uint_nat unat_of_nat) simp
  qed
  ultimately show "stun_attr_get_type buf (Some p) = Some (uint ty)"
    and l: "stun_attr_get_len buf (Some p) = Some (int (length v))"
    by (simp_all add: stun_attr_get_type_def stun_attr_get_len_def)
  show "v \<noteq> [] \<Longrightarrow> stun_attr_get_value buf (Some p) = Some (Some (p + 4))"
    using get_value_of_len [OF l] by (cases v) simp_all
  have "drop (p + 4) buf = drop 4 (drop p buf)"
    by (simp add: add.commute)
  then show "\<exists>rest. drop (p + 4) buf = v @ rest"
    by (simp add: d)
qed

subsection \<open>The stateful scan visits the attributes in order\<close>

fun scan_list_st :: "(nat \<Rightarrow> 'st \<Rightarrow> (bool \<times> 'st) option) \<Rightarrow> 'st \<Rightarrow> nat list \<Rightarrow> (bool \<times> 'st) option" where
  "scan_list_st body st [] = Some (False, st)"
| "scan_list_st body st (p # ps) = (case body p st of
     None \<Rightarrow> None | Some (returned, st') \<Rightarrow> if returned then Some (True, st') else scan_list_st body st' ps)"

lemma attr_scan_st_region:
  assumes "stun_get_command_message_len_str buf len = Some (int e)" and "e \<le> length buf"
  shows "attr_scan_st buf len body st (if attr_fits buf e p then Some p else None) =
    scan_list_st body st (attr_offsets p (region buf p e))"
proof (induction "e - p" arbitrary: p st rule: less_induct)
  case less
  let ?q = "p + 4 + pad4 (attr_len (region buf p e))"
  show ?case
  proof (cases "attr_fits buf e p")
    case True
    then have "e - ?q < e - p"
      by (auto simp: attr_fits_def)
    then have ih: "attr_scan_st buf len body st' (if attr_fits buf e ?q then Some ?q else None) =
        scan_list_st body st' (attr_offsets ?q (region buf ?q e))" for st'
      by (rule less)
    have nxt: "stun_attr_get_next_str buf len (Some p) =
        Some (if attr_fits buf e ?q then Some ?q else None)"
      using next_region [OF assms True] by (simp add: Let_def)
    show ?thesis
      by (simp only: True if_True attr_scan_st.simps nxt option.case ih
          offsets_region [OF assms(2), of p] scan_list_st.simps)
  next
    case False
    then show ?thesis
      by (simp add: offsets_region [OF assms(2), of p])
  qed
qed

lemma scan_list_st_skip:
  assumes "\<forall>p \<in> set ps. \<forall>st. body p st = Some (False, st)"
  shows "scan_list_st body st (ps @ qs) = scan_list_st body st qs"
  using assms by (induction ps) auto

subsection \<open>Address attributes\<close>

lemma map_addr_loop_cong:
  assumes "addr_eq (Some x) (Some y)" and "\<forall>t \<in> set ts. inet_addr t"
  shows "addr_eq (Some (map_addr_loop fs ts x)) (Some (map_addr_loop fs ts y))"
  using assms(2)
proof (induction fs ts rule: list_induct2')
  case (4 f fs t ts)
  have xy: "addr_eq_no_port (Some x) (Some y)" "sin_port x = sin_port y"
    using assms(1) by (simp_all add: addr_eq_iff)
  have inet: "inet_addr x" "inet_addr y" "inet_addr t"
    using addr_eq_no_port_inet [OF xy(1)] 4(2) by simp_all
  have "addr_eq_no_port (Some x) (Some f) = addr_eq_no_port (Some y) (Some f)"
    using xy(1) addr_eq_no_port_trans addr_eq_no_port_sym by blast
  moreover have "addr_get_port (Some x) = addr_get_port (Some y)"
    using xy inet by (auto simp: addr_get_port_def inet_addr_def)
  ultimately show ?case
    using 4 inet by (auto simp: addr_set_port_get_port addr_eq_iff addr_eq_no_port_refl)
qed (use assms(1) in auto)

lemma add_addr_msg:
  assumes "stun_msg buf len mt ck tid as" and "translatable tbl a"
    and "len + 24 < 65507" and "len + 24 \<le> length buf"
  shows "\<exists>b l. stun_attr_add_addr_str tbl buf len ty a = Some (0, b, l) \<and> l \<le> len + 24
    \<and> length b = length buf
    \<and> stun_msg b l mt ck tid (as @ [(ty, enc_addr (map_addr_from_private_to_public tbl a)
         (is_xor_type ty) STUN_MAGIC_COOKIE tid)])"
proof -
  let ?pub = "map_addr_from_private_to_public tbl a"
  let ?v = "enc_addr ?pub (is_xor_type ty) STUN_MAGIC_COOKIE tid"
  have pub: "wf_addr ?pub" "inet_addr ?pub"
    using addr_table.keeps_wf [OF assms(2)] by simp_all
  have tid: "length tid = 12"
    using stun_msgE [OF assms(1)] by metis
  have n: "length ?v = (if sa_family ?pub = AF_INET6 then 20 else 8)"
    using length_enc_addr [OF tid pub(1)] .
  then have pad: "pad4 (length ?v) \<le> 20"
    by (simp add: pad4_def)
  let ?c = "?v @ drop (length ?v) (replicate 64 0)"
  obtain b where b: "stun_attr_add_str buf len ty (Some ?c) (int (length ?v)) = Some (0, b, len + 4 + pad4 (length ?v))"
    "stun_msg b (len + 4 + pad4 (length ?v)) mt ck tid (as @ [(ty, ?v)])" "length b = length buf"
    using attr_added [OF assms(1), of "length ?v" ?c ty] assms(3,4) pad by auto
  have "stun_addr_encode (Some ?pub) (replicate 64 0) 0 (is_xor_type ty) STUN_MAGIC_COOKIE tid =
      Some (0, ?c, int (length ?v))"
    using encode_bytes [of "replicate 64 0" tid ?pub] pub tid by simp
  then have "stun_attr_add_addr_str tbl buf len ty a = Some (0, b, len + 4 + pad4 (length ?v))"
    using b(1) by (simp add: stun_attr_add_addr_str_def stun_msg_view(1) [OF assms(1)] Let_def)
  then show ?thesis
    using b pad by (intro exI [of _ b] exI [of _ "len + 4 + pad4 (length ?v)"]) simp
qed

lemma found_access:
  assumes "stun_msg b l mt ck t as" and "find (\<lambda>(t, v). t = ty) as = Some (ty, v)"
  obtains p where "stun_attr_get_first_by_type_str b l ty = Some (Some p)"
    "stun_attr_get_len b (Some p) = Some (int (length v))"
    "stun_attr_get_value b (Some p) = Some (if v = [] then None else Some (p + 4))"
    "take (length v) (drop (p + 4) b) = v" "p + 4 + length v \<le> length b"
    "p + 4 + length v \<le> l" "20 \<le> p"
proof -
  note len = stun_msg_len [OF assms(1)]
  let ?r = "find (\<lambda>p. fst (attr_at b p) = ty) (message_offsets b l)"
  have "as = map (attr_at b) (message_offsets b l)"
    using attrs_of_offsets [OF len(2)] stun_msg_attrs [OF assms(1)] by simp
  then have "map_option (attr_at b) ?r = Some (ty, v)"
    using assms(2) by (simp add: find_map_option case_prod_beta)
  then obtain p where p: "?r = Some p" "attr_at b p = (ty, v)"
    by auto
  then have "p \<in> set (message_offsets b l)"
    by (auto simp: find_Some_iff)
  note o = message_offsets_in [OF len(2) this]
  have l: "stun_attr_get_len b (Some p) = Some (int (length v))"
    using o(2,4) p(2) len(2) get_len_Some [of p b] by simp
  show thesis
  proof (rule that [of p])
    show "stun_attr_get_first_by_type_str b l ty = Some (Some p)"
      using p(1) by (simp add: first_by_type_find [OF len(2)])
    show "stun_attr_get_len b (Some p) = Some (int (length v))" by (rule l)
    show "stun_attr_get_value b (Some p) = Some (if v = [] then None else Some (p + 4))"
      using get_value_of_len [OF l] by (cases v) simp_all
    show "take (length v) (drop (p + 4) b) = v" "p + 4 + length v \<le> length b"
      "p + 4 + length v \<le> l" "20 \<le> p"
      using o(1-3) p(2) l len(2) by simp_all
  qed
qed

lemma not_found_access:
  assumes "stun_msg b l mt ck t as" and "find (\<lambda>(t, v). t = ty) as = None"
  shows "stun_attr_get_first_by_type_str b l ty = Some None"
proof -
  note len = stun_msg_len [OF assms(1)]
  have "as = map (attr_at b) (message_offsets b l)"
    using attrs_of_offsets [OF len(2)] stun_msg_attrs [OF assms(1)] by simp
  then show ?thesis
    using assms(2) by (simp add: first_by_type_find [OF len(2)] find_map_option case_prod_beta)
qed

definition addr_attr :: "addr_map \<Rightarrow> mem \<Rightarrow> u16 \<Rightarrow> ioa_addr \<Rightarrow> u16 \<times> mem" where
  "addr_attr tbl tid ty a =
     (ty, enc_addr (map_addr_from_private_to_public tbl a) (is_xor_type ty) STUN_MAGIC_COOKIE tid)"

lemma get_addr_found:
  assumes "stun_msg b l mt ck tid as" and "stun_attr_get_type b (Some p) = Some (uint ty)"
    and "v = enc_addr pub (is_xor_type ty) STUN_MAGIC_COOKIE tid"
    and "stun_attr_get_len b (Some p) = Some (int (length v))"
    and "stun_attr_get_value b (Some p) = Some (if v = [] then None else Some (p + 4))"
    and "take (length v) (drop (p + 4) b) = v" and "wf_addr pub" and "inet_addr pub"
  shows "\<exists>pa. addr_eq (Some pa) (Some pub) \<and> (\<forall>ca. stun_attr_get_addr_str tbl b l (Some p) ca None =
    Some (0, map_addr_from_public_to_private tbl pa))"
proof -
  have tid: "length tid = 12"
    using stun_msgE [OF assms(1)] by metis
  let ?pa = "if sa_family pub = AF_INET6
      then zero_addr\<lparr>sa_family := AF_INET6, sin_port := sin_port pub, sin6_addr := sin6_addr pub\<rparr>
      else zero_addr\<lparr>sa_family := AF_INET, sin_port := sin_port pub, sin_addr := sin_addr pub\<rparr>"
  have drop: "drop (p + 4) b = v @ drop (length v) (drop (p + 4) b)"
    using assms(6) by (metis append_take_drop_id)
  have ne: "v \<noteq> []"
    by (simp add: assms(3) enc_addr_def)
  have "stun_addr_decode (Some zero_addr) (v @ x) (int (length v)) (is_xor_type ty)
      STUN_MAGIC_COOKIE tid = Some (0, Some ?pa)" for x
    unfolding assms(3) by (rule decode_bytes) (use tid assms(7,8) in auto)
  then have dec: "stun_addr_decode (Some zero_addr) (drop (p + 4) b) (int (length v)) (is_xor_type ty)
      STUN_MAGIC_COOKIE tid = Some (0, Some ?pa)"
    using drop by metis
  moreover have "0 \<le> uint ty"
    by simp
  ultimately have "stun_attr_get_addr_str tbl b l (Some p) ca None =
      Some (0, map_addr_from_public_to_private tbl ?pa)" for ca
    using assms(2,4,5) ne stun_msg_view(1) [OF assms(1)]
    by (simp add: stun_attr_get_addr_str_def Let_def)
  moreover have "addr_eq (Some ?pa) (Some pub)"
    using assms(8) by (auto simp: addr_eq_def inet_addr_def)
  ultimately show ?thesis by blast
qed

lemma scan_st_found:
  assumes "stun_msg b l mt ck tid as"
    and "find (\<lambda>p. fst (attr_at b p) = ty) (message_offsets b l) = Some q"
    and "\<And>p st. p \<in> set (message_offsets b l) \<Longrightarrow> fst (attr_at b p) \<noteq> ty \<Longrightarrow> body p st = Some (False, st)"
    and "body q st = Some (True, r)"
  shows "do { attr \<leftarrow> stun_attr_get_first_str b l; attr_scan_st b l body st attr } = Some (True, r)"
proof -
  note len = stun_msg_len [OF assms(1)]
  obtain i where i: "i < length (message_offsets b l)" "message_offsets b l ! i = q"
      "\<forall>j<i. fst (attr_at b (message_offsets b l ! j)) \<noteq> ty"
    using assms(2) by (auto simp: find_Some_iff)
  let ?ps = "take i (message_offsets b l)" and ?qs = "drop (Suc i) (message_offsets b l)"
  have offs: "message_offsets b l = ?ps @ q # ?qs"
    using i(1,2) by (metis id_take_nth_drop)
  have "\<forall>p \<in> set ?ps. \<forall>st. body p st = Some (False, st)"
  proof (intro ballI allI)
    fix p st assume p: "p \<in> set ?ps"
    then have "p \<in> set (message_offsets b l)"
      by (rule in_set_takeD)
    moreover have "fst (attr_at b p) \<noteq> ty"
      using p i(1,3) by (auto simp: in_set_conv_nth)
    ultimately show "body p st = Some (False, st)"
      by (rule assms(3))
  qed
  then have "scan_list_st body st (?ps @ q # ?qs) = scan_list_st body st (q # ?qs)"
    by (rule scan_list_st_skip)
  then have "scan_list_st body st (message_offsets b l) = Some (True, r)"
    using assms(4) by (subst offs) simp
  then show ?thesis
    using attr_scan_st_region [OF len(1,2), of body st 20] first_str_region [OF len(1,2,3)]
    by (simp add: offsets_msg [OF assms(1)])
qed

lemma by_type_addr_found:
  assumes "stun_msg b l mt ck tid as" and "translatable tbl a"
    and "find (\<lambda>(t, v). t = ty) as = Some (addr_attr tbl tid ty a)"
  obtains q c where "stun_attr_get_first_by_type_str b l ty = Some (Some q)"
    and "stun_attr_get_type b (Some q) = Some (uint ty)"
    and "\<And>ca. stun_attr_get_addr_str tbl b l (Some q) ca None = Some (0, c)" and "addr_eq (Some c) (Some a)"
proof -
  let ?pub = "map_addr_from_private_to_public tbl a"
  define v where "v = enc_addr ?pub (is_xor_type ty) STUN_MAGIC_COOKIE tid"
  note len = stun_msg_len(2) [OF assms(1)]
  have "find (\<lambda>(t, v). t = ty) as = Some (ty, v)"
    using assms(3) by (simp add: addr_attr_def v_def)
  then obtain q where q: "stun_attr_get_first_by_type_str b l ty = Some (Some q)"
    "stun_attr_get_len b (Some q) = Some (int (length v))"
    "stun_attr_get_value b (Some q) = Some (if v = [] then None else Some (q + 4))"
    "take (length v) (drop (q + 4) b) = v" "q + 4 + length v \<le> length b"
    using found_access [OF assms(1)] by metis
  then have ty: "stun_attr_get_type b (Some q) = Some (uint ty)"
    using get_type_Some [of q b] by (auto simp: first_by_type_find [OF len] find_Some_iff)
  obtain pa where pa: "addr_eq (Some pa) (Some ?pub)"
    and get: "\<And>ca. stun_attr_get_addr_str tbl b l (Some q) ca None =
      Some (0, map_addr_from_public_to_private tbl pa)"
    using get_addr_found [OF assms(1) ty v_def q(2-4)] addr_table.keeps_wf [OF assms(2)] by metis
  have "addr_eq (Some (map_addr_from_public_to_private tbl pa)) (Some (map_addr_from_public_to_private tbl ?pub))"
    using map_addr_loop_cong [OF pa] translatable_unfold(3,8) [OF assms(2)] by simp
  then have "addr_eq (Some (map_addr_from_public_to_private tbl pa)) (Some a)"
    using addr_table.there_and_back [OF assms(2)] addr_eq_no_port_trans by (auto simp: addr_eq_iff)
  then show thesis
    using that q(1) ty get by blast
qed

lemma first_addr_found:
  assumes "stun_msg b l mt ck tid as" and "translatable tbl a" and "ty \<in> set addr_attr_types"
    and "find (\<lambda>(t, v). t = ty) as = Some (addr_attr tbl tid ty a)"
  shows "\<exists>c. stun_attr_get_first_addr_str tbl b l ty ca None = Some (0, c) \<and> addr_eq (Some c) (Some a)"
proof -
  note len = stun_msg_len(2) [OF assms(1)]
  obtain q c where q: "stun_attr_get_first_by_type_str b l ty = Some (Some q)"
      "stun_attr_get_type b (Some q) = Some (uint ty)"
    and get: "\<And>ca. stun_attr_get_addr_str tbl b l (Some q) ca None = Some (0, c)" and eq: "addr_eq (Some c) (Some a)"
    using by_type_addr_found [OF assms(1,2,4)] by metis
  have fnd: "find (\<lambda>p. fst (attr_at b p) = ty) (message_offsets b l) = Some q"
    using q(1) by (simp add: first_by_type_find [OF len])
  let ?body = "\<lambda>p ca. do {
         is_addr \<leftarrow> stun_attr_is_addr b (Some p);
         t \<leftarrow> stun_attr_get_type b (Some p);
         if is_addr \<and> uint ty = t then do {
           (r, ca) \<leftarrow> stun_attr_get_addr_str tbl b l (Some p) ca None;
           Some (r = 0, ca) }
         else Some (False, ca) }"
  have last: "?body q ca = Some (True, c)"
    using q(2) assms(3) get by (simp add: stun_attr_is_addr_def)
  have skip: "?body p st = Some (False, st)"
    if "p \<in> set (message_offsets b l)" and "fst (attr_at b p) \<noteq> ty" for p st
  proof -
    have "p + 4 \<le> length b"
      using message_offsets_in(2) [OF len that(1)] len by simp
    moreover have "uint ty \<noteq> uint (fst (attr_at b p))"
      using that(2) by (metis word_uint_eq_iff)
    ultimately show ?thesis
      by (simp add: stun_attr_is_addr_def get_type_Some)
  qed
  have "stun_attr_get_first_addr_str tbl b l ty ca None = Some (0, c)"
    using scan_st_found [where body = ?body, OF assms(1) fnd skip last]
    by (auto simp: stun_attr_get_first_addr_str_def bind_eq_Some_conv)
  then show ?thesis
    using eq by blast
qed

text \<open>C15: Round trip of an address attribute through a message, with the address table in between:
  an address added under an address type that the message does not have yet is found again, with the
  same IP address and port, IPv4 and IPv6, XOR-ed and plain.\<close>

theorem addr_attr_roundtrip:
  assumes "stun_msg buf len mt ck tid as" and "translatable tbl a"
    and "ty \<in> set addr_attr_types" and "ty \<notin> fst ` set as"
    and "len + 24 < 65507" and "len + 24 \<le> length buf"
  shows "\<exists>b l c. stun_attr_add_addr_str tbl buf len ty a = Some (0, b, l) \<and> l \<le> len + 24
    \<and> stun_attr_get_first_addr_str tbl b l ty ca None = Some (0, c) \<and> addr_eq (Some c) (Some a)"
proof -
  obtain b l where b: "stun_attr_add_addr_str tbl buf len ty a = Some (0, b, l)" "l \<le> len + 24"
    and rep: "stun_msg b l mt ck tid (as @ [addr_attr tbl tid ty a])"
    using add_addr_msg [OF assms(1,2,5,6), of ty] by (auto simp: addr_attr_def)
  have "find (\<lambda>(t, v). t = ty) as = None"
    using assms(4) by (auto simp: find_None_iff image_iff)
  then have "find (\<lambda>(t, v). t = ty) (as @ [addr_attr tbl tid ty a]) = Some (addr_attr tbl tid ty a)"
    by (simp add: msg.find_snoc addr_attr_def)
  then show ?thesis
    using first_addr_found [OF rep assms(2,3)] b by blast
qed

theorem addr_attr_roundtrip_witness:
  "\<exists>b l c. stun_attr_add_addr_str empty_map
       (header (stun_make_request STUN_METHOD_CREATE_PERMISSION) 0 STUN_MAGIC_COOKIE (replicate 12 7) @ replicate 40 0)
       20 STUN_ATTRIBUTE_XOR_PEER_ADDRESS (sample4 0x0100A8C0 0x5000) = Some (0, b, l) \<and> l \<le> 44
     \<and> stun_attr_get_first_addr_str empty_map b l STUN_ATTRIBUTE_XOR_PEER_ADDRESS zero_addr None = Some (0, c)
     \<and> addr_eq (Some c) (Some (sample4 0x0100A8C0 0x5000))"
proof -
  have "translatable empty_map (sample4 0x0100A8C0 0x5000)"
    by (simp add: translatable_def map_inv_def empty_map_def sample4_def wf_addr_def zero_addr_def
        inet_addr_def)
  then show ?thesis
    using addr_attr_roundtrip [OF stun_msg_new, of "replicate 12 7" empty_map
        "sample4 0x0100A8C0 0x5000" STUN_ATTRIBUTE_XOR_PEER_ADDRESS
        "stun_make_request STUN_METHOD_CREATE_PERMISSION" STUN_MAGIC_COOKIE "replicate 40 0" zero_addr]
    by (simp add: addr_attr_types_def)
qed

subsection \<open>The other typed attributes\<close>

lemma add_four:
  assumes "stun_msg buf len mt ck tid as" and "length v = 4"
    and "len + 8 < 65507" and "len + 8 \<le> length buf"
  shows "\<exists>b. stun_attr_add_str buf len ty (Some v) 4 = Some (0, b, len + 8) \<and> length b = length buf
    \<and> stun_msg b (len + 8) mt ck tid (as @ [(ty, v)])"
proof -
  have e: "len + 4 + pad4 4 = len + 8"
    by (simp add: pad4_def)
  show ?thesis
    using attr_added [OF assms(1), of 4 v ty, unfolded e] assms(2-4) by auto
qed

lemma four_access:
  assumes "stun_msg b (len + 8) mt ck tid (as @ [(ty, v)])" and "length v = 4" and "ty \<notin> fst ` set as"
  shows "stun_attr_get_first_by_type_str b (len + 8) ty = Some (Some len)"
    and "stun_attr_get_len b (Some len) = Some 4"
    and "stun_attr_get_value b (Some len) = Some (Some (len + 4))"
    and "\<forall>i<4. b ! (len + 4 + i) = v ! i" and "len + 8 \<le> length b"
proof -
  have p4: "pad4 (length v) = 4"
    using assms(2) by (simp add: pad4_def)
  then have p: "len = len + 8 - 4 - pad4 (length v)"
    by simp
  note acc = last_attr_access [OF assms(1) p]
  show "stun_attr_get_first_by_type_str b (len + 8) ty = Some (Some len)"
    using first_by_type_last(1) [OF assms(1,3)] p4 by simp
  show "stun_attr_get_len b (Some len) = Some 4" "len + 8 \<le> length b"
    using acc(2,5) assms(2) by simp_all
  show "stun_attr_get_value b (Some len) = Some (Some (len + 4))"
    using acc(3) assms(2) by (cases v) simp_all
  obtain rest where "drop (len + 4) b = v @ rest"
    using acc(4) by blast
  then have "b ! (len + 4 + i) = (v @ rest) ! i" for i
    using acc(5) by (metis add_leD1 nth_drop)
  then show "\<forall>i<4. b ! (len + 4 + i) = v ! i"
    using assms(2) by (simp add: nth_append)
qed

text \<open>Reading back the bytes of a four-byte value.\<close>

lemma four_bytes:
  assumes "\<forall>i<4. b ! (n + i) = v ! i" and "n + 4 \<le> length b" and "length v = 4"
  shows "rd16 b n = Some (le16 (v ! 0) (v ! 1))" and "rd8 b n = Some (v ! 0)"
    and "rd8 b (n + 2) = Some (v ! 2)" and "rd8 b (n + 3) = Some (v ! 3)"
    and "rd32 b n = Some (le32 (v ! 0) (v ! 1) (v ! 2) (v ! 3))"
proof -
  have "b ! n = v ! 0" "b ! (n + 1) = v ! 1" "b ! (n + 2) = v ! 2" "b ! (n + 3) = v ! 3"
    using assms(1) [rule_format, of 0] assms(1) [rule_format, of 1] assms(1) [rule_format, of 2]
      assms(1) [rule_format, of 3] by simp_all
  then show "rd16 b n = Some (le16 (v ! 0) (v ! 1))" "rd8 b n = Some (v ! 0)"
    "rd8 b (n + 2) = Some (v ! 2)" "rd8 b (n + 3) = Some (v ! 3)"
    "rd32 b n = Some (le32 (v ! 0) (v ! 1) (v ! 2) (v ! 3))"
    using assms(2) by (simp_all add: rd16_def rd8_def rd32_def)
qed

lemma change_request_back:
  assumes "stun_msg buf len mt ck tid as" and "len + 8 < 65507" and "len + 8 \<le> length buf"
    and "STUN_ATTRIBUTE_CHANGE_REQUEST \<notin> fst ` set as"
  shows "\<exists>b p ip port. stun_attr_add_change_request_str buf len change_ip change_port = Some (0, b, len + 8)
    \<and> stun_attr_get_first_by_type_str b (len + 8) STUN_ATTRIBUTE_CHANGE_REQUEST = Some p
    \<and> stun_attr_get_change_request_str b p = Some (0, Some (ip, port))
    \<and> (ip \<noteq> 0 \<longleftrightarrow> change_ip) \<and> (port \<noteq> 0 \<longleftrightarrow> change_port)"
proof -
  let ?x = "if change_ip then (if change_port then 0x06 else 0x04) else if change_port then 0x02 else 0 :: u8"
  obtain b where b: "stun_attr_add_str buf len STUN_ATTRIBUTE_CHANGE_REQUEST (Some [0, 0, 0, ?x]) 4 = Some (0, b, len + 8)"
    and rep: "stun_msg b (len + 8) mt ck tid (as @ [(STUN_ATTRIBUTE_CHANGE_REQUEST, [0, 0, 0, ?x])])"
    using add_four [OF assms(1) _ assms(2,3), of "[0, 0, 0, ?x]"] by auto
  note acc = four_access [OF rep _ assms(4)]
  have "rd8 b (len + 4 + 3) = Some ?x"
    using four_bytes(4) [OF acc(4)] acc(5) by simp
  then show ?thesis
    using b acc(1-3) by (auto simp: stun_attr_add_change_request_str_def stun_attr_get_change_request_str_def Let_def)
qed

lemma response_port_back:
  assumes "stun_msg buf len mt ck tid as" and "len + 8 < 65507" and "len + 8 \<le> length buf"
    and "STUN_ATTRIBUTE_RESPONSE_PORT \<notin> fst ` set as"
  shows "\<exists>b p. stun_attr_add_response_port_str buf len rport = Some (0, b, len + 8)
    \<and> stun_attr_get_first_by_type_str b (len + 8) STUN_ATTRIBUTE_RESPONSE_PORT = Some p
    \<and> stun_attr_get_response_port_str b p = Some (uint rport)"
proof -
  let ?v = "bytes16 (nswap16 rport) @ [0, 0]"
  obtain b where b: "stun_attr_add_str buf len STUN_ATTRIBUTE_RESPONSE_PORT (Some ?v) 4 = Some (0, b, len + 8)"
    and rep: "stun_msg b (len + 8) mt ck tid (as @ [(STUN_ATTRIBUTE_RESPONSE_PORT, ?v)])"
    using add_four [OF assms(1) _ assms(2,3), of ?v] by auto
  note acc = four_access [OF rep _ assms(4)]
  have "rd16 b (len + 4) = Some (nswap16 rport)"
    using four_bytes(1) [OF acc(4)] acc(5) by (simp add: bytes16_def byte_simps nswap16_def)
  then show ?thesis
    using b acc(1-3) by (auto simp: stun_attr_add_response_port_str_def stun_attr_get_response_port_str_def)
qed

lemma channel_number_back:
  assumes "stun_msg buf len mt ck tid as" and "len + 8 < 65507" and "len + 8 \<le> length buf"
    and "STUN_ATTRIBUTE_CHANNEL_NUMBER \<notin> fst ` set as" and "STUN_VALID_CHANNEL chn"
  shows "\<exists>b p. stun_attr_add_channel_number_str buf len chn = Some (0, b, len + 8)
    \<and> stun_attr_get_first_by_type_str b (len + 8) STUN_ATTRIBUTE_CHANNEL_NUMBER = Some p
    \<and> stun_attr_get_channel_number b p = Some chn"
proof -
  let ?v = "bytes16 (nswap16 chn) @ bytes16 0"
  obtain b where b: "stun_attr_add_str buf len STUN_ATTRIBUTE_CHANNEL_NUMBER (Some ?v) 4 = Some (0, b, len + 8)"
    and rep: "stun_msg b (len + 8) mt ck tid (as @ [(STUN_ATTRIBUTE_CHANNEL_NUMBER, ?v)])"
    using add_four [OF assms(1) _ assms(2,3), of ?v] by auto
  note acc = four_access [OF rep _ assms(4)]
  have "rd16 b (len + 4) = Some (nswap16 chn)"
    using four_bytes(1) [OF acc(4)] acc(5) by (simp add: bytes16_def byte_simps nswap16_def)
  then show ?thesis
    using b acc(1-3) assms(5)
    by (auto simp: stun_attr_add_channel_number_str_def stun_attr_get_channel_number_def)
qed

text \<open>The RFC 5780 attributes and the channel number come back as they were put in: the two
  flags of CHANGE-REQUEST, the port of RESPONSE-PORT, and a valid channel number.\<close>

lemma typed_attr_roundtrip:
  assumes "stun_msg buf len mt ck tid as" and "len + 8 < 65507" and "len + 8 \<le> length buf"
    and "fst ` set as \<inter> {STUN_ATTRIBUTE_CHANGE_REQUEST, STUN_ATTRIBUTE_RESPONSE_PORT,
        STUN_ATTRIBUTE_CHANNEL_NUMBER} = {}" and "STUN_VALID_CHANNEL chn"
  shows "(\<exists>b p ip port. stun_attr_add_change_request_str buf len change_ip change_port = Some (0, b, len + 8)
        \<and> stun_attr_get_first_by_type_str b (len + 8) STUN_ATTRIBUTE_CHANGE_REQUEST = Some p
        \<and> stun_attr_get_change_request_str b p = Some (0, Some (ip, port))
        \<and> (ip \<noteq> 0 \<longleftrightarrow> change_ip) \<and> (port \<noteq> 0 \<longleftrightarrow> change_port))
    \<and> (\<exists>b p. stun_attr_add_response_port_str buf len rport = Some (0, b, len + 8)
        \<and> stun_attr_get_first_by_type_str b (len + 8) STUN_ATTRIBUTE_RESPONSE_PORT = Some p
        \<and> stun_attr_get_response_port_str b p = Some (uint rport))
    \<and> (\<exists>b p. stun_attr_add_channel_number_str buf len chn = Some (0, b, len + 8)
        \<and> stun_attr_get_first_by_type_str b (len + 8) STUN_ATTRIBUTE_CHANNEL_NUMBER = Some p
        \<and> stun_attr_get_channel_number b p = Some chn)"
proof -
  have "STUN_ATTRIBUTE_CHANGE_REQUEST \<notin> fst ` set as" "STUN_ATTRIBUTE_RESPONSE_PORT \<notin> fst ` set as"
    "STUN_ATTRIBUTE_CHANNEL_NUMBER \<notin> fst ` set as"
    using assms(4) by auto
  then show ?thesis
    using change_request_back [OF assms(1-3)] response_port_back [OF assms(1-3)]
      channel_number_back [OF assms(1-3) _ assms(5)] by blast
qed

text \<open>A bandwidth survives the round trip only modulo \<open>2^32\<close> and rounded down to a multiple of
  128: the getter shifts in 32 bits although \<open>band_limit_t\<close> is wider.\<close>

lemma bandwidth_truncated:
  assumes "stun_msg buf len mt ck tid as" and "len + 8 < 65507" and "len + 8 \<le> length buf"
    and "STUN_ATTRIBUTE_NEW_BANDWIDTH \<notin> fst ` set as"
  shows "\<exists>b p. stun_attr_add_bandwidth_str buf len bps = Some (0, b, len + 8)
    \<and> stun_attr_get_first_by_type_str b (len + 8) STUN_ATTRIBUTE_NEW_BANDWIDTH = Some p
    \<and> stun_attr_get_bandwidth b p = Some (bps AND 0xFFFFFF80)"
proof -
  let ?w = "ucast (drop_bit 7 bps) :: u32"
  let ?v = "bytes32 (nswap32 ?w)"
  obtain b where b: "stun_attr_add_str buf len STUN_ATTRIBUTE_NEW_BANDWIDTH (Some ?v) 4 = Some (0, b, len + 8)"
    and rep: "stun_msg b (len + 8) mt ck tid (as @ [(STUN_ATTRIBUTE_NEW_BANDWIDTH, ?v)])"
    using add_four [OF assms(1) _ assms(2,3), of ?v] by auto
  note acc = four_access [OF rep _ assms(4)]
  have "rd32 b (len + 4) = Some (nswap32 ?w)"
    using four_bytes(5) [OF acc(4)] acc(5) by (simp add: bytes32_def byte_simps nswap32_def)
  moreover have "ucast (push_bit 7 ?w :: u32) = bps AND 0xFFFFFF80"
  proof (rule bit_word_eqI)
    fix n assume "n < LENGTH(64)"
    have m: "(0xFFFFFF80 :: u64) = push_bit 7 (mask 25)"
      by (simp add: mask_eq_exp_minus_1)
    have "bit (0xFFFFFF80 :: u64) n \<longleftrightarrow> 7 \<le> n \<and> n < 32"
      unfolding m using \<open>n < LENGTH(64)\<close> by (auto simp: bit_simps)
    then show "bit (ucast (push_bit 7 ?w :: u32) :: u64) n = bit (bps AND 0xFFFFFF80) n"
      by (auto simp: bit_simps)
  qed
  ultimately show ?thesis
    using b acc(1-3)
    by (auto simp: stun_attr_add_bandwidth_str_def stun_attr_get_bandwidth_def Let_def)
qed

text \<open>The lifetime granted lies between ten minutes and the server's cap, unless the credential's
  own remaining lifetime is shorter, which then is the result.\<close>

lemma lifetime_adjusted:
  assumes "600 \<le> cap"
  shows "let r = stun_adjust_allocate_lifetime lifetime cap max_lifetime in
    r \<le> cap \<and> (max_lifetime \<noteq> 0 \<longrightarrow> r \<le> max_lifetime)
    \<and> (600 \<le> r \<or> r = max_lifetime)
    \<and> (600 \<le> lifetime \<and> lifetime \<le> cap \<and> (max_lifetime = 0 \<or> lifetime \<le> max_lifetime) \<longrightarrow> r = lifetime)"
  using assms by (auto simp: stun_adjust_allocate_lifetime_def Let_def not_less)

end
