(* ===== verification/Messages.thy ===== *)
theory Messages
  imports Attr_Typed
begin

text \<open>
  Whole messages: error responses, and the ALLOCATE, CHANNEL BIND and BINDING requests and responses
  of \<open>client/ns_turn_msg.c\<close>, with the functions that recognise error and challenge responses.

  A builder returns its C result with the new contents of the buffer and of \<open>*len\<close>; an early
  \<open>return -1\<close> leaves what was written so far.
\<close>

subsection \<open>Error responses\<close>

definition stun_init_error_response_common_str ::
    "mem \<Rightarrow> nat \<Rightarrow> u16 \<Rightarrow> mem option \<Rightarrow> mem option \<Rightarrow> (mem \<times> nat) option" where
  "stun_init_error_response_common_str buf len error_code reason tid = do {
     unknown \<leftarrow> (case reason of None \<Rightarrow> Some True | Some r \<Rightarrow> c_streq r (c_lit ''Unknown error''));
     let reason = (if unknown then get_default_reason (uint error_code) else the reason);
     (avalue, alen) \<leftarrow> error_avalue 0 (uint error_code) reason;
     (_, b, l) \<leftarrow> stun_attr_add_str buf len STUN_ATTRIBUTE_ERROR_CODE (Some avalue) alen;
     b \<leftarrow> stun_tid_message_cpy b tid;
     Some (b, l) }"

definition old_stun_init_error_response_str ::
    "entropy \<Rightarrow> u16 \<Rightarrow> mem \<Rightarrow> u16 \<Rightarrow> mem option \<Rightarrow> mem option \<Rightarrow> u32 \<Rightarrow> (mem \<times> nat) option" where
  "old_stun_init_error_response_str e method buf error_code reason tid cookie = do {
     (b, l) \<leftarrow> old_stun_init_command_str e (stun_make_error_response method) buf cookie;
     stun_init_error_response_common_str b l error_code reason tid }"

definition stun_init_error_response_str ::
    "entropy \<Rightarrow> u16 \<Rightarrow> mem \<Rightarrow> u16 \<Rightarrow> mem option \<Rightarrow> mem option \<Rightarrow> (mem \<times> nat) option" where
  "stun_init_error_response_str e method buf error_code reason tid = do {
     (b, l) \<leftarrow> stun_init_command_str e (stun_make_error_response method) buf;
     stun_init_error_response_common_str b l error_code reason tid }"

text \<open>
  The out-parameters \<open>err_code\<close> and \<open>err_msg\<close> are options, \<open>None\<close> for NULL.
\<close>

definition stun_is_error_response_str ::
    "mem \<Rightarrow> nat \<Rightarrow> int option \<Rightarrow> mem option \<Rightarrow> nat \<Rightarrow> (bool \<times> int option \<times> mem option) option" where
  "stun_is_error_response_str buf len err_code err_msg err_msg_size = do {
     c \<leftarrow> is_channel_msg_str buf len;
     if c then Some (False, err_code, err_msg)
     else do {
       t \<leftarrow> stun_get_msg_type_str buf len;
       if \<not> IS_STUN_ERR_RESP t then Some (False, err_code, err_msg)
       else if err_code = None then Some (True, err_code, err_msg)
       else do {
         sar \<leftarrow> stun_attr_get_first_by_type_str buf len STUN_ATTRIBUTE_ERROR_CODE;
         if sar = None then Some (True, err_code, err_msg)
         else do {
           l \<leftarrow> stun_attr_get_len buf sar;
           if l < 4 then Some (True, err_code, err_msg)
           else do {
             val \<leftarrow> stun_attr_get_value buf sar;
             v \<leftarrow> val;
             v2 \<leftarrow> rd8 buf (v + 2);
             v3 \<leftarrow> rd8 buf (v + 3);
             let err_code = Some (uint v2 * 100 + uint v3);
             case err_msg of
               None \<Rightarrow> Some (True, err_code, err_msg)
             | Some m \<Rightarrow>
                 if err_msg_size = 0 then Some (True, err_code, err_msg)
                 else do {
                   m \<leftarrow> wr8 m 0 0;
                   if l > 4 then do {
                     let msg_len = (if nat l - 4 > err_msg_size - 1 then err_msg_size - 1 else nat l - 4);
                     bs \<leftarrow> rdn buf (v + 4) msg_len;
                     m \<leftarrow> wrn m 0 bs;
                     m \<leftarrow> wr8 m msg_len 0;
                     Some (True, err_code, Some m) }
                   else Some (True, err_code, Some m) } } } } } }"

text \<open>
  The buffers the caller of \<open>stun_is_challenge_response_str\<close> hands over; \<open>err_code\<close>, \<open>realm\<close> and
  \<open>nonce\<close> are never NULL.
\<close>

record challenge =
  ch_err_code :: int
  ch_err_msg :: "mem option"
  ch_realm :: mem
  ch_nonce :: mem
  ch_server_name :: "mem option"
  ch_oauth :: "bool option"

text \<open>\<open>bcopy(value, dst, vlen)\<close> from the attribute at \<open>p\<close>; \<open>dst[vlen] = 0\<close> when \<open>term\<close>.\<close>

definition copy_value :: "mem \<Rightarrow> nat \<Rightarrow> nat \<Rightarrow> mem \<Rightarrow> bool \<Rightarrow> mem option" where
  "copy_value buf p vlen dst term = do {
     bs \<leftarrow> rdn buf p vlen;
     d \<leftarrow> wrn dst 0 bs;
     if term then wr8 d vlen 0 else Some d }"

text \<open>The part of a challenge behind the realm: the optional server name, then the nonce.\<close>

definition challenge_rest :: "mem \<Rightarrow> nat \<Rightarrow> challenge \<Rightarrow> (bool \<times> challenge) option" where
  "challenge_rest buf len ch = do {
     sar \<leftarrow> stun_attr_get_first_by_type_str buf len STUN_ATTRIBUTE_THIRD_PARTY_AUTHORIZATION;
     (found_oauth, ch) \<leftarrow> (if sar = None then Some (False, ch) else do {
        value \<leftarrow> stun_attr_get_value buf sar;
        vlen \<leftarrow> stun_attr_get_len buf sar;
        case value of None \<Rightarrow> Some (False, ch)
        | Some v \<Rightarrow> if vlen > 0 then
              (case ch_server_name ch of None \<Rightarrow> Some (True, ch)
               | Some s \<Rightarrow> do { s \<leftarrow> copy_value buf v (nat vlen) s False;
                              Some (True, ch\<lparr>ch_server_name := Some s\<rparr>) })
            else Some (False, ch) });
     sar \<leftarrow> stun_attr_get_first_by_type_str buf len STUN_ATTRIBUTE_NONCE;
     if sar = None then Some (False, ch)
     else do {
       value \<leftarrow> stun_attr_get_value buf sar;
       vlen \<leftarrow> stun_attr_get_len buf sar;
       case value of None \<Rightarrow> Some (False, ch)
       | Some v \<Rightarrow> do {
           n \<leftarrow> copy_value buf v (nat vlen) (ch_nonce ch) True;
           Some (True, ch\<lparr>ch_nonce := n, ch_oauth := map_option (\<lambda>_. found_oauth) (ch_oauth ch)\<rparr>) } } }"

definition stun_is_challenge_response_str ::
    "mem \<Rightarrow> nat \<Rightarrow> nat \<Rightarrow> challenge \<Rightarrow> (bool \<times> challenge) option" where
  "stun_is_challenge_response_str buf len err_msg_size ch = do {
     (ret, ec, em) \<leftarrow> stun_is_error_response_str buf len (Some (ch_err_code ch)) (ch_err_msg ch) err_msg_size;
     let ch = ch\<lparr>ch_err_code := the ec, ch_err_msg := em\<rparr>;
     if ret \<and> (the ec = 401 \<or> the ec = 438) then do {
       sar \<leftarrow> stun_attr_get_first_by_type_str buf len STUN_ATTRIBUTE_REALM;
       if sar = None then Some (False, ch)
       else do {
         value \<leftarrow> stun_attr_get_value buf sar;
         vlen \<leftarrow> stun_attr_get_len buf sar;
         case value of None \<Rightarrow> Some (False, ch)
         | Some v \<Rightarrow> do {
             r \<leftarrow> copy_value buf v (nat vlen) (ch_realm ch) True;
             challenge_rest buf len (ch\<lparr>ch_realm := r\<rparr>) } } }
     else Some (False, ch) }"

subsection \<open>ALLOCATE\<close>

text \<open>\<open>if (call < 0) return -1;\<close> and go on.\<close>

definition on_ok ::
    "(int \<times> mem \<times> nat) option \<Rightarrow> (mem \<Rightarrow> nat \<Rightarrow> (int \<times> mem \<times> nat) option) \<Rightarrow> (int \<times> mem \<times> nat) option" where
  "on_ok x f = do { (r, b, l) \<leftarrow> x; if r < 0 then Some (-1, b, l) else f b l }"

definition stun_set_allocate_request_str ::
    "entropy \<Rightarrow> mem \<Rightarrow> u32 \<Rightarrow> bool \<Rightarrow> bool \<Rightarrow> u8 \<Rightarrow> bool \<Rightarrow> mem option \<Rightarrow> int \<Rightarrow> (int \<times> mem \<times> nat) option" where
  "stun_set_allocate_request_str e buf lifetime af4 af6 transport mobile rt ep = do {
     (b, l) \<leftarrow> stun_init_request_str e STUN_METHOD_ALLOCATE buf;
     on_ok (stun_attr_add_str b l STUN_ATTRIBUTE_REQUESTED_TRANSPORT (Some [transport, 0, 0, 0]) 4) (\<lambda>b l.
     on_ok (stun_attr_add_str b l STUN_ATTRIBUTE_LIFETIME
              (Some (bytes32 (nswap32 (if lifetime < 1 then 600 else lifetime)))) 4) (\<lambda>b l.
     on_ok (if mobile then stun_attr_add_str b l STUN_ATTRIBUTE_MOBILITY_TICKET (Some [0]) 0
            else Some (0, b, l)) (\<lambda>b l.
     on_ok (if ep > -1 then stun_attr_add_str b l STUN_ATTRIBUTE_EVEN_PORT
                              (Some [if ep \<noteq> 0 then 0x80 else 0x00]) 1
            else Some (0, b, l)) (\<lambda>b l.
     case rt of
       Some r \<Rightarrow> do {
         (_, b, l) \<leftarrow> stun_attr_add_str b l STUN_ATTRIBUTE_RESERVATION_TOKEN (Some r) 8;
         Some (0, b, l) }
     | None \<Rightarrow>
         on_ok (if af4 \<and> \<not> af6 then
                  stun_attr_add_str b l STUN_ATTRIBUTE_REQUESTED_ADDRESS_FAMILY (Some [1, 0, 0, 0]) 4
                else Some (0, b, l)) (\<lambda>b l.
         on_ok (if af6 \<and> \<not> af4 then
                  stun_attr_add_str b l STUN_ATTRIBUTE_REQUESTED_ADDRESS_FAMILY (Some [2, 0, 0, 0]) 4
                else Some (0, b, l)) (\<lambda>b l.
         on_ok (if af4 \<and> af6 then
                  stun_attr_add_str b l STUN_ATTRIBUTE_ADDITIONAL_ADDRESS_FAMILY (Some [2, 0, 0, 0]) 4
                else Some (0, b, l)) (\<lambda>b l. Some (0, b, l)))))))) }"

definition stun_set_allocate_response_str ::
    "entropy \<Rightarrow> addr_map \<Rightarrow> mem \<Rightarrow> mem option \<Rightarrow> ioa_addr option \<Rightarrow> ioa_addr option \<Rightarrow> ioa_addr option
     \<Rightarrow> u32 \<Rightarrow> u32 \<Rightarrow> int \<Rightarrow> mem option \<Rightarrow> u64 \<Rightarrow> mem option \<Rightarrow> (int \<times> mem \<times> nat) option" where
  "stun_set_allocate_response_str e tbl buf tid relayed_addr1 relayed_addr2 reflexive_addr
       lifetime max_lifetime error_code reason reservation_token mobile_id =
     (if error_code = 0 then do {
        (b, l) \<leftarrow> stun_init_success_response_str e STUN_METHOD_ALLOCATE buf tid;
        on_ok (case relayed_addr1 of Some a \<Rightarrow>
            stun_attr_add_addr_str tbl b l STUN_ATTRIBUTE_XOR_RELAYED_ADDRESS a
          | None \<Rightarrow> Some (0, b, l)) (\<lambda>b l.
        on_ok (case relayed_addr2 of Some a \<Rightarrow>
            stun_attr_add_addr_str tbl b l STUN_ATTRIBUTE_XOR_RELAYED_ADDRESS a
          | None \<Rightarrow> Some (0, b, l)) (\<lambda>b l.
        on_ok (case reflexive_addr of Some a \<Rightarrow>
            stun_attr_add_addr_str tbl b l STUN_ATTRIBUTE_XOR_MAPPED_ADDRESS a
          | None \<Rightarrow> Some (0, b, l)) (\<lambda>b l. do {
        (_, b, l) \<leftarrow> (if reservation_token \<noteq> 0 then
            stun_attr_add_str b l STUN_ATTRIBUTE_RESERVATION_TOKEN
              (Some (bytes64 (nswap64 reservation_token))) 8
          else Some (0, b, l));
        let lifetime = (if lifetime < 1 then 600
                        else if lifetime > max_lifetime then max_lifetime else lifetime);
        on_ok (stun_attr_add_str b l STUN_ATTRIBUTE_LIFETIME (Some (bytes32 (nswap32 lifetime))) 4) (\<lambda>b l.
        case mobile_id of None \<Rightarrow> Some (0, b, l)
        | Some s \<Rightarrow> do {
            c \<leftarrow> rd8 s 0;
            if c \<noteq> 0 then do {
              n \<leftarrow> c_strlen s;
              on_ok (stun_attr_add_str b l STUN_ATTRIBUTE_MOBILITY_TICKET (Some s) (int n)) (\<lambda>b l. Some (0, b, l)) }
            else Some (0, b, l) }) }))) }
      else do {
        (b, l) \<leftarrow> stun_init_error_response_str e STUN_METHOD_ALLOCATE buf (word_of_int error_code) reason tid;
        Some (0, b, l) })"

subsection \<open>CHANNEL BIND\<close>

text \<open>The result is the channel number, 0 on failure.  A missing peer is the zeroed address.\<close>

definition stun_set_channel_bind_request_str ::
    "entropy \<Rightarrow> entropy \<Rightarrow> addr_map \<Rightarrow> mem \<Rightarrow> ioa_addr option \<Rightarrow> u16 \<Rightarrow> (u16 \<times> mem \<times> nat) option" where
  "stun_set_channel_bind_request_str e1 e2 tbl buf peer_addr channel_number0 = do {
     let channel_number = (if \<not> STUN_VALID_CHANNEL channel_number0
        then 0x4000 + ucast ((ucast (turn_random e1) :: u32) mod 0x4000) else channel_number0);
     (b, l) \<leftarrow> stun_init_request_str e2 STUN_METHOD_CHANNEL_BIND buf;
     (r, b, l) \<leftarrow> stun_attr_add_channel_number_str b l channel_number;
     if r < 0 then Some (0, b, l)
     else do {
       (r, b, l) \<leftarrow> stun_attr_add_addr_str tbl b l STUN_ATTRIBUTE_XOR_PEER_ADDRESS
          (case peer_addr of None \<Rightarrow> zero_addr | Some a \<Rightarrow> a);
       if r < 0 then Some (0, b, l) else Some (channel_number, b, l) } }"

definition stun_set_channel_bind_response_str ::
    "entropy \<Rightarrow> mem \<Rightarrow> mem option \<Rightarrow> int \<Rightarrow> mem option \<Rightarrow> (mem \<times> nat) option" where
  "stun_set_channel_bind_response_str e buf tid error_code reason =
     (if error_code = 0 then stun_init_success_response_str e STUN_METHOD_CHANNEL_BIND buf tid
      else stun_init_error_response_str e STUN_METHOD_CHANNEL_BIND buf (word_of_int error_code) reason tid)"

subsection \<open>BINDING\<close>

definition stun_set_binding_request_str :: "entropy \<Rightarrow> mem \<Rightarrow> (mem \<times> nat) option" where
  "stun_set_binding_request_str e buf = stun_init_request_str e STUN_METHOD_BINDING buf"

definition stun_set_binding_response_str ::
    "entropy \<Rightarrow> addr_map \<Rightarrow> mem \<Rightarrow> mem option \<Rightarrow> ioa_addr option \<Rightarrow> int \<Rightarrow> mem option \<Rightarrow> u32 \<Rightarrow> bool \<Rightarrow> bool
     \<Rightarrow> (int \<times> mem \<times> nat) option" where
  "stun_set_binding_response_str e tbl buf tid reflexive_addr error_code reason cookie old_stun
       no_stun_backward_compatibility =
     (if error_code = 0 then do {
        (b, l) \<leftarrow> (if \<not> old_stun then stun_init_success_response_str e STUN_METHOD_BINDING buf tid
                  else old_stun_init_success_response_str e STUN_METHOD_BINDING buf tid cookie);
        on_ok (case reflexive_addr of
            Some a \<Rightarrow> if \<not> old_stun then stun_attr_add_addr_str tbl b l STUN_ATTRIBUTE_XOR_MAPPED_ADDRESS a
                      else Some (0, b, l)
          | None \<Rightarrow> Some (0, b, l)) (\<lambda>b l.
        on_ok (case reflexive_addr of
            Some a \<Rightarrow> if \<not> no_stun_backward_compatibility
                      then stun_attr_add_addr_str tbl b l STUN_ATTRIBUTE_MAPPED_ADDRESS a
                      else Some (0, b, l)
          | None \<Rightarrow> Some (0, b, l)) (\<lambda>b l. Some (0, b, l))) }
      else if \<not> old_stun then do {
        (b, l) \<leftarrow> stun_init_error_response_str e STUN_METHOD_BINDING buf (word_of_int error_code) reason tid;
        Some (0, b, l) }
      else do {
        (b, l) \<leftarrow> old_stun_init_error_response_str e STUN_METHOD_BINDING buf (word_of_int error_code) reason tid cookie;
        Some (0, b, l) })"

definition stun_is_binding_request_str :: "mem \<Rightarrow> nat \<Rightarrow> nat \<Rightarrow> bool option" where
  "stun_is_binding_request_str buf len offset =
     (if offset < len then do {
        let b = drop offset buf;
        let l = len - offset;
        c \<leftarrow> stun_is_command_message_str b l;
        if c then do {
          r \<leftarrow> stun_is_request_str b l;
          if r then do { m \<leftarrow> stun_get_method_str b l; Some (m = STUN_METHOD_BINDING) }
          else Some False }
        else Some False }
      else Some False)"

definition stun_is_binding_response_str :: "mem \<Rightarrow> nat \<Rightarrow> bool option" where
  "stun_is_binding_response_str buf len = do {
     c \<leftarrow> stun_is_command_message_str buf len;
     if c then do {
       m \<leftarrow> stun_get_method_str buf len;
       if m = STUN_METHOD_BINDING then stun_is_response_str buf len else Some False }
     else Some False }"

subsection \<open>Building a message step by step\<close>

fun attrs_size :: "(u16 \<times> mem) list \<Rightarrow> nat" where
  "attrs_size [] = 0"
| "attrs_size ((ty, v) # as) = 4 + pad4 (length v) + attrs_size as"

definition msg_size :: "(u16 \<times> mem) list \<Rightarrow> nat" where
  "msg_size as = 20 + attrs_size as"

lemma attrs_size_append [simp]: "attrs_size (as @ bs) = attrs_size as + attrs_size bs"
  by (induction as rule: attrs_size.induct) simp_all

lemma msg_size_snoc: "msg_size (as @ [(ty, v)]) = msg_size as + 4 + pad4 (length v)"
  by (simp add: msg_size_def)

lemma exact_size: "attrs_exact r \<Longrightarrow> length r = attrs_size (parse_attrs r)"
proof (induction r rule: attrs_exact.induct)
  case (1 r)
  show ?case
  proof (cases "r = []")
    case False
    let ?k = "4 + pad4 (attr_len r)"
    have le: "4 \<le> length r" "?k \<le> length r" and ex: "attrs_exact (drop ?k r)"
      using 1(2) False by (simp_all add: attrs_exact.simps [of r] split: if_splits)
    have "attr_len r \<le> length r - 4"
      using le pad4_bounds(1) [of "attr_len r"] by linarith
    then show ?thesis
      using 1(1) [OF conjI [OF le] ex] le by (simp add: parse_attrs.simps [of r])
  qed simp
qed

lemma stun_msg_size:
  assumes "stun_msg buf len mt ck tid as"
  shows "len = msg_size as"
proof -
  obtain r where "len = 20 + length r" "attrs_exact r" "parse_attrs r = as"
    using stun_msgE [OF assms] by metis
  then show ?thesis
    using exact_size [of r] by (simp add: msg_size_def)
qed

text \<open>The outcome of a builder that succeeded: the message with these attributes.\<close>

definition built :: "(int \<times> mem \<times> nat) option \<Rightarrow> nat \<Rightarrow> u16 \<Rightarrow> u32 \<Rightarrow> mem \<Rightarrow> (u16 \<times> mem) list \<Rightarrow> bool" where
  "built x cap mt ck tid as \<longleftrightarrow>
     (\<exists>b. x = Some (0, b, msg_size as) \<and> stun_msg b (msg_size as) mt ck tid as \<and> length b = cap)"

lemma built_done:
  "stun_msg b l mt ck tid as \<Longrightarrow> length b = cap \<Longrightarrow> built (Some (0, b, l)) cap mt ck tid as"
  using stun_msg_size by (fastforce simp: built_def)

lemma built_add:
  assumes "stun_msg b l mt ck tid as" and "length b = cap" and "n \<le> length v"
    and "msg_size (as @ [(ty, take n v)]) < 65507" and "msg_size (as @ [(ty, take n v)]) \<le> cap"
  shows "built (stun_attr_add_str b l ty (Some v) (int n)) cap mt ck tid (as @ [(ty, take n v)])"
proof -
  have l: "l = msg_size as"
    by (rule stun_msg_size [OF assms(1)])
  have "min (length v) n = n"
    using assms(3) by simp
  then show ?thesis
    using attr_added [OF assms(1,3), of ty] assms(2,4,5) by (auto simp: built_def msg_size_snoc l)
qed

lemma built_on_ok:
  assumes "built x cap mt ck tid as"
    and "\<And>b. stun_msg b (msg_size as) mt ck tid as \<Longrightarrow> length b = cap
      \<Longrightarrow> built (f b (msg_size as)) cap mt ck tid as'"
  shows "built (on_ok x f) cap mt ck tid as'"
proof -
  obtain b where "x = Some (0, b, msg_size as)" "stun_msg b (msg_size as) mt ck tid as" "length b = cap"
    using assms(1) by (auto simp: built_def)
  then show ?thesis
    using assms(2) [of b] by (simp add: on_ok_def)
qed

lemma on_ok_ok [simp]: "on_ok (Some (0, b, l)) f = f b l"
  by (simp add: on_ok_def)

lemma built_addr:
  assumes "stun_msg b l mt ck tid as" and "length b = cap" and "translatable tbl a"
    and "msg_size as + 24 < 65507" and "msg_size as + 24 \<le> cap"
  shows "built (stun_attr_add_addr_str tbl b l ty a) cap mt ck tid (as @ [addr_attr tbl tid ty a])"
proof -
  have l: "l = msg_size as"
    by (rule stun_msg_size [OF assms(1)])
  show ?thesis
    using add_addr_msg [OF assms(1,3), of ty] assms(2,4,5) stun_msg_size
    by (fastforce simp: built_def l addr_attr_def)
qed

lemma addr_attr_size:
  assumes "translatable tbl a" and "length tid = 12"
  shows "attrs_size [addr_attr tbl tid ty a] \<le> 24"
proof -
  have "wf_addr (map_addr_from_private_to_public tbl a)"
    using addr_table.keeps_wf [OF assms(1)] by simp
  then show ?thesis
    using length_enc_addr [OF assms(2)] by (simp add: addr_attr_def pad4_def)
qed

definition opt_addr :: "addr_map \<Rightarrow> mem \<Rightarrow> u16 \<Rightarrow> ioa_addr option \<Rightarrow> (u16 \<times> mem) list" where
  "opt_addr tbl tid ty a = (case a of None \<Rightarrow> [] | Some x \<Rightarrow> [addr_attr tbl tid ty x])"

definition opt_translatable :: "addr_map \<Rightarrow> ioa_addr option \<Rightarrow> bool" where
  "opt_translatable tbl a \<longleftrightarrow> (case a of None \<Rightarrow> True | Some x \<Rightarrow> translatable tbl x)"

lemma opt_addr_size:
  "opt_translatable tbl a \<Longrightarrow> length tid = 12 \<Longrightarrow> attrs_size (opt_addr tbl tid ty a) \<le> 24"
  using addr_attr_size by (auto simp: opt_addr_def opt_translatable_def split: option.splits)

lemma built_opt_addr:
  assumes "stun_msg b l mt ck tid as" and "length b = cap" and "opt_translatable tbl a"
    and "msg_size as + 24 < 65507" and "msg_size as + 24 \<le> cap"
  shows "built (case a of Some x \<Rightarrow> stun_attr_add_addr_str tbl b l ty x | None \<Rightarrow> Some (0, b, l)) cap mt ck tid
    (as @ opt_addr tbl tid ty a)"
  using built_addr [OF assms(1,2) _ assms(4,5)] built_done [OF assms(1,2)] assms(3)
  by (auto simp: opt_addr_def opt_translatable_def split: option.splits)

subsection \<open>ALLOCATE requests\<close>

definition allocate_request_attrs ::
    "u32 \<Rightarrow> bool \<Rightarrow> bool \<Rightarrow> u8 \<Rightarrow> bool \<Rightarrow> mem option \<Rightarrow> int \<Rightarrow> (u16 \<times> mem) list" where
  "allocate_request_attrs lifetime af4 af6 transport mobile rt ep =
     [(STUN_ATTRIBUTE_REQUESTED_TRANSPORT, [transport, 0, 0, 0]),
      (STUN_ATTRIBUTE_LIFETIME, bytes32 (nswap32 (if lifetime < 1 then 600 else lifetime)))]
     @ (if mobile then [(STUN_ATTRIBUTE_MOBILITY_TICKET, [])] else [])
     @ (if ep > -1 then [(STUN_ATTRIBUTE_EVEN_PORT, [if ep \<noteq> 0 then 0x80 else 0])] else [])
     @ (case rt of Some r \<Rightarrow> [(STUN_ATTRIBUTE_RESERVATION_TOKEN, take 8 r)]
        | None \<Rightarrow>
            (if af4 \<and> \<not> af6 then [(STUN_ATTRIBUTE_REQUESTED_ADDRESS_FAMILY, [1, 0, 0, 0])] else [])
            @ (if af6 \<and> \<not> af4 then [(STUN_ATTRIBUTE_REQUESTED_ADDRESS_FAMILY, [2, 0, 0, 0])] else [])
            @ (if af4 \<and> af6 then [(STUN_ATTRIBUTE_ADDITIONAL_ADDRESS_FAMILY, [2, 0, 0, 0])] else []))"

lemma pad4_small: "pad4 0 = 0" "pad4 (Suc 0) = 4" "pad4 4 = 4" "pad4 8 = 8"
  "pad4 (Suc (Suc (Suc (Suc 0)))) = 4"
  by (simp_all add: pad4_def)

text \<open>Optional attributes: the step that adds one or leaves the message alone.\<close>

lemma built_optional:
  assumes "stun_msg b l mt ck tid as" and "length b = cap" and "n \<le> length v"
    and "msg_size (as @ [(ty, take n v)]) < 65507" and "msg_size (as @ [(ty, take n v)]) \<le> cap"
  shows "built (if c then stun_attr_add_str b l ty (Some v) (int n) else Some (0, b, l)) cap mt ck tid
    (as @ (if c then [(ty, take n v)] else []))"
  using built_add [OF assms] built_done [OF assms(1,2)] by simp

lemma optional_bounds: "attrs_size (if c then [(ty, v)] else []) \<le> 4 + pad4 (length v)"
  by simp

text \<open>The address family, the last choice of a request without a reservation token.\<close>

lemma family_step:
  assumes "stun_msg b l mt ck tid as" and "length b = cap" and "msg_size as + 8 < 65507"
    and "msg_size as + 8 \<le> cap"
  shows "built (on_ok (if af4 \<and> \<not> af6 then
                  stun_attr_add_str b l STUN_ATTRIBUTE_REQUESTED_ADDRESS_FAMILY (Some [1, 0, 0, 0]) 4
                else Some (0, b, l)) (\<lambda>b l.
         on_ok (if af6 \<and> \<not> af4 then
                  stun_attr_add_str b l STUN_ATTRIBUTE_REQUESTED_ADDRESS_FAMILY (Some [2, 0, 0, 0]) 4
                else Some (0, b, l)) (\<lambda>b l.
         on_ok (if af4 \<and> af6 then
                  stun_attr_add_str b l STUN_ATTRIBUTE_ADDITIONAL_ADDRESS_FAMILY (Some [2, 0, 0, 0]) 4
                else Some (0, b, l)) (\<lambda>b l. Some (0, b, l))))) cap mt ck tid
    (as @ (if af4 \<and> \<not> af6 then [(STUN_ATTRIBUTE_REQUESTED_ADDRESS_FAMILY, [1, 0, 0, 0])] else [])
            @ (if af6 \<and> \<not> af4 then [(STUN_ATTRIBUTE_REQUESTED_ADDRESS_FAMILY, [2, 0, 0, 0])] else [])
            @ (if af4 \<and> af6 then [(STUN_ATTRIBUTE_ADDITIONAL_ADDRESS_FAMILY, [2, 0, 0, 0])] else []))"
proof -
  have add: "built (stun_attr_add_str b l ty (Some [x, 0, 0, 0]) 4) cap mt ck tid (as @ [(ty, [x, 0, 0, 0])])"
    for ty x
    using built_add [OF assms(1,2), of 4 "[x, 0, 0, 0]" ty] assms(3,4) by (simp add: msg_size_snoc pad4_small)
  have fin: "built (on_ok (stun_attr_add_str b l ty (Some [x, 0, 0, 0]) 4) (\<lambda>b l. Some (0, b, l)))
      cap mt ck tid (as @ [(ty, [x, 0, 0, 0])])" for ty x
    using add by (rule built_on_ok) (rule built_done)
  show ?thesis
    using fin built_done [OF assms(1,2)] by (cases af4; cases af6) simp_all
qed

lemma allocate_request_built:
  assumes "60 \<le> length buf" and "case rt of None \<Rightarrow> True | Some r \<Rightarrow> 8 \<le> length r"
  shows "built (stun_set_allocate_request_str e buf lifetime af4 af6 transport mobile rt ep) (length buf)
    (stun_make_request STUN_METHOD_ALLOCATE) STUN_MAGIC_COOKIE (turn_random_tid_size e)
    (allocate_request_attrs lifetime af4 af6 transport mobile rt ep)"
proof -
  let ?mt = "stun_make_request STUN_METHOD_ALLOCATE" and ?tid = "turn_random_tid_size e"
  let ?h = "header ?mt 0 STUN_MAGIC_COOKIE ?tid @ drop 20 buf"
  let ?a1 = "[(STUN_ATTRIBUTE_REQUESTED_TRANSPORT, [transport, 0, 0, 0])]"
  define lt where "lt = bytes32 (nswap32 (if lifetime < 1 then 600 else lifetime))"
  have llt: "length lt = 4"
    by (simp add: lt_def)
  let ?a2 = "?a1 @ [(STUN_ATTRIBUTE_LIFETIME, lt)]"
  let ?a3 = "?a2 @ (if mobile then [(STUN_ATTRIBUTE_MOBILITY_TICKET, [])] else [])"
  let ?ev = "[if ep \<noteq> 0 then 0x80 else 0x00] :: mem"
  let ?a4 = "?a3 @ (if ep > -1 then [(STUN_ATTRIBUTE_EVEN_PORT, ?ev)] else [])"
  let ?B = "\<lambda>x as. built x (length buf) ?mt STUN_MAGIC_COOKIE ?tid as"
  note size = msg_size_def pad4_small llt
  have sz: "msg_size ?a1 = 28" "msg_size ?a2 = 36" "msg_size ?a3 \<le> 40" "msg_size ?a4 \<le> 48"
    by (simp_all add: size)
  have init: "stun_init_request_str e STUN_METHOD_ALLOCATE buf = Some (?h, 20)"
    using assms(1) by (simp add: init_header)
  have rep0: "stun_msg ?h 20 ?mt STUN_MAGIC_COOKIE ?tid []" and l0: "length ?h = length buf"
    using assms(1) by (simp_all add: stun_msg_new)
  have attrs: "allocate_request_attrs lifetime af4 af6 transport mobile rt ep =
      ?a4 @ (case rt of Some r \<Rightarrow> [(STUN_ATTRIBUTE_RESERVATION_TOKEN, take 8 r)]
        | None \<Rightarrow>
            (if af4 \<and> \<not> af6 then [(STUN_ATTRIBUTE_REQUESTED_ADDRESS_FAMILY, [1, 0, 0, 0])] else [])
            @ (if af6 \<and> \<not> af4 then [(STUN_ATTRIBUTE_REQUESTED_ADDRESS_FAMILY, [2, 0, 0, 0])] else [])
            @ (if af4 \<and> af6 then [(STUN_ATTRIBUTE_ADDITIONAL_ADDRESS_FAMILY, [2, 0, 0, 0])] else []))"
    by (simp only: allocate_request_attrs_def lt_def append_assoc append.simps)
  have fam: "msg_size ?a4 + 8 < 65507" "msg_size ?a4 + 8 \<le> length buf"
    using sz(4) assms(1) by linarith+
  show ?thesis
    unfolding stun_set_allocate_request_str_def init bind.bind_lunit prod.case lt_def [symmetric]
    apply (rule built_on_ok [where as = ?a1])
    subgoal
      using built_add [OF rep0 l0, of 4 "[transport, 0, 0, 0]" STUN_ATTRIBUTE_REQUESTED_TRANSPORT] assms(1)
      by (simp add: size)
    apply (rule built_on_ok [where as = ?a2])
    subgoal premises p for b
      using built_add [OF p, of 4 lt STUN_ATTRIBUTE_LIFETIME] assms(1) llt by (simp add: size)
    apply (rule built_on_ok [where as = ?a3])
    subgoal premises p for _ b
      using built_optional [OF p(3,4), of 0 "[0]" STUN_ATTRIBUTE_MOBILITY_TICKET mobile] assms(1)
      by (cases mobile) (simp_all add: size)
    apply (rule built_on_ok [where as = ?a4])
    subgoal premises p for _ _ b
      using built_optional [OF p(5,6), of 1 ?ev STUN_ATTRIBUTE_EVEN_PORT "ep > -1"] assms(1) sz(3)
      by (cases "ep > -1"; cases mobile) (simp_all add: size)
    subgoal premises p for _ _ _ b
    proof (cases rt)
      case None
      show ?thesis
        unfolding attrs unfolding None option.case by (rule family_step [OF p(7,8) fam])
    next
      case (Some r)
      have "?B (stun_attr_add_str b (msg_size ?a4) STUN_ATTRIBUTE_RESERVATION_TOKEN (Some r) (int 8))
          (?a4 @ [(STUN_ATTRIBUTE_RESERVATION_TOKEN, take 8 r)])"
      proof (rule built_add [OF p(7,8)])
        show r8: "8 \<le> length r"
          using Some assms(2) by simp
        then have "msg_size (?a4 @ [(STUN_ATTRIBUTE_RESERVATION_TOKEN, take 8 r)]) = msg_size ?a4 + 12"
          by (simp only: msg_size_snoc) (simp add: pad4_small)
        then show "msg_size (?a4 @ [(STUN_ATTRIBUTE_RESERVATION_TOKEN, take 8 r)]) < 65507"
          and "msg_size (?a4 @ [(STUN_ATTRIBUTE_RESERVATION_TOKEN, take 8 r)]) \<le> length buf"
          using sz(4) assms(1) by linarith+
      qed
      then show ?thesis
        unfolding attrs unfolding Some option.case built_def by auto
    qed
    done
qed

lemma built_view:
  assumes "built x cap mt STUN_MAGIC_COOKIE tid as" and "drop_bit 14 mt = 0"
  shows "\<exists>b. x = Some (0, b, msg_size as) \<and> length b = cap \<and> attrs_of b (msg_size as) = as
    \<and> stun_is_command_message_str b (msg_size as) = Some True
    \<and> stun_get_method_str b (msg_size as) = Some (type_method mt)
    \<and> stun_is_request_str b (msg_size as) = Some (IS_STUN_REQUEST mt)
    \<and> stun_is_success_response_str b (msg_size as) = Some (IS_STUN_SUCCESS_RESP mt)
    \<and> stun_tid_from_message_str b (msg_size as) = Some tid"
proof -
  obtain b where b: "x = Some (0, b, msg_size as)" "length b = cap"
    and rep: "stun_msg b (msg_size as) mt STUN_MAGIC_COOKIE tid as"
    using assms(1) by (auto simp: built_def)
  show ?thesis
    using b stun_msg_attrs [OF rep] stun_msg_view [OF rep] assms(2) by (intro exI [of _ b]) simp
qed



subsection \<open>Error responses\<close>

text \<open>The value both error attributes carry: class and number, then the NUL-padded reason.\<close>

definition error_value :: "u8 \<Rightarrow> nat \<Rightarrow> mem \<Rightarrow> mem" where
  "error_value b0 code r = [b0, 0, of_nat (code div 100), of_nat (code mod 100)] @ r
     @ replicate (pad4 (length r) - length r) 0"

lemma pad4_add4: "pad4 (4 + n) = 4 + pad4 n"
  by (auto simp: pad4_def Let_def)

lemma round_up_int: "(if (4 + int n) mod 4 \<noteq> 0 then 4 + int n + (4 - (4 + int n) mod 4) else 4 + int n)
    = int (4 + pad4 n)"
proof -
  have "(4 + int n) mod 4 = int (n mod 4)"
    by (simp add: zmod_int)
  moreover have "n mod 4 < 4" by simp
  ultimately show ?thesis
    by (simp add: pad4_def Let_def)
qed

lemma error_avalue_eq:
  assumes "0 \<notin> set r" and "length r < 509"
  shows "\<exists>tl. error_avalue b0 (int code) (r @ 0 # x) = Some (error_value b0 code r @ tl, int (4 + pad4 (length r)))
    \<and> length (error_value b0 code r) = 4 + pad4 (length r)"
proof -
  let ?h = "[b0, 0, of_nat (code div 100), of_nat (code mod 100)] :: mem"
  let ?z = "replicate (509 - length r) 0 :: mem"
  have cpy: "c_strncpy 509 (r @ 0 # x) = Some (r @ ?z)"
    by (rule c_strncpy_short) (use assms in simp_all)
  have hdr: "[b0, 0, word_of_int (int code div 100), word_of_int (int code mod 100)] = ?h"
    by (metis of_int_of_nat_eq of_nat_numeral zdiv_int zmod_int)
  obtain k where k: "509 - length r = Suc k"
    using assms(2) by (metis Suc_diff_Suc diff_Suc_Suc)
  have wr: "wr8 (?h @ r @ ?z) 512 0 = Some (?h @ r @ ?z)"
  proof -
    have "?h @ r @ ?z = (?h @ r @ replicate k 0) @ [0] @ []"
      by (simp add: k replicate_append_same)
    moreover have "length (?h @ r @ replicate k 0) = 512"
      using k by simp
    ultimately show ?thesis
      unfolding wr8_def by (metis wrn_append length_Cons list.size(3))
  qed
  have sl: "c_strlen (r @ ?z) = Some (length r)"
    using assms(1) by (simp add: k c_strlen_append)
  have pad: "pad4 (length r) - length r \<le> 509 - length r"
    using assms(2) pad4_bounds(2,3) [of "length r"] by presburger
  have "?h @ r @ ?z = error_value b0 code r @ replicate (509 - pad4 (length r)) 0"
  proof -
    have "509 - length r = (pad4 (length r) - length r) + (509 - pad4 (length r))"
      using pad pad4_bounds(1) [of "length r"] assms(2) pad4_bounds(2,3) [of "length r"] by presburger
    then show ?thesis
      by (simp add: error_value_def flip: replicate_add)
  qed
  moreover have "length (error_value b0 code r) = 4 + pad4 (length r)"
    using pad4_bounds(1) [of "length r"] by (simp add: error_value_def)
  moreover have "error_avalue b0 (int code) (r @ 0 # x) = Some (?h @ r @ ?z, int (4 + pad4 (length r)))"
  proof -
    have d4: "drop 4 (?h @ r @ ?z) = r @ ?z"
      by simp
    show ?thesis
      unfolding error_avalue_def Let_def
      by (simp only: cpy bind.bind_lunit hdr wr d4 sl round_up_int)
  qed
  ultimately show ?thesis
    by metis
qed

lemma stun_msg_tid:
  assumes "stun_msg buf len mt ck tid as" and "length t = 12"
  shows "\<exists>b. stun_tid_message_cpy buf (Some t) = Some b \<and> stun_msg b len mt ck t as \<and> length b = length buf"
proof -
  obtain r rest where m: "buf = header mt (of_nat (length r)) ck tid @ r @ rest" "len = 20 + length r"
    "length tid = 12" "length r < 65487" "attrs_exact r" "parse_attrs r = as"
    using stun_msgE [OF assms(1)] by metis
  have "stun_tid_message_cpy buf (Some t) = Some (header mt (of_nat (length r)) ck t @ r @ rest)"
    using m(1,3) assms(2) by (simp add: tid_message_cpy_header)
  moreover have "stun_msg (header mt (of_nat (length r)) ck t @ r @ rest) len mt ck t as"
    unfolding stun_msg_def using m assms(2) by (intro exI [of _ r] exI [of _ rest]) simp
  ultimately show ?thesis
    using m(1,3) assms(2) by simp
qed

text \<open>The reason text that is sent: the caller's, or the default one for a missing or unknown reason.\<close>

definition sent_reason :: "nat \<Rightarrow> mem option \<Rightarrow> mem option" where
  "sent_reason code reason = (case reason of None \<Rightarrow> Some (get_default_reason (int code))
     | Some s \<Rightarrow> do { u \<leftarrow> c_streq s (c_lit ''Unknown error'');
                     Some (if u then get_default_reason (int code) else s) })"

lemma error_common_msg:
  assumes "stun_msg buf 20 mt ck tid []" and "length t = 12" and "code < 65536"
    and "sent_reason code reason = Some (r @ 0 # x)" and "0 \<notin> set r" and "length r < 509"
    and "540 \<le> length buf"
  shows "\<exists>b. stun_init_error_response_common_str buf 20 (of_nat code) reason (Some t)
      = Some (b, 28 + pad4 (length r))
    \<and> stun_msg b (28 + pad4 (length r)) mt ck t [(STUN_ATTRIBUTE_ERROR_CODE, error_value 0 code r)]
    \<and> length b = length buf"
proof -
  let ?v = "error_value 0 code r"
  have u: "uint (of_nat code :: u16) = int code"
    using assms(3) by (simp only: uint_nat unat_of_nat) simp
  obtain tl where av: "error_avalue 0 (int code) (r @ 0 # x) = Some (?v @ tl, int (4 + pad4 (length r)))"
    and lv: "length ?v = 4 + pad4 (length r)"
    using error_avalue_eq [OF assms(5,6)] by metis
  have p: "pad4 (4 + pad4 (length r)) = 4 + pad4 (length r)" "pad4 (length r) < 512"
    using pad4_bounds [of "length r"] assms(6) by (simp_all add: pad4_add4 pad4_def [of "pad4 _"])
  have e: "20 + 4 + pad4 (4 + pad4 (length r)) = 28 + pad4 (length r)"
    using p(1) by simp
  obtain b where b: "stun_attr_add_str buf 20 STUN_ATTRIBUTE_ERROR_CODE (Some (?v @ tl)) (int (4 + pad4 (length r)))
      = Some (0, b, 28 + pad4 (length r))"
    and rep: "stun_msg b (28 + pad4 (length r)) mt ck tid [(STUN_ATTRIBUTE_ERROR_CODE, ?v)]"
    and lb: "length b = length buf"
    using attr_added [OF assms(1), of "4 + pad4 (length r)" "?v @ tl" STUN_ATTRIBUTE_ERROR_CODE, unfolded e]
      p(2) assms(7) lv by auto
  obtain b' where b': "stun_tid_message_cpy b (Some t) = Some b'"
    "stun_msg b' (28 + pad4 (length r)) mt ck t [(STUN_ATTRIBUTE_ERROR_CODE, ?v)]" "length b' = length b"
    using stun_msg_tid [OF rep assms(2)] by blast
  obtain un where un: "(case reason of None \<Rightarrow> Some True | Some r \<Rightarrow> c_streq r (c_lit ''Unknown error'')) = Some un"
    and why: "(if un then get_default_reason (int code) else the reason) = r @ 0 # x"
  proof (cases reason)
    case None
    then show thesis
      using that [of True] assms(4) by (simp add: sent_reason_def)
  next
    case (Some s)
    then obtain u where "c_streq s (c_lit ''Unknown error'') = Some u"
      "(if u then get_default_reason (int code) else s) = r @ 0 # x"
      using assms(4) by (auto simp: sent_reason_def bind_eq_Some_conv)
    then show thesis
      by (intro that [of u]) (use Some in \<open>auto split: if_splits\<close>)
  qed
  have "stun_init_error_response_common_str buf 20 (of_nat code) reason (Some t) = Some (b', 28 + pad4 (length r))"
    unfolding stun_init_error_response_common_str_def Let_def u
    by (simp only: un why av b b'(1) bind.bind_lunit prod.case)
  then show ?thesis
    using b' lb by simp
qed

text \<open>The message text is copied with its terminator, cut to the size of the caller's array.\<close>

lemma copy_reason:
  assumes "0 \<notin> set r" and "length r < sz" and "sz \<le> length m"
    and "n = (if k + length r > sz - 1 then sz - 1 else k + length r)"
  shows "\<exists>m'. do { m \<leftarrow> wr8 m 0 0; m \<leftarrow> wrn m 0 (take n (r @ replicate k 0)); wr8 m n 0 } = Some m'
    \<and> c_str m' = Some r \<and> length m' = length m"
proof -
  let ?bs = "take n (r @ replicate k 0)"
  have n: "length r \<le> n" "n < length m" "n \<le> k + length r"
    using assms by auto
  then have lb: "length ?bs = n"
    by simp
  have bs: "?bs = r @ replicate (n - length r) 0"
    using n by simp
  have m: "m \<noteq> []"
    using n by auto
  have "wr8 m 0 0 = Some (0 # tl m)"
    using m by (cases m) (simp_all add: wr8_def wrn_def)
  moreover have "wrn (0 # tl m) 0 ?bs = Some (?bs @ drop n (0 # tl m))"
    using lb n m by (simp add: wrn_def)
  moreover have "wr8 (?bs @ drop n (0 # tl m)) n 0 = Some (?bs @ 0 # drop (Suc n) (0 # tl m))"
    using lb n m unfolding wr8_def by (simp add: wrn_def)
  moreover have "c_str (?bs @ 0 # drop (Suc n) (0 # tl m)) = Some r"
  proof (cases "n - length r")
    case 0
    then show ?thesis
      using bs assms(1) by simp
  next
    case (Suc j)
    then show ?thesis
      using bs assms(1) by simp
  qed
  moreover have "length (?bs @ 0 # drop (Suc n) (0 # tl m)) = length m"
    using lb n m by simp
  ultimately show ?thesis
    by (intro exI [of _ "?bs @ 0 # drop (Suc n) (0 # tl m)"]) (simp only: bind.bind_lunit)
qed

lemma code_bytes:
  assumes "code < 25600"
  shows "uint (of_nat (code div 100) :: u8) * 100 + uint (of_nat (code mod 100) :: u8) = int code"
proof -
  have "unat (of_nat (code div 100) :: u8) = code div 100" "unat (of_nat (code mod 100) :: u8) = code mod 100"
    using assms by (simp_all add: unat_of_nat)
  then show ?thesis
    by (simp only: uint_nat) (metis div_mult_mod_eq mult.commute of_nat_add of_nat_mult of_nat_numeral)
qed

lemma read_error_value:
  assumes "stun_msg b l mt ck t [(STUN_ATTRIBUTE_ERROR_CODE, error_value 0 code r)]"
    and "drop_bit 14 mt = 0" and "IS_STUN_ERR_RESP mt" and "code < 25600"
    and "0 \<notin> set r" and "length r < sz" and "sz \<le> length m"
  shows "\<exists>m'. stun_is_error_response_str b l (Some c0) (Some m) sz = Some (True, Some (int code), Some m')
    \<and> c_str m' = Some r \<and> length m' = length m"
proof -
  let ?v = "error_value 0 code r" and ?k = "pad4 (length r) - length r"
  have lv: "length ?v = 4 + pad4 (length r)"
    using pad4_bounds(1) [of "length r"] by (simp add: error_value_def)
  have rep: "stun_msg b l mt ck t ([] @ [(STUN_ATTRIBUTE_ERROR_CODE, ?v)])"
    using assms(1) by simp
  define p where "p = l - 4 - pad4 (length ?v)"
  note acc = last_attr_access [OF rep p_def]
  have ne: "?v \<noteq> []"
    by (simp add: error_value_def)
  obtain rest where rest: "drop (p + 4) b = ?v @ rest"
    using acc(4) by blast
  have nth: "b ! (p + 4 + i) = (?v @ rest) ! i" for i
    using rest acc(5) by (metis add_leD1 nth_drop)
  have rd: "rd8 b (p + 4 + 2) = Some (of_nat (code div 100))" "rd8 b (p + 4 + 3) = Some (of_nat (code mod 100))"
    using acc(5) lv nth [of 2] nth [of 3] by (simp_all add: rd8_def error_value_def)
  have rn: "rdn b (p + 4 + 4) n = Some (take n (r @ replicate ?k 0))" if "n \<le> pad4 (length r)" for n
  proof -
    have "drop (p + 4 + 4) b = drop 4 (?v @ rest)"
      using rest by (metis add.commute drop_drop)
    then have "drop (p + 4 + 4) b = r @ replicate ?k 0 @ rest"
      by (simp add: error_value_def)
    then show ?thesis
      using acc(5) lv that pad4_bounds(1) [of "length r"] by (simp add: rdn_def)
  qed
  have first: "stun_attr_get_first_by_type_str b l STUN_ATTRIBUTE_ERROR_CODE = Some (Some p)"
    using first_by_type_last(1) [OF rep] by (simp add: p_def)
  have len: "stun_attr_get_len b (Some p) = Some (int (4 + pad4 (length r)))"
    using acc(2) lv by simp
  let ?n = "if pad4 (length r) > sz - 1 then sz - 1 else pad4 (length r)"
  have n: "?n = (if ?k + length r > sz - 1 then sz - 1 else ?k + length r)"
    using pad4_bounds(1) [of "length r"] by simp
  obtain m' where m': "do { m \<leftarrow> wr8 m 0 0; m \<leftarrow> wrn m 0 (take ?n (r @ replicate ?k 0)); wr8 m ?n 0 } = Some m'"
    "c_str m' = Some r" "length m' = length m"
    using copy_reason [OF assms(5-7) n] by blast
  have err: "IS_STUN_ERR_RESP (mt AND 0x3FFF)"
  proof -
    have "(mt AND 0x3FFF) AND 0x0110 = mt AND 0x0110"
      unfolding u16_eq_iff all_less_16 by (simp add: bit_simps)
    then show ?thesis
      using assms(3) by (simp add: IS_STUN_ERR_RESP_def)
  qed
  have "stun_is_error_response_str b l (Some c0) (Some m) sz =
      do { m \<leftarrow> wr8 m 0 0;
           if length r > 0 then do { m \<leftarrow> wrn m 0 (take ?n (r @ replicate ?k 0)); m \<leftarrow> wr8 m ?n 0;
             Some (True, Some (int code), Some m) }
           else Some (True, Some (int code), Some m) }"
  proof -
    have pos: "0 < pad4 (length r) \<longleftrightarrow> length r > 0"
      using pad4_bounds(1) [of "length r"] by (cases "length r") (auto simp: pad4_small)
    have l4: "\<not> int (4 + pad4 (length r)) < 4" "nat (int (4 + pad4 (length r))) - 4 = pad4 (length r)"
      "sz \<noteq> 0" "int (4 + pad4 (length r)) > 4 \<longleftrightarrow> length r > 0"
      using assms(6) pos by auto
    have rn': "rdn b (p + 4 + 4) ?n = Some (take ?n (r @ replicate ?k 0))"
      by (rule rn) simp
    show ?thesis
      unfolding stun_is_error_response_str_def Let_def
      by (simp only: stun_msg_view(3,4) [OF rep] assms(2) bind.bind_lunit err first len l4 acc(3) [OF ne]
          rd code_bytes [OF assms(4)] rn' option.distinct not_True_eq_False if_False option.case
          zero_neq_one)
  qed
  also have "\<dots> = Some (True, Some (int code), Some m')"
  proof (cases "r = []")
    case False
    then show ?thesis
      using m'(1) by (auto simp: bind_eq_Some_conv)
  next
    case True
    then have "wr8 m 0 0 = Some m'"
      using m'(1) by (cases m) (auto simp: wr8_def wrn_def pad4_small)
    then show ?thesis
      using True by simp
  qed
  finally have "stun_is_error_response_str b l (Some c0) (Some m) sz = Some (True, Some (int code), Some m')" .
  then show ?thesis
    using m' by blast
qed

text \<open>C13: Round trip of an error response: the code, the reason text (the caller's or the default one)
  and the transaction identifier that were put in are what the recogniser of error responses
  returns, cut to nothing but the text itself.\<close>

theorem error_response_roundtrip:
  assumes "540 \<le> length buf" and "length t = 12" and "code < 25600"
    and "sent_reason code reason = Some (r @ 0 # x)" and "0 \<notin> set r" and "length r < 509"
    and "length r < sz" and "sz \<le> length m"
  shows "\<exists>b l m'. stun_init_error_response_str e method buf (of_nat code) reason (Some t) = Some (b, l)
    \<and> stun_is_error_response_str b l (Some c0) (Some m) sz = Some (True, Some (int code), Some m')
    \<and> c_str m' = Some r
    \<and> stun_is_command_message_str b l = Some True \<and> stun_get_method_str b l = Some (method AND 0x0FFF)
    \<and> stun_tid_from_message_str b l = Some t"
proof -
  let ?mt = "stun_make_error_response method"
  have init: "stun_init_command_str e ?mt buf =
      Some (header ?mt 0 STUN_MAGIC_COOKIE (turn_random_tid_size e) @ drop 20 buf, 20)"
    using assms(1) by (simp add: init_command_header make_fits)
  have "stun_msg (header ?mt 0 STUN_MAGIC_COOKIE (turn_random_tid_size e) @ drop 20 buf) 20 ?mt STUN_MAGIC_COOKIE
      (turn_random_tid_size e) []"
    by (rule stun_msg_new) simp
  then obtain b where b: "stun_init_error_response_common_str
      (header ?mt 0 STUN_MAGIC_COOKIE (turn_random_tid_size e) @ drop 20 buf) 20 (of_nat code) reason (Some t)
      = Some (b, 28 + pad4 (length r))"
    and rep: "stun_msg b (28 + pad4 (length r)) ?mt STUN_MAGIC_COOKIE t
      [(STUN_ATTRIBUTE_ERROR_CODE, error_value 0 code r)]"
    using error_common_msg [OF _ assms(2) _ assms(4-6)] assms(1,3) by force
  have "IS_STUN_ERR_RESP ?mt"
    by (simp add: class_defs class_make)
  then obtain m' where "stun_is_error_response_str b (28 + pad4 (length r)) (Some c0) (Some m) sz
      = Some (True, Some (int code), Some m')" "c_str m' = Some r"
    using read_error_value [OF rep _ _ assms(3,5,7,8)] by auto
  moreover have "stun_init_error_response_str e method buf (of_nat code) reason (Some t) = Some (b, 28 + pad4 (length r))"
    using b by (simp add: stun_init_error_response_str_def init)
  ultimately show ?thesis
    using stun_msg_view [OF rep] by (auto simp: type_method_make)
qed

theorem error_response_roundtrip_witness:
  "\<exists>b l m'. stun_init_error_response_str sample_entropy STUN_METHOD_ALLOCATE (replicate 600 0) 437 None
       (Some (replicate 12 7)) = Some (b, l)
    \<and> stun_is_error_response_str b l (Some 0) (Some (replicate 64 0)) 64 = Some (True, Some 437, Some m')
    \<and> c_str m' = Some (chars ''Allocation Mismatch'')"
proof -
  have "sent_reason 437 None = Some (chars ''Allocation Mismatch'' @ 0 # [])"
    by (simp add: sent_reason_def get_default_reason_def default_reason_text_def c_lit_def)
  moreover have "0 \<notin> set (chars ''Allocation Mismatch'')" "length (chars ''Allocation Mismatch'') = 19"
    by (simp_all add: chars_def of_char_def)
  ultimately show ?thesis
    using error_response_roundtrip [of "replicate 600 0" "replicate 12 7" 437 None
        "chars ''Allocation Mismatch''" "[]" 64 "replicate 64 0" sample_entropy STUN_METHOD_ALLOCATE 0]
    by auto
qed

lemma default_reason_ok:
  "0 \<notin> set (chars (default_reason_text c))" "default_reason_text c \<noteq> []"
  "length (default_reason_text c) < 509"
  by (simp_all add: default_reason_text_def chars_def of_char_def)

text \<open>The reader of ADDRESS-ERROR-CODE never accepts what the writer produces: the writer always
  appends a reason text, and the reader insists on a value of exactly four bytes.\<close>

lemma address_error_code_unreadable:
  assumes "stun_msg buf len mt ck tid as" and "STUN_ATTRIBUTE_ADDRESS_ERROR_CODE \<notin> fst ` set as"
    and "len + 600 < 65507" and "len + 600 \<le> length buf"
  shows "\<exists>b l. stun_attr_add_address_error_code buf len af code = Some (0, b, l)
    \<and> stun_attr_get_address_error_code b l = Some (-1, 0, 0)"
proof -
  let ?r = "chars (default_reason_text (int code))"
  let ?v = "error_value (word_of_int af) code ?r"
  have r: "0 \<notin> set ?r" "length ?r < 509" "0 < length ?r"
    using default_reason_ok [of "int code"] by (simp_all add: chars_def)
  obtain tl where av: "error_avalue (word_of_int af) (int code) (?r @ 0 # []) =
      Some (?v @ tl, int (4 + pad4 (length ?r)))" and lv: "length ?v = 4 + pad4 (length ?r)"
    using error_avalue_eq [OF r(1,2)] by metis
  have p: "pad4 (4 + pad4 (length ?r)) \<le> 516"
    using pad4_bounds [of "length ?r"] r(2) by (simp add: pad4_add4 pad4_def [of "pad4 _"])
  let ?l = "len + 4 + pad4 (4 + pad4 (length ?r))"
  obtain b where b: "stun_attr_add_str buf len STUN_ATTRIBUTE_ADDRESS_ERROR_CODE (Some (?v @ tl))
      (int (4 + pad4 (length ?r))) = Some (0, b, ?l)"
    and rep: "stun_msg b ?l mt ck tid (as @ [(STUN_ATTRIBUTE_ADDRESS_ERROR_CODE, ?v)])"
    using attr_added [OF assms(1), of "4 + pad4 (length ?r)" "?v @ tl" STUN_ATTRIBUTE_ADDRESS_ERROR_CODE]
      p assms(3,4) lv by auto
  define q where "q = ?l - 4 - pad4 (length ?v)"
  note acc = last_attr_access [OF rep q_def]
  have "0 < pad4 (length ?r)"
    using r(3) pad4_bounds(1) [of "length ?r"] by linarith
  then have n4: "int (length ?v) \<noteq> 4" and ne: "?v \<noteq> []"
    using lv by auto
  have first: "stun_attr_get_first_by_type_str b ?l STUN_ATTRIBUTE_ADDRESS_ERROR_CODE = Some (Some q)"
    unfolding q_def by (rule first_by_type_last(1) [OF rep assms(2)])
  have "?l \<noteq> 0"
    by simp
  then have "stun_attr_get_address_error_code b ?l = Some (-1, 0, 0)"
    unfolding stun_attr_get_address_error_code_def
    by (simp only: first acc(2) acc(3) [OF ne] n4 bind.bind_lunit option.case if_True not_False_eq_True)
  moreover have "stun_attr_add_address_error_code buf len af code = Some (0, b, ?l)"
    using av b by (simp add: stun_attr_add_address_error_code_def get_default_reason_def c_lit_def)
  ultimately show ?thesis by blast
qed

subsection \<open>Challenges\<close>

lemma copy_value_eq:
  assumes "take (length v) (drop q b) = v" and "q + length v \<le> length b"
  shows "copy_value b q (length v) dst True =
      (if length v < length dst then Some (v @ 0 # drop (Suc (length v)) dst) else None)"
    and "copy_value b q (length v) dst False =
      (if length v \<le> length dst then Some (v @ drop (length v) dst) else None)"
  using assms by (auto simp: copy_value_def rdn_def wr8_def wrn_def)

text \<open>A REALM that fills the caller's array overruns it: nothing bounds the copy of a received
  realm, whose length the sender chooses.\<close>

lemma challenge_realm_overrun:
  assumes "stun_msg b l mt ck t as" and "find (\<lambda>(t, v). t = ty) as = Some (ty, v)"
    and "ty = STUN_ATTRIBUTE_REALM" and "length (ch_realm ch) \<le> length v" and "v \<noteq> []"
    and "stun_is_error_response_str b l (Some (ch_err_code ch)) (ch_err_msg ch) sz = Some (True, Some 401, em)"
  shows "stun_is_challenge_response_str b l sz ch = None"
proof -
  obtain p where p: "stun_attr_get_first_by_type_str b l ty = Some (Some p)"
    "stun_attr_get_len b (Some p) = Some (int (length v))"
    "stun_attr_get_value b (Some p) = Some (if v = [] then None else Some (p + 4))"
    "take (length v) (drop (p + 4) b) = v" "p + 4 + length v \<le> length b"
    by (rule found_access [OF assms(1,2)])
  have "copy_value b (p + 4) (length v) (ch_realm ch) True = None"
    using copy_value_eq(1) [OF p(4,5)] assms(4) by simp
  then show ?thesis
    using p(1-3) assms(3,5,6) by (simp add: stun_is_challenge_response_str_def Let_def)
qed

text \<open>The value of the first THIRD-PARTY-AUTHORIZATION attribute; an absent attribute and an empty one
  mean the same to the recogniser.\<close>

definition third_party :: "(u16 \<times> mem) list \<Rightarrow> mem" where
  "third_party as = (case find (\<lambda>(t, v). t = STUN_ATTRIBUTE_THIRD_PARTY_AUTHORIZATION) as of
     None \<Rightarrow> [] | Some (_, v) \<Rightarrow> v)"

text \<open>Behind the realm: the server name is copied without a terminating NUL, the nonce with one, and the
  flag says whether there was a server name.\<close>

lemma challenge_rest_correct:
  assumes "stun_msg b l mt ck t as"
    and "find (\<lambda>(t, v). t = STUN_ATTRIBUTE_NONCE) as = Some (STUN_ATTRIBUTE_NONCE, nv)" and "nv \<noteq> []"
    and "length nv < length (ch_nonce ch)"
    and "case ch_server_name ch of None \<Rightarrow> True | Some s \<Rightarrow> length (third_party as) \<le> length s"
  shows "challenge_rest b l ch = Some (True, ch\<lparr>
    ch_nonce := nv @ 0 # drop (Suc (length nv)) (ch_nonce ch),
    ch_server_name := map_option (\<lambda>s. third_party as @ drop (length (third_party as)) s) (ch_server_name ch),
    ch_oauth := map_option (\<lambda>_. third_party as \<noteq> []) (ch_oauth ch)\<rparr>)"
proof -
  let ?T = "STUN_ATTRIBUTE_THIRD_PARTY_AUTHORIZATION"
  obtain q where q: "stun_attr_get_first_by_type_str b l STUN_ATTRIBUTE_NONCE = Some (Some q)"
    "stun_attr_get_len b (Some q) = Some (int (length nv))"
    "stun_attr_get_value b (Some q) = Some (if nv = [] then None else Some (q + 4))"
    "take (length nv) (drop (q + 4) b) = nv" "q + 4 + length nv \<le> length b"
    by (rule found_access [OF assms(1,2)])
  have nonce: "copy_value b (q + 4) (length nv) (ch_nonce ch) True = Some (nv @ 0 # drop (Suc (length nv)) (ch_nonce ch))"
    using copy_value_eq(1) [OF q(4,5)] assms(4) by simp
  show ?thesis
  proof (cases "find (\<lambda>(t, v). t = ?T) as")
    case None
    then have "map_option (\<lambda>s. third_party as @ drop (length (third_party as)) s) (ch_server_name ch) = ch_server_name ch"
      by (simp add: third_party_def option.map_ident)
    moreover have "third_party as = []"
      using None by (simp add: third_party_def)
    ultimately show ?thesis
      using not_found_access [OF assms(1) None] q(1-3) nonce assms(3) by (simp add: challenge_rest_def)
  next
    case (Some a)
    then obtain sv where a: "find (\<lambda>(t, v). t = ?T) as = Some (?T, sv)"
      by (auto simp: find_Some_iff)
    then have sv: "third_party as = sv"
      by (simp add: third_party_def)
    obtain p where p: "stun_attr_get_first_by_type_str b l ?T = Some (Some p)"
      "stun_attr_get_len b (Some p) = Some (int (length sv))"
      "stun_attr_get_value b (Some p) = Some (if sv = [] then None else Some (p + 4))"
      "take (length sv) (drop (p + 4) b) = sv" "p + 4 + length sv \<le> length b"
      by (rule found_access [OF assms(1) a])
    show ?thesis
      using p(1-3) copy_value_eq(2) [OF p(4,5)] q(1-3) nonce assms(3,5)
      by (cases "ch_server_name ch"; cases "sv = []") (simp_all add: challenge_rest_def sv)
  qed
qed

text \<open>C14: A challenge is understood: for a 401 or 438 with a non-empty realm and nonce that fit the
  caller's arrays, the recogniser accepts and stores both with a terminating NUL.  The value of a
  THIRD-PARTY-AUTHORIZATION attribute is copied over the beginning of the server name, if the caller asks
  for it and it fits, without a NUL behind it; the OAuth flag is set exactly if there is such a value.\<close>

theorem challenge_response_correct:
  assumes "stun_msg b l mt ck t as"
    and "stun_is_error_response_str b l (Some (ch_err_code ch)) (ch_err_msg ch) sz = Some (True, Some ec, em)"
    and "ec = 401 \<or> ec = 438"
    and "find (\<lambda>(t, v). t = STUN_ATTRIBUTE_REALM) as = Some (STUN_ATTRIBUTE_REALM, rv)" and "rv \<noteq> []"
    and "find (\<lambda>(t, v). t = STUN_ATTRIBUTE_NONCE) as = Some (STUN_ATTRIBUTE_NONCE, nv)" and "nv \<noteq> []"
    and "length rv < length (ch_realm ch)" and "length nv < length (ch_nonce ch)"
    and "case ch_server_name ch of None \<Rightarrow> True | Some s \<Rightarrow> length (third_party as) \<le> length s"
  shows "stun_is_challenge_response_str b l sz ch = Some (True, ch\<lparr>ch_err_code := ec, ch_err_msg := em,
    ch_realm := rv @ 0 # drop (Suc (length rv)) (ch_realm ch),
    ch_nonce := nv @ 0 # drop (Suc (length nv)) (ch_nonce ch),
    ch_server_name := map_option (\<lambda>s. third_party as @ drop (length (third_party as)) s) (ch_server_name ch),
    ch_oauth := map_option (\<lambda>_. third_party as \<noteq> []) (ch_oauth ch)\<rparr>)"
proof -
  obtain p where p: "stun_attr_get_first_by_type_str b l STUN_ATTRIBUTE_REALM = Some (Some p)"
    "stun_attr_get_len b (Some p) = Some (int (length rv))"
    "stun_attr_get_value b (Some p) = Some (if rv = [] then None else Some (p + 4))"
    "take (length rv) (drop (p + 4) b) = rv" "p + 4 + length rv \<le> length b"
    by (rule found_access [OF assms(1,4)])
  let ?r = "rv @ 0 # drop (Suc (length rv)) (ch_realm ch)"
  have "copy_value b (p + 4) (length rv) (ch_realm ch) True = Some ?r"
    using copy_value_eq(1) [OF p(4,5)] assms(8) by simp
  then show ?thesis
    using p(1-3) assms(2,3,5,9,10)
      challenge_rest_correct [OF assms(1,6,7), of "ch\<lparr>ch_err_code := ec, ch_err_msg := em, ch_realm := ?r\<rparr>"]
    by (auto simp: stun_is_challenge_response_str_def Let_def)
qed

lemma error_code_only:
  assumes "stun_msg b l mt ck t as" and "drop_bit 14 mt = 0" and "IS_STUN_ERR_RESP (mt AND 0x3FFF)"
    and "find (\<lambda>(t, v). t = STUN_ATTRIBUTE_ERROR_CODE) as = Some (STUN_ATTRIBUTE_ERROR_CODE, [0, 0, x, y])"
  shows "stun_is_error_response_str b l (Some c) None sz = Some (True, Some (uint x * 100 + uint y), None)"
proof -
  obtain p where p: "stun_attr_get_first_by_type_str b l STUN_ATTRIBUTE_ERROR_CODE = Some (Some p)"
    "stun_attr_get_len b (Some p) = Some (int (length [0, 0, x, y]))"
    "stun_attr_get_value b (Some p) = Some (if [0, 0, x, y] = [] then None else Some (p + 4))"
    "take (length [0, 0, x, y]) (drop (p + 4) b) = [0, 0, x, y]" "p + 4 + length [0, 0, x, y] \<le> length b"
    by (rule found_access [OF assms(1,4)])
  have nth: "b ! (p + 4 + i) = [0, 0, x, y] ! i" if "i < 4" for i
    using arg_cong [OF p(4), of "\<lambda>z. z ! i"] that p(5) by simp
  have "rd8 b (p + 4 + 2) = Some x" "rd8 b (p + 4 + 3) = Some y"
    using p(5) nth [of 2] nth [of 3] by (simp_all add: rd8_def)
  then show ?thesis
    using p(1-3) assms(2,3) stun_msg_view(3,4) [OF assms(1)]
    by (simp add: stun_is_error_response_str_def Let_def)
qed

text \<open>A challenge as a server sends it that wants a third party's authorization.\<close>

lemma sample_challenge:
  "\<exists>b. stun_msg b 52 (stun_make_error_response STUN_METHOD_ALLOCATE) STUN_MAGIC_COOKIE (replicate 12 7)
     [(STUN_ATTRIBUTE_ERROR_CODE, [0, 0, 4, 1]), (STUN_ATTRIBUTE_REALM, [97, 98, 99, 100]),
      (STUN_ATTRIBUTE_NONCE, [1, 2, 3, 4]), (STUN_ATTRIBUTE_THIRD_PARTY_AUTHORIZATION, [115, 114, 118, 49])]"
proof -
  let ?mt = "stun_make_error_response STUN_METHOD_ALLOCATE"
  have m0: "stun_msg (header ?mt 0 STUN_MAGIC_COOKIE (replicate 12 7) @ replicate 80 0) 20 ?mt STUN_MAGIC_COOKIE
      (replicate 12 7) []"
    by (rule stun_msg_new) simp
  obtain b1 where m1: "stun_msg b1 28 ?mt STUN_MAGIC_COOKIE (replicate 12 7) [(STUN_ATTRIBUTE_ERROR_CODE, [0, 0, 4, 1])]"
    and l1: "length b1 = 100"
    using add_four [OF m0, of "[0, 0, 4, 1]" STUN_ATTRIBUTE_ERROR_CODE] by auto
  obtain b2 where m2: "stun_msg b2 36 ?mt STUN_MAGIC_COOKIE (replicate 12 7)
      [(STUN_ATTRIBUTE_ERROR_CODE, [0, 0, 4, 1]), (STUN_ATTRIBUTE_REALM, [97, 98, 99, 100])]"
    and l2: "length b2 = 100"
    using add_four [OF m1, of "[97, 98, 99, 100]" STUN_ATTRIBUTE_REALM] l1 by auto
  obtain b3 where m3: "stun_msg b3 44 ?mt STUN_MAGIC_COOKIE (replicate 12 7)
      [(STUN_ATTRIBUTE_ERROR_CODE, [0, 0, 4, 1]), (STUN_ATTRIBUTE_REALM, [97, 98, 99, 100]),
       (STUN_ATTRIBUTE_NONCE, [1, 2, 3, 4])]"
    and l3: "length b3 = 100"
    using add_four [OF m2, of "[1, 2, 3, 4]" STUN_ATTRIBUTE_NONCE] l2 by auto
  show ?thesis
    using add_four [OF m3, of "[115, 114, 118, 49]" STUN_ATTRIBUTE_THIRD_PARTY_AUTHORIZATION] l3 by auto
qed

lemma challenge_class: "IS_STUN_ERR_RESP (stun_make_error_response m AND 0x3FFF)"
  by (simp add: make_fits class_defs class_make)

theorem challenge_response_correct_witness:
  "\<exists>b ch. stun_is_challenge_response_str b 52 0 \<lparr>ch_err_code = 0, ch_err_msg = None, ch_realm = replicate 128 0,
        ch_nonce = replicate 128 0, ch_server_name = Some (replicate 128 0), ch_oauth = Some False\<rparr> = Some (True, ch)
     \<and> c_str (ch_realm ch) = Some [97, 98, 99, 100] \<and> c_str (ch_nonce ch) = Some [1, 2, 3, 4]
     \<and> ch_server_name ch = Some ([115, 114, 118, 49] @ replicate 124 0) \<and> ch_oauth ch = Some True"
proof -
  obtain b where rep: "stun_msg b 52 (stun_make_error_response STUN_METHOD_ALLOCATE) STUN_MAGIC_COOKIE (replicate 12 7)
     [(STUN_ATTRIBUTE_ERROR_CODE, [0, 0, 4, 1]), (STUN_ATTRIBUTE_REALM, [97, 98, 99, 100]),
      (STUN_ATTRIBUTE_NONCE, [1, 2, 3, 4]), (STUN_ATTRIBUTE_THIRD_PARTY_AUTHORIZATION, [115, 114, 118, 49])]"
    using sample_challenge by blast
  let ?ch = "\<lparr>ch_err_code = 0, ch_err_msg = None, ch_realm = replicate 128 0,
        ch_nonce = replicate 128 0, ch_server_name = Some (replicate 128 0), ch_oauth = Some False\<rparr>"
  have e: "stun_is_error_response_str b 52 (Some (ch_err_code ?ch)) (ch_err_msg ?ch) 0 = Some (True, Some 401, None)"
    using error_code_only [OF rep _ challenge_class, of 4 1] by simp
  show ?thesis
    using challenge_response_correct [OF rep e, of "[97, 98, 99, 100]" "[1, 2, 3, 4]"]
      c_str_append [of "[97, 98, 99, 100]"] c_str_append [of "[1, 2, 3, 4]"]
    by (intro exI [of _ b]) (simp add: third_party_def)
qed

subsection \<open>ALLOCATE responses\<close>

definition allocate_response_attrs ::
    "addr_map \<Rightarrow> mem \<Rightarrow> ioa_addr option \<Rightarrow> ioa_addr option \<Rightarrow> ioa_addr option \<Rightarrow> u32 \<Rightarrow> u32 \<Rightarrow> u64 \<Rightarrow> (u16 \<times> mem) list" where
  "allocate_response_attrs tbl tid relayed1 relayed2 reflexive lifetime max_lifetime token =
     opt_addr tbl tid STUN_ATTRIBUTE_XOR_RELAYED_ADDRESS relayed1
     @ opt_addr tbl tid STUN_ATTRIBUTE_XOR_RELAYED_ADDRESS relayed2
     @ opt_addr tbl tid STUN_ATTRIBUTE_XOR_MAPPED_ADDRESS reflexive
     @ (if token \<noteq> 0 then [(STUN_ATTRIBUTE_RESERVATION_TOKEN, bytes64 (nswap64 token))] else [])
     @ [(STUN_ATTRIBUTE_LIFETIME, bytes32 (nswap32 (if lifetime < 1 then 600
          else if lifetime > max_lifetime then max_lifetime else lifetime)))]"

text \<open>The end of the response: the optional token, whose failure is ignored, then the lifetime.\<close>

lemma token_lifetime_step:
  assumes "stun_msg b l mt ck tid as" and "length b = cap"
    and "msg_size as + 20 < 65507" and "msg_size as + 20 \<le> cap" and "length lt = 4"
  shows "built (do {
        (_, b, l) \<leftarrow> (if token \<noteq> 0 then
            stun_attr_add_str b l STUN_ATTRIBUTE_RESERVATION_TOKEN (Some (bytes64 (nswap64 token))) 8
          else Some (0, b, l));
        on_ok (stun_attr_add_str b l STUN_ATTRIBUTE_LIFETIME (Some lt) 4) (\<lambda>b l. Some (0, b, l)) }) cap mt ck tid
    (as @ (if token \<noteq> 0 then [(STUN_ATTRIBUTE_RESERVATION_TOKEN, bytes64 (nswap64 token))] else [])
        @ [(STUN_ATTRIBUTE_LIFETIME, lt)])"
proof -
  let ?as = "as @ (if token \<noteq> 0 then [(STUN_ATTRIBUTE_RESERVATION_TOKEN, bytes64 (nswap64 token))] else [])"
  have "built (if token \<noteq> 0 then
            stun_attr_add_str b l STUN_ATTRIBUTE_RESERVATION_TOKEN (Some (bytes64 (nswap64 token))) 8
          else Some (0, b, l)) cap mt ck tid ?as"
    using built_add [OF assms(1,2), of 8 "bytes64 (nswap64 token)" STUN_ATTRIBUTE_RESERVATION_TOKEN]
      built_done [OF assms(1,2)] assms(3,4) by (simp add: msg_size_snoc pad4_small)
  then obtain b' where b': "(if token \<noteq> 0 then
            stun_attr_add_str b l STUN_ATTRIBUTE_RESERVATION_TOKEN (Some (bytes64 (nswap64 token))) 8
          else Some (0, b, l)) = Some (0, b', msg_size ?as)"
    and r': "stun_msg b' (msg_size ?as) mt ck tid ?as" and l': "length b' = cap"
    by (auto simp only: built_def)
  have sz: "msg_size (?as @ [(STUN_ATTRIBUTE_LIFETIME, lt)]) \<le> msg_size as + 20"
    using assms(5) by (simp add: msg_size_def pad4_small)
  have "built (stun_attr_add_str b' (msg_size ?as) STUN_ATTRIBUTE_LIFETIME (Some lt) (int 4)) cap mt ck tid
      (?as @ [(STUN_ATTRIBUTE_LIFETIME, take 4 lt)])"
    by (rule built_add [OF r' l']) (use assms(3-5) sz in simp_all)
  then have "built (stun_attr_add_str b' (msg_size ?as) STUN_ATTRIBUTE_LIFETIME (Some lt) 4) cap mt ck tid
      (?as @ [(STUN_ATTRIBUTE_LIFETIME, lt)])"
    using assms(5) by simp
  then have "built (on_ok (stun_attr_add_str b' (msg_size ?as) STUN_ATTRIBUTE_LIFETIME (Some lt) 4)
      (\<lambda>b l. Some (0, b, l))) cap mt ck tid (?as @ [(STUN_ATTRIBUTE_LIFETIME, lt)])"
    by (rule built_on_ok) (rule built_done)
  then show ?thesis
    by (simp only: b' bind.bind_lunit prod.case append_assoc)
qed

lemma allocate_response_built:
  assumes "120 \<le> length buf" and "length t = 12"
    and "opt_translatable tbl r1" and "opt_translatable tbl r2" and "opt_translatable tbl rx"
  shows "built (stun_set_allocate_response_str e tbl buf (Some t) r1 r2 rx lifetime max_lifetime 0 reason token None)
    (length buf) (stun_make_success_response STUN_METHOD_ALLOCATE) STUN_MAGIC_COOKIE t
    (allocate_response_attrs tbl t r1 r2 rx lifetime max_lifetime token)"
proof -
  let ?mt = "stun_make_success_response STUN_METHOD_ALLOCATE"
  let ?h = "header ?mt 0 STUN_MAGIC_COOKIE t @ drop 20 buf"
  let ?x1 = "opt_addr tbl t STUN_ATTRIBUTE_XOR_RELAYED_ADDRESS r1"
  let ?x2 = "opt_addr tbl t STUN_ATTRIBUTE_XOR_RELAYED_ADDRESS r2"
  let ?x3 = "opt_addr tbl t STUN_ATTRIBUTE_XOR_MAPPED_ADDRESS rx"
  let ?x4 = "if token \<noteq> 0 then [(STUN_ATTRIBUTE_RESERVATION_TOKEN, bytes64 (nswap64 token))] else []"
  define lt where "lt = bytes32 (nswap32 (if lifetime < 1 then 600
          else if lifetime > max_lifetime then max_lifetime else lifetime))"
  have llt: "length lt = 4"
    by (simp add: lt_def)
  have sz: "msg_size [] = 20" "msg_size ([] @ ?x1) \<le> 44" "msg_size (([] @ ?x1) @ ?x2) \<le> 68"
    "msg_size ((([] @ ?x1) @ ?x2) @ ?x3) \<le> 92" "msg_size (((([] @ ?x1) @ ?x2) @ ?x3) @ ?x4) \<le> 104"
    using opt_addr_size [OF assms(3,2), of STUN_ATTRIBUTE_XOR_RELAYED_ADDRESS]
      opt_addr_size [OF assms(4,2), of STUN_ATTRIBUTE_XOR_RELAYED_ADDRESS]
      opt_addr_size [OF assms(5,2), of STUN_ATTRIBUTE_XOR_MAPPED_ADDRESS]
    by (auto simp: msg_size_def pad4_small)
  have init: "stun_init_success_response_str e STUN_METHOD_ALLOCATE buf (Some t) = Some (?h, 20)"
    using assms(1,2) by (simp add: init_header)
  have rep0: "stun_msg ?h 20 ?mt STUN_MAGIC_COOKIE t []" and l0: "length ?h = length buf"
    using assms(1,2) by (simp_all add: stun_msg_new)
  have attrs: "allocate_response_attrs tbl t r1 r2 rx lifetime max_lifetime token =
      (((([] @ ?x1) @ ?x2) @ ?x3) @ ?x4) @ [(STUN_ATTRIBUTE_LIFETIME, lt)]"
    by (simp only: allocate_response_attrs_def lt_def append_assoc append.simps)
  show ?thesis
    unfolding stun_set_allocate_response_str_def init bind.bind_lunit prod.case lt_def [symmetric] attrs
      if_True simp_thms
    apply (rule built_on_ok [where as = "[] @ ?x1"])
    subgoal
      using built_opt_addr [OF rep0 l0 assms(3)] sz(1) assms(1) by simp
    apply (rule built_on_ok [where as = "([] @ ?x1) @ ?x2"])
    subgoal premises p
      using sz(2) assms(1) by (intro built_opt_addr [OF p assms(4)]) linarith+
    apply (rule built_on_ok [where as = "(([] @ ?x1) @ ?x2) @ ?x3"])
    subgoal premises p
      using sz(3) assms(1) by (intro built_opt_addr [OF p(3,4) assms(5)]) linarith+
    subgoal premises p
      using token_lifetime_step [OF p(5,6) _ _ llt, of token] sz(4) assms(1)
      by (simp only: Let_def lt_def [symmetric] option.case append_assoc)
    done
qed

lemma find_opt_addr_other:
  "ty \<noteq> ty' \<Longrightarrow> find (\<lambda>(t, v). t = ty) (opt_addr tbl tid ty' a @ as) = find (\<lambda>(t, v). t = ty) as"
  by (auto simp: opt_addr_def addr_attr_def split: option.splits)

text \<open>The ALLOCATE success response is a complete response with the request's identifier, from
  which the client reads back the relayed and the reflexive address it was sent, through the
  address table.\<close>

lemma allocate_response_correct:
  assumes "120 \<le> length buf" and "length t = 12"
    and "translatable tbl r1" and "opt_translatable tbl r2" and "translatable tbl rx"
  shows "\<exists>b l c d. stun_set_allocate_response_str e tbl buf (Some t) (Some r1) r2 (Some rx) lifetime max_lifetime
      0 reason token None = Some (0, b, l)
    \<and> stun_is_command_message_str b l = Some True \<and> stun_is_success_response_str b l = Some True
    \<and> stun_get_method_str b l = Some STUN_METHOD_ALLOCATE \<and> stun_tid_from_message_str b l = Some t
    \<and> stun_attr_get_first_addr_str tbl b l STUN_ATTRIBUTE_XOR_RELAYED_ADDRESS ca None = Some (0, c)
    \<and> addr_eq (Some c) (Some r1)
    \<and> stun_attr_get_first_addr_str tbl b l STUN_ATTRIBUTE_XOR_MAPPED_ADDRESS ca None = Some (0, d)
    \<and> addr_eq (Some d) (Some rx)"
proof -
  let ?mt = "stun_make_success_response STUN_METHOD_ALLOCATE"
  let ?as = "allocate_response_attrs tbl t (Some r1) r2 (Some rx) lifetime max_lifetime token"
  have "built (stun_set_allocate_response_str e tbl buf (Some t) (Some r1) r2 (Some rx) lifetime max_lifetime
      0 reason token None) (length buf) ?mt STUN_MAGIC_COOKIE t ?as"
    using allocate_response_built [OF assms(1,2) _ assms(4), of "Some r1" "Some rx"] assms(3,5)
    by (simp add: opt_translatable_def)
  then obtain b where b: "stun_set_allocate_response_str e tbl buf (Some t) (Some r1) r2 (Some rx) lifetime max_lifetime
      0 reason token None = Some (0, b, msg_size ?as)"
    and rep: "stun_msg b (msg_size ?as) ?mt STUN_MAGIC_COOKIE t ?as"
    by (auto simp: built_def)
  have "find (\<lambda>(t, v). t = STUN_ATTRIBUTE_XOR_RELAYED_ADDRESS) ?as =
      Some (addr_attr tbl t STUN_ATTRIBUTE_XOR_RELAYED_ADDRESS r1)"
    by (simp add: allocate_response_attrs_def opt_addr_def addr_attr_def)
  moreover have "find (\<lambda>(t, v). t = STUN_ATTRIBUTE_XOR_MAPPED_ADDRESS) ?as =
      Some (addr_attr tbl t STUN_ATTRIBUTE_XOR_MAPPED_ADDRESS rx)"
    unfolding allocate_response_attrs_def
    by (simp add: find_opt_addr_other) (simp add: opt_addr_def addr_attr_def)
  ultimately obtain c d where
    "stun_attr_get_first_addr_str tbl b (msg_size ?as) STUN_ATTRIBUTE_XOR_RELAYED_ADDRESS ca None = Some (0, c)"
    "addr_eq (Some c) (Some r1)"
    "stun_attr_get_first_addr_str tbl b (msg_size ?as) STUN_ATTRIBUTE_XOR_MAPPED_ADDRESS ca None = Some (0, d)"
    "addr_eq (Some d) (Some rx)"
    using first_addr_found [OF rep assms(3), of STUN_ATTRIBUTE_XOR_RELAYED_ADDRESS ca]
      first_addr_found [OF rep assms(5), of STUN_ATTRIBUTE_XOR_MAPPED_ADDRESS ca]
    by (auto simp: addr_attr_types_def)
  then show ?thesis
    using b stun_msg_view [OF rep] by (auto simp: type_method_make class_make class_defs)
qed

lemma sample4_translatable: "translatable empty_map (sample4 ip port)"
  by (simp add: translatable_def map_inv_def empty_map_def sample4_def wf_addr_def zero_addr_def inet_addr_def)

subsection \<open>BINDING\<close>

text \<open>The BINDING exchange that tells a client its own address: the request is recognised as one,
  and the success response, with or without the backward compatible attribute, is recognised, keeps
  the transaction identifier, and yields the reflexive address to the client.\<close>

lemma binding_exchange:
  assumes "80 \<le> length buf" and "length t = 12" and "translatable tbl a"
  shows "(\<exists>b. stun_set_binding_request_str e buf = Some (b, 20)
      \<and> stun_is_binding_request_str b 20 0 = Some True
      \<and> stun_tid_from_message_str b 20 = Some (turn_random_tid_size e))
    \<and> (\<exists>b l c. stun_set_binding_response_str e tbl buf (Some t) (Some a) 0 reason cookie False no_compat = Some (0, b, l)
      \<and> stun_is_binding_response_str b l = Some True \<and> stun_tid_from_message_str b l = Some t
      \<and> stun_attr_get_first_addr_str tbl b l STUN_ATTRIBUTE_XOR_MAPPED_ADDRESS ca None = Some (0, c)
      \<and> addr_eq (Some c) (Some a))"
proof
  let ?rq = "stun_make_request STUN_METHOD_BINDING"
  have rq: "stun_msg (header ?rq 0 STUN_MAGIC_COOKIE (turn_random_tid_size e) @ drop 20 buf) 20 ?rq STUN_MAGIC_COOKIE
      (turn_random_tid_size e) []"
    by (rule stun_msg_new) simp
  show "\<exists>b. stun_set_binding_request_str e buf = Some (b, 20)
      \<and> stun_is_binding_request_str b 20 0 = Some True
      \<and> stun_tid_from_message_str b 20 = Some (turn_random_tid_size e)"
    using assms(1) stun_msg_view [OF rq]
    by (simp add: stun_set_binding_request_str_def init_header stun_is_binding_request_str_def
        type_method_make class_make class_defs)
next
  let ?mt = "stun_make_success_response STUN_METHOD_BINDING"
  let ?h = "header ?mt 0 STUN_MAGIC_COOKIE t @ drop 20 buf"
  let ?x = "addr_attr tbl t STUN_ATTRIBUTE_XOR_MAPPED_ADDRESS a"
  let ?y = "if no_compat then [] else [addr_attr tbl t STUN_ATTRIBUTE_MAPPED_ADDRESS a]"
  have rep0: "stun_msg ?h 20 ?mt STUN_MAGIC_COOKIE t []" and l0: "length ?h = length buf"
    using assms(1,2) by (simp_all add: stun_msg_new)
  have init: "stun_init_success_response_str e STUN_METHOD_BINDING buf (Some t) = Some (?h, 20)"
    using assms(1,2) by (simp add: init_header)
  have sz: "msg_size [?x] \<le> 44"
    using addr_attr_size [OF assms(3,2), of STUN_ATTRIBUTE_XOR_MAPPED_ADDRESS] by (simp add: msg_size_def)
  have x: "built (stun_attr_add_addr_str tbl ?h 20 STUN_ATTRIBUTE_XOR_MAPPED_ADDRESS a) (length buf) ?mt STUN_MAGIC_COOKIE t [?x]"
    using built_addr [OF rep0 l0 assms(3)] assms(1) by (simp add: msg_size_def)
  have y: "built (if \<not> no_compat then stun_attr_add_addr_str tbl b (msg_size [?x]) STUN_ATTRIBUTE_MAPPED_ADDRESS a
      else Some (0, b, msg_size [?x])) (length buf) ?mt STUN_MAGIC_COOKIE t ([?x] @ ?y)"
    if "stun_msg b (msg_size [?x]) ?mt STUN_MAGIC_COOKIE t [?x]" and "length b = length buf" for b
    using built_addr [OF that assms(3), of STUN_ATTRIBUTE_MAPPED_ADDRESS] built_done [OF that] sz assms(1) by simp
  have "built (stun_set_binding_response_str e tbl buf (Some t) (Some a) 0 reason cookie False no_compat)
      (length buf) ?mt STUN_MAGIC_COOKIE t ([?x] @ ?y)"
    unfolding stun_set_binding_response_str_def init bind.bind_lunit prod.case if_True simp_thms option.case
      not_False_eq_True
    by (rule built_on_ok [OF x], rule built_on_ok [OF y], assumption, assumption, rule built_done)
  then obtain b where b: "stun_set_binding_response_str e tbl buf (Some t) (Some a) 0 reason cookie False no_compat
      = Some (0, b, msg_size ([?x] @ ?y))"
    and rep: "stun_msg b (msg_size ([?x] @ ?y)) ?mt STUN_MAGIC_COOKIE t ([?x] @ ?y)"
    by (auto simp only: built_def)
  obtain c where c: "stun_attr_get_first_addr_str tbl b (msg_size ([?x] @ ?y)) STUN_ATTRIBUTE_XOR_MAPPED_ADDRESS ca None
      = Some (0, c)" "addr_eq (Some c) (Some a)"
    using first_addr_found [OF rep assms(3), of STUN_ATTRIBUTE_XOR_MAPPED_ADDRESS ca]
    by (auto simp: addr_attr_types_def addr_attr_def)
  have "stun_is_response_str b (msg_size ([?x] @ ?y)) = Some True"
    using stun_msg_view(3,4) [OF rep]
    by (simp add: stun_is_response_str_def make_fits class_defs class_make)
  then show "\<exists>b l c. stun_set_binding_response_str e tbl buf (Some t) (Some a) 0 reason cookie False no_compat = Some (0, b, l)
      \<and> stun_is_binding_response_str b l = Some True \<and> stun_tid_from_message_str b l = Some t
      \<and> stun_attr_get_first_addr_str tbl b l STUN_ATTRIBUTE_XOR_MAPPED_ADDRESS ca None = Some (0, c)
      \<and> addr_eq (Some c) (Some a)"
    using b c stun_msg_view [OF rep]
    by (intro exI [of _ b] exI [of _ "msg_size ([?x] @ ?y)"] exI [of _ c])
       (simp add: stun_is_binding_response_str_def type_method_make)
qed

end
