(* ===== verification/Framing.thy ===== *)
theory Framing
  imports Attr_Store C_Strings
begin

text \<open>
  ChannelData messages and the framing of a byte stream: the CHANNEL and ``STUN message'' sections of
  \<open>client/ns_turn_msg.c\<close>.  \<open>stun_get_message_len_str\<close> decides where the first message of a received
  buffer ends, trying a STUN message, an HTTP request and a ChannelData message in that order.

  The \<open>uint16_t\<close> variables of the source are words here, so their wrap-around is in the model.
  \<open>strstr\<close> and \<open>strtoul\<close> read until they find what ends them; running off the array is \<open>None\<close>.
\<close>

subsection \<open>ChannelData\<close>

definition round4_u16 :: "u16 \<Rightarrow> u16" where
  "round4_u16 rlen = push_bit 2 (drop_bit 2 rlen + 1)"

definition stun_init_channel_message_str ::
    "u16 \<Rightarrow> mem \<Rightarrow> nat \<Rightarrow> int \<Rightarrow> bool \<Rightarrow> (int \<times> mem \<times> nat) option" where
  "stun_init_channel_message_str chnumber buf len dlen do_padding = do {
     let rlen = (word_of_int dlen :: u16);
     if dlen < 0 then Some (-1, buf, len)
     else do {
       t \<leftarrow> c_int (4 + dlen);
       if MAX_STUN_MESSAGE_SIZE < t then Some (-1, buf, len)
       else do {
         b \<leftarrow> wr16 buf 0 (nswap16 chnumber);
         b \<leftarrow> wr16 b 2 (nswap16 (word_of_int dlen));
         let rlen = (if do_padding \<and> rlen AND 0x0003 \<noteq> 0 then round4_u16 rlen else rlen);
         Some (0, b, 4 + unat rlen) } } }"

text \<open>
  \<open>blen\<close> is the pointed-to length, \<open>None\<close> for a NULL pointer; likewise \<open>chnumber\<close>.  The result is
  the return value with both updated: \<open>*blen\<close> is clipped to 65535 even when the answer is 0.
\<close>

definition stun_is_channel_message_str ::
    "mem \<Rightarrow> nat option \<Rightarrow> u16 option \<Rightarrow> bool \<Rightarrow> (bool \<times> nat option \<times> u16 option) option" where
  "stun_is_channel_message_str buf blen chnumber mandatory_padding = (case blen of
     None \<Rightarrow> Some (False, blen, chnumber)
   | Some n0 \<Rightarrow>
     if n0 < 4 then Some (False, blen, chnumber)
     else do {
       w \<leftarrow> rd16 buf 0;
       let chn = nswap16 w;
       if \<not> STUN_VALID_CHANNEL chn then Some (False, blen, chnumber)
       else do {
         let n = (if n0 > 65535 then 65535 else n0);
         let datalen_actual = (of_nat n - 4 :: u16);
         h \<leftarrow> rd16 buf 2;
         let datalen_header = nswap16 h;
         if datalen_header > datalen_actual then Some (False, Some n, chnumber)
         else if datalen_header \<noteq> datalen_actual \<and> datalen_actual AND 0x0003 \<noteq> 0
              \<and> (mandatory_padding \<or> datalen_actual < datalen_header \<or> datalen_header = 0
                 \<or> datalen_actual - datalen_header > 3)
         then Some (False, Some n, chnumber)
         else Some (True, Some (unat datalen_header + 4),
                    case chnumber of None \<Rightarrow> None | Some _ \<Rightarrow> Some chn) } })"

subsection \<open>HTTP requests\<close>

definition c_tolower :: "u8 \<Rightarrow> u8" where
  "c_tolower c = (if 65 \<le> c \<and> c \<le> 90 then c + 32 else c)"

fun sheadof :: "mem \<Rightarrow> mem \<Rightarrow> bool \<Rightarrow> bool option" where
  "sheadof [] full ignore_case = None"
| "sheadof (h # head) full ignore_case =
     (if h = 0 then Some True
      else case full of [] \<Rightarrow> None
      | f # fs \<Rightarrow>
          if h \<noteq> f then
            if ignore_case \<and> c_tolower h = c_tolower f then sheadof head fs ignore_case
            else Some False
          else sheadof head fs ignore_case)"

fun findstr_loop :: "mem \<Rightarrow> mem \<Rightarrow> bool \<Rightarrow> nat \<Rightarrow> nat \<Rightarrow> nat option option" where
  "findstr_loop hay needle ignore_case i 0 = Some None"
| "findstr_loop hay needle ignore_case i (Suc k) =
     (case sheadof needle (drop i hay) ignore_case of
        None \<Rightarrow> None
      | Some True \<Rightarrow> Some (Some i)
      | Some False \<Rightarrow> findstr_loop hay needle ignore_case (i + 1) k)"

definition findstr :: "mem \<Rightarrow> nat \<Rightarrow> mem \<Rightarrow> bool \<Rightarrow> nat option option" where
  "findstr hay slen needle ignore_case =
     (if slen = 0 then Some None
      else do {
        nlen \<leftarrow> c_strlen needle;
        if nlen \<le> slen then findstr_loop hay needle ignore_case 0 (slen - nlen + 1)
        else Some None })"

text \<open>\<open>strstr(s, needle)\<close>: the offset of the first occurrence before the terminating NUL.\<close>

fun c_strstr :: "mem \<Rightarrow> mem \<Rightarrow> nat \<Rightarrow> nat option option" where
  "c_strstr [] needle i = None"
| "c_strstr (c # cs) needle i =
     (case sheadof needle (c # cs) False of
        None \<Rightarrow> None
      | Some True \<Rightarrow> Some (Some i)
      | Some False \<Rightarrow> if c = 0 then Some None else c_strstr cs needle (i + 1))"

text \<open>\<open>strtoul(s, NULL, 10)\<close> for a 64-bit \<open>unsigned long\<close>: saturating, a minus sign negates.\<close>

definition c_strtoul :: "mem \<Rightarrow> nat option" where
  "c_strtoul s = do {
     s1 \<leftarrow> skip_space s;
     let neg = (s1 \<noteq> [] \<and> hd s1 = 45);
     let s2 = (if s1 \<noteq> [] \<and> (hd s1 = 45 \<or> hd s1 = 43) then tl s1 else s1);
     v \<leftarrow> scan_digits 0 s2;
     Some (if v \<ge> 2 ^ 64 then 2 ^ 64 - 1 else if neg then (2 ^ 64 - v) mod 2 ^ 64 else v) }"

definition starts_with :: "mem \<Rightarrow> string \<Rightarrow> bool option" where
  "starts_with s lit = do { r \<leftarrow> c_strstr s (c_lit lit) 0; Some (r = Some 0) }"

definition http_method :: "mem \<Rightarrow> bool option" where
  "http_method s = do {
     g \<leftarrow> starts_with s ''GET '';
     p \<leftarrow> (if g then Some True else starts_with s ''POST '');
     d \<leftarrow> (if p then Some True else starts_with s ''DELETE '');
     if d then Some True else starts_with s ''PUT '' }"

text \<open>The length of the request whose header ends with the CRLFCRLF at \<open>sp\<close>.\<close>

definition http_len :: "mem \<Rightarrow> nat \<Rightarrow> int option" where
  "http_len s sp = do {
     let ret_len = int sp + 4;
     cl \<leftarrow> findstr s sp (c_lit ''content-length: '') True;
     case cl of None \<Rightarrow> Some ret_len
     | Some c \<Rightarrow> do {
         clen \<leftarrow> c_strtoul (drop (c + 16) s);
         if clen > 0 \<and> clen < 0x0FFFFFFF then c_int (ret_len + int clen) else Some ret_len } }"

definition is_http_inline :: "mem \<Rightarrow> nat \<Rightarrow> int option" where
  "is_http_inline s blen =
     (if blen \<ge> 12 then do {
        m \<leftarrow> http_method s;
        if m then do {
          sp \<leftarrow> findstr (drop 4 s) (blen - 4) (c_lit '' HTTP/'') False;
          case sp of None \<Rightarrow> Some 0
          | Some sp \<Rightarrow> do {
              let diff_blen = 4 + sp + 6;
              if diff_blen + 4 \<le> blen then do {
                crlf \<leftarrow> findstr (drop diff_blen s) (blen - diff_blen)
                  (chars [CHR 0x0D, CHR 0x0A, CHR 0x0D, CHR 0x0A] @ [0]) False;
                case crlf of None \<Rightarrow> Some 0
                | Some q \<Rightarrow> http_len s (diff_blen + q) }
              else Some 0 } }
        else Some 0 }
      else Some 0)"

definition is_http :: "mem \<Rightarrow> nat \<Rightarrow> int option" where
  "is_http s blen = is_http_inline s blen"

subsection \<open>The end of the first message\<close>

definition frame_stun :: "mem \<Rightarrow> nat \<Rightarrow> u16 option option" where
  "frame_stun buf blen =
     (if blen \<ge> STUN_HEADER_LENGTH then do {
        t \<leftarrow> rd16 buf 0;
        if \<not> STUN_VALID_CHANNEL (nswap16 t) then do {
          b0 \<leftarrow> rd8 buf 0;
          if b0 AND 0xC0 = 0 then do {
            c \<leftarrow> rd32 buf 4;
            if nswap32 c = STUN_MAGIC_COOKIE then do {
              l \<leftarrow> rd16 buf 2;
              let len = nswap16 l;
              if len AND 0x0003 = 0 then do {
                let len = len + 20;
                if unat len \<le> blen then Some (Some len) else Some None }
              else Some None }
            else Some None }
          else Some None }
        else Some None }
      else Some None)"

definition stun_get_message_len_str :: "mem \<Rightarrow> nat \<Rightarrow> bool \<Rightarrow> nat \<Rightarrow> (int \<times> nat) option" where
  "stun_get_message_len_str buf blen padding app_len =
     (if blen = 0 then Some (-1, app_len)
      else do {
        stun \<leftarrow> frame_stun buf blen;
        case stun of Some len \<Rightarrow> Some (uint len, unat len)
        | None \<Rightarrow> do {
            http_len \<leftarrow> is_http_inline buf blen;
            if http_len > 0 \<and> http_len \<le> int blen then Some (http_len, nat http_len)
            else if blen \<ge> 4 then do {
              w \<leftarrow> rd16 buf 0;
              if STUN_VALID_CHANNEL (nswap16 w) then do {
                l \<leftarrow> rd16 buf 2;
                let bret0 = (4 + nswap16 l :: u16);
                let bret = (if padding \<and> bret0 AND 0x0003 \<noteq> 0 then round4_u16 bret0 else bret0);
                if unat bret \<le> blen then Some (uint bret, unat bret0) else Some (-1, unat bret0) }
              else Some (-1, app_len) }
            else Some (-1, app_len) } })"

subsection \<open>Rounding up\<close>

lemma low_bits_mod4: "w AND 0x0003 \<noteq> 0 \<longleftrightarrow> unat (w :: u16) mod 4 \<noteq> 0"
  by (simp add: mod4_iff)

lemma unat_round4:
  assumes "unat w mod 4 \<noteq> 0" and "unat (w :: u16) < 65532"
  shows "unat (round4_u16 w) = pad4 (unat w)"
proof -
  have d: "unat (drop_bit 2 w) = unat w div 4"
    by (simp only: unat_drop_bit_eq) (simp add: drop_bit_eq_div)
  have lt: "unat w div 4 + 1 < 16384"
    using assms(2) by simp
  have "drop_bit 2 w + 1 = of_nat (unat w div 4 + 1)"
    by (simp add: d [symmetric])
  then have "push_bit 2 (drop_bit 2 w + 1) = (of_nat (4 * (unat w div 4 + 1)) :: u16)"
    by (simp only: push_bit_eq_mult) simp
  then have "unat (push_bit 2 (drop_bit 2 w + 1)) = 4 * (unat w div 4 + 1)"
    using lt by (simp only: unat_of_nat) simp
  also have "\<dots> = pad4 (unat w)"
    using assms(1) by (auto simp: pad4_def Let_def) presburger
  finally show ?thesis
    by (simp only: round4_u16_def)
qed

lemma pad4_exact: "n mod 4 = 0 \<Longrightarrow> pad4 n = n"
  by (simp add: pad4_def)

subsection \<open>ChannelData round trip\<close>

definition channel_header :: "u16 \<Rightarrow> u16 \<Rightarrow> mem" where
  "channel_header chn n = bytes16 (nswap16 chn) @ bytes16 (nswap16 n)"

lemma channel_header_reads:
  "rd16 (channel_header chn n @ x) 0 = Some (nswap16 chn)"
  "rd16 (channel_header chn n @ x) 2 = Some (nswap16 n)"
  by (simp_all add: channel_header_def rd16_def bytes16_def nswap16_def byte_simps)

lemma init_channel_bytes:
  assumes "4 \<le> length buf" and "n \<le> 65503"
  shows "stun_init_channel_message_str chn buf len (int n) pad =
    Some (0, channel_header chn (of_nat n) @ drop 4 buf, 4 + (if pad then pad4 n else n))"
proof -
  have u: "unat (of_nat n :: u16) = n"
    using assms(2) by (simp add: unat_of_nat)
  have rlen: "unat (if pad \<and> (of_nat n :: u16) AND 0x0003 \<noteq> 0 then round4_u16 (of_nat n) else of_nat n)
      = (if pad then pad4 n else n)"
    using unat_round4 [of "of_nat n"] assms(2) u pad4_exact [of n] by (auto simp: low_bits_mod4)
  obtain a b c d t where buf: "buf = a # b # c # d # t"
    using assms(1) by (auto simp: numeral_eq_Suc Suc_le_length_iff)
  have w: "wr16 buf 0 v = Some (bytes16 v @ c # d # t)"
    "wr16 (bytes16 v @ c # d # t) 2 v' = Some (bytes16 v @ bytes16 v' @ t)" for v v'
    by (simp_all add: buf wr16_def wrn_def bytes16_def)
  have d4: "drop 4 buf = t"
    by (simp add: buf)
  have c: "c_int (4 + int n) = Some (4 + int n)"
    using assms(2) by (intro c_int_Some) simp_all
  show ?thesis
    using assms(2) rlen d4
    by (simp add: stun_init_channel_message_str_def c w Let_def channel_header_def)
qed

lemma is_channel_header:
  assumes "STUN_VALID_CHANNEL chn" and "4 \<le> l" and "l \<le> 65535" and "unat n = l - 4 \<or> pad4 (unat n) = l - 4"
  shows "stun_is_channel_message_str (channel_header chn n @ x) (Some l) (Some c) mp =
    Some (True, Some (unat n + 4), Some chn)"
proof -
  have act: "unat (of_nat l - 4 :: u16) = l - 4"
  proof -
    have "of_nat l - 4 = (of_nat (l - 4) :: u16)"
      using assms(2) by simp
    then show ?thesis
      using assms(3) by (simp only: unat_of_nat) simp
  qed
  have "unat n \<le> l - 4"
    using assms(4) pad4_bounds(1) [of "unat n"] by auto
  then have "\<not> n > of_nat l - 4"
    by (simp add: word_less_nat_alt act not_less)
  moreover have "n \<noteq> of_nat l - 4 \<Longrightarrow> (of_nat l - 4 :: u16) AND 0x0003 = 0"
    using assms(4) act pad4_bounds(3) [of "unat n"] mod4_iff [of "of_nat l - 4"] word_unat_eq_iff
    by metis
  ultimately show ?thesis
    using assms(1-3) by (auto simp: stun_is_channel_message_str_def channel_header_reads Let_def)
qed

text \<open>ChannelData round trip over TCP (padded) and UDP: the header written for \<open>n\<close> bytes of data
  on a valid channel is recognised, and the recogniser returns the channel and the unpadded length,
  whether or not it insists on padding.\<close>

lemma channel_message_roundtrip:
  assumes "STUN_VALID_CHANNEL chn" and "4 \<le> length buf" and "n \<le> 65503"
  shows "\<exists>b l. stun_init_channel_message_str chn buf len (int n) padding = Some (0, b, l)
    \<and> l = 4 + (if padding then pad4 n else n) \<and> length b = length buf \<and> drop 4 b = drop 4 buf
    \<and> stun_is_channel_message_str b (Some l) (Some c) mandatory = Some (True, Some (n + 4), Some chn)"
proof -
  have "length (channel_header chn (of_nat n)) = 4"
    by (simp add: channel_header_def)
  moreover have "unat (of_nat n :: u16) = n"
    using assms(3) by (simp add: unat_of_nat)
  moreover have "4 + (if padding then pad4 n else n) \<le> 65535"
    using assms(3) pad4_bounds(2) [of n] by simp
  ultimately show ?thesis
    using init_channel_bytes [OF assms(2,3), of chn _ padding] assms
      is_channel_header [OF assms(1), of "4 + (if padding then pad4 n else n)" "of_nat n" "drop 4 buf"]
    by auto
qed

text \<open>With padding the announced length may leave the message buffer: 65501 bytes of data are
  accepted and give a total of 65508, one more than \<open>MAX_STUN_MESSAGE_SIZE\<close>.\<close>

lemma channel_padding_exceeds_buffer:
  "\<exists>b. stun_init_channel_message_str 0x4000 (replicate 65507 0) 0 65501 True = Some (0, b, 65508)
     \<and> length b = 65507"
  using init_channel_bytes [of "replicate 65507 0" 65501 "0x4000" _ True]
  by (simp add: pad4_def channel_header_def)

subsection \<open>Framing\<close>

lemma frame_stun_header:
  "frame_stun (header mt ln ck tid @ x) blen =
     Some (if 20 \<le> blen \<and> drop_bit 14 mt = 0 \<and> ck = STUN_MAGIC_COOKIE \<and> unat ln mod 4 = 0
             \<and> unat (ln + 20) \<le> blen then Some (ln + 20) else None)"
  by (simp add: frame_stun_def header_simps top_bits_iff valid_channel_iff mod4_iff Let_def)

text \<open>C10: In a received stream, a message built by this library is cut off exactly at its end,
  whatever follows it.\<close>

theorem framing_exact:
  assumes "stun_msg buf len mt STUN_MAGIC_COOKIE tid as" and "drop_bit 14 mt = 0" and "len \<le> blen"
  shows "stun_get_message_len_str buf blen padding app = Some (int len, len)"
proof -
  obtain r rest where m: "buf = header mt (of_nat (length r)) STUN_MAGIC_COOKIE tid @ r @ rest"
    "len = 20 + length r" "length r < 65487" "unat (of_nat (length r) :: u16) = length r"
    using stun_msgE [OF assms(1)] by metis
  have "length r mod 4 = 0"
    using stun_msg_len(5) [OF assms(1)] m(2) by presburger
  moreover have u: "unat (of_nat (length r) + 20 :: u16) = len"
  proof -
    have "(of_nat (length r) + 20 :: u16) = of_nat len"
      using m(2) by simp
    then show ?thesis
      using m(2,3) by (simp only: unat_of_nat) simp
  qed
  ultimately have "frame_stun buf blen = Some (Some (of_nat (length r) + 20))"
    using assms(2,3) m(4) by (simp add: m(1) frame_stun_header) (simp add: m(2))
  moreover have "uint (of_nat (length r) + 20 :: u16) = int len"
    by (metis u uint_nat)
  ultimately show ?thesis
    using assms(3) u m(2) by (simp add: stun_get_message_len_str_def)
qed

theorem framing_exact_witness:
  "stun_get_message_len_str (header (stun_make_request STUN_METHOD_BINDING) 0 STUN_MAGIC_COOKIE (replicate 12 7)
      @ [71, 69, 84]) 23 True 0 = Some (20, 20)"
  using framing_exact [OF stun_msg_new, of "replicate 12 7" "stun_make_request STUN_METHOD_BINDING"
      23 "[71, 69, 84]" True 0] by simp

text \<open>The 16-bit sums of the framing wrap: a STUN header that announces 65520 bytes is taken for
  a message of 4 bytes, and a ChannelData header that announces 65532 bytes for one of none.\<close>

lemma framing_wraps:
  "stun_get_message_len_str (header 1 0xFFF0 STUN_MAGIC_COOKIE tid @ x) (20 + n) padding app = Some (4, 4)
   \<and> stun_get_message_len_str [0x40, 0, 0xFF, 0xFC] 4 padding app = Some (0, 0)"
proof -
  have "nswap16 64 = 0x4000" and "nswap16 64767 = 0xFFFC"
    by (simp_all add: nswap16_def byte_of_def le16_def)
  then show ?thesis
    by (simp add: stun_get_message_len_str_def frame_stun_header)
       (simp add: frame_stun_def is_http_inline_def rd16_def le16_def STUN_VALID_CHANNEL_def Let_def)
qed

subsection \<open>Framing stays inside a terminated buffer\<close>

lemma tolower_0: "c_tolower h = 0 \<longleftrightarrow> h = 0"
proof
  assume z: "c_tolower h = 0"
  show "h = 0"
  proof (cases "65 \<le> h \<and> h \<le> 90")
    case True
    then have "unat h + 32 < 256" and "h + 32 = 0"
      using z by (simp_all add: c_tolower_def word_le_nat_alt)
    then have "unat (h + 32) = unat h + 32"
      by (subst unat_word_ariths) simp
    then show ?thesis
      using \<open>h + 32 = 0\<close> by simp
  next
    case False
    then have "c_tolower h = h"
      by (auto simp: c_tolower_def)
    then show ?thesis
      using z by simp
  qed
qed (simp add: c_tolower_def)

lemma sheadof_safe: "0 \<in> set needle \<Longrightarrow> 0 \<in> set full \<Longrightarrow> sheadof needle full ic \<noteq> None"
proof (induction needle full ic rule: sheadof.induct)
  case (2 h head full ic)
  show ?case
  proof (cases "h = 0")
    case False
    then obtain f fs where full: "full = f # fs" and head: "0 \<in> set head"
      using 2 by (cases full) auto
    have "f = h \<or> c_tolower h = c_tolower f \<Longrightarrow> 0 \<in> set fs"
      using 2(4) False tolower_0 [of h] tolower_0 [of f] by (auto simp: full)
    then show ?thesis
      using 2(1,2) False head by (auto simp: full)
  qed simp
qed simp

lemma strstr_safe: "0 \<in> set needle \<Longrightarrow> 0 \<in> set s \<Longrightarrow> c_strstr s needle i \<noteq> None"
proof (induction s needle i rule: c_strstr.induct)
  case (2 c cs needle i)
  then show ?case
    using sheadof_safe [OF 2(2,3), of False] by (auto split: option.splits bool.splits)
qed simp

lemma findstr_loop_safe:
  assumes "0 \<in> set needle" and "\<forall>j<k. 0 \<in> set (drop (i + j) hay)"
  shows "\<exists>r. findstr_loop hay needle ic i k = Some r \<and> (\<forall>p. r = Some p \<longrightarrow> p < i + k)"
  using assms(2)
proof (induction k arbitrary: i)
  case (Suc k)
  have "sheadof needle (drop i hay) ic \<noteq> None"
    using sheadof_safe [OF assms(1)] Suc.prems by (metis add.right_neutral zero_less_Suc)
  moreover have "\<forall>j<k. 0 \<in> set (drop (i + 1 + j) hay)"
    using Suc.prems by (metis Suc_less_eq add.assoc add_Suc_right plus_1_eq_Suc)
  then obtain r where "findstr_loop hay needle ic (i + 1) k = Some r" "\<forall>p. r = Some p \<longrightarrow> p < i + 1 + k"
    using Suc.IH by blast
  ultimately show ?case
    by (auto split: option.splits bool.splits)
qed simp

lemma findstr_safe:
  assumes "c_strlen needle = Some n" and "slen \<le> k" and "k < length hay" and "hay ! k = 0"
  shows "\<exists>r. findstr hay slen needle ic = Some r \<and> (\<forall>p. r = Some p \<longrightarrow> p + n \<le> slen)"
proof -
  have needle: "0 \<in> set needle"
    using c_strlen_Some [OF assms(1)] by (metis nth_mem)
  have nul: "0 \<in> set (drop j hay)" if "j \<le> k" for j
    using that assms(3,4) by (auto simp: in_set_conv_nth intro!: exI [of _ "k - j"])
  show ?thesis
  proof (cases "n \<le> slen \<and> slen \<noteq> 0")
    case True
    have "\<forall>j < slen - n + 1. 0 \<in> set (drop (0 + j) hay)"
      using assms(2) nul by simp
    then obtain r where "findstr_loop hay needle ic 0 (slen - n + 1) = Some r"
        "\<forall>p. r = Some p \<longrightarrow> p < 0 + (slen - n + 1)"
      using findstr_loop_safe [OF needle] by blast
    then show ?thesis
      using True assms(1) by (auto simp: findstr_def)
  next
    case False
    then show ?thesis
      using assms(1) by (auto simp: findstr_def)
  qed
qed

lemma skip_space_safe: "0 \<in> set s \<Longrightarrow> \<exists>t. skip_space s = Some t \<and> 0 \<in> set t"
  by (induction s rule: skip_space.induct) auto

lemma scan_digits_safe: "0 \<in> set s \<Longrightarrow> \<exists>v. scan_digits acc s = Some v"
  by (induction acc s rule: scan_digits.induct) auto

lemma strtoul_safe:
  assumes "0 \<in> set s"
  shows "\<exists>v. c_strtoul s = Some v"
proof -
  obtain t where t: "skip_space s = Some t" and z: "0 \<in> set t"
    using skip_space_safe [OF assms] by blast
  have "0 \<in> set (if t \<noteq> [] \<and> (hd t = 45 \<or> hd t = 43) then tl t else t)"
    using z by (cases t) auto
  then show ?thesis
    using scan_digits_safe [of "if t \<noteq> [] \<and> (hd t = 45 \<or> hd t = 43) then tl t else t" 0] t
    by (auto simp: c_strtoul_def Let_def)
qed

lemma starts_with_safe: "0 \<in> set s \<Longrightarrow> \<exists>b. starts_with s lit = Some b"
  using strstr_safe [of "c_lit lit" s 0] by (auto simp: starts_with_def c_lit_def)

lemma findstr_tail_safe:
  assumes "c_strlen needle = Some n" and "d + slen \<le> k" and "k < length s" and "s ! k = 0"
  shows "\<exists>r. findstr (drop d s) slen needle ic = Some r \<and> (\<forall>p. r = Some p \<longrightarrow> p + n \<le> slen)"
  using findstr_safe [OF assms(1), of slen "k - d" "drop d s"] assms(2-4) by simp

lemma http_needles:
  "c_strlen (c_lit '' HTTP/'') = Some 6"
  "c_strlen (chars [CHR 0x0D, CHR 0x0A, CHR 0x0D, CHR 0x0A] @ [0]) = Some 4"
  "c_strlen (c_lit ''content-length: '') = Some 16"
  by (simp_all add: c_lit_def chars_def of_char_def)

lemma http_len_safe:
  assumes "sp \<le> k" and "k < length s" and "s ! k = 0" and "sp < 2 ^ 30"
  shows "\<exists>r. http_len s sp = Some r"
proof -
  obtain cl where cl: "findstr s sp (c_lit ''content-length: '') True = Some cl"
    and bound: "\<forall>p. cl = Some p \<longrightarrow> p + 16 \<le> sp"
    using findstr_safe [OF http_needles(3) assms(1-3)] by blast
  show ?thesis
  proof (cases cl)
    case None
    then show ?thesis
      using cl by (simp add: http_len_def)
  next
    case (Some c)
    then have "drop (c + 16) s ! (k - (c + 16)) = 0" and "k - (c + 16) < length (drop (c + 16) s)"
      using bound assms(1-3) by simp_all
    then have "0 \<in> set (drop (c + 16) s)"
      by (metis nth_mem)
    then obtain v where "c_strtoul (drop (c + 16) s) = Some v"
      using strtoul_safe by blast
    then show ?thesis
      using cl Some assms(4) by (simp add: http_len_def Let_def)
  qed
qed

lemma is_http_safe:
  assumes "blen \<le> k" and "k < length s" and "s ! k = 0" and "blen < 2 ^ 30"
  shows "\<exists>r. is_http_inline s blen = Some r"
proof -
  have z: "0 \<in> set s"
    using assms(2,3) by (metis nth_mem)
  have "\<exists>m. http_method s = Some m"
    using starts_with_safe [OF z, of "''GET ''"] starts_with_safe [OF z, of "''POST ''"]
      starts_with_safe [OF z, of "''DELETE ''"] starts_with_safe [OF z, of "''PUT ''"]
    by (auto simp: http_method_def)
  then obtain m where m: "http_method s = Some m" ..
  show ?thesis
  proof (cases "m \<and> 12 \<le> blen")
    case True
    then obtain sp where sp: "findstr (drop 4 s) (blen - 4) (c_lit '' HTTP/'') False = Some sp"
      and b1: "\<forall>p. sp = Some p \<longrightarrow> p + 6 \<le> blen - 4"
      using findstr_tail_safe [OF http_needles(1), of 4 "blen - 4" k s False] assms by auto
    show ?thesis
    proof (cases "\<exists>p. sp = Some p \<and> 4 + p + 6 + 4 \<le> blen")
      case False
      then show ?thesis
        using True m sp by (auto simp: is_http_inline_def Let_def split: option.splits)
    next
      case True2: True
      then obtain p where p: "sp = Some p" "4 + p + 6 + 4 \<le> blen" by blast
      let ?d = "4 + p + 6"
      obtain q where q: "findstr (drop ?d s) (blen - ?d)
            (chars [CHR 0x0D, CHR 0x0A, CHR 0x0D, CHR 0x0A] @ [0]) False = Some q"
        and b2: "\<forall>x. q = Some x \<longrightarrow> x + 4 \<le> blen - ?d"
        using findstr_tail_safe [OF http_needles(2), of ?d "blen - ?d" k s False] assms p(2) by auto
      show ?thesis
      proof (cases q)
        case None
        then show ?thesis
          using True m sp p q by (simp add: is_http_inline_def Let_def)
      next
        case (Some x)
        then have "\<exists>r. http_len s (?d + x) = Some r"
          using b2 p(2) assms by (intro http_len_safe [of _ k]) simp_all
        then show ?thesis
          using True m sp p q Some by (simp add: is_http_inline_def Let_def)
      qed
    qed
  next
    case False
    then show ?thesis
      using m by (auto simp: is_http_inline_def)
  qed
qed

text \<open>C11: Cutting the first message off a received buffer reads only the buffer, provided a NUL
  byte follows the received bytes (the HTTP test uses \<open>strstr\<close> and \<open>strtoul\<close>), and never announces
  more bytes than were received.\<close>

theorem framing_safe:
  assumes "blen \<le> k" and "k < length buf" and "buf ! k = 0" and "blen < 2 ^ 30"
  shows "\<exists>n app'. stun_get_message_len_str buf blen padding app = Some (n, app')
    \<and> -1 \<le> n \<and> n \<le> int blen"
proof -
  obtain h where h: "is_http_inline buf blen = Some h"
    using is_http_safe [OF assms] by blast
  have uint: "uint w \<le> int m \<longleftrightarrow> unat w \<le> m" for w :: u16 and m
    by (metis of_nat_le_iff uint_nat)
  have ge: "- 1 \<le> uint w" for w :: u16
    using unsigned_greater_eq [of w] by (rule order_trans [rotated]) simp
  have "\<exists>fr. frame_stun buf blen = Some fr \<and> (\<forall>l. fr = Some l \<longrightarrow> unat l \<le> blen)"
    using assms(1,2) by (auto simp: frame_stun_def rd16_def rd32_def rd8_def Let_def)
  then obtain fr where fr: "frame_stun buf blen = Some fr" and le: "\<forall>l. fr = Some l \<longrightarrow> unat l \<le> blen"
    by blast
  show ?thesis
  proof (cases fr)
    case (Some l)
    then show ?thesis
      using fr le by (auto simp: stun_get_message_len_str_def uint ge)
  next
    case None
    then show ?thesis
      using fr h assms(1,2) by (auto simp: stun_get_message_len_str_def rd16_def Let_def uint ge)
  qed
qed

theorem framing_safe_witness:
  "\<exists>n app'. stun_get_message_len_str (chars ''GET / HTTP/1.1'' @ [13, 10, 13, 10, 0]) 18 True 0 = Some (n, app')
     \<and> -1 \<le> n \<and> n \<le> 18"
  using framing_safe [of 18 18 "chars ''GET / HTTP/1.1'' @ [13, 10, 13, 10, 0]" True 0]
  by (simp add: chars_def)

end
