(* ===== verification/Stun_Buffer.thy ===== *)
theory Stun_Buffer
  imports Messages Framing
begin

text \<open>
  The message buffer of \<open>common/stun_buffer.c\<close>: the structure that carries a message together with its length,
  and its operations, each of which hands the array and the length to a function of \<open>client/ns_turn_msg.c\<close>.

  A pointer that is compared with NULL is an \<open>option\<close>; the others are plain values.  An operation that changes the
  buffer returns it after its C result.
\<close>

record stun_buffer =
  channel :: mem
  buf :: mem
  len :: nat
  offset :: u16
  coffset :: u8

subsection \<open>Initialisation and identifiers\<close>

definition stun_init_buffer :: "stun_buffer option \<Rightarrow> int \<times> stun_buffer option" where
  "stun_init_buffer b = (case b of None \<Rightarrow> (-1, None)
   | Some b \<Rightarrow> (0, Some (b\<lparr>buf := replicate 65507 0, len := 0, offset := 0, coffset := 0\<rparr>)))"

definition stun_get_size :: "stun_buffer option \<Rightarrow> nat" where
  "stun_get_size b = (case b of None \<Rightarrow> 0 | Some _ \<Rightarrow> 65507)"

definition stun_tid_from_message :: "stun_buffer \<Rightarrow> mem option" where
  "stun_tid_from_message b = stun_tid_from_message_str (buf b) (len b)"

definition stun_tid_generate_in_message ::
    "entropy \<Rightarrow> stun_buffer option \<Rightarrow> mem option \<Rightarrow> (stun_buffer option \<times> mem option) option" where
  "stun_tid_generate_in_message e b tid = (case b of None \<Rightarrow> Some (None, tid)
   | Some b \<Rightarrow> do { (m, t) \<leftarrow> stun_tid_generate_in_message_str e (buf b) tid; Some (Some (b\<lparr>buf := m\<rparr>), t) })"

subsection \<open>Tests\<close>

definition is_channel_msg :: "stun_buffer option \<Rightarrow> bool option" where
  "is_channel_msg b = (case b of None \<Rightarrow> Some False
   | Some b \<Rightarrow> if len b > 0 then is_channel_msg_str (buf b) (len b) else Some False)"

definition stun_is_command_message :: "stun_buffer option \<Rightarrow> bool option" where
  "stun_is_command_message b = (case b of None \<Rightarrow> Some False
   | Some b \<Rightarrow> if len b \<le> 0 then Some False else stun_is_command_message_str (buf b) (len b))"

definition stun_is_request :: "stun_buffer \<Rightarrow> bool option" where
  "stun_is_request b = stun_is_request_str (buf b) (len b)"

definition stun_is_success_response :: "stun_buffer \<Rightarrow> bool option" where
  "stun_is_success_response b = stun_is_success_response_str (buf b) (len b)"

definition stun_is_error_response ::
    "stun_buffer \<Rightarrow> int option \<Rightarrow> mem option \<Rightarrow> nat \<Rightarrow> (bool \<times> int option \<times> mem option) option" where
  "stun_is_error_response b err_code err_msg err_msg_size =
     stun_is_error_response_str (buf b) (len b) err_code err_msg err_msg_size"

definition stun_is_response :: "stun_buffer \<Rightarrow> bool option" where
  "stun_is_response b = stun_is_response_str (buf b) (len b)"

definition stun_get_msg_type :: "stun_buffer option \<Rightarrow> u16 option" where
  "stun_get_msg_type b = (case b of None \<Rightarrow> Some (-1) | Some b \<Rightarrow> stun_get_msg_type_str (buf b) (len b))"

definition stun_is_indication :: "stun_buffer option \<Rightarrow> bool option" where
  "stun_is_indication b = do {
     c \<leftarrow> is_channel_msg b;
     if c then Some False else do { t \<leftarrow> stun_get_msg_type b; Some (IS_STUN_INDICATION t) } }"

definition stun_get_method :: "stun_buffer \<Rightarrow> u16 option" where
  "stun_get_method b = stun_get_method_str (buf b) (len b)"

definition stun_get_command_message_len :: "stun_buffer \<Rightarrow> int option" where
  "stun_get_command_message_len b = stun_get_command_message_len_str (buf b) (len b)"

subsection \<open>Messages\<close>

text \<open>Storing what a function of the message library returns.\<close>

definition store2 :: "stun_buffer \<Rightarrow> (mem \<times> nat) option \<Rightarrow> stun_buffer option" where
  "store2 b x = do { (m, l) \<leftarrow> x; Some (b\<lparr>buf := m, len := l\<rparr>) }"

definition store3 :: "stun_buffer \<Rightarrow> ('r \<times> mem \<times> nat) option \<Rightarrow> ('r \<times> stun_buffer) option" where
  "store3 b x = do { (r, m, l) \<leftarrow> x; Some (r, b\<lparr>buf := m, len := l\<rparr>) }"

definition stun_init_command :: "entropy \<Rightarrow> u16 \<Rightarrow> stun_buffer \<Rightarrow> stun_buffer option" where
  "stun_init_command e message_type b =
     (let b = b\<lparr>len := stun_get_size (Some b)\<rparr> in store2 b (stun_init_command_str e message_type (buf b)))"

definition stun_init_request :: "entropy \<Rightarrow> u16 \<Rightarrow> stun_buffer \<Rightarrow> stun_buffer option" where
  "stun_init_request e method b = stun_init_command e (stun_make_request method) b"

definition stun_init_indication :: "entropy \<Rightarrow> u16 \<Rightarrow> stun_buffer \<Rightarrow> stun_buffer option" where
  "stun_init_indication e method b = stun_init_command e (stun_make_indication method) b"

definition stun_init_success_response :: "entropy \<Rightarrow> u16 \<Rightarrow> stun_buffer \<Rightarrow> mem option \<Rightarrow> stun_buffer option" where
  "stun_init_success_response e method b tid =
     (let b = b\<lparr>len := stun_get_size (Some b)\<rparr> in store2 b (stun_init_success_response_str e method (buf b) tid))"

definition stun_init_error_response ::
    "entropy \<Rightarrow> u16 \<Rightarrow> stun_buffer \<Rightarrow> u16 \<Rightarrow> mem option \<Rightarrow> mem option \<Rightarrow> stun_buffer option" where
  "stun_init_error_response e method b error_code reason tid =
     (let b = b\<lparr>len := stun_get_size (Some b)\<rparr>
      in store2 b (stun_init_error_response_str e method (buf b) error_code reason tid))"

definition stun_init_channel_message :: "u16 \<Rightarrow> stun_buffer \<Rightarrow> int \<Rightarrow> bool \<Rightarrow> (int \<times> stun_buffer) option" where
  "stun_init_channel_message chnumber b dlen do_padding =
     store3 b (stun_init_channel_message_str chnumber (buf b) (len b) dlen do_padding)"

definition stun_is_channel_message ::
    "stun_buffer option \<Rightarrow> u16 option \<Rightarrow> bool \<Rightarrow> (bool \<times> stun_buffer option \<times> u16 option) option" where
  "stun_is_channel_message b chnumber is_padding_mandatory = (case b of None \<Rightarrow> Some (False, None, chnumber)
   | Some b \<Rightarrow> do {
       (ret, blen, ch) \<leftarrow> stun_is_channel_message_str (buf b) (Some (len b)) chnumber is_padding_mandatory;
       Some (ret, Some (if ret then b\<lparr>len := the blen\<rparr> else b), ch) })"

definition stun_set_allocate_request ::
    "entropy \<Rightarrow> stun_buffer \<Rightarrow> u32 \<Rightarrow> bool \<Rightarrow> bool \<Rightarrow> u8 \<Rightarrow> bool \<Rightarrow> mem option \<Rightarrow> int \<Rightarrow> (int \<times> stun_buffer) option" where
  "stun_set_allocate_request e b lifetime af4 af6 transport mobile rt ep =
     store3 b (stun_set_allocate_request_str e (buf b) lifetime af4 af6 transport mobile rt ep)"

definition stun_set_allocate_response ::
    "entropy \<Rightarrow> addr_map \<Rightarrow> stun_buffer \<Rightarrow> mem option \<Rightarrow> ioa_addr option \<Rightarrow> ioa_addr option \<Rightarrow> ioa_addr option
     \<Rightarrow> u32 \<Rightarrow> u32 \<Rightarrow> int \<Rightarrow> mem option \<Rightarrow> u64 \<Rightarrow> mem option \<Rightarrow> (int \<times> stun_buffer) option" where
  "stun_set_allocate_response e tbl b tid relayed_addr1 relayed_addr2 reflexive_addr lifetime max_lifetime error_code
       reason reservation_token mobile_id =
     store3 b (stun_set_allocate_response_str e tbl (buf b) tid relayed_addr1 relayed_addr2 reflexive_addr lifetime
       max_lifetime error_code reason reservation_token mobile_id)"

definition stun_set_channel_bind_request ::
    "entropy \<Rightarrow> entropy \<Rightarrow> addr_map \<Rightarrow> stun_buffer \<Rightarrow> ioa_addr option \<Rightarrow> u16 \<Rightarrow> (u16 \<times> stun_buffer) option" where
  "stun_set_channel_bind_request e1 e2 tbl b peer_addr channel_number =
     store3 b (stun_set_channel_bind_request_str e1 e2 tbl (buf b) peer_addr channel_number)"

definition stun_set_channel_bind_response ::
    "entropy \<Rightarrow> stun_buffer \<Rightarrow> mem option \<Rightarrow> int \<Rightarrow> mem option \<Rightarrow> stun_buffer option" where
  "stun_set_channel_bind_response e b tid error_code reason =
     store2 b (stun_set_channel_bind_response_str e (buf b) tid error_code reason)"

subsection \<open>Attributes\<close>

definition stun_attr_get_first :: "stun_buffer \<Rightarrow> attr_ref option" where
  "stun_attr_get_first b = stun_attr_get_first_str (buf b) (len b)"

definition stun_attr_get_next :: "stun_buffer \<Rightarrow> attr_ref \<Rightarrow> attr_ref option" where
  "stun_attr_get_next b prev = stun_attr_get_next_str (buf b) (len b) prev"

definition stun_attr_add :: "stun_buffer \<Rightarrow> u16 \<Rightarrow> mem option \<Rightarrow> int \<Rightarrow> (int \<times> stun_buffer) option" where
  "stun_attr_add b attr avalue alen = store3 b (stun_attr_add_str (buf b) (len b) attr avalue alen)"

definition stun_attr_add_channel_number :: "stun_buffer \<Rightarrow> u16 \<Rightarrow> (int \<times> stun_buffer) option" where
  "stun_attr_add_channel_number b chnumber = store3 b (stun_attr_add_channel_number_str (buf b) (len b) chnumber)"

definition stun_attr_add_addr :: "addr_map \<Rightarrow> stun_buffer \<Rightarrow> u16 \<Rightarrow> ioa_addr \<Rightarrow> (int \<times> stun_buffer) option" where
  "stun_attr_add_addr tbl b attr_type ca = store3 b (stun_attr_add_addr_str tbl (buf b) (len b) attr_type ca)"

definition stun_attr_get_addr ::
    "addr_map \<Rightarrow> stun_buffer \<Rightarrow> attr_ref \<Rightarrow> ioa_addr \<Rightarrow> ioa_addr option \<Rightarrow> (int \<times> ioa_addr) option" where
  "stun_attr_get_addr tbl b attr ca default_addr = stun_attr_get_addr_str tbl (buf b) (len b) attr ca default_addr"

definition stun_attr_get_first_addr ::
    "addr_map \<Rightarrow> stun_buffer \<Rightarrow> u16 \<Rightarrow> ioa_addr \<Rightarrow> ioa_addr option \<Rightarrow> (int \<times> ioa_addr) option" where
  "stun_attr_get_first_addr tbl b attr_type ca default_addr =
     stun_attr_get_first_addr_str tbl (buf b) (len b) attr_type ca default_addr"

definition stun_attr_add_even_port :: "stun_buffer \<Rightarrow> u8 \<Rightarrow> (int \<times> stun_buffer) option" where
  "stun_attr_add_even_port b value0 =
     (let value = (if value0 \<noteq> 0 then 0x80 else value0) in stun_attr_add b STUN_ATTRIBUTE_EVEN_PORT (Some [value]) 1)"

definition stun_attr_get_first_channel_number :: "stun_buffer \<Rightarrow> u16 option" where
  "stun_attr_get_first_channel_number b = stun_attr_get_first_channel_number_str (buf b) (len b)"

definition stun_attr_get_first_by_type :: "stun_buffer \<Rightarrow> u16 \<Rightarrow> attr_ref option" where
  "stun_attr_get_first_by_type b attr_type = stun_attr_get_first_by_type_str (buf b) (len b) attr_type"

subsection \<open>BINDING\<close>

definition stun_set_binding_request :: "entropy \<Rightarrow> stun_buffer \<Rightarrow> stun_buffer option" where
  "stun_set_binding_request e b = store2 b (stun_set_binding_request_str e (buf b))"

definition stun_set_binding_response ::
    "entropy \<Rightarrow> addr_map \<Rightarrow> stun_buffer \<Rightarrow> mem option \<Rightarrow> ioa_addr option \<Rightarrow> int \<Rightarrow> mem option \<Rightarrow> (int \<times> stun_buffer) option" where
  "stun_set_binding_response e tbl b tid reflexive_addr error_code reason =
     store3 b (stun_set_binding_response_str e tbl (buf b) tid reflexive_addr error_code reason 0 False True)"

definition stun_prepare_binding_request :: "entropy \<Rightarrow> stun_buffer \<Rightarrow> stun_buffer option" where
  "stun_prepare_binding_request e b = store2 b (stun_set_binding_request_str e (buf b))"

definition stun_is_binding_response :: "stun_buffer \<Rightarrow> bool option" where
  "stun_is_binding_response b = stun_is_binding_response_str (buf b) (len b)"

subsection \<open>Command messages stay well formed\<close>

text \<open>
  A well-formed command message in an array of the full size: what every operation leaves behind.
\<close>

definition wf_cmd :: "mem \<Rightarrow> nat \<Rightarrow> bool" where
  "wf_cmd m l \<longleftrightarrow> length m = 65507 \<and> (\<exists>mt t as. stun_msg m l mt STUN_MAGIC_COOKIE t as \<and> drop_bit 14 mt = 0)"

definition wf_buffer :: "stun_buffer \<Rightarrow> bool" where
  "wf_buffer b \<longleftrightarrow> wf_cmd (buf b) (len b)"

named_theorems keeps \<open>operations whose every result is a well-formed message\<close>

definition res2 :: "(mem \<times> nat) option \<Rightarrow> bool" where
  "res2 x \<longleftrightarrow> (\<forall>m l. x = Some (m, l) \<longrightarrow> wf_cmd m l)"

definition res3 :: "('r \<times> mem \<times> nat) option \<Rightarrow> bool" where
  "res3 x \<longleftrightarrow> (\<forall>r m l. x = Some (r, m, l) \<longrightarrow> wf_cmd m l)"

lemma res_Some [simp]: "res2 (Some (m, l)) \<longleftrightarrow> wf_cmd m l" "res3 (Some (r, m, l)) \<longleftrightarrow> wf_cmd m l"
  by (auto simp: res2_def res3_def)

lemma res_None [simp]: "res2 None" "res3 None"
  by (simp_all add: res2_def res3_def)

lemma res_bind2 [keeps]:
  "res2 x \<Longrightarrow> (\<And>m l. wf_cmd m l \<Longrightarrow> res3 (f m l)) \<Longrightarrow> res3 (do { (m, l) \<leftarrow> x; f m l })"
  "res2 x \<Longrightarrow> (\<And>m l. wf_cmd m l \<Longrightarrow> res2 (g m l)) \<Longrightarrow> res2 (do { (m, l) \<leftarrow> x; g m l })"
  by (cases x, auto)+

lemma res_bind3 [keeps]:
  "res3 y \<Longrightarrow> (\<And>r m l. wf_cmd m l \<Longrightarrow> res3 (h r m l)) \<Longrightarrow> res3 (do { (r, m, l) \<leftarrow> y; h r m l })"
  "res3 y \<Longrightarrow> (\<And>r m l. wf_cmd m l \<Longrightarrow> res2 (k r m l)) \<Longrightarrow> res2 (do { (r, m, l) \<leftarrow> y; k r m l })"
  by (cases y, auto)+

lemma res_guard:
  "(\<And>z. res3 (f z)) \<Longrightarrow> res3 (Option.bind x f)" "(\<And>z. res2 (g z)) \<Longrightarrow> res2 (Option.bind x g)"
  by (cases x, simp_all)+

lemma res_on_ok [keeps]: "res3 x \<Longrightarrow> (\<And>m l. wf_cmd m l \<Longrightarrow> res3 (f m l)) \<Longrightarrow> res3 (on_ok x f)"
  by (cases x) (auto simp: on_ok_def res3_def split: if_splits)

lemma add_none: "stun_attr_add_str m l ty None n = stun_attr_add_str m l ty (Some []) 0"
  by (simp add: stun_attr_add_str_def cong: if_cong)

lemma add_negative: "n < 0 \<Longrightarrow> stun_attr_add_str m l ty (Some v) n = stun_attr_add_str m l ty (Some v) 0"
  by (simp add: stun_attr_add_str_def)

lemma add_short_value:
  assumes "length v < n"
  shows "stun_attr_add_str m l ty (Some v) (int n) \<in> {None, Some (-1, m, l)}"
proof -
  have "rdn v 0 n = None"
    using assms by (simp add: rdn_def)
  then show ?thesis
    using assms by (auto simp: stun_attr_add_str_def Let_def split: option.splits bind_splits)
qed

lemma add_keeps [keeps]:
  assumes "wf_cmd m l"
  shows "res3 (stun_attr_add_str m l ty v n)"
proof -
  obtain mt t as where a: "stun_msg m l mt STUN_MAGIC_COOKIE t as" "drop_bit 14 mt = 0" "length m = 65507"
    using assms by (auto simp: wf_cmd_def)
  have main: "res3 (stun_attr_add_str m l ty (Some v) (int n))" for v n
  proof (cases "length v < n")
    case True
    then show ?thesis
      using add_short_value [of v n m l ty] assms by auto
  next
    case False
    show ?thesis
    proof (cases "l + 4 + pad4 n < 65507")
      case True
      then show ?thesis
        using attr_added [OF a(1), of n v ty] False a(2,3) by (fastforce simp: wf_cmd_def)
    next
      case F: False
      then show ?thesis
        using attr_too_long [OF a(1), of n ty v] assms by auto
    qed
  qed
  show ?thesis
  proof (cases v)
    case None
    then show ?thesis
      using main [of "[]" 0] by (simp add: add_none)
  next
    case (Some w)
    then show ?thesis
      using main [of w "nat n"] main [of w 0] by (cases "n < 0") (simp_all add: add_negative)
  qed
qed

lemma tid_cpy_keeps:
  assumes "wf_cmd m l" and "\<And>t. tid = Some t \<Longrightarrow> length t = 12" and "stun_tid_message_cpy m tid = Some m'"
  shows "wf_cmd m' l"
proof (cases tid)
  case None
  then show ?thesis
    using assms(1,3) by (simp add: stun_tid_message_cpy_def)
next
  case (Some t)
  then show ?thesis
    using assms stun_msg_tid [of m l _ STUN_MAGIC_COOKIE _ _ t] by (fastforce simp: wf_cmd_def)
qed

lemma init_keeps [keeps]:
  assumes "length m = 65507"
  shows "res2 (stun_init_command_str e mt m)"
  using assms by (auto simp: init_command_header wf_cmd_def intro!: exI stun_msg_new)

lemma init_request_keeps [keeps]: "length m = 65507 \<Longrightarrow> res2 (stun_init_request_str e mt m)"
  by (simp add: stun_init_request_str_def init_keeps)

lemma tid_cpy_res [keeps]:
  assumes "wf_cmd m l" and "\<And>t. tid = Some t \<Longrightarrow> length t = 12"
  shows "res2 (do { m \<leftarrow> stun_tid_message_cpy m tid; Some (m, l) })"
  using tid_cpy_keeps [OF assms] by (cases "stun_tid_message_cpy m tid") auto

lemma success_keeps [keeps]:
  assumes "length m = 65507" and "\<And>t. tid = Some t \<Longrightarrow> length t = 12"
  shows "res2 (stun_init_success_response_str e mt m tid)"
  unfolding stun_init_success_response_str_def using assms by (intro keeps) auto

lemma error_common_keeps [keeps]:
  assumes "wf_cmd m l" and "\<And>t. tid = Some t \<Longrightarrow> length t = 12"
  shows "res2 (stun_init_error_response_common_str m l code reason tid)"
proof -
  have "res2 (do { (r, m, l) \<leftarrow> stun_attr_add_str m l ty v n; m \<leftarrow> stun_tid_message_cpy m tid; Some (m, l) })" for ty v n
    using assms by (intro keeps) auto
  then have "res2 (case z of (v, n) \<Rightarrow>
      do { (r, m, l) \<leftarrow> stun_attr_add_str m l ty (Some v) n; m \<leftarrow> stun_tid_message_cpy m tid; Some (m, l) })" for ty z
    by (cases z) auto
  then show ?thesis
    unfolding stun_init_error_response_common_str_def Let_def by (intro res_guard(2))
qed

lemma error_keeps [keeps]:
  assumes "length m = 65507" and "\<And>t. tid = Some t \<Longrightarrow> length t = 12"
  shows "res2 (stun_init_error_response_str e mt m code reason tid)"
  unfolding stun_init_error_response_str_def using assms by (intro keeps) auto

lemma add_addr_keeps [keeps]:
  assumes "wf_cmd m l"
  shows "res3 (stun_attr_add_addr_str tbl m l ty a)"
proof -
  have "res3 (do { (r, b, l) \<leftarrow> stun_attr_add_str m l ty v n; if r < 0 then Some (-1, b, l) else Some (0, b, l) })" for v n
    using assms by (intro keeps) (auto split: if_splits)
  then have "res3 (case z of (r, cfield, clen) \<Rightarrow> if r < (0 :: int) then Some (-1, m, l) else
      do { (r, b, l) \<leftarrow> stun_attr_add_str m l ty (Some cfield) clen; if r < 0 then Some (-1, b, l) else Some (0, b, l) })" for z
    using assms by (cases z) auto
  then show ?thesis
    unfolding stun_attr_add_addr_str_def Let_def by (intro res_guard(1))
qed

lemma wf_cmd_size: "wf_cmd m l \<Longrightarrow> length m = 65507"
  by (simp add: wf_cmd_def)

lemma res_if [keeps]: "(c \<Longrightarrow> res3 x) \<Longrightarrow> (\<not> c \<Longrightarrow> res3 y) \<Longrightarrow> res3 (if c then x else y)"
  "(c \<Longrightarrow> res2 u) \<Longrightarrow> (\<not> c \<Longrightarrow> res2 v) \<Longrightarrow> res2 (if c then u else v)"
  by simp_all

lemma res_option [keeps]:
  "(z = None \<Longrightarrow> res3 x) \<Longrightarrow> (\<And>a. z = Some a \<Longrightarrow> res3 (f a)) \<Longrightarrow> res3 (case z of None \<Rightarrow> x | Some a \<Rightarrow> f a)"
  by (cases z) simp_all

lemma allocate_request_keeps [keeps]:
  "length m = 65507 \<Longrightarrow> res3 (stun_set_allocate_request_str e m lifetime af4 af6 transport mobile rt ep)"
  unfolding stun_set_allocate_request_str_def by (intro keeps) auto

lemma channel_number_keeps [keeps]: "wf_cmd m l \<Longrightarrow> res3 (stun_attr_add_channel_number_str m l n)"
  unfolding stun_attr_add_channel_number_str_def by (rule add_keeps)

lemma channel_bind_request_keeps [keeps]:
  "length m = 65507 \<Longrightarrow> res3 (stun_set_channel_bind_request_str e1 e2 tbl m peer n)"
  unfolding stun_set_channel_bind_request_str_def Let_def by (intro keeps) auto

lemma channel_bind_response_keeps [keeps]:
  assumes "length m = 65507" and "\<And>t. tid = Some t \<Longrightarrow> length t = 12"
  shows "res2 (stun_set_channel_bind_response_str e m tid code reason)"
  unfolding stun_set_channel_bind_response_str_def using assms by (intro keeps) auto

lemma binding_response_keeps [keeps]:
  assumes "length m = 65507" and "\<And>t. tid = Some t \<Longrightarrow> length t = 12"
  shows "res3 (stun_set_binding_response_str e tbl m tid a code reason ck False nc)"
  unfolding stun_set_binding_response_str_def using assms by (auto intro!: keeps split: option.splits)

lemma allocate_response_keeps [keeps]:
  assumes "length m = 65507" and "\<And>t. tid = Some t \<Longrightarrow> length t = 12"
  shows "res3 (stun_set_allocate_response_str e tbl m tid a1 a2 a3 lifetime max_lifetime code reason token mobile)"
  unfolding stun_set_allocate_response_str_def Let_def
  using assms by (intro keeps) (auto intro!: keeps res_guard(1))

subsection \<open>Building as a state machine\<close>

text \<open>
  The operations that build a command message.  The first group starts a message in whatever the buffer holds,
  the second extends the message that is there; what an extension answers is not looked at.
\<close>

datatype start_op =
    Init_request entropy u16
  | Init_indication entropy u16
  | Init_success entropy u16 "mem option"
  | Init_error entropy u16 u16 "mem option" "mem option"
  | Allocate_request entropy u32 bool bool u8 bool "mem option" int
  | Allocate_response entropy "mem option" "ioa_addr option" "ioa_addr option" "ioa_addr option" u32 u32 int "mem option" u64 "mem option"
  | Channel_bind_request entropy entropy "ioa_addr option" u16
  | Channel_bind_response entropy "mem option" int "mem option"
  | Binding_request entropy
  | Binding_response entropy "mem option" "ioa_addr option" int "mem option"

datatype extend_op =
    Add u16 "mem option" int
  | Add_channel_number u16
  | Add_addr u16 ioa_addr
  | Add_even_port u8
  | New_tid entropy

fun start :: "addr_map \<Rightarrow> start_op \<Rightarrow> stun_buffer \<Rightarrow> stun_buffer option" where
  "start tbl (Init_request e m) b = stun_init_request e m b"
| "start tbl (Init_indication e m) b = stun_init_indication e m b"
| "start tbl (Init_success e m tid) b = stun_init_success_response e m b tid"
| "start tbl (Init_error e m code reason tid) b = stun_init_error_response e m b code reason tid"
| "start tbl (Allocate_request e lt af4 af6 tr mob rt ep) b =
     map_option snd (stun_set_allocate_request e b lt af4 af6 tr mob rt ep)"
| "start tbl (Allocate_response e tid a1 a2 a3 lt mlt code reason tok mob) b =
     map_option snd (stun_set_allocate_response e tbl b tid a1 a2 a3 lt mlt code reason tok mob)"
| "start tbl (Channel_bind_request e1 e2 peer n) b = map_option snd (stun_set_channel_bind_request e1 e2 tbl b peer n)"
| "start tbl (Channel_bind_response e tid code reason) b = stun_set_channel_bind_response e b tid code reason"
| "start tbl (Binding_request e) b = stun_set_binding_request e b"
| "start tbl (Binding_response e tid a code reason) b = map_option snd (stun_set_binding_response e tbl b tid a code reason)"

fun extend :: "addr_map \<Rightarrow> extend_op \<Rightarrow> stun_buffer \<Rightarrow> stun_buffer option" where
  "extend tbl (Add ty v n) b = map_option snd (stun_attr_add b ty v n)"
| "extend tbl (Add_channel_number n) b = map_option snd (stun_attr_add_channel_number b n)"
| "extend tbl (Add_addr ty a) b = map_option snd (stun_attr_add_addr tbl b ty a)"
| "extend tbl (Add_even_port v) b = map_option snd (stun_attr_add_even_port b v)"
| "extend tbl (New_tid e) b = Option.bind (stun_tid_generate_in_message e (Some b) None) fst"

text \<open>A transaction identifier is an array of twelve bytes.\<close>

fun tid_of :: "start_op \<Rightarrow> mem option" where
  "tid_of (Init_success e m tid) = tid"
| "tid_of (Init_error e m code reason tid) = tid"
| "tid_of (Allocate_response e tid a1 a2 a3 lt mlt code reason tok mob) = tid"
| "tid_of (Channel_bind_response e tid code reason) = tid"
| "tid_of (Binding_response e tid a code reason) = tid"
| "tid_of _ = None"

definition typed :: "start_op \<Rightarrow> bool" where
  "typed s \<longleftrightarrow> (case tid_of s of None \<Rightarrow> True | Some t \<Rightarrow> length t = 12)"

inductive building :: "addr_map \<Rightarrow> stun_buffer \<Rightarrow> bool" for tbl where
  started: "length (buf b) = 65507 \<Longrightarrow> typed s \<Longrightarrow> start tbl s b = Some b' \<Longrightarrow> building tbl b'"
| restarted: "building tbl b \<Longrightarrow> typed s \<Longrightarrow> start tbl s b = Some b' \<Longrightarrow> building tbl b'"
| extended: "building tbl b \<Longrightarrow> extend tbl x b = Some b' \<Longrightarrow> building tbl b'"

lemma store_keeps:
  "res2 x \<Longrightarrow> store2 b x = Some b' \<Longrightarrow> wf_buffer b'"
  "res3 y \<Longrightarrow> store3 b y = Some (r, b') \<Longrightarrow> wf_buffer b'"
  by (cases x; auto simp: store2_def wf_buffer_def) (cases y; auto simp: store3_def wf_buffer_def)

lemmas buffer_defs = stun_init_request_def stun_init_indication_def stun_init_command_def stun_init_success_response_def
  stun_init_error_response_def stun_set_allocate_request_def stun_set_allocate_response_def
  stun_set_channel_bind_request_def stun_set_channel_bind_response_def stun_set_binding_request_def
  stun_set_binding_response_def stun_attr_add_def stun_attr_add_channel_number_def stun_attr_add_addr_def
  stun_attr_add_even_port_def Let_def

lemma start_wf:
  assumes "length (buf b) = 65507" and "typed s" and "start tbl s b = Some b'"
  shows "wf_buffer b'"
proof -
  note r2 = store_keeps(1) and r3 = store_keeps(2)
  show ?thesis
    using assms
    by (cases s)
       (auto simp: buffer_defs typed_def stun_set_binding_request_str_def
         elim!: r2 [rotated] r3 [rotated] intro!: keeps)
qed

lemma extend_wf:
  assumes "wf_buffer b" and "extend tbl x b = Some b'"
  shows "wf_buffer b'"
proof (cases x)
  case (New_tid e)
  let ?t = "turn_random_tid_size e"
  obtain m where "stun_tid_message_cpy (buf b) (Some ?t) = Some m" "b' = b\<lparr>buf := m\<rparr>"
    using assms(2) New_tid
    by (auto simp: stun_tid_generate_in_message_def stun_tid_generate_in_message_str_def stun_tid_generate_def bind_eq_Some_conv)
  then show ?thesis
    using tid_cpy_keeps [of "buf b" "len b" "Some ?t" m] assms(1) by (simp add: wf_buffer_def)
qed (use assms in \<open>auto simp: buffer_defs wf_buffer_def elim!: store_keeps(2) [unfolded wf_buffer_def, rotated] intro!: keeps\<close>)

lemma building_wf: "building tbl b \<Longrightarrow> wf_buffer b"
proof (induction rule: building.induct)
  case (started b s b')
  then show ?case
    by (rule start_wf)
next
  case (restarted b s b')
  have "length (buf b) = 65507"
    using restarted.IH by (simp add: wf_buffer_def wf_cmd_def)
  then show ?case
    by (rule start_wf [OF _ restarted.hyps(2,3)])
next
  case (extended b x b')
  show ?case
    by (rule extend_wf [OF extended.IH extended.hyps(2)])
qed

text \<open>C16: However a message is built, by any sequence of initialisations, complete builders, attributes added and
  attributes refused, the buffer holds at every moment a command message that the recogniser accepts, whose header
  counts exactly the bytes in use, below the capacity of the array, and looking up any attribute type in it is safe.\<close>

theorem building_invariant:
  assumes "building tbl b"
  shows "stun_is_command_message (Some b) = Some True \<and> stun_get_command_message_len b = Some (int (len b))
    \<and> 20 \<le> len b \<and> len b < length (buf b) \<and> length (buf b) = 65507
    \<and> (\<forall>ty. \<exists>r. stun_attr_get_first_by_type b ty = Some r)"
proof -
  obtain mt t as where m: "stun_msg (buf b) (len b) mt STUN_MAGIC_COOKIE t as" "drop_bit 14 mt = 0" "length (buf b) = 65507"
    using building_wf [OF assms] by (auto simp: wf_buffer_def wf_cmd_def)
  note l = stun_msg_len [OF m(1)]
  have "stun_is_command_message (Some b) = Some True"
    using stun_msg_view(5) [OF m(1,2)] l(3) by (simp add: stun_is_command_message_def)
  moreover have "\<exists>r. stun_attr_get_first_by_type b ty = Some r" for ty
    using first_by_type_find [OF l(2), of ty] by (simp add: stun_attr_get_first_by_type_def)
  ultimately show ?thesis
    using l m(3) by (simp add: stun_get_command_message_len_def)
qed

definition blank_buffer :: stun_buffer where
  "blank_buffer = \<lparr>channel = [0, 0, 0, 0], buf = replicate 65507 0, len = 0, offset = 0, coffset = 0\<rparr>"

text \<open>A request with a user name and an attribute too long to fit.\<close>

definition sample_request :: "stun_buffer option" where
  "sample_request = do {
     b \<leftarrow> stun_init_request sample_entropy STUN_METHOD_ALLOCATE blank_buffer;
     (_, b) \<leftarrow> stun_attr_add b STUN_ATTRIBUTE_USERNAME (Some [65, 66]) 2;
     (_, b) \<leftarrow> stun_attr_add b STUN_ATTRIBUTE_DATA (Some (replicate 65500 0)) 65500;
     Some b }"

lemma sample_request_building: "\<exists>b. sample_request = Some b \<and> building empty_map b"
proof -
  obtain b0 where b0: "stun_init_request sample_entropy STUN_METHOD_ALLOCATE blank_buffer = Some b0"
    by (simp add: stun_init_request_def stun_init_command_def store2_def blank_buffer_def init_command_header)
  have "start empty_map (Init_request sample_entropy STUN_METHOD_ALLOCATE) blank_buffer = Some b0"
    using b0 by simp
  then have r0: "building empty_map b0"
    by (rule building.started [rotated 2]) (simp_all add: blank_buffer_def typed_def)
  have step: "\<exists>r b'. stun_attr_add b ty (Some v) (int (length v)) = Some (r, b') \<and> building empty_map b'"
    if bl: "building empty_map b" and small: "length v < 2000000000" for b ty v
  proof -
    obtain mt t as where m: "stun_msg (buf b) (len b) mt STUN_MAGIC_COOKIE t as" "length (buf b) = 65507"
      using building_wf [OF bl] by (auto simp: wf_buffer_def wf_cmd_def)
    have "\<exists>y. stun_attr_add_str (buf b) (len b) ty (Some v) (int (length v)) = Some y"
      using attr_added [OF m(1) order_refl, of v ty] attr_refused [OF m(1) small, of ty v] m(2)
      by (cases "len b + 4 + pad4 (length v) < 65507") auto
    then obtain r b' where "stun_attr_add b ty (Some v) (int (length v)) = Some (r, b')"
      by (auto simp: stun_attr_add_def store3_def)
    then show ?thesis
      using building.extended [OF bl, of "Add ty (Some v) (int (length v))"] by auto
  qed
  obtain r1 b1 where 1: "stun_attr_add b0 STUN_ATTRIBUTE_USERNAME (Some [65, 66]) 2 = Some (r1, b1)" "building empty_map b1"
    using step [OF r0, of "[65, 66]" STUN_ATTRIBUTE_USERNAME] by auto
  obtain r2 b2 where "stun_attr_add b1 STUN_ATTRIBUTE_DATA (Some (replicate 65500 0)) 65500 = Some (r2, b2)" "building empty_map b2"
    using step [OF 1(2), of "replicate 65500 0" STUN_ATTRIBUTE_DATA] by auto
  then show ?thesis
    using b0 1 by (simp add: sample_request_def)
qed

theorem building_invariant_witness:
  "\<exists>b. sample_request = Some b \<and> stun_is_command_message (Some b) = Some True \<and> len b < 65507"
  using sample_request_building building_invariant by fastforce

subsection \<open>The buffer as a store of attributes\<close>

definition buffer_attrs :: "stun_buffer \<Rightarrow> (u16 \<times> mem) list" where
  "buffer_attrs b = attrs_of (buf b) (len b)"

definition buffer_add :: "u16 \<Rightarrow> mem \<Rightarrow> stun_buffer \<Rightarrow> stun_buffer option" where
  "buffer_add ty v b = (case stun_attr_add b ty (Some v) (int (length v)) of
     Some (r, b') \<Rightarrow> if r = 0 then Some b' else None | None \<Rightarrow> None)"

definition buffer_first :: "u16 \<Rightarrow> stun_buffer \<Rightarrow> mem option" where
  "buffer_first ty b = do {
     attr \<leftarrow> stun_attr_get_first_by_type b ty;
     case attr of Some p \<Rightarrow> read_attr (buf b) (Some p) | None \<Rightarrow> None }"

definition buffer_fits :: "stun_buffer \<Rightarrow> nat \<Rightarrow> bool" where
  "buffer_fits b n \<longleftrightarrow> len b + 4 + pad4 n < 65507"

lemma buffer_as_msg:
  "buffer_attrs b = msg_attrs (buf b, len b)" "buffer_first ty b = msg_first ty (buf b, len b)"
  "buffer_fits b n \<longleftrightarrow> msg_fits (buf b, len b) n"
  "buffer_add ty v b = map_option (\<lambda>(m, l). b\<lparr>buf := m, len := l\<rparr>) (msg_add ty v (buf b, len b))"
  by (simp_all add: buffer_attrs_def msg_attrs_def buffer_first_def msg_first_def stun_attr_get_first_by_type_def buffer_fits_def
      msg_fits_def buffer_add_def msg_add_def stun_attr_add_def store3_def cong: option.case_cong split: option.splits)

interpretation sbuf: attr_store wf_buffer buffer_attrs buffer_add buffer_first buffer_fits
proof
  fix b :: stun_buffer and ty v
  assume "wf_buffer b"
  then obtain mt t as where m: "stun_msg (buf b) (len b) mt STUN_MAGIC_COOKIE t as" "drop_bit 14 mt = 0" "length (buf b) = 65507"
    by (auto simp: wf_buffer_def wf_cmd_def)
  then have inv: "msg_inv mt STUN_MAGIC_COOKIE t (buf b, len b)"
    by (auto simp: msg_inv_def)
  show "\<exists>b'. buffer_add ty v b = Some b' \<and> wf_buffer b' \<and> buffer_attrs b' = buffer_attrs b @ [(ty, v)]"
    if fit: "buffer_fits b (length v)"
  proof -
    obtain m' l' where a: "msg_add ty v (buf b, len b) = Some (m', l')" "msg_attrs (m', l') = msg_attrs (buf b, len b) @ [(ty, v)]"
      using msg.add_fits [OF inv] fit by (fastforce simp: buffer_as_msg)
    then have "stun_attr_add b ty (Some v) (int (length v)) = Some (0, b\<lparr>buf := m', len := l'\<rparr>)"
      by (auto simp: msg_add_def stun_attr_add_def store3_def split: option.splits if_splits)
    then have "wf_buffer (b\<lparr>buf := m', len := l'\<rparr>)"
      using extend_wf [of b _ "Add ty (Some v) (int (length v))"] \<open>wf_buffer b\<close> by auto
    then show ?thesis
      using a by (simp add: buffer_as_msg)
  qed
  show "buffer_add ty v b = None" if "\<not> buffer_fits b (length v)"
    using msg.add_full [OF inv] that by (simp add: buffer_as_msg)
  show "buffer_first ty b = map_option snd (find (\<lambda>(t, v). t = ty) (buffer_attrs b))"
    using msg.first_attrs [OF inv] by (simp add: buffer_as_msg)
qed

text \<open>C17: The buffer refines a list of attributes: adding a list of attributes to any message under construction, as
  long as all fit, appends exactly this list to the attributes that are there, and each lookup then answers for the
  first attribute of its type.\<close>

theorem buffer_refines_list:
  assumes "building tbl b" and "add_all buffer_add as b = Some b'"
  shows "buffer_attrs b' = buffer_attrs b @ as
    \<and> (\<forall>ty. buffer_first ty b' = map_option snd (find (\<lambda>(t, v). t = ty) (buffer_attrs b @ as)))
    \<and> stun_is_command_message (Some b') = Some True"
proof -
  have a: "wf_buffer b'" "buffer_attrs b' = buffer_attrs b @ as"
    using sbuf.all_added [OF building_wf [OF assms(1)] assms(2)] by simp_all
  obtain mt t as' where m: "stun_msg (buf b') (len b') mt STUN_MAGIC_COOKIE t as'" "drop_bit 14 mt = 0"
    using a(1) by (auto simp: wf_buffer_def wf_cmd_def)
  have "stun_is_command_message (Some b') = Some True"
    using stun_msg_view(5) [OF m] stun_msg_len(3) [OF m(1)] by (simp add: stun_is_command_message_def)
  then show ?thesis
    using sbuf.first_attrs [OF a(1)] a(2) by simp
qed

theorem buffer_refines_list_witness:
  "\<exists>b b'. stun_init_request sample_entropy STUN_METHOD_ALLOCATE blank_buffer = Some b
    \<and> add_all buffer_add [(STUN_ATTRIBUTE_LIFETIME, [0, 0, 2, 88])] b = Some b'
    \<and> buffer_attrs b' = buffer_attrs b @ [(STUN_ATTRIBUTE_LIFETIME, [0, 0, 2, 88])]"
proof -
  obtain b where b: "stun_init_request sample_entropy STUN_METHOD_ALLOCATE blank_buffer = Some b" "len b = 20"
    by (simp add: stun_init_request_def stun_init_command_def store2_def blank_buffer_def init_command_header)
  have "start empty_map (Init_request sample_entropy STUN_METHOD_ALLOCATE) blank_buffer = Some b"
    using b by simp
  then have r: "building empty_map b"
    by (rule building.started [rotated 2]) (simp_all add: blank_buffer_def typed_def)
  have "buffer_fits b (length [0, 0, 2, 88 :: u8])"
    using b(2) by (simp add: buffer_fits_def pad4_def)
  then obtain b' where "buffer_add STUN_ATTRIBUTE_LIFETIME [0, 0, 2, 88] b = Some b'"
    using sbuf.add_fits [OF building_wf [OF r], of "[0, 0, 2, 88]" STUN_ATTRIBUTE_LIFETIME] by auto
  then have "add_all buffer_add [(STUN_ATTRIBUTE_LIFETIME, [0, 0, 2, 88])] b = Some b'"
    by simp
  then show ?thesis
    using b(1) buffer_refines_list [OF r] by blast
qed

end
