(* ===== verification/Integrity.thy ===== *)
theory Integrity
  imports Attr_Typed C_Strings
begin

text \<open>
  Message integrity: the HMAC and key derivation wrappers, the functions that add MESSAGE-INTEGRITY and
  the check of \<open>client/ns_turn_msg.c\<close>.

  OpenSSL is outside the repository: its \<open>HMAC\<close> and its one-shot digests are the arguments \<open>hmac\<close> and
  \<open>digest\<close>.  What the code relies on is that they produce the length their hash announces; the
  predicates \<open>hmac_ok\<close> and \<open>digest_ok\<close> say so.  A NULL result of \<open>HMAC\<close> is \<open>None\<close>.  The contents of an
  uninitialised local or freshly allocated array is the argument \<open>junk\<close>.
\<close>

subsection \<open>Types\<close>

datatype SHATYPE = SHATYPE_ERROR | SHATYPE_SHA1 | SHATYPE_SHA256 | SHATYPE_SHA384 | SHATYPE_SHA512

datatype turn_credential_type = TURN_CREDENTIALS_NONE | TURN_CREDENTIALS_LONG_TERM
  | TURN_CREDENTIALS_SHORT_TERM | TURN_CREDENTIALS_UNDEFINED

datatype evp_md = EVP_md5 | EVP_sha1 | EVP_sha256 | EVP_sha384 | EVP_sha512

fun md_size :: "evp_md \<Rightarrow> nat" where
  "md_size EVP_md5 = 16"
| "md_size EVP_sha1 = 20"
| "md_size EVP_sha256 = 32"
| "md_size EVP_sha384 = 48"
| "md_size EVP_sha512 = 64"

type_synonym hmac_fn = "evp_md \<Rightarrow> mem \<Rightarrow> mem \<Rightarrow> mem option"
type_synonym digest_fn = "evp_md \<Rightarrow> mem \<Rightarrow> mem"

definition hmac_ok :: "hmac_fn \<Rightarrow> bool" where
  "hmac_ok hmac \<longleftrightarrow> (\<forall>md k d m. hmac md k d = Some m \<longrightarrow> length m = md_size md)"

definition digest_ok :: "digest_fn \<Rightarrow> bool" where
  "digest_ok digest \<longleftrightarrow> (\<forall>md d. length (digest md d) = md_size md)"

subsection \<open>HMAC and keys\<close>

definition hmac_md :: "SHATYPE \<Rightarrow> evp_md" where
  "hmac_md shatype = (if shatype = SHATYPE_SHA256 then EVP_sha256
     else if shatype = SHATYPE_SHA384 then EVP_sha384
     else if shatype = SHATYPE_SHA512 then EVP_sha512 else EVP_sha1)"

text \<open>The inner option is the result: \<open>None\<close> for -1, \<open>Some m\<close> for 0 with the HMAC \<open>m\<close>.\<close>

definition stun_calculate_hmac ::
    "hmac_fn \<Rightarrow> mem \<Rightarrow> nat \<Rightarrow> mem \<Rightarrow> nat \<Rightarrow> SHATYPE \<Rightarrow> mem option option" where
  "stun_calculate_hmac hmac buf len key keylen shatype = do {
     k \<leftarrow> rdn key 0 keylen;
     d \<leftarrow> rdn buf 0 len;
     Some (hmac (hmac_md shatype) k d) }"

text \<open>
  The string \<open>user:realm:password\<close> is built in a block of \<open>sz + 1\<close> bytes by three \<open>strncpy\<close> that
  each fill the block up to \<open>sz\<close>.
\<close>

definition integrity_string :: "mem \<Rightarrow> mem \<Rightarrow> mem \<Rightarrow> (nat \<Rightarrow> mem) \<Rightarrow> (mem \<times> nat) option" where
  "integrity_string uname realm upwd malloc = do {
     ulen \<leftarrow> c_strlen uname;
     rlen \<leftarrow> c_strlen realm;
     plen \<leftarrow> c_strlen upwd;
     let sz = ulen + 1 + rlen + 1 + plen + 1 + 10;
     let strl = ulen + 1 + rlen + 1 + plen;
     let str = malloc (sz + 1);
     c \<leftarrow> c_strncpy sz uname;
     str \<leftarrow> wrn str 0 c;
     str \<leftarrow> wr8 str ulen 58;
     c \<leftarrow> c_strncpy (sz - ulen - 1) realm;
     str \<leftarrow> wrn str (ulen + 1) c;
     str \<leftarrow> wr8 str (ulen + 1 + rlen) 58;
     c \<leftarrow> c_strncpy (sz - ulen - 1 - rlen - 1) upwd;
     str \<leftarrow> wrn str (ulen + 1 + rlen + 1) c;
     str \<leftarrow> wr8 str strl 0;
     Some (str, strl) }"

definition key_md :: "SHATYPE \<Rightarrow> evp_md" where
  "key_md shatype = (if shatype = SHATYPE_SHA256 then EVP_sha256
     else if shatype = SHATYPE_SHA384 then EVP_sha384
     else if shatype = SHATYPE_SHA512 then EVP_sha512 else EVP_md5)"

definition stun_produce_integrity_key_str ::
    "digest_fn \<Rightarrow> (nat \<Rightarrow> mem) \<Rightarrow> mem \<Rightarrow> mem \<Rightarrow> mem \<Rightarrow> mem \<Rightarrow> SHATYPE \<Rightarrow> (int \<times> mem) option" where
  "stun_produce_integrity_key_str digest malloc uname realm upwd key shatype = do {
     (str, strl) \<leftarrow> integrity_string uname realm upwd malloc;
     s \<leftarrow> rdn str 0 strl;
     k \<leftarrow> wrn key 0 (digest (key_md shatype) s);
     Some (0, k) }"

definition get_hmackey_size :: "SHATYPE \<Rightarrow> nat" where
  "get_hmackey_size shatype = (if shatype = SHATYPE_SHA256 then 32
     else if shatype = SHATYPE_SHA384 then 48
     else if shatype = SHATYPE_SHA512 then 64 else 16)"

subsection \<open>Adding MESSAGE-INTEGRITY\<close>

definition sha_size :: "SHATYPE \<Rightarrow> nat" where
  "sha_size shatype = (case shatype of SHATYPE_SHA256 \<Rightarrow> 32 | SHATYPE_SHA384 \<Rightarrow> 48
     | SHATYPE_SHA512 \<Rightarrow> 64 | _ \<Rightarrow> 20)"

definition integrity_hmac ::
    "hmac_fn \<Rightarrow> turn_credential_type \<Rightarrow> mem \<Rightarrow> nat \<Rightarrow> mem \<Rightarrow> mem \<Rightarrow> SHATYPE \<Rightarrow> mem option option" where
  "integrity_hmac hmac ct buf len key pwd shatype =
     (if ct = TURN_CREDENTIALS_SHORT_TERM then do {
        n \<leftarrow> c_strlen pwd;
        stun_calculate_hmac hmac buf len pwd n shatype }
      else stun_calculate_hmac hmac buf len key (get_hmackey_size shatype) shatype)"

definition stun_attr_add_integrity_str ::
    "hmac_fn \<Rightarrow> mem \<Rightarrow> turn_credential_type \<Rightarrow> mem \<Rightarrow> nat \<Rightarrow> mem \<Rightarrow> mem \<Rightarrow> SHATYPE \<Rightarrow> (int \<times> mem \<times> nat) option" where
  "stun_attr_add_integrity_str hmac junk ct buf len key pwd shatype = do {
     let shasize = sha_size shatype;
     (r, b, l) \<leftarrow> stun_attr_add_str buf len STUN_ATTRIBUTE_MESSAGE_INTEGRITY (Some junk) (int shasize);
     if r < 0 then Some (-1, b, l)
     else do {
       res \<leftarrow> integrity_hmac hmac ct b (l - 4 - shasize) key pwd shatype;
       case res of None \<Rightarrow> Some (-1, b, l)
       | Some m \<Rightarrow> do { b \<leftarrow> wrn b (l - shasize) m; Some (0, b, l) } } }"

definition stun_attr_add_integrity_by_key_str ::
    "hmac_fn \<Rightarrow> mem \<Rightarrow> mem \<Rightarrow> nat \<Rightarrow> mem \<Rightarrow> mem \<Rightarrow> mem \<Rightarrow> mem \<Rightarrow> SHATYPE \<Rightarrow> (int \<times> mem \<times> nat) option" where
  "stun_attr_add_integrity_by_key_str hmac junk buf len uname realm key nonce shatype = do {
     n \<leftarrow> c_strlen uname;
     (r, b, l) \<leftarrow> stun_attr_add_str buf len STUN_ATTRIBUTE_USERNAME (Some uname) (int n);
     if r < 0 then Some (-1, b, l)
     else do {
       n \<leftarrow> c_strlen nonce;
       (r, b, l) \<leftarrow> stun_attr_add_str b l STUN_ATTRIBUTE_NONCE (Some nonce) (int n);
       if r < 0 then Some (-1, b, l)
       else do {
         n \<leftarrow> c_strlen realm;
         (r, b, l) \<leftarrow> stun_attr_add_str b l STUN_ATTRIBUTE_REALM (Some realm) (int n);
         if r < 0 then Some (-1, b, l)
         else stun_attr_add_integrity_str hmac junk TURN_CREDENTIALS_LONG_TERM b l key junk shatype } } }"

definition stun_attr_add_integrity_by_user_str ::
    "hmac_fn \<Rightarrow> digest_fn \<Rightarrow> (nat \<Rightarrow> mem) \<Rightarrow> mem \<Rightarrow> mem \<Rightarrow> nat \<Rightarrow> mem \<Rightarrow> mem \<Rightarrow> mem \<Rightarrow> mem \<Rightarrow> SHATYPE
     \<Rightarrow> (int \<times> mem \<times> nat) option" where
  "stun_attr_add_integrity_by_user_str hmac digest malloc junk buf len uname realm upwd nonce shatype = do {
     (r, key) \<leftarrow> stun_produce_integrity_key_str digest malloc uname realm upwd (take 64 junk) shatype;
     if r < 0 then Some (-1, buf, len)
     else stun_attr_add_integrity_by_key_str hmac junk buf len uname realm key nonce shatype }"

definition stun_attr_add_integrity_by_user_short_term_str ::
    "hmac_fn \<Rightarrow> mem \<Rightarrow> mem \<Rightarrow> nat \<Rightarrow> mem \<Rightarrow> mem \<Rightarrow> SHATYPE \<Rightarrow> (int \<times> mem \<times> nat) option" where
  "stun_attr_add_integrity_by_user_short_term_str hmac junk buf len uname pwd shatype = do {
     n \<leftarrow> c_strlen uname;
     (r, b, l) \<leftarrow> stun_attr_add_str buf len STUN_ATTRIBUTE_USERNAME (Some uname) (int n);
     if r < 0 then Some (-1, b, l)
     else stun_attr_add_integrity_str hmac junk TURN_CREDENTIALS_SHORT_TERM b l junk pwd shatype }"

subsection \<open>Checking MESSAGE-INTEGRITY\<close>

text \<open>The switch on the attribute length: the hash size, or \<open>None\<close> for the early -1.\<close>

definition check_shasize :: "int \<Rightarrow> SHATYPE \<Rightarrow> nat option" where
  "check_shasize sarlen shatype =
     (if sarlen = 32 then (if shatype \<noteq> SHATYPE_SHA256 then None else Some 32)
      else if sarlen = 48 then (if shatype \<noteq> SHATYPE_SHA384 then None else Some 48)
      else if sarlen = 64 then (if shatype \<noteq> SHATYPE_SHA512 then None else Some 64)
      else if sarlen = 20 then (if shatype \<noteq> SHATYPE_SHA1 then None else Some 20)
      else None)"

text \<open>
  The length field is patched to end the message behind the attribute, the HMAC is computed and the
  field is restored.  The comparison of the received and the computed HMAC is commented out in the
  source, so the local \<open>new_hmac\<close> is computed and not used.
\<close>

definition stun_check_message_integrity_by_key_str ::
    "hmac_fn \<Rightarrow> turn_credential_type \<Rightarrow> mem \<Rightarrow> nat \<Rightarrow> mem \<Rightarrow> mem \<Rightarrow> SHATYPE \<Rightarrow> (int \<times> mem) option" where
  "stun_check_message_integrity_by_key_str hmac ct buf len key pwd shatype = do {
     sar \<leftarrow> stun_attr_get_first_by_type_str buf len STUN_ATTRIBUTE_MESSAGE_INTEGRITY;
     case sar of None \<Rightarrow> Some (-1, buf)
     | Some p \<Rightarrow> do {
         sarlen \<leftarrow> stun_attr_get_len buf (Some p);
         case check_shasize sarlen shatype of None \<Rightarrow> Some (-1, buf)
         | Some shasize \<Rightarrow> do {
             orig_len \<leftarrow> stun_get_command_message_len_str buf len;
             if orig_len < 0 then Some (-1, buf)
             else do {
               let new_len = int p + 4 + int shasize;
               if new_len > orig_len then Some (-1, buf)
               else do {
                 (r, b) \<leftarrow> stun_set_command_message_len_str buf new_len;
                 if r < 0 then Some (-1, b)
                 else do {
                   new_hmac \<leftarrow> integrity_hmac hmac ct b (nat new_len - 4 - shasize) key pwd shatype;
                   (_, b) \<leftarrow> stun_set_command_message_len_str b orig_len;
                   if new_hmac = None then Some (-1, b)
                   else do {
                     old_hmac \<leftarrow> stun_attr_get_value b (Some p);
                     if old_hmac = None then Some (-1, b) else Some (1, b) } } } } } } }"

definition stun_check_message_integrity_str ::
    "hmac_fn \<Rightarrow> digest_fn \<Rightarrow> (nat \<Rightarrow> mem) \<Rightarrow> mem \<Rightarrow> turn_credential_type \<Rightarrow> mem \<Rightarrow> nat \<Rightarrow> mem \<Rightarrow> mem \<Rightarrow> mem \<Rightarrow> SHATYPE
     \<Rightarrow> (int \<times> mem) option" where
  "stun_check_message_integrity_str hmac digest malloc junk ct buf len uname realm upwd shatype =
     (if ct = TURN_CREDENTIALS_SHORT_TERM then do {
        pwd \<leftarrow> c_strncpy 257 upwd;
        stun_check_message_integrity_by_key_str hmac ct buf len junk pwd shatype }
      else do {
        (r, key) \<leftarrow> stun_produce_integrity_key_str digest malloc uname realm upwd (take 64 junk) shatype;
        if r < 0 then Some (-1, buf)
        else stun_check_message_integrity_by_key_str hmac ct buf len key junk shatype })"

subsection \<open>Keys\<close>

definition malloc_ok :: "(nat \<Rightarrow> mem) \<Rightarrow> bool" where
  "malloc_ok malloc \<longleftrightarrow> (\<forall>n. length (malloc n) = n)"

lemma wrn_prefix:
  assumes "length a = i" and "length c = length c'"
  shows "wrn (a @ c' @ rest) i c = Some (a @ c @ rest)"
  using assms by (simp add: wrn_def)

lemma integrity_string_eq:
  assumes "malloc_ok malloc" and "0 \<notin> set u" and "0 \<notin> set r" and "0 \<notin> set p"
  shows "\<exists>rest. integrity_string (u @ 0 # x) (r @ 0 # y) (p @ 0 # z) malloc =
    Some ((u @ 58 # r @ 58 # p) @ rest, length (u @ 58 # r @ 58 # p))"
proof -
  let ?sz = "length u + 1 + length r + 1 + length p + 1 + 10"
  have sl: "c_strlen (u @ 0 # x) = Some (length u)" "c_strlen (r @ 0 # y) = Some (length r)"
    "c_strlen (p @ 0 # z) = Some (length p)"
    using assms(2-4) by (simp_all add: c_strlen_append)
  obtain blk tl where m: "malloc (?sz + 1) = blk @ [tl]" "length blk = ?sz"
  proof (rule that)
    have "length (malloc (?sz + 1)) = ?sz + 1"
      using assms(1) by (simp only: malloc_ok_def)
    moreover from this have "malloc (?sz + 1) \<noteq> []"
      by (metis add_is_0 list.size(3) one_neq_zero)
    ultimately show "malloc (?sz + 1) = butlast (malloc (?sz + 1)) @ [last (malloc (?sz + 1))]"
      and "length (butlast (malloc (?sz + 1))) = ?sz"
      by simp_all
  qed
  have c1: "c_strncpy ?sz (u @ 0 # x) = Some (u @ replicate (?sz - length u) 0)"
    by (rule c_strncpy_short) (use assms(2) in simp_all)
  have e1: "?sz - length u = Suc (length r + length p + 12)"
    by simp
  have e2: "replicate (length p + 12) (0 :: 8 word) = 0 # replicate (length p + 11) 0"
    by (simp only: replicate_Suc [symmetric]) simp
  have w1: "wrn (blk @ [tl]) 0 (u @ replicate (?sz - length u) 0) =
      Some (u @ 0 # replicate (length r + length p + 12) 0 @ [tl])"
    using m(2) by (simp only: e1 replicate_Suc wrn_def) simp
  have w2: "wr8 (u @ 0 # replicate (length r + length p + 12) 0 @ [tl]) (length u) 58 =
      Some (u @ 58 # replicate (length r + length p + 12) 0 @ [tl])"
    by (rule wr8_at) simp
  have c2: "c_strncpy (?sz - length u - 1) (r @ 0 # y) = Some (r @ replicate (length p + 12) 0)"
    using c_strncpy_short [OF assms(3), of "?sz - length u - 1" y] by (simp add: add.commute)
  have w3: "wrn (u @ 58 # replicate (length r + length p + 12) 0 @ [tl]) (length u + 1) (r @ replicate (length p + 12) 0) =
      Some ((u @ [58]) @ (r @ replicate (length p + 12) 0) @ [tl])"
    using wrn_prefix [of "u @ [58]" "length u + 1" "r @ replicate (length p + 12) 0"
        "replicate (length r + length p + 12) 0" "[tl]"] by simp
  have w4: "wr8 ((u @ [58]) @ (r @ replicate (length p + 12) 0) @ [tl]) (length u + 1 + length r) 58 =
      Some ((u @ 58 # r) @ 58 # replicate (length p + 11) 0 @ [tl])"
    using wr8_at [of "u @ 58 # r" "length u + 1 + length r" 0 "replicate (length p + 11) 0 @ [tl]" 58]
    by (simp add: e2)
  have c3: "c_strncpy (?sz - length u - 1 - length r - 1) (p @ 0 # z) = Some (p @ replicate 11 0)"
    using c_strncpy_short [OF assms(4), of "?sz - length u - 1 - length r - 1" z] by simp
  have w5: "wrn ((u @ 58 # r) @ 58 # replicate (length p + 11) 0 @ [tl]) (length u + 1 + length r + 1) (p @ replicate 11 0) =
      Some ((u @ 58 # r @ [58]) @ (p @ replicate 11 0) @ [tl])"
    using wrn_prefix [of "u @ 58 # r @ [58]" "length u + 1 + length r + 1" "p @ replicate 11 0"
        "replicate (length p + 11) 0" "[tl]"] by simp
  have w6: "wr8 ((u @ 58 # r @ [58]) @ (p @ replicate 11 0) @ [tl]) (length u + 1 + length r + 1 + length p) 0 =
      Some ((u @ 58 # r @ 58 # p) @ 0 # replicate 10 0 @ [tl])"
    using wr8_at [of "u @ 58 # r @ 58 # p" "length u + 1 + length r + 1 + length p" 0 "replicate 10 0 @ [tl]" 0]
    by (simp add: numeral_eq_Suc)
  have "integrity_string (u @ 0 # x) (r @ 0 # y) (p @ 0 # z) malloc =
      Some ((u @ 58 # r @ 58 # p) @ 0 # replicate 10 0 @ [tl], length u + 1 + length r + 1 + length p)"
    unfolding integrity_string_def Let_def
    by (simp only: sl bind.bind_lunit m(1) c1 w1 w2 c2 w3 w4 c3 w5 w6)
  then show ?thesis
    by auto
qed

lemma produce_key_eq:
  assumes "malloc_ok malloc" and "digest_ok digest" and "length key = 64"
    and "0 \<notin> set u" and "0 \<notin> set r" and "0 \<notin> set p"
  shows "stun_produce_integrity_key_str digest malloc (u @ 0 # x) (r @ 0 # y) (p @ 0 # z) key shatype =
    Some (0, digest (key_md shatype) (u @ 58 # r @ 58 # p) @ drop (md_size (key_md shatype)) key)"
proof -
  let ?s = "u @ 58 # r @ 58 # p"
  obtain rest where "integrity_string (u @ 0 # x) (r @ 0 # y) (p @ 0 # z) malloc = Some (?s @ rest, length ?s)"
    using integrity_string_eq [OF assms(1,4-6)] by blast
  moreover have "rdn (?s @ rest) 0 (length ?s) = Some ?s"
    by (simp add: rdn_def)
  moreover have "length (digest (key_md shatype) ?s) = md_size (key_md shatype)"
    using assms(2) by (simp add: digest_ok_def)
  moreover have "md_size (key_md shatype) \<le> 64"
    by (simp add: key_md_def)
  ultimately show ?thesis
    using assms(3)
    by (simp only: stun_produce_integrity_key_str_def bind.bind_lunit prod.case) (simp add: wrn_def)
qed

text \<open>C9: The long-term key is the digest of \<open>user:realm:password\<close>: the three copies into the block
  stay inside it and overlap nowhere, and the key goes to the front of the 64-byte key array.\<close>

theorem integrity_key_correct:
  assumes "malloc_ok malloc" and "digest_ok digest" and "length key = 64"
    and "0 \<notin> set u" and "0 \<notin> set r" and "0 \<notin> set p"
  shows "stun_produce_integrity_key_str digest malloc (u @ 0 # x) (r @ 0 # y) (p @ 0 # z) key shatype =
    Some (0, digest (key_md shatype) (u @ 58 # r @ 58 # p) @ drop (md_size (key_md shatype)) key)"
  using produce_key_eq [OF assms] .

theorem integrity_key_correct_witness:
  "\<exists>k. stun_produce_integrity_key_str (\<lambda>md d. replicate (md_size md) (of_nat (length d))) (\<lambda>n. replicate n 0)
      (c_lit ''bob'') (c_lit ''home'') (c_lit ''pw'') (replicate 64 0) SHATYPE_SHA1 = Some (0, k) \<and> k ! 0 = 11"
proof -
  have "digest_ok (\<lambda>md d. replicate (md_size md) (of_nat (length d)))" "malloc_ok (\<lambda>n. replicate n 0)"
    by (simp_all add: digest_ok_def malloc_ok_def)
  moreover have "0 \<notin> set (chars ''bob'')" "0 \<notin> set (chars ''home'')" "0 \<notin> set (chars ''pw'')"
    by (simp_all add: chars_def of_char_def)
  ultimately show ?thesis
    using integrity_key_correct [of "\<lambda>n. replicate n 0" "\<lambda>md d. replicate (md_size md) (of_nat (length d))"
        "replicate 64 0" "chars ''bob''" "chars ''home''" "chars ''pw''" "[]" "[]" "[]" SHATYPE_SHA1]
    by (simp add: c_lit_def chars_def key_md_def nth_append)
qed

subsection \<open>Adding\<close>

lemma sha_size_md: "sha_size shatype = md_size (hmac_md shatype)"
  by (cases shatype) (simp_all add: sha_size_def hmac_md_def)

lemma pad4_sha: "pad4 (sha_size shatype) = sha_size shatype"
  by (cases shatype) (simp_all add: sha_size_def pad4_def)

lemma sha_size_bounds: "20 \<le> sha_size shatype" "sha_size shatype \<le> 64"
  by (cases shatype; simp add: sha_size_def)+

lemma add_integrity_msg:
  assumes "stun_msg buf len mt ck tid as" and "hmac_ok hmac" and "128 \<le> length junk"
    and "len + 68 < 65507" and "len + 68 \<le> length buf"
    and "\<And>b. len \<le> length b \<Longrightarrow> integrity_hmac hmac ct b len key pwd shatype = Some (hmac (hmac_md shatype) k (take len b))"
    and "\<And>d. hmac (hmac_md shatype) k d \<noteq> None"
  shows "\<exists>b v. stun_attr_add_integrity_str hmac junk ct buf len key pwd shatype = Some (0, b, len + 4 + sha_size shatype)
    \<and> stun_msg b (len + 4 + sha_size shatype) mt ck tid (as @ [(STUN_ATTRIBUTE_MESSAGE_INTEGRITY, v)])
    \<and> length v = sha_size shatype \<and> length b = length buf
    \<and> hmac (hmac_md shatype) k (take len b) = Some v"
proof -
  let ?n = "sha_size shatype"
  note n = sha_size_bounds [of shatype]
  obtain b where b: "stun_attr_add_str buf len STUN_ATTRIBUTE_MESSAGE_INTEGRITY (Some junk) (int ?n) = Some (0, b, len + 4 + ?n)"
    and rep: "stun_msg b (len + 4 + ?n) mt ck tid (as @ [(STUN_ATTRIBUTE_MESSAGE_INTEGRITY, take ?n junk)])"
    and lb: "length b = length buf"
    using attr_added [OF assms(1), of ?n junk STUN_ATTRIBUTE_MESSAGE_INTEGRITY] assms(3-5) n pad4_sha [of shatype] by auto
  obtain v where v: "hmac (hmac_md shatype) k (take len b) = Some v"
    using assms(7) by blast
  have lv: "length v = ?n"
    using v assms(2) by (auto simp: hmac_ok_def sha_size_md)
  have lj: "length (take ?n junk) = ?n"
    using assms(3) n by simp
  have q: "len + 4 + ?n - pad4 (length (take ?n junk)) = len + 4"
    by (simp only: lj pad4_sha)
  obtain b' where b': "wrn b (len + 4) v = Some b'"
    "stun_msg b' (len + 4 + ?n) mt ck tid (as @ [(STUN_ATTRIBUTE_MESSAGE_INTEGRITY, v)])"
    "length b' = length b" "take (len + 4) b' = take (len + 4) b"
    using stun_msg_set_last [OF rep, of v, unfolded q] lv lj by auto
  have same: "take len b' = take len b"
    using b'(4) by (metis le_add1 min.absorb1 take_take)
  have idx: "len + 4 + ?n - 4 - ?n = len" "len + 4 + ?n - ?n = len + 4"
    by simp_all
  have "stun_attr_add_integrity_str hmac junk ct buf len key pwd shatype = Some (0, b', len + 4 + ?n)"
    unfolding stun_attr_add_integrity_str_def Let_def
    using b b'(1) assms(5) assms(6) [of b] lb v by (simp only: b bind.bind_lunit prod.case idx) simp
  then show ?thesis
    using b' lb lv v same by auto
qed

lemma c_strlen_total: "0 \<in> set s \<Longrightarrow> \<exists>n. c_strlen s = Some n \<and> n \<le> length s"
proof -
  assume "0 \<in> set s"
  then obtain u x where "s = u @ 0 # x" "0 \<notin> set u"
    using split_list_first by fastforce
  then show ?thesis
    by (simp add: c_strlen_append)
qed

lemma hmackey_size_bounds: "get_hmackey_size shatype \<le> 64"
  by (simp add: get_hmackey_size_def)

text \<open>
  The key in effect: the password up to its end for short-term credentials, else the front of the key array.
\<close>

definition effective_key :: "turn_credential_type \<Rightarrow> mem \<Rightarrow> mem \<Rightarrow> SHATYPE \<Rightarrow> mem" where
  "effective_key ct key pwd shatype = (if ct = TURN_CREDENTIALS_SHORT_TERM
     then take (the (c_strlen pwd)) pwd else take (get_hmackey_size shatype) key)"

lemma integrity_hmac_eq:
  assumes "ct = TURN_CREDENTIALS_SHORT_TERM \<Longrightarrow> 0 \<in> set pwd"
    and "ct \<noteq> TURN_CREDENTIALS_SHORT_TERM \<Longrightarrow> 64 \<le> length key" and "len \<le> length b"
  shows "integrity_hmac hmac ct b len key pwd shatype =
    Some (hmac (hmac_md shatype) (effective_key ct key pwd shatype) (take len b))"
  using assms c_strlen_total [of pwd] hmackey_size_bounds [of shatype]
  by (cases "ct = TURN_CREDENTIALS_SHORT_TERM") (auto simp: integrity_hmac_def stun_calculate_hmac_def effective_key_def rdn_def)

lemma integrity_by_key_msg:
  assumes "stun_msg buf len mt ck tid as" and "hmac_ok hmac" and "\<And>k d. hmac (hmac_md shatype) k d \<noteq> None"
    and "0 \<notin> set u" and "0 \<notin> set r" and "0 \<notin> set n" and "64 \<le> length key" and "128 \<le> length junk"
    and "len + pad4 (length u) + pad4 (length n) + pad4 (length r) + 80 < 65507"
    and "len + pad4 (length u) + pad4 (length n) + pad4 (length r) + 80 \<le> length buf"
  shows "\<exists>b l v. stun_attr_add_integrity_by_key_str hmac junk buf len (u @ 0 # x) (r @ 0 # y) key (n @ 0 # z) shatype = Some (0, b, l)
    \<and> stun_msg b l mt ck tid (as @ [(STUN_ATTRIBUTE_USERNAME, u), (STUN_ATTRIBUTE_NONCE, n),
          (STUN_ATTRIBUTE_REALM, r), (STUN_ATTRIBUTE_MESSAGE_INTEGRITY, v)])
    \<and> hmac (hmac_md shatype) (take (get_hmackey_size shatype) key) (take (l - 4 - sha_size shatype) b) = Some v
    \<and> length v = sha_size shatype \<and> length b = length buf
    \<and> l = len + pad4 (length u) + pad4 (length n) + pad4 (length r) + 16 + sha_size shatype"
proof -
  have sl: "c_strlen (u @ 0 # x) = Some (length u)" "c_strlen (r @ 0 # y) = Some (length r)"
    "c_strlen (n @ 0 # z) = Some (length n)"
    using assms(4-6) by (simp_all add: c_strlen_append)
  let ?l1 = "len + 4 + pad4 (length u)" and ?a1 = "as @ [(STUN_ATTRIBUTE_USERNAME, u)]"
  obtain b1 where b1: "stun_attr_add_str buf len STUN_ATTRIBUTE_USERNAME (Some (u @ 0 # x)) (int (length u)) = Some (0, b1, ?l1)"
    "stun_msg b1 ?l1 mt ck tid ?a1" "length b1 = length buf"
    using attr_added [OF assms(1), of "length u" "u @ 0 # x" STUN_ATTRIBUTE_USERNAME] assms(9,10) by auto
  let ?l2 = "?l1 + 4 + pad4 (length n)" and ?a2 = "?a1 @ [(STUN_ATTRIBUTE_NONCE, n)]"
  obtain b2 where b2: "stun_attr_add_str b1 ?l1 STUN_ATTRIBUTE_NONCE (Some (n @ 0 # z)) (int (length n)) = Some (0, b2, ?l2)"
    "stun_msg b2 ?l2 mt ck tid ?a2" "length b2 = length buf"
    using attr_added [OF b1(2), of "length n" "n @ 0 # z" STUN_ATTRIBUTE_NONCE] assms(9,10) b1(3) by auto
  let ?l3 = "?l2 + 4 + pad4 (length r)" and ?a3 = "?a2 @ [(STUN_ATTRIBUTE_REALM, r)]"
  obtain b3 where b3: "stun_attr_add_str b2 ?l2 STUN_ATTRIBUTE_REALM (Some (r @ 0 # y)) (int (length r)) = Some (0, b3, ?l3)"
    "stun_msg b3 ?l3 mt ck tid ?a3" "length b3 = length buf"
    using attr_added [OF b2(2), of "length r" "r @ 0 # y" STUN_ATTRIBUTE_REALM] assms(9,10) b2(3) by auto
  let ?k = "take (get_hmackey_size shatype) key"
  have h: "integrity_hmac hmac TURN_CREDENTIALS_LONG_TERM b l key junk shatype =
      Some (hmac (hmac_md shatype) ?k (take l b))" if "l \<le> length b" for b l
    using integrity_hmac_eq [of TURN_CREDENTIALS_LONG_TERM junk key l b hmac shatype] assms(7) that
    by (simp add: effective_key_def)
  obtain b v where b: "stun_attr_add_integrity_str hmac junk TURN_CREDENTIALS_LONG_TERM b3 ?l3 key junk shatype = Some (0, b, ?l3 + 4 + sha_size shatype)"
    "stun_msg b (?l3 + 4 + sha_size shatype) mt ck tid (?a3 @ [(STUN_ATTRIBUTE_MESSAGE_INTEGRITY, v)])"
    "length v = sha_size shatype" "hmac (hmac_md shatype) ?k (take ?l3 b) = Some v" "length b = length buf"
    using add_integrity_msg [OF b3(2) assms(2,8), where ct = TURN_CREDENTIALS_LONG_TERM and key = key and pwd = junk and k = ?k and shatype = shatype]
      assms(3,9,10) b3(3) h by auto
  have "stun_attr_add_integrity_by_key_str hmac junk buf len (u @ 0 # x) (r @ 0 # y) key (n @ 0 # z) shatype
      = Some (0, b, ?l3 + 4 + sha_size shatype)"
    unfolding stun_attr_add_integrity_by_key_str_def
    by (simp only: sl bind.bind_lunit prod.case b1(1) b2(1) b3(1) b(1)) simp
  moreover have "?l3 + 4 + sha_size shatype - 4 - sha_size shatype = ?l3"
    by simp
  ultimately show ?thesis
    using b(2-5) by (intro exI [of _ b] exI [of _ "?l3 + 4 + sha_size shatype"] exI [of _ v]) (simp only: append.assoc append.simps, simp)
qed

text \<open>C8: Signing a message with \<open>stun_attr_add_integrity_by_key_str\<close> appends USERNAME, NONCE, REALM and
  MESSAGE-INTEGRITY in this order, and the value of the last is the HMAC, under the front of the key array, of
  everything before the attribute, taken with the header length that already counts it.\<close>

theorem integrity_added:
  assumes "stun_msg buf len mt ck tid as" and "hmac_ok hmac" and "\<And>k d. hmac (hmac_md shatype) k d \<noteq> None"
    and "0 \<notin> set u" and "0 \<notin> set r" and "0 \<notin> set n" and "64 \<le> length key" and "128 \<le> length junk"
    and "len + pad4 (length u) + pad4 (length n) + pad4 (length r) + 80 < 65507"
    and "len + pad4 (length u) + pad4 (length n) + pad4 (length r) + 80 \<le> length buf"
  shows "\<exists>b l v. stun_attr_add_integrity_by_key_str hmac junk buf len (u @ 0 # x) (r @ 0 # y) key (n @ 0 # z) shatype = Some (0, b, l)
    \<and> stun_msg b l mt ck tid (as @ [(STUN_ATTRIBUTE_USERNAME, u), (STUN_ATTRIBUTE_NONCE, n),
          (STUN_ATTRIBUTE_REALM, r), (STUN_ATTRIBUTE_MESSAGE_INTEGRITY, v)])
    \<and> hmac (hmac_md shatype) (take (get_hmackey_size shatype) key) (take (l - 4 - sha_size shatype) b) = Some v
    \<and> length v = sha_size shatype"
  using integrity_by_key_msg [OF assms, of x y z] by blast

theorem integrity_added_witness:
  "\<exists>b l v. stun_attr_add_integrity_by_key_str (\<lambda>md k d. Some (replicate (md_size md) (of_nat (length d)))) (replicate 128 0)
      (header 0x0003 0 STUN_MAGIC_COOKIE (replicate 12 7) @ replicate 200 0) 20 (c_lit ''bob'') (c_lit ''home'')
      (replicate 64 9) (c_lit ''n1'') SHATYPE_SHA256 = Some (0, b, l) \<and> length v = 32
    \<and> stun_msg b l 0x0003 STUN_MAGIC_COOKIE (replicate 12 7) [(STUN_ATTRIBUTE_USERNAME, chars ''bob''),
        (STUN_ATTRIBUTE_NONCE, chars ''n1''), (STUN_ATTRIBUTE_REALM, chars ''home''), (STUN_ATTRIBUTE_MESSAGE_INTEGRITY, v)]"
proof -
  define h :: hmac_fn where "h = (\<lambda>md k d. Some (replicate (md_size md) (of_nat (length d))))"
  have "stun_msg (header 0x0003 0 STUN_MAGIC_COOKIE (replicate 12 7) @ replicate 200 0) 20 0x0003 STUN_MAGIC_COOKIE (replicate 12 7) []"
    by (rule stun_msg_new) simp
  moreover have "hmac_ok h" "\<And>md k d. h md k d \<noteq> None"
    by (simp_all add: hmac_ok_def h_def)
  moreover have "0 \<notin> set (chars ''bob'')" "0 \<notin> set (chars ''home'')" "0 \<notin> set (chars ''n1'')"
    by (simp_all add: chars_def of_char_def)
  ultimately show ?thesis
    unfolding h_def [symmetric]
    using integrity_added [of "header 0x0003 0 STUN_MAGIC_COOKIE (replicate 12 7) @ replicate 200 0" 20 "0x0003" STUN_MAGIC_COOKIE
        "replicate 12 7" "[]" h SHATYPE_SHA256 "chars ''bob''" "chars ''home''" "chars ''n1''" "replicate 64 9" "replicate 128 0" "[]" "[]" "[]"]
    by (auto simp: c_lit_def chars_def pad4_def sha_size_def)
qed

subsection \<open>The check\<close>

lemma set_len_msg:
  assumes "stun_msg buf len mt ck tid as" and "20 \<le> l"
  shows "\<exists>b. stun_set_command_message_len_str buf (int l) = Some (0, b) \<and> length b = length buf
    \<and> stun_set_command_message_len_str b (int len) = Some (0, buf) \<and> drop 4 b = drop 4 buf"
proof -
  obtain r rest where m: "buf = header mt (of_nat (length r)) ck tid @ r @ rest" "len = 20 + length r" "length tid = 12"
    using stun_msgE [OF assms(1)] by metis
  let ?b = "header mt (of_nat (l - 20)) ck tid @ r @ rest"
  have i: "int len - 20 = int (length r)" "int l - 20 = int (l - 20)"
    using assms(2) m(2) by simp_all
  have "stun_set_command_message_len_str buf (int l) = Some (0, ?b)"
    unfolding m(1) using assms(2) by (simp only: set_message_len_header of_nat_le_iff i of_int_of_nat_eq)
  moreover have "stun_set_command_message_len_str ?b (int len) = Some (0, buf)"
    unfolding m(1) using m(2) by (simp only: set_message_len_header i of_int_of_nat_eq) simp
  moreover have "drop 4 ?b = drop 4 buf"
    unfolding m(1) by (simp add: header_def)
  ultimately show ?thesis
    using m(3) by (intro exI [of _ ?b]) (simp add: m(1))
qed

lemma get_value_drop4:
  assumes "drop 4 a = drop 4 b" and "length a = length b" and "4 \<le> p"
  shows "stun_attr_get_value a (Some p) = stun_attr_get_value b (Some p)"
proof -
  have nth: "a ! (4 + k) = b ! (4 + k)" if "4 + k < length a" for k
    using arg_cong [OF assms(1), of "\<lambda>x. x ! k"] that assms(2) by simp
  have "p + 2 = 4 + (p - 2)" "p + 2 + 1 = 4 + (p - 1)"
    using assms(3) by simp_all
  then have "rd16 a (p + 2) = rd16 b (p + 2)"
    using assms(2) nth [of "p - 2"] nth [of "p - 1"] by (auto simp only: rd16_def split: if_splits)
  then show ?thesis
    by (simp only: stun_attr_get_value_def option.case)
qed

lemma check_shasize_eq:
  "check_shasize (int n) shatype = (if shatype \<noteq> SHATYPE_ERROR \<and> n = sha_size shatype then Some n else None)"
  by (cases shatype) (auto simp: check_shasize_def sha_size_def)

text \<open>C7: The verdict of \<open>stun_check_message_integrity_by_key_str\<close> on a well-formed message, exactly, for every
  key, password and HMAC that does not fail: 1 when the first MESSAGE-INTEGRITY has the length of the expected
  hash, -1 otherwise, and the buffer is handed back unchanged.  The value of the attribute plays no part: a
  message signed with another key, or with no key at all, is accepted and 0 is never returned.\<close>

theorem integrity_check_exact:
  assumes "stun_msg buf len mt ck tid as" and "\<And>k d. hmac (hmac_md shatype) k d \<noteq> None"
    and "64 \<le> length key" and "0 \<in> set pwd"
  shows "stun_check_message_integrity_by_key_str hmac ct buf len key pwd shatype =
    Some (case find (\<lambda>(t, v). t = STUN_ATTRIBUTE_MESSAGE_INTEGRITY) as of
        None \<Rightarrow> -1
      | Some (_, v) \<Rightarrow> if shatype \<noteq> SHATYPE_ERROR \<and> length v = sha_size shatype then 1 else -1, buf)"
proof (cases "find (\<lambda>(t, v). t = STUN_ATTRIBUTE_MESSAGE_INTEGRITY) as")
  case None
  then have "stun_attr_get_first_by_type_str buf len STUN_ATTRIBUTE_MESSAGE_INTEGRITY = Some None"
    by (rule not_found_access [OF assms(1)])
  then show ?thesis
    using None by (simp add: stun_check_message_integrity_by_key_str_def)
next
  case (Some a)
  then obtain v where f: "find (\<lambda>(t, v). t = STUN_ATTRIBUTE_MESSAGE_INTEGRITY) as = Some (STUN_ATTRIBUTE_MESSAGE_INTEGRITY, v)"
    by (cases a) (auto simp: find_Some_iff)
  obtain p where p: "stun_attr_get_first_by_type_str buf len STUN_ATTRIBUTE_MESSAGE_INTEGRITY = Some (Some p)"
    "stun_attr_get_len buf (Some p) = Some (int (length v))"
    "stun_attr_get_value buf (Some p) = Some (if v = [] then None else Some (p + 4))"
    "take (length v) (drop (p + 4) buf) = v" "p + 4 + length v \<le> length buf"
    "p + 4 + length v \<le> len" "20 \<le> p"
    by (rule found_access [OF assms(1) f])
  show ?thesis
  proof (cases "shatype \<noteq> SHATYPE_ERROR \<and> length v = sha_size shatype")
    case False
    then show ?thesis
      using f p(1,2) by (auto simp: stun_check_message_integrity_by_key_str_def check_shasize_eq)
  next
    case True
    let ?nl = "p + 4 + length v"
    obtain b where b: "stun_set_command_message_len_str buf (int ?nl) = Some (0, b)" "length b = length buf"
      "stun_set_command_message_len_str b (int len) = Some (0, buf)"
      using set_len_msg [OF assms(1), of ?nl] p(7) by auto
    have i: "int p + 4 + int (length v) = int ?nl" "nat (int ?nl) - 4 - length v = p" "\<not> int ?nl > int len" "\<not> int len < 0"
      using p(6) by simp_all
    have h: "integrity_hmac hmac ct b p key pwd shatype =
        Some (hmac (hmac_md shatype) (effective_key ct key pwd shatype) (take p b))"
      using integrity_hmac_eq [where ct = ct and pwd = pwd and key = key and len = p and b = b] assms(3,4) p(5) b(2) by simp
    have cs: "check_shasize (int (length v)) shatype = Some (length v)"
      using True by (simp add: check_shasize_eq)
    have "v \<noteq> []"
      using True sha_size_bounds(1) [of shatype] by auto
    then have "stun_check_message_integrity_by_key_str hmac ct buf len key pwd shatype = Some (1, buf)"
      unfolding stun_check_message_integrity_by_key_str_def Let_def
      using assms(2) p(3)
      by (simp only: p(1,2) bind.bind_lunit option.case cs i stun_msg_len(1) [OF assms(1)] if_False b prod.case h) simp
    then show ?thesis
      using True f by simp
  qed
qed

theorem integrity_check_exact_witness:
  "\<exists>b. stun_msg b 44 0x0003 STUN_MAGIC_COOKIE (replicate 12 7) [(STUN_ATTRIBUTE_MESSAGE_INTEGRITY, replicate 20 0)]
    \<and> stun_check_message_integrity_by_key_str (\<lambda>md k d. Some (replicate (md_size md) 1)) TURN_CREDENTIALS_LONG_TERM
        b 44 (replicate 64 9) [0] SHATYPE_SHA1 = Some (1, b)
    \<and> stun_check_message_integrity_by_key_str (\<lambda>md k d. Some (replicate (md_size md) 1)) TURN_CREDENTIALS_LONG_TERM
        b 44 (replicate 64 9) [0] SHATYPE_SHA256 = Some (-1, b)"
proof -
  let ?h = "\<lambda>md k d. Some (replicate (md_size md) (1 :: u8))"
  have m0: "stun_msg (header 0x0003 0 STUN_MAGIC_COOKIE (replicate 12 7) @ replicate 200 0) 20 0x0003 STUN_MAGIC_COOKIE (replicate 12 7) []"
    by (rule stun_msg_new) simp
  have e: "20 + 4 + pad4 20 = 44"
    by (simp add: pad4_def)
  obtain b where b: "stun_msg b 44 0x0003 STUN_MAGIC_COOKIE (replicate 12 7) [(STUN_ATTRIBUTE_MESSAGE_INTEGRITY, replicate 20 0)]"
    using attr_added [OF m0, of 20 "replicate 20 0" STUN_ATTRIBUTE_MESSAGE_INTEGRITY, unfolded e] by auto
  show ?thesis
    using integrity_check_exact [OF b, of ?h SHATYPE_SHA1 "replicate 64 9" "[0]" TURN_CREDENTIALS_LONG_TERM]
      integrity_check_exact [OF b, of ?h SHATYPE_SHA256 "replicate 64 9" "[0]" TURN_CREDENTIALS_LONG_TERM] b
    by (intro exI [of _ b]) (simp add: sha_size_def)
qed

end
