(* ===== verification/Credentials.thy ===== *)
theory Credentials
  imports Integrity Framing
begin

text \<open>
  Credentials: the in-place SASLprep and the salted password hashes of \<open>client/ns_turn_msg.c\<close>.

  SHA-256 is the argument \<open>digest\<close> of theory Integrity; the random salt comes from the generator of
  theory Stun_Header.  \<open>strcmp\<close>, \<open>strtoul\<close> in base 16 and the format \<open>%02x\<close> are modelled below.
\<close>

subsection \<open>SASLprep\<close>

text \<open>The two pointers \<open>strin\<close> and \<open>strout\<close> are the offsets \<open>i\<close> and \<open>j\<close> into the same array.\<close>

function sasl_loop :: "mem \<Rightarrow> nat \<Rightarrow> nat \<Rightarrow> (int \<times> mem) option" where
  "sasl_loop s i j = do {
     c \<leftarrow> rd8 s i;
     if c = 0 then do { s \<leftarrow> wr8 s j 0; Some (0, s) }
     else if c = 0xAD then sasl_loop s (i + 1) j
     else if c = 0xA0 \<or> c = 0x20 then do { t \<leftarrow> wr8 s j 0x20; sasl_loop t (i + 1) (j + 1) }
     else if c = 0x7F then Some (-1, s)
     else if c < 0x1F then Some (-1, s)
     else if c \<ge> 0x80 \<and> c \<le> 0x9F then Some (-1, s)
     else do { t \<leftarrow> wr8 s j c; sasl_loop t (i + 1) (j + 1) } }"
  by pat_completeness auto
termination
  by (relation "measure (\<lambda>(s, i, j). length s - i)")
     (auto simp: rd8_def wr8_def wrn_def split: if_splits)

definition SASLprep :: "mem option \<Rightarrow> (int \<times> mem option) option" where
  "SASLprep s = (case s of None \<Rightarrow> Some (0, None)
   | Some s \<Rightarrow> do { (r, t) \<leftarrow> sasl_loop s 0 0; Some (r, Some t) })"

subsection \<open>C strings\<close>

text \<open>The sign of \<open>strcmp\<close>; reading behind either array is \<open>None\<close>.\<close>

fun c_strcmp :: "mem \<Rightarrow> mem \<Rightarrow> int option" where
  "c_strcmp (a # as) (b # bs) =
     (if a \<noteq> b then Some (if a < b then -1 else 1) else if a = 0 then Some 0 else c_strcmp as bs)"
| "c_strcmp _ _ = None"

fun scan_hex :: "nat \<Rightarrow> mem \<Rightarrow> nat option" where
  "scan_hex acc [] = None"
| "scan_hex acc (c # cs) = (case hex_val c of Some d \<Rightarrow> scan_hex (16 * acc + d) cs | None \<Rightarrow> Some acc)"

text \<open>\<open>strtoul(s, NULL, 16)\<close>: white space, a sign and a prefix \<open>0x\<close> that a digit follows are skipped.\<close>

definition c_strtoul16 :: "mem \<Rightarrow> nat option" where
  "c_strtoul16 s = do {
     s1 \<leftarrow> skip_space s;
     let neg = (s1 \<noteq> [] \<and> hd s1 = 45);
     let s2 = (if s1 \<noteq> [] \<and> (hd s1 = 45 \<or> hd s1 = 43) then tl s1 else s1);
     let s3 = (case s2 of a # b # c # _ \<Rightarrow>
         if a = 48 \<and> (b = 120 \<or> b = 88) \<and> hex_val c \<noteq> None then drop 2 s2 else s2 | _ \<Rightarrow> s2);
     v \<leftarrow> scan_hex 0 s3;
     Some (if v \<ge> 2 ^ 64 then 2 ^ 64 - 1 else if neg then (2 ^ 64 - v) mod 2 ^ 64 else v) }"

subsection \<open>Password hashes\<close>

text \<open>\<open>out\<close> points to offset \<open>p\<close> of the array; \<open>snprintf\<close> writes two digits and the NUL.\<close>

fun readable_loop :: "mem \<Rightarrow> mem \<Rightarrow> nat \<Rightarrow> nat \<Rightarrow> nat \<Rightarrow> mem option" where
  "readable_loop orig out p i 0 = Some out"
| "readable_loop orig out p i (Suc n) = do {
     c \<leftarrow> rd8 orig i;
     out \<leftarrow> wrn out (p + i * 2) [hex_digit (c div 16), hex_digit (c mod 16), 0];
     readable_loop orig out p (i + 1) n }"

definition readable_string :: "mem \<Rightarrow> mem \<Rightarrow> nat \<Rightarrow> nat \<Rightarrow> mem option" where
  "readable_string orig out p sz = do {
     out \<leftarrow> wr8 out p 0;
     readable_loop orig out p 0 sz }"

definition generate_enc_password ::
    "digest_fn \<Rightarrow> entropy \<Rightarrow> mem \<Rightarrow> mem \<Rightarrow> mem \<Rightarrow> mem option \<Rightarrow> mem option" where
  "generate_enc_password digest e junk pwd result orig_salt = do {
     salt \<leftarrow> (case orig_salt of None \<Rightarrow> Some (generate_random_nonce e 8) | Some s \<Rightarrow> rdn s 0 8);
     rsalt \<leftarrow> readable_string salt (take 17 junk) 0 8;
     r \<leftarrow> wr8 result 0 36;
     r \<leftarrow> wr8 r 1 53;
     r \<leftarrow> wr8 r 2 36;
     bs \<leftarrow> rdn rsalt 0 16;
     r \<leftarrow> wrn r 3 bs;
     r \<leftarrow> wr8 r 19 36;
     s \<leftarrow> c_str pwd;
     let hash = digest EVP_sha256 (salt @ s);
     readable_string hash r 20 (length hash) }"

definition generate_new_enc_password :: "digest_fn \<Rightarrow> entropy \<Rightarrow> mem \<Rightarrow> mem \<Rightarrow> mem \<Rightarrow> mem option" where
  "generate_new_enc_password digest e junk pwd result = generate_enc_password digest e junk pwd result None"

text \<open>The loop that reads the salt back: \<open>n\<close> bytes from position \<open>i\<close> on.\<close>

fun salt_loop :: "mem \<Rightarrow> nat \<Rightarrow> nat \<Rightarrow> mem option" where
  "salt_loop pin i 0 = Some []"
| "salt_loop pin i (Suc n) = do {
     c0 \<leftarrow> rd8 pin (3 + i + i);
     c1 \<leftarrow> rd8 pin (3 + i + i + 1);
     v \<leftarrow> c_strtoul16 [c0, c1, 0];
     rest \<leftarrow> salt_loop pin (i + 1) n;
     Some (of_nat v # rest) }"

definition encrypted_password :: "mem \<Rightarrow> mem option option" where
  "encrypted_password pin = do {
     n \<leftarrow> c_strlen pin;
     if n \<ge> 3 + 8 + 8 + 1 + 32 \<and> pin ! 0 = 36 \<and> pin ! 1 = 53 \<and> pin ! 2 = 36 \<and> pin ! 19 = 36
     then do { salt \<leftarrow> salt_loop pin 0 8; Some (Some salt) }
     else Some None }"

definition check_password :: "digest_fn \<Rightarrow> entropy \<Rightarrow> mem \<Rightarrow> mem \<Rightarrow> mem \<Rightarrow> int option" where
  "check_password digest e junk pin pwd = do {
     salt \<leftarrow> encrypted_password pwd;
     case salt of None \<Rightarrow> c_strcmp pin pwd
     | Some s \<Rightarrow> do {
         enc_pin \<leftarrow> generate_enc_password digest e junk pin (take 257 junk) (Some s);
         c_strcmp enc_pin pwd } }"

subsection \<open>SASLprep against its specification\<close>

text \<open>What becomes of one character: \<open>None\<close> if it is prohibited.\<close>

definition sasl_char :: "u8 \<Rightarrow> mem option" where
  "sasl_char c = (if c = 0xAD then Some [] else if c = 0xA0 \<or> c = 0x20 then Some [0x20]
     else if c = 0x7F \<or> c < 0x1F \<or> c \<ge> 0x80 \<and> c \<le> 0x9F then None else Some [c])"

fun sasl_map :: "mem \<Rightarrow> mem option" where
  "sasl_map [] = Some []"
| "sasl_map (c # cs) = do { x \<leftarrow> sasl_char c; r \<leftarrow> sasl_map cs; Some (x @ r) }"

declare sasl_loop.simps [simp del]

lemma sasl_step:
  assumes "c \<noteq> 0"
  shows "sasl_loop (a @ g @ c # r) (length a + length g) (length a) = (case sasl_char c of
      None \<Rightarrow> Some (-1, a @ g @ c # r)
    | Some [] \<Rightarrow> sasl_loop (a @ (g @ [c]) @ r) (length a + length (g @ [c])) (length a)
    | Some (d # _) \<Rightarrow> sasl_loop ((a @ [d]) @ tl (g @ [c]) @ r) (length (a @ [d]) + length (tl (g @ [c]))) (length (a @ [d])))"
proof -
  have rd: "rd8 (a @ g @ c # r) (length a + length g) = Some c"
    using rd8_at [of "a @ g" "length a + length g" c r] by simp
  obtain h t where ht: "g @ [c] = h # t"
    by (cases "g @ [c]") simp_all
  then have eq: "a @ g @ c # r = a @ h # t @ r"
    by (metis append.assoc append_Cons append_Nil)
  have wr: "wr8 (a @ g @ c # r) (length a) d = Some ((a @ [d]) @ tl (g @ [c]) @ r)" for d
    using wr8_at [of a "length a" h "t @ r" d] by (simp add: eq ht)
  have len: "length a + length g + 1 = length (a @ [d]) + length (tl (g @ [c]))" for d
    by simp
  show ?thesis
    unfolding sasl_loop.simps [of "a @ g @ c # r" "length a + length g" "length a"] rd bind.bind_lunit
    using assms wr len by (simp add: sasl_char_def)
qed

lemma sasl_loop_map:
  "0 \<notin> set u \<Longrightarrow> (case sasl_map u of
      Some v \<Rightarrow> \<exists>y. sasl_loop (a @ g @ u @ 0 # x) (length a + length g) (length a) = Some (0, a @ v @ 0 # y)
        \<and> length (a @ v @ 0 # y) = length (a @ g @ u @ 0 # x)
    | None \<Rightarrow> \<exists>t. sasl_loop (a @ g @ u @ 0 # x) (length a + length g) (length a) = Some (-1, t))"
proof (induction u arbitrary: a g)
  case Nil
  have "rd8 (a @ g @ 0 # x) (length a + length g) = Some 0"
    using rd8_at [of "a @ g" "length a + length g" 0 x] by simp
  moreover obtain h t where "g @ 0 # x = h # t"
    by (cases "g @ 0 # x") simp_all
  moreover from this have "length t = length g + length x"
    by (metis Suc_inject add_Suc_right length_Cons length_append)
  ultimately show ?case
    by (simp add: sasl_loop.simps wr8_at)
next
  case (Cons c u)
  then have c: "c \<noteq> 0" and u: "0 \<notin> set u"
    by auto
  note step = sasl_step [OF c, of a g "u @ 0 # x"]
  show ?case
  proof (cases "sasl_char c")
    case None
    then show ?thesis
      using step by simp
  next
    case (Some l)
    then consider "l = []" | d where "l = [d]"
      by (auto simp: sasl_char_def split: if_splits)
    then show ?thesis
    proof cases
      case 1
      then show ?thesis
        using step Some Cons.IH [OF u, of a "g @ [c]"] by (simp split: option.splits)
    next
      case 2
      then show ?thesis
        using step Some Cons.IH [OF u, of "a @ [d]" "tl (g @ [c])"] by (simp split: option.splits)
    qed
  qed
qed

definition sasl_prohibited :: "u8 \<Rightarrow> bool" where
  "sasl_prohibited c \<longleftrightarrow> c = 0x7F \<or> c < 0x1F \<or> c \<ge> 0x80 \<and> c \<le> 0x9F"

definition sasl_text :: "mem \<Rightarrow> mem" where
  "sasl_text u = map (\<lambda>c. if c = 0xA0 then 0x20 else c) (filter (\<lambda>c. c \<noteq> 0xAD) u)"

lemma sasl_map_eq:
  "sasl_map u = (if \<exists>c\<in>set u. sasl_prohibited c then None else Some (sasl_text u))"
  by (induction u) (auto simp: sasl_char_def sasl_prohibited_def sasl_text_def)

lemma sasl_text_set: "c \<in> set (sasl_text u) \<Longrightarrow> c \<noteq> 0xA0 \<and> c \<noteq> 0xAD \<and> (c = 0x20 \<or> c \<in> set u)"
  by (auto simp: sasl_text_def)

lemma sasl_text_again:
  assumes "\<not> (\<exists>c\<in>set u. sasl_prohibited c)"
  shows "sasl_text (sasl_text u) = sasl_text u" and "\<not> (\<exists>c\<in>set (sasl_text u). sasl_prohibited c)"
    and "0 \<notin> set (sasl_text u)"
proof -
  have "filter (\<lambda>c. c \<noteq> 0xAD) (sasl_text u) = sasl_text u"
    by (simp add: filter_id_conv sasl_text_set)
  then show "sasl_text (sasl_text u) = sasl_text u"
    unfolding sasl_text_def [of "sasl_text u"] by (simp add: map_idI sasl_text_set)
  have "\<not> sasl_prohibited 0x20" and z: "sasl_prohibited 0"
    by (simp_all add: sasl_prohibited_def)
  then show p: "\<not> (\<exists>c\<in>set (sasl_text u). sasl_prohibited c)"
    using assms sasl_text_set by blast
  show "0 \<notin> set (sasl_text u)"
    using p z by blast
qed

lemma SASLprep_eq:
  assumes "0 \<notin> set u"
  shows "if \<exists>c\<in>set u. sasl_prohibited c then \<exists>t. SASLprep (Some (u @ 0 # x)) = Some (-1, Some t)
    else \<exists>y. SASLprep (Some (u @ 0 # x)) = Some (0, Some (sasl_text u @ 0 # y))
      \<and> length (sasl_text u @ 0 # y) = length (u @ 0 # x)"
proof (cases "\<exists>c\<in>set u. sasl_prohibited c")
  case True
  then show ?thesis
    using sasl_loop_map [OF assms, of "[]" "[]" x] by (simp add: SASLprep_def sasl_map_eq) force
next
  case False
  then show ?thesis
    using sasl_loop_map [OF assms, of "[]" "[]" x] by (simp add: SASLprep_def sasl_map_eq) force
qed

text \<open>\<open>SASLprep\<close> on a string in an array: a string with a prohibited character is refused; otherwise soft
  hyphens are dropped and non-breaking spaces become spaces, in place and with a terminating NUL inside the
  array, and preparing the result again changes nothing.  The character 0x1F is not among those refused,
  although RFC 4013, which the source names, prohibits the ASCII control characters.\<close>

lemma saslprep_correct:
  assumes "0 \<notin> set u"
  shows "\<not> sasl_prohibited 0x1F \<and>
    (if \<exists>c\<in>set u. sasl_prohibited c then \<exists>t. SASLprep (Some (u @ 0 # x)) = Some (-1, Some t)
     else \<exists>y z. SASLprep (Some (u @ 0 # x)) = Some (0, Some (sasl_text u @ 0 # y))
       \<and> length (sasl_text u @ 0 # y) = length (u @ 0 # x)
       \<and> SASLprep (Some (sasl_text u @ 0 # y)) = Some (0, Some (sasl_text u @ 0 # z)))"
proof -
  have us: "\<not> sasl_prohibited 0x1F"
    by (simp add: sasl_prohibited_def)
  show ?thesis
  proof (cases "\<exists>c\<in>set u. sasl_prohibited c")
    case True
    then show ?thesis
      using SASLprep_eq [OF assms, of x] us by simp
  next
    case False
    obtain y where "SASLprep (Some (u @ 0 # x)) = Some (0, Some (sasl_text u @ 0 # y))"
      "length (sasl_text u @ 0 # y) = length (u @ 0 # x)"
      using SASLprep_eq [OF assms, of x] False by auto
    moreover obtain z where "SASLprep (Some (sasl_text u @ 0 # y)) = Some (0, Some (sasl_text u @ 0 # z))"
      using SASLprep_eq [OF sasl_text_again(3) [OF False], of y] sasl_text_again(1,2) [OF False] by auto
    ultimately show ?thesis
      using False us by auto
  qed
qed

subsection \<open>Hexadecimal digits\<close>

lemma strtoul16_hex: "c_strtoul16 [hex_digit (c div 16), hex_digit (c mod 16), 0] = Some (unat c)"
proof -
  have "unat c < 2 ^ 64"
    using unat_u8_less [of c] by simp
  moreover have "hex_val 0 = None"
    by (simp add: hex_val_def)
  moreover have "skip_space [hex_digit (c div 16), hex_digit (c mod 16), 0] =
      Some [hex_digit (c div 16), hex_digit (c mod 16), 0]"
    using hex_digit_plain [OF hi_lo(1) [of c]] by auto
  moreover have "\<not> (hex_digit (c div 16) = 45 \<or> hex_digit (c div 16) = 43)" "hex_digit (c div 16) \<noteq> 45"
    using hex_digit_plain(1) [OF hi_lo(1) [of c]] by auto
  ultimately show ?thesis
    using hi_lo(3) [of c]
    by (simp add: c_strtoul16_def hex_val_digit hi_lo del: skip_space.simps)
qed

lemma hexs_inj: "hexs m = hexs n \<longleftrightarrow> m = n"
proof (induction m arbitrary: n)
  case Nil
  show ?case
    by (cases n) simp_all
next
  case (Cons c m)
  have "unat x = unat y" if "x < 16" "y < 16" "hex_digit x = hex_digit y" for x y
    using that hex_val_digit by (metis option.inject)
  then have "c = d" if "hex_digit (c div 16) = hex_digit (d div 16)" "hex_digit (c mod 16) = hex_digit (d mod 16)" for d
    using that hi_lo [of c] hi_lo [of d] by (metis word_unat_eq_iff)
  then show ?case
    using Cons.IH by (cases n) auto
qed

lemma readable_loop_eq:
  assumes "length a = p + i * 2" and "i + n \<le> length orig" and "2 * n + 1 \<le> length b" and "b ! 0 = 0"
  shows "readable_loop orig (a @ b) p i n = Some (a @ hexs (take n (drop i orig)) @ 0 # drop (2 * n + 1) b)"
  using assms
proof (induction n arbitrary: a b i)
  case 0
  then show ?case
    by (cases b) auto
next
  case (Suc n)
  let ?h = "[hex_digit (orig ! i div 16), hex_digit (orig ! i mod 16)]"
  have i: "i < length orig"
    using Suc.prems(2) by simp
  have "wrn (a @ b) (p + i * 2) (?h @ [0]) = Some ((a @ ?h) @ 0 # drop 3 b)"
    using Suc.prems(1,3) by (simp add: wrn_def)
  moreover have "readable_loop orig ((a @ ?h) @ 0 # drop 3 b) p (i + 1) n =
      Some ((a @ ?h) @ hexs (take n (drop (i + 1) orig)) @ 0 # drop (2 * n + 1) (0 # drop 3 b))"
    using Suc.prems by (intro Suc.IH) simp_all
  moreover have "take (Suc n) (drop i orig) = orig ! i # take n (drop (i + 1) orig)"
    using i by (simp add: Cons_nth_drop_Suc [symmetric])
  ultimately show ?case
    using i by (simp add: rd8_def numeral_3_eq_3)
qed

lemma readable_string_eq:
  assumes "length a = p" and "length orig = n" and "2 * n + 1 \<le> length b"
  shows "readable_string orig (a @ b) p n = Some (a @ hexs orig @ 0 # drop (2 * n + 1) b)"
proof -
  obtain c t where b: "b = c # t"
    using assms(3) by (cases b) auto
  have "wr8 (a @ b) p 0 = Some (a @ 0 # t)"
    unfolding b by (rule wr8_at [OF assms(1)])
  then show ?thesis
    using readable_loop_eq [of a p 0 n orig "0 # t"] assms by (simp add: readable_string_def b)
qed

text \<open>The stored form of a password: a marker, the salt and the digest of salt and password.\<close>

definition enc_form :: "digest_fn \<Rightarrow> mem \<Rightarrow> mem \<Rightarrow> mem" where
  "enc_form digest salt u = [36, 53, 36] @ hexs salt @ [36] @ hexs (digest EVP_sha256 (salt @ u))"

lemma enc_form_props:
  assumes "digest_ok digest" and "length salt = 8"
  shows "length (enc_form digest salt u) = 84" and "0 \<notin> set (enc_form digest salt u)"
  using assms hexs_no_nul by (auto simp: enc_form_def digest_ok_def)

definition new_salt :: "entropy \<Rightarrow> mem option \<Rightarrow> mem" where
  "new_salt e os = (case os of None \<Rightarrow> generate_random_nonce e 8 | Some s \<Rightarrow> take 8 s)"

lemma wrn_front: "length c \<le> length r \<Longrightarrow> wrn (a @ r) (length a) c = Some (a @ c @ drop (length c) r)"
  by (simp add: wrn_def)

lemma generate_enc_password_eq:
  assumes "digest_ok digest" and "0 \<notin> set u" and "85 \<le> length result" and "17 \<le> length junk"
    and "\<And>s. os = Some s \<Longrightarrow> 8 \<le> length s"
  shows "generate_enc_password digest e junk (u @ 0 # x) result os =
    Some (enc_form digest (new_salt e os) u @ 0 # drop 85 result)"
proof -
  let ?s = "new_salt e os" and ?h = "digest EVP_sha256 (new_salt e os @ u)"
  have ls: "length ?s = 8"
    using assms(5) by (cases os) (auto simp: new_salt_def generate_random_nonce_def)
  have salt: "(case os of None \<Rightarrow> Some (generate_random_nonce e 8) | Some s \<Rightarrow> rdn s 0 8) = Some ?s"
    using assms(5) by (cases os) (auto simp: new_salt_def rdn_def)
  have rs: "readable_string ?s (take 17 junk) 0 8 = Some (hexs ?s @ [0])"
    using readable_string_eq [of "[]" 0 ?s 8 "take 17 junk"] ls assms(4) by simp
  have rd: "rdn (hexs ?s @ [0]) 0 16 = Some (hexs ?s)"
    using ls by (simp add: rdn_def)
  obtain a b c t where r: "result = a # b # c # t" and t: "82 \<le> length t"
    using assms(3) by (auto simp: numeral_eq_Suc Suc_le_length_iff)
  have w1: "wr8 result 0 36 = Some (36 # b # c # t)" "wr8 (36 # b # c # t) 1 53 = Some (36 # 53 # c # t)"
    "wr8 (36 # 53 # c # t) 2 36 = Some ([36, 53, 36] @ t)"
    by (simp_all add: r wr8_def wrn_def numeral_2_eq_2)
  have w2: "wrn ([36, 53, 36] @ t) 3 (hexs ?s) = Some ([36, 53, 36] @ hexs ?s @ drop 16 t)"
    using wrn_front [of "hexs ?s" t "[36, 53, 36]"] t ls by (simp add: numeral_3_eq_3)
  obtain d t' where t': "drop 16 t = d # t'" "65 \<le> length t'" "t' = drop 17 t"
    using Cons_nth_drop_Suc [of 16 t] t by (intro that [of "t ! 16" "drop 17 t"]) simp_all
  have w3: "wr8 ([36, 53, 36] @ hexs ?s @ drop 16 t) 19 36 = Some ([36, 53, 36] @ hexs ?s @ [36] @ t')"
    using wr8_at [of "[36, 53, 36] @ hexs ?s" 19 d t' 36] t'(1) ls by simp
  have w4: "readable_string ?h ([36, 53, 36] @ hexs ?s @ [36] @ t') 20 (length ?h) =
      Some (enc_form digest ?s u @ 0 # drop 65 t')"
    using readable_string_eq [of "[36, 53, 36] @ hexs ?s @ [36]" 20 ?h 32 t'] ls t'(2) assms(1)
    by (simp add: enc_form_def digest_ok_def)
  have "drop 65 t' = drop 85 result"
    using t'(3) by (simp add: r drop_Suc_Cons)
  then show ?thesis
    unfolding generate_enc_password_def Let_def
    by (simp only: salt rs rd w1 w2 w3 w4 bind.bind_lunit c_str_append [OF assms(2)])
qed

lemma nth_hexs:
  "i < length s \<Longrightarrow> hexs s ! (2 * i) = hex_digit (s ! i div 16)"
  "i < length s \<Longrightarrow> hexs s ! (2 * i + 1) = hex_digit (s ! i mod 16)"
  by (induction s arbitrary: i) (auto simp: nth_Cons' algebra_simps less_Suc_eq_0_disj)

lemma salt_loop_eq:
  "i + n \<le> length s \<Longrightarrow> salt_loop ([36, 53, 36] @ hexs s @ rest) i n = Some (take n (drop i s))"
proof (induction n arbitrary: i)
  case (Suc n)
  let ?m = "[36, 53, 36] @ hexs s @ rest"
  have i: "i < length s"
    using Suc.prems by simp
  have "?m ! (3 + i + i) = hexs s ! (2 * i)" "?m ! (3 + i + i + 1) = hexs s ! (2 * i + 1)"
    using i by (simp_all add: nth_append mult_2 numeral_3_eq_3)
  then have "rd8 ?m (3 + i + i) = Some (hex_digit (s ! i div 16))" "rd8 ?m (3 + i + i + 1) = Some (hex_digit (s ! i mod 16))"
    using i nth_hexs [OF i] by (auto simp: rd8_def simp del: append.simps)
  moreover have "salt_loop ?m (i + 1) n = Some (take n (drop (i + 1) s))"
    using Suc.prems by (intro Suc.IH) simp
  ultimately have "salt_loop ?m i (Suc n) = Some (s ! i # take n (drop (i + 1) s))"
    by (simp only: salt_loop.simps bind.bind_lunit strtoul16_hex) simp
  then show ?case
    using i by (simp add: Cons_nth_drop_Suc [symmetric])
qed simp

lemma encrypted_password_enc:
  assumes "digest_ok digest" and "length salt = 8"
  shows "encrypted_password (enc_form digest salt u @ 0 # x) = Some (Some salt)"
proof -
  let ?p = "enc_form digest salt u @ 0 # x"
  have "c_strlen ?p = Some 84"
    using enc_form_props [OF assms] by (simp add: c_strlen_append)
  moreover have "salt_loop ?p 0 8 = Some salt"
    using salt_loop_eq [of 0 8 salt] assms(2) by (simp add: enc_form_def)
  moreover have "?p ! 0 = 36" "?p ! 1 = 53" "?p ! 2 = 36" "?p ! 19 = 36"
    using assms(2) by (simp_all add: enc_form_def nth_append numeral_eq_Suc)
  ultimately show ?thesis
    by (simp add: encrypted_password_def)
qed

lemma c_strcmp_iff:
  "0 \<notin> set a \<Longrightarrow> 0 \<notin> set b \<Longrightarrow> \<exists>z. c_strcmp (a @ 0 # x) (b @ 0 # y) = Some z \<and> (z = 0 \<longleftrightarrow> a = b)"
proof (induction a arbitrary: b)
  case Nil
  then show ?case
    by (cases b) auto
next
  case (Cons c a)
  then show ?case
    by (cases b) auto
qed

lemma check_enc_password:
  assumes "digest_ok digest" and "0 \<notin> set q" and "257 \<le> length junk" and "length salt = 8"
  shows "\<exists>z. check_password digest e junk (q @ 0 # y) (enc_form digest salt u @ 0 # x) = Some z
    \<and> (z = 0 \<longleftrightarrow> digest EVP_sha256 (salt @ q) = digest EVP_sha256 (salt @ u))"
proof -
  let ?f = "\<lambda>u. enc_form digest salt u"
  have "generate_enc_password digest e junk (q @ 0 # y) (take 257 junk) (Some salt) =
      Some (?f q @ 0 # drop 85 (take 257 junk))"
    using generate_enc_password_eq [OF assms(1,2), of "take 257 junk" junk "Some salt" e y] assms(3,4)
    by (simp add: new_salt_def)
  then have "check_password digest e junk (q @ 0 # y) (?f u @ 0 # x) = c_strcmp (?f q @ 0 # drop 85 (take 257 junk)) (?f u @ 0 # x)"
    by (simp only: check_password_def encrypted_password_enc [OF assms(1,4)] bind.bind_lunit option.case)
  moreover have "?f q = ?f u \<longleftrightarrow> digest EVP_sha256 (salt @ q) = digest EVP_sha256 (salt @ u)"
    by (simp add: enc_form_def hexs_inj)
  ultimately show ?thesis
    using c_strcmp_iff [of "?f q" "?f u"] enc_form_props(2) [OF assms(1,4)] by metis
qed

text \<open>C19: Stored passwords: hashing a password writes the salted form within 85 bytes of the result array, and
  checking a candidate against it succeeds exactly when the digests of salt and candidate agree, in particular
  for the password itself; the salt survives the hexadecimal round trip.  A stored password shorter than the
  hashed form is compared as plain text.\<close>

theorem password_check_correct:
  assumes "digest_ok digest" and "0 \<notin> set u" and "0 \<notin> set q" and "85 \<le> length result" and "257 \<le> length junk"
  shows "\<exists>r. generate_new_enc_password digest e junk (u @ 0 # x) result = Some r \<and> length r = length result
    \<and> check_password digest e junk (u @ 0 # x) r = Some 0
    \<and> (\<exists>z. check_password digest e junk (q @ 0 # y) r = Some z
        \<and> (z = 0 \<longleftrightarrow> digest EVP_sha256 (generate_random_nonce e 8 @ q) = digest EVP_sha256 (generate_random_nonce e 8 @ u)))
    \<and> (length u < 52 \<longrightarrow> (\<exists>z. check_password digest e junk (q @ 0 # y) (u @ 0 # x) = Some z \<and> (z = 0 \<longleftrightarrow> q = u)))"
proof -
  let ?salt = "generate_random_nonce e 8" and ?y = "drop 85 result"
  let ?r = "enc_form digest ?salt u @ 0 # ?y"
  have salt: "length ?salt = 8"
    by (simp add: generate_random_nonce_def)
  have "generate_new_enc_password digest e junk (u @ 0 # x) result = Some ?r"
    using generate_enc_password_eq [OF assms(1,2,4), of junk None e x] assms(5)
    by (simp add: generate_new_enc_password_def new_salt_def)
  moreover have "length ?r = length result"
    using enc_form_props(1) [OF assms(1) salt] assms(4) by simp
  moreover have "check_password digest e junk (u @ 0 # x) ?r = Some 0"
    using check_enc_password [OF assms(1,2,5) salt] by fastforce
  moreover have "\<exists>z. check_password digest e junk (q @ 0 # y) ?r = Some z
      \<and> (z = 0 \<longleftrightarrow> digest EVP_sha256 (?salt @ q) = digest EVP_sha256 (?salt @ u))"
    by (rule check_enc_password [OF assms(1,3,5) salt])
  moreover have "\<exists>z. check_password digest e junk (q @ 0 # y) (u @ 0 # x) = Some z \<and> (z = 0 \<longleftrightarrow> q = u)" if "length u < 52"
    using that c_strcmp_iff [OF assms(3,2), of y x]
    by (simp add: check_password_def encrypted_password_def c_strlen_append assms(2))
  ultimately show ?thesis
    by blast
qed

theorem password_check_correct_witness:
  "\<exists>r. generate_new_enc_password (\<lambda>md d. replicate (md_size md) (of_nat (length d))) sample_entropy (replicate 257 0)
      (c_lit ''secret'') (replicate 100 0) = Some r
    \<and> check_password (\<lambda>md d. replicate (md_size md) (of_nat (length d))) sample_entropy (replicate 257 0) (c_lit ''secret'') r = Some 0"
proof -
  have "digest_ok (\<lambda>md d. replicate (md_size md) (of_nat (length d)))"
    by (simp add: digest_ok_def)
  moreover have "0 \<notin> set (chars ''secret'')"
    by (simp add: chars_def of_char_def)
  ultimately show ?thesis
    using password_check_correct [of "\<lambda>md d. replicate (md_size md) (of_nat (length d))" "chars ''secret''" "[]"
        "replicate 100 0" "replicate 257 0" sample_entropy "[]" "[]"]
    unfolding c_lit_def by fastforce
qed

end
