(* ===== verification/Oauth.thy ===== *)
theory Oauth
  imports Credentials
begin

text \<open>
  OAuth keys and tokens of \<open>client/ns_turn_msg.c\<close>, with the AES-GCM ciphers compiled in.

  OpenSSL's cipher contexts are outside the repository: the record \<open>evp\<close> has one field per call the code
  makes, over an arbitrary type of contexts, and \<open>gcm_ok\<close> states what the documentation promises of them.
  The current time is the argument \<open>now\<close>.  A write behind an array is \<open>None\<close>.
\<close>

subsection \<open>Data\<close>

datatype ENC_ALG = ENC_ALG_ERROR | A256GCM | A128GCM | ENC_ALG_NUM

record oauth_key_data =
  kd_kid :: mem
  kd_ikm_key :: mem
  kd_ikm_key_size :: nat
  kd_timestamp :: u32
  kd_lifetime :: u32
  kd_as_rs_alg :: mem

record oauth_key =
  k_kid :: mem
  k_ikm_key :: mem
  k_ikm_key_size :: nat
  k_timestamp :: u32
  k_lifetime :: u32
  k_as_rs_alg :: ENC_ALG
  k_as_rs_key :: mem
  k_as_rs_key_size :: nat
  k_auth_key :: mem
  k_auth_key_size :: nat

record oauth_encrypted_block =
  nonce_length :: u16
  nonce :: mem
  key_length :: u16
  mac_key :: mem
  timestamp :: u64
  lifetime :: u32

record oauth_token =
  enc_block :: oauth_encrypted_block

record encoded_oauth_token =
  token :: mem
  token_size :: nat

datatype EVP_CIPHER = EVP_aes_128_gcm | EVP_aes_256_gcm

text \<open>
  One field per OpenSSL call.  \<open>None\<close> is a result other than 1.  An update returns its result, the bytes
  it produced (their number is \<open>tmp_outl\<close>) and the context; its flag says whether there is an output array.
\<close>

record 'c evp =
  EncryptInit :: "EVP_CIPHER \<Rightarrow> 'c option"
  DecryptInit :: "EVP_CIPHER \<Rightarrow> 'c option"
  set_ivlen :: "nat \<Rightarrow> 'c \<Rightarrow> 'c option"
  set_key_iv :: "mem \<Rightarrow> mem \<Rightarrow> 'c \<Rightarrow> 'c option"
  set_tag :: "mem \<Rightarrow> 'c \<Rightarrow> 'c"
  get_tag :: "'c \<Rightarrow> mem"
  EncryptUpdate :: "bool \<Rightarrow> mem \<Rightarrow> 'c \<Rightarrow> int \<times> mem \<times> 'c"
  DecryptUpdate :: "bool \<Rightarrow> mem \<Rightarrow> 'c \<Rightarrow> int \<times> mem \<times> 'c"
  EncryptFinal :: "'c \<Rightarrow> mem \<times> 'c"
  DecryptFinal :: "'c \<Rightarrow> int \<times> mem \<times> 'c"

subsection \<open>Strings of the key data\<close>

text \<open>The first loop of \<open>remove_spaces\<close> is \<open>skip_blanks\<close> of theory \<open>C_Strings\<close>.\<close>

text \<open>The loop that moves the word at \<open>p\<close> to \<open>s\<close>, and the loop that ends the word in place.\<close>

function move_word :: "mem \<Rightarrow> nat \<Rightarrow> nat \<Rightarrow> mem option" where
  "move_word m s p = do {
     c \<leftarrow> rd8 m p;
     if c \<noteq> 0 \<and> c \<noteq> 32 then do { m' \<leftarrow> wr8 m s c; move_word m' (s + 1) (p + 1) }
     else wr8 m s 0 }"
  by pat_completeness auto
termination
  by (relation "measure (\<lambda>(m, s, p). length m - p)") (auto simp: rd8_def wr8_def wrn_def split: if_splits)

function end_word :: "mem \<Rightarrow> nat \<Rightarrow> mem option" where
  "end_word m s = do {
     c \<leftarrow> rd8 m s;
     if c = 0 then Some m else if c = 32 then wr8 m s 0 else end_word m (s + 1) }"
  by pat_completeness auto
termination
  by (relation "measure (\<lambda>(m, s). length m - s)") (auto simp: rd8_def split: if_splits)

definition remove_spaces :: "mem \<Rightarrow> mem option" where
  "remove_spaces m = do {
     p \<leftarrow> skip_blanks m 0;
     c \<leftarrow> rd8 m p;
     if c \<noteq> 0 then (if p \<noteq> 0 then move_word m 0 p else end_word m 0) else Some m }"

definition norm_char :: "u8 \<Rightarrow> u8" where
  "norm_char c = (if c = 95 then 45 else if c \<ge> 97 \<and> c \<le> 122 then c - 97 + 65 else c)"

function norm_loop :: "mem \<Rightarrow> nat \<Rightarrow> mem option" where
  "norm_loop m i = do {
     c \<leftarrow> rd8 m i;
     if c = 0 then Some m else do { m' \<leftarrow> wr8 m i (norm_char c); norm_loop m' (i + 1) } }"
  by pat_completeness auto
termination
  by (relation "measure (\<lambda>(m, i). length m - i)") (auto simp: rd8_def wr8_def wrn_def split: if_splits)

definition normalize_algorithm :: "mem \<Rightarrow> mem option" where
  "normalize_algorithm m = norm_loop m 0"

subsection \<open>Keys\<close>

definition calculate_enc_key_length :: "ENC_ALG \<Rightarrow> nat" where
  "calculate_enc_key_length a = (if a = A128GCM then 16 else 32)"

definition calculate_auth_key_length :: "ENC_ALG \<Rightarrow> nat" where
  "calculate_auth_key_length a = 0"

definition calculate_key :: "mem \<Rightarrow> nat \<Rightarrow> mem \<Rightarrow> nat \<Rightarrow> (int \<times> mem) option" where
  "calculate_key key key_size new_key new_key_size = do {
     bs \<leftarrow> rdn key 0 new_key_size;
     k \<leftarrow> wrn new_key 0 bs;
     Some (0, k) }"

text \<open>\<open>snprintf\<close> of a text into the caller's message array, if there is one.\<close>

definition put_msg :: "mem option \<Rightarrow> nat \<Rightarrow> mem \<Rightarrow> mem option option" where
  "put_msg err sz text = (case err of None \<Rightarrow> Some None
   | Some m \<Rightarrow> if sz = 0 then Some (Some m) else map_option Some (wrn m 0 (take (sz - 1) text @ [0])))"

definition zero_key :: oauth_key where
  "zero_key = \<lparr>k_kid = replicate 129 0, k_ikm_key = replicate 257 0, k_ikm_key_size = 0, k_timestamp = 0,
     k_lifetime = 0, k_as_rs_alg = A256GCM, k_as_rs_key = replicate 257 0, k_as_rs_key_size = 0,
     k_auth_key = replicate 257 0, k_auth_key_size = 0\<rparr>"

text \<open>The fields of the key before the algorithm is looked at.\<close>

definition key_fields :: "u32 \<Rightarrow> oauth_key_data \<Rightarrow> mem \<Rightarrow> oauth_key option" where
  "key_fields now oakd kid = do {
     s \<leftarrow> c_strncpy 129 kid;
     s \<leftarrow> wr8 s 128 0;
     ikm \<leftarrow> rdn (kd_ikm_key oakd) 0 257;
     Some (zero_key\<lparr>k_kid := s, k_ikm_key := ikm, k_ikm_key_size := kd_ikm_key_size oakd,
       k_timestamp := (if kd_timestamp oakd = 0 then now else kd_timestamp oakd),
       k_lifetime := (if kd_lifetime oakd = 0 then 0 else kd_lifetime oakd),
       k_as_rs_alg := A256GCM\<rparr>) }"

definition key_of_alg :: "oauth_key \<Rightarrow> ENC_ALG \<Rightarrow> (int \<times> oauth_key) option" where
  "key_of_alg key a = do {
     let n = calculate_auth_key_length a;
     auth \<leftarrow> wr8 (k_auth_key key) 0 0;
     (r, auth) \<leftarrow> (if n \<noteq> 0 then calculate_key (k_ikm_key key) (k_ikm_key_size key) auth n else Some (0, auth));
     let key = key\<lparr>k_as_rs_alg := a, k_auth_key := auth, k_auth_key_size := n\<rparr>;
     if r < 0 then Some (-1, key)
     else do {
       let n = calculate_enc_key_length a;
       (r, k) \<leftarrow> calculate_key (k_ikm_key key) (k_ikm_key_size key) (k_as_rs_key key) n;
       Some (if r < 0 then -1 else 0, key\<lparr>k_as_rs_key := k, k_as_rs_key_size := n\<rparr>) } }"

definition convert_oauth_key_data ::
    "u32 \<Rightarrow> oauth_key_data option \<Rightarrow> oauth_key option \<Rightarrow> mem option \<Rightarrow> nat
     \<Rightarrow> (int \<times> oauth_key option \<times> mem option) option" where
  "convert_oauth_key_data now oakd0 key err err_size = (case (oakd0, key) of
     (Some oakd, Some key0) \<Rightarrow> do {
       err \<leftarrow> (if kd_ikm_key_size oakd = 0 then put_msg err err_size (chars ''key is not defined'') else Some err);
       kid \<leftarrow> remove_spaces (kd_kid oakd);
       alg \<leftarrow> remove_spaces (kd_as_rs_alg oakd);
       alg \<leftarrow> normalize_algorithm alg;
       k0 \<leftarrow> rd8 kid 0;
       if k0 = 0 then do {
         err \<leftarrow> put_msg err err_size (chars ''KID is not defined'');
         Some (-1, Some key0, err) }
       else do {
         k \<leftarrow> key_fields now oakd kid;
         a128 \<leftarrow> c_streq alg (c_lit ''A128GCM'');
         a256 \<leftarrow> (if a128 then Some False else c_streq alg (c_lit ''A256GCM''));
         if a128 \<or> a256 then do {
           (r, k) \<leftarrow> key_of_alg k (if a128 then A128GCM else A256GCM);
           Some (r, Some k, err) }
         else do {
           a \<leftarrow> c_str alg;
           err \<leftarrow> put_msg err err_size (chars ''Wrong oAuth token encryption algorithm: '' @ a @ chars '' (2)'' @ [10]);
           Some (-1, Some k, err) } } }
   | _ \<Rightarrow> Some (0, key, err))"

subsection \<open>Ciphers\<close>

definition get_cipher_type :: "ENC_ALG \<Rightarrow> EVP_CIPHER option" where
  "get_cipher_type enc_alg = (case enc_alg of A128GCM \<Rightarrow> Some EVP_aes_128_gcm
     | A256GCM \<Rightarrow> Some EVP_aes_256_gcm | _ \<Rightarrow> None)"

text \<open>
  The loop of the two update functions, which differ in the OpenSSL call only: \<open>k\<close> is the number of
  rounds the counter still allows, \<open>out\<close> the array with the offset of the output pointer.
\<close>

fun evp_loop :: "(bool \<Rightarrow> mem \<Rightarrow> 'c \<Rightarrow> int \<times> mem \<times> 'c) \<Rightarrow> nat \<Rightarrow> 'c \<Rightarrow> (mem \<times> nat) option \<Rightarrow> nat
    \<Rightarrow> mem \<Rightarrow> nat \<Rightarrow> nat \<Rightarrow> (int \<times> 'c \<times> mem option \<times> nat) option" where
  "evp_loop upd 0 ctx out outl inp inl out_len = Some (1, ctx, map_option fst out, out_len)"
| "evp_loop upd (Suc k) ctx out outl inp inl out_len =
     (if out_len < inl then do {
        d \<leftarrow> rdn inp out_len (inl - out_len);
        let (ret, bs, ctx) = upd (out \<noteq> None) d ctx;
        out \<leftarrow> (case out of None \<Rightarrow> Some None
               | Some (m, p) \<Rightarrow> map_option (\<lambda>m. Some (m, p)) (wrn m (p + out_len) bs));
        if ret < 1 then Some (ret, ctx, map_option fst out, outl)
        else evp_loop upd k ctx out outl inp inl (out_len + length bs) }
      else Some (1, ctx, map_option fst out, out_len))"

definition my_EVP_EncryptUpdate :: "'c evp \<Rightarrow> 'c \<Rightarrow> (mem \<times> nat) option \<Rightarrow> nat \<Rightarrow> mem \<Rightarrow> nat
    \<Rightarrow> (int \<times> 'c \<times> mem option \<times> nat) option" where
  "my_EVP_EncryptUpdate E ctx out outl inp inl = evp_loop (EncryptUpdate E) 127 ctx out outl inp inl 0"

definition my_EVP_DecryptUpdate :: "'c evp \<Rightarrow> 'c \<Rightarrow> (mem \<times> nat) option \<Rightarrow> nat \<Rightarrow> mem \<Rightarrow> nat
    \<Rightarrow> (int \<times> 'c \<times> mem option \<times> nat) option" where
  "my_EVP_DecryptUpdate E ctx out outl inp inl = evp_loop (DecryptUpdate E) 127 ctx out outl inp inl 0"

subsection \<open>Tokens\<close>

text \<open>The plain text of a token: nonce with its length, key with its length, time stamp and lifetime.\<close>

definition oauth_plain :: "mem \<Rightarrow> oauth_encrypted_block \<Rightarrow> (mem \<times> nat) option" where
  "oauth_plain nc blk = do {
     let f = replicate 1024 0;
     f \<leftarrow> wr16 f 0 (nswap16 12);
     f \<leftarrow> wrn f 2 nc;
     f \<leftarrow> wr16 f 14 (nswap16 (key_length blk));
     let kl = unat (key_length blk);
     k \<leftarrow> rdn (mac_key blk) 0 kl;
     f \<leftarrow> wrn f 16 k;
     f \<leftarrow> wrn f (16 + kl) (bytes64 (nswap64 (timestamp blk)));
     f \<leftarrow> wr32 f (24 + kl) (nswap32 (lifetime blk));
     Some (f, 28 + kl) }"

text \<open>Setting up a context: cipher, length of the nonce, key and nonce.\<close>

definition gcm_setup :: "'c evp \<Rightarrow> 'c option \<Rightarrow> mem \<Rightarrow> mem \<Rightarrow> 'c option" where
  "gcm_setup E ctx key iv = Option.bind ctx (\<lambda>c. Option.bind (set_ivlen E (length iv) c) (set_key_iv E key iv))"

definition encode_oauth_token_gcm ::
    "entropy \<Rightarrow> 'c evp \<Rightarrow> mem option \<Rightarrow> encoded_oauth_token option \<Rightarrow> oauth_key option \<Rightarrow> oauth_token option \<Rightarrow> mem option
     \<Rightarrow> (int \<times> encoded_oauth_token option) option" where
  "encode_oauth_token_gcm e E server_name etoken key dtoken nonce0 = (case (server_name, etoken, key, dtoken) of
     (Some sn, Some et, Some k, Some dt) \<Rightarrow>
       if key_length (enc_block dt) \<le> 128 then do {
         nc \<leftarrow> (case nonce0 of Some n \<Rightarrow> rdn n 0 12 | None \<Rightarrow> Some (generate_random_nonce e 12));
         (orig_field, len) \<leftarrow> oauth_plain nc (enc_block dt);
         case get_cipher_type (k_as_rs_alg k) of None \<Rightarrow> Some (-1, etoken)
         | Some cipher \<Rightarrow> (case gcm_setup E (EncryptInit E cipher) (k_as_rs_key k) nc of None \<Rightarrow> Some (-1, etoken)
           | Some ctx \<Rightarrow> do {
               sn_len \<leftarrow> c_strlen sn;
               (r, ctx, _, _) \<leftarrow> my_EVP_EncryptUpdate E ctx None 0 sn sn_len;
               if r \<noteq> 1 then Some (-1, etoken)
               else do {
                 hd \<leftarrow> rdn orig_field 0 14;
                 t \<leftarrow> wrn (token et) 0 hd;
                 (r, ctx, out, outl) \<leftarrow> my_EVP_EncryptUpdate E ctx (Some (t, 14)) 0 (drop 14 orig_field) (len - 14);
                 t \<leftarrow> out;
                 if r \<noteq> 1 then Some (-1, Some (et\<lparr>token := t\<rparr>))
                 else do {
                   let (bs, ctx) = EncryptFinal E ctx;
                   t \<leftarrow> wrn t (14 + outl) bs;
                   let outl = outl + length bs;
                   t \<leftarrow> wrn t (14 + outl) (get_tag E ctx);
                   let outl = outl + 16;
                   Some (0, Some (et\<lparr>token := t, token_size := 2 + 12 + outl\<rparr>)) } } }) }
       else Some (-1, etoken)
   | _ \<Rightarrow> Some (-1, etoken))"

text \<open>Reading the decrypted field into the block.\<close>

definition oauth_unpack :: "mem \<Rightarrow> oauth_encrypted_block \<Rightarrow> oauth_encrypted_block option" where
  "oauth_unpack f blk = do {
     w \<leftarrow> rd16 f 0;
     let kl = unat (nswap16 w);
     bs \<leftarrow> rdn f 2 kl;
     mk \<leftarrow> wrn (mac_key blk) 0 bs;
     ts \<leftarrow> rdn f (2 + kl) 8;
     lt \<leftarrow> rd32 f (2 + kl + 8);
     Some (blk\<lparr>key_length := nswap16 w, mac_key := mk,
       timestamp := nswap64 (le64 (ts ! 0) (ts ! 1) (ts ! 2) (ts ! 3) (ts ! 4) (ts ! 5) (ts ! 6) (ts ! 7)),
       lifetime := nswap32 lt\<rparr>) }"

definition decode_oauth_token_gcm ::
    "'c evp \<Rightarrow> mem \<Rightarrow> mem option \<Rightarrow> encoded_oauth_token option \<Rightarrow> oauth_key option \<Rightarrow> oauth_token option
     \<Rightarrow> (int \<times> oauth_token option) option" where
  "decode_oauth_token_gcm E junk server_name etoken key dtoken = (case (server_name, etoken, key, dtoken) of
     (Some sn, Some et, Some k, Some dt) \<Rightarrow> do {
       w \<leftarrow> rd16 (token et) 0;
       let nl = unat (nswap16 w);
       let blk = (enc_block dt)\<lparr>nonce_length := nswap16 w\<rparr>;
       if token_size et < 2 + 4 + 8 + nl + 2 + 16 + 1 then Some (-1, Some (dt\<lparr>enc_block := blk\<rparr>))
       else do {
         let encoded_field_size = nat ((int (token_size et) - int nl - 2 - 16) mod 2 ^ 32);
         nc \<leftarrow> rdn (token et) 2 nl;
         n \<leftarrow> wrn (nonce blk) 0 nc;
         let blk = blk\<lparr>nonce := n\<rparr>;
         let fail = Some (-1, Some (dt\<lparr>enc_block := blk\<rparr>));
         tag \<leftarrow> rdn (token et) (nl + 2 + encoded_field_size) 16;
         case get_cipher_type (k_as_rs_alg k) of None \<Rightarrow> fail
         | Some cipher \<Rightarrow> (case gcm_setup E (DecryptInit E cipher) (k_as_rs_key k) nc of None \<Rightarrow> fail
           | Some ctx \<Rightarrow> do {
               let ctx = set_tag E tag ctx;
               sn_len \<leftarrow> c_strlen sn;
               (r, ctx, _, outl) \<leftarrow> my_EVP_DecryptUpdate E ctx None 0 sn sn_len;
               if r \<noteq> 1 then fail
               else do {
                 (r, ctx, out, outl) \<leftarrow> my_EVP_DecryptUpdate E ctx (Some (junk, 0)) outl
                                          (drop (nl + 2) (token et)) encoded_field_size;
                 f \<leftarrow> out;
                 if r \<noteq> 1 then fail
                 else do {
                   let (r, bs, ctx) = DecryptFinal E ctx;
                   f \<leftarrow> wrn f outl bs;
                   if r < 1 then fail
                   else do {
                     blk \<leftarrow> oauth_unpack f blk;
                     Some (0, Some (dt\<lparr>enc_block := blk\<rparr>)) } } } }) } }
   | _ \<Rightarrow> Some (-1, dtoken))"

definition encode_oauth_token_normal :: "mem option \<Rightarrow> encoded_oauth_token option \<Rightarrow> oauth_key option \<Rightarrow> oauth_token option \<Rightarrow> int" where
  "encode_oauth_token_normal server_name etoken key dtoken = -1"

definition decode_oauth_token_normal :: "mem option \<Rightarrow> encoded_oauth_token option \<Rightarrow> oauth_key option \<Rightarrow> oauth_token option \<Rightarrow> int" where
  "decode_oauth_token_normal server_name etoken key dtoken = -1"

definition encode_oauth_token ::
    "entropy \<Rightarrow> 'c evp \<Rightarrow> mem option \<Rightarrow> encoded_oauth_token option \<Rightarrow> oauth_key option \<Rightarrow> oauth_token option \<Rightarrow> mem option
     \<Rightarrow> (int \<times> encoded_oauth_token option) option" where
  "encode_oauth_token e E server_name etoken key dtoken nc = (case (server_name, etoken, key, dtoken) of
     (Some sn, Some et, Some k, Some dt) \<Rightarrow>
       if k_as_rs_alg k = A256GCM \<or> k_as_rs_alg k = A128GCM
       then encode_oauth_token_gcm e E server_name etoken key dtoken nc else Some (-1, etoken)
   | _ \<Rightarrow> Some (-1, etoken))"

definition decode_oauth_token ::
    "'c evp \<Rightarrow> mem \<Rightarrow> mem option \<Rightarrow> encoded_oauth_token option \<Rightarrow> oauth_key option \<Rightarrow> oauth_token option
     \<Rightarrow> (int \<times> oauth_token option) option" where
  "decode_oauth_token E junk server_name etoken key dtoken = (case (server_name, etoken, key, dtoken) of
     (Some sn, Some et, Some k, Some dt) \<Rightarrow>
       if k_as_rs_alg k = A256GCM \<or> k_as_rs_alg k = A128GCM
       then decode_oauth_token_gcm E junk server_name etoken key dtoken else Some (-1, dtoken)
   | _ \<Rightarrow> Some (-1, dtoken))"

subsection \<open>Words in byte arrays\<close>

lemma le64_parts:
  assumes "lo = le32 b0 b1 b2 b3" and "hi = le32 b4 b5 b6 b7"
  shows "bit (le64 b0 b1 b2 b3 b4 b5 b6 b7) n = (if n < 32 then bit lo n else n < 64 \<and> bit hi (n - 32))"
  using assms by (auto simp: le64_def bit_simps dest: bit_imp_le_length)

lemma byte_of_le64:
  "byte_of 0 (le64 b0 b1 b2 b3 b4 b5 b6 b7) = b0" "byte_of (Suc 0) (le64 b0 b1 b2 b3 b4 b5 b6 b7) = b1"
  "byte_of 2 (le64 b0 b1 b2 b3 b4 b5 b6 b7) = b2" "byte_of 3 (le64 b0 b1 b2 b3 b4 b5 b6 b7) = b3"
  "byte_of 4 (le64 b0 b1 b2 b3 b4 b5 b6 b7) = b4" "byte_of 5 (le64 b0 b1 b2 b3 b4 b5 b6 b7) = b5"
  "byte_of 6 (le64 b0 b1 b2 b3 b4 b5 b6 b7) = b6" "byte_of 7 (le64 b0 b1 b2 b3 b4 b5 b6 b7) = b7"
  by (auto intro!: bit_word_eqI simp: byte_of_def le64_parts [OF refl refl] le32_def bit_simps)

lemma byte_of_ucast:
  assumes "k < 4"
  shows "byte_of k (ucast (w :: u64) :: u32) = byte_of k w"
    and "byte_of k (ucast (drop_bit 32 (w :: u64)) :: u32) = byte_of (k + 4) w"
  using assms by (auto intro!: bit_word_eqI simp: byte_of_def bit_simps algebra_simps dest: bit_imp_le_length)

lemma le64_byte_of:
  "le64 (byte_of 0 w) (byte_of (Suc 0) w) (byte_of 2 w) (byte_of 3 w)
     (byte_of 4 w) (byte_of 5 w) (byte_of 6 w) (byte_of 7 w) = w"
proof (rule bit_word_eqI)
  fix n assume n: "n < LENGTH(64)"
  have lo: "le32 (byte_of 0 w) (byte_of (Suc 0) w) (byte_of 2 w) (byte_of 3 w) = ucast w"
    using le32_byte_of [of "ucast w"] by (simp add: byte_of_ucast)
  have hi: "le32 (byte_of 4 w) (byte_of 5 w) (byte_of 6 w) (byte_of 7 w) = ucast (drop_bit 32 w)"
    using le32_byte_of [of "ucast (drop_bit 32 w)"] by (simp add: byte_of_ucast(2))
  show "bit (le64 (byte_of 0 w) (byte_of (Suc 0) w) (byte_of 2 w) (byte_of 3 w)
     (byte_of 4 w) (byte_of 5 w) (byte_of 6 w) (byte_of 7 w)) n = bit w n"
    using n by (auto simp: le64_parts [OF lo [symmetric] hi [symmetric]] bit_simps)
qed

lemma nswap64_rev: "nswap64 v = le64 (byte_of 7 v) (byte_of 6 v) (byte_of 5 v) (byte_of 4 v)
    (byte_of 3 v) (byte_of 2 v) (byte_of (Suc 0) v) (byte_of 0 v)"
  by (simp add: nswap64_def bytes64_def numeral_eq_Suc)

lemma nswap64_nswap64: "nswap64 (nswap64 v) = v"
  by (simp add: nswap64_rev byte_of_le64 le64_byte_of)

lemma rd16_at: "length a = i \<Longrightarrow> rd16 (a @ bytes16 w @ r) i = Some w"
  by (auto simp: rd16_def bytes16_def nth_append le16_byte_of)

lemma rd32_at: "length a = i \<Longrightarrow> rd32 (a @ bytes32 w @ r) i = Some w"
  by (auto simp: rd32_def bytes32_def nth_append le32_byte_of)

lemma rdn_at: "length a = i \<Longrightarrow> length b = n \<Longrightarrow> rdn (a @ b @ c) i n = Some b"
  by (auto simp: rdn_def)

text \<open>Filling a cleared array from the front.\<close>

lemma wrn_fill: "length a = i \<Longrightarrow> length c \<le> n \<Longrightarrow>
    wrn (a @ replicate n 0) i c = Some ((a @ c) @ replicate (n - length c) 0)"
  by (auto simp: wrn_def)

subsection \<open>Tokens\<close>

definition oauth_body :: "oauth_encrypted_block \<Rightarrow> mem" where
  "oauth_body blk = bytes16 (nswap16 (key_length blk)) @ take (unat (key_length blk)) (mac_key blk)
     @ bytes64 (nswap64 (timestamp blk)) @ bytes32 (nswap32 (lifetime blk))"

definition wf_block :: "oauth_encrypted_block \<Rightarrow> bool" where
  "wf_block blk \<longleftrightarrow> length (nonce blk) = 256 \<and> length (mac_key blk) = 128"

lemma length_oauth_body:
  "wf_block blk \<Longrightarrow> unat (key_length blk) \<le> 128 \<Longrightarrow> length (oauth_body blk) = 14 + unat (key_length blk)"
  by (simp add: oauth_body_def wf_block_def)

lemma oauth_plain_eq:
  assumes "length nc = 12" and "wf_block blk" and "unat (key_length blk) \<le> 128"
  shows "oauth_plain nc blk = Some ((bytes16 (nswap16 12) @ nc @ oauth_body blk)
    @ replicate (996 - unat (key_length blk)) 0, 28 + unat (key_length blk))"
proof -
  let ?kl = "unat (key_length blk)"
  let ?n = "bytes16 (nswap16 12)" and ?l = "bytes16 (nswap16 (key_length blk))"
    and ?k = "take ?kl (mac_key blk)" and ?t = "bytes64 (nswap64 (timestamp blk))"
  have lk: "length ?k = ?kl"
    using assms(2,3) by (simp add: wf_block_def)
  have w1: "wr16 (replicate 1024 0) 0 (nswap16 12) = Some (?n @ replicate 1022 0)"
    using wrn_fill [of "[]" 0 ?n 1024] by (simp add: wr16_def)
  have w2: "wrn (?n @ replicate 1022 0) 2 nc = Some ((?n @ nc) @ replicate 1010 0)"
    using wrn_fill [of ?n 2 nc 1022] assms(1) by simp
  have w3: "wr16 ((?n @ nc) @ replicate 1010 0) 14 (nswap16 (key_length blk)) = Some (((?n @ nc) @ ?l) @ replicate 1008 0)"
    using wrn_fill [of "?n @ nc" 14 ?l 1010] assms(1) by (simp add: wr16_def)
  have r: "rdn (mac_key blk) 0 ?kl = Some ?k"
    using assms(2,3) by (simp add: rdn_def wf_block_def)
  have w4: "wrn (((?n @ nc) @ ?l) @ replicate 1008 0) 16 ?k = Some ((((?n @ nc) @ ?l) @ ?k) @ replicate (1008 - ?kl) 0)"
    using wrn_fill [of "(?n @ nc) @ ?l" 16 ?k 1008] assms(1,3) lk by simp
  have w5: "wrn ((((?n @ nc) @ ?l) @ ?k) @ replicate (1008 - ?kl) 0) (16 + ?kl) ?t =
      Some (((((?n @ nc) @ ?l) @ ?k) @ ?t) @ replicate (1000 - ?kl) 0)"
    using wrn_fill [of "((?n @ nc) @ ?l) @ ?k" "16 + ?kl" ?t "1008 - ?kl"] assms(1,3) lk by simp
  have w6: "wr32 (((((?n @ nc) @ ?l) @ ?k) @ ?t) @ replicate (1000 - ?kl) 0) (24 + ?kl) (nswap32 (lifetime blk)) =
      Some ((((((?n @ nc) @ ?l) @ ?k) @ ?t) @ bytes32 (nswap32 (lifetime blk))) @ replicate (996 - ?kl) 0)"
    using wrn_fill [of "(((?n @ nc) @ ?l) @ ?k) @ ?t" "24 + ?kl" "bytes32 (nswap32 (lifetime blk))" "1000 - ?kl"] assms(1,3) lk
    by (simp add: wr32_def)
  show ?thesis
    unfolding oauth_plain_def Let_def
    by (simp only: w1 w2 w3 r w4 w5 w6 bind.bind_lunit) (simp add: oauth_body_def)
qed

lemma oauth_unpack_eq:
  assumes "wf_block blk" and "unat (key_length blk) \<le> 128" and "wf_block b0"
  shows "oauth_unpack (oauth_body blk @ rest) b0 = Some (b0\<lparr>key_length := key_length blk,
    mac_key := take (unat (key_length blk)) (mac_key blk) @ drop (unat (key_length blk)) (mac_key b0),
    timestamp := timestamp blk, lifetime := lifetime blk\<rparr>)"
proof -
  let ?kl = "unat (key_length blk)"
  let ?l = "bytes16 (nswap16 (key_length blk))" and ?k = "take ?kl (mac_key blk)"
    and ?t = "bytes64 (nswap64 (timestamp blk))" and ?f = "bytes32 (nswap32 (lifetime blk))"
  let ?m = "oauth_body blk @ rest"
  have lk: "length ?k = ?kl"
    using assms(1,2) by (simp add: wf_block_def)
  have "rd16 ?m 0 = Some (nswap16 (key_length blk))"
    using rd16_at [of "[]" 0] by (simp add: oauth_body_def)
  moreover have "rdn ?m 2 ?kl = Some ?k"
    using rdn_at [of ?l 2 ?k ?kl] lk by (simp add: oauth_body_def)
  moreover have "rdn ?m (2 + ?kl) 8 = Some ?t"
    using rdn_at [of "?l @ ?k" "2 + ?kl" ?t 8] lk by (simp add: oauth_body_def)
  moreover have "rd32 ?m (2 + ?kl + 8) = Some (nswap32 (lifetime blk))"
    using rd32_at [of "?l @ ?k @ ?t" "2 + ?kl + 8"] lk by (simp add: oauth_body_def)
  moreover have "wrn (mac_key b0) 0 ?k = Some (?k @ drop ?kl (mac_key b0))"
    using assms(2,3) lk by (simp add: wrn_def wf_block_def)
  moreover have "le64 (?t ! 0) (?t ! 1) (?t ! 2) (?t ! 3) (?t ! 4) (?t ! 5) (?t ! 6) (?t ! 7) = nswap64 (timestamp blk)"
    by (simp add: bytes64_def le64_byte_of)
  ultimately show ?thesis
    unfolding oauth_unpack_def Let_def
    by (simp only: bind.bind_lunit nswap16_nswap16 nswap32_nswap32 nswap64_nswap64)
qed

text \<open>
  What OpenSSL documents of a GCM context: every call succeeds, an update produces as many bytes as it gets,
  the final call none, the tag has 16 bytes, and decryption under the same key, nonce and additional data with
  the tag set gives the plain text back and verifies.  Additional data is fed only if there is any.
\<close>

definition feed :: "(bool \<Rightarrow> mem \<Rightarrow> 'c \<Rightarrow> int \<times> mem \<times> 'c) \<Rightarrow> bool \<Rightarrow> mem \<Rightarrow> 'c \<Rightarrow> int \<times> mem \<times> 'c" where
  "feed upd flag d c = (if d = [] then (1, [], c) else upd flag d c)"

definition gcm_run :: "'c evp \<Rightarrow> EVP_CIPHER \<Rightarrow> mem \<Rightarrow> mem \<Rightarrow> mem \<Rightarrow> mem \<Rightarrow> mem \<Rightarrow> bool" where
  "gcm_run E cipher key iv aad p ct \<longleftrightarrow> (\<exists>c0 c1 c2 c3 d0 d1 d2 d3 x y.
     gcm_setup E (EncryptInit E cipher) key iv = Some c0
   \<and> feed (EncryptUpdate E) False aad c0 = (1, x, c1) \<and> length x = length aad
   \<and> feed (EncryptUpdate E) True p c1 = (1, ct, c2) \<and> length ct = length p
   \<and> EncryptFinal E c2 = ([], c3) \<and> length (get_tag E c3) = 16
   \<and> gcm_setup E (DecryptInit E cipher) key iv = Some d0
   \<and> feed (DecryptUpdate E) False aad (set_tag E (get_tag E c3) d0) = (1, y, d1) \<and> length y = length aad
   \<and> feed (DecryptUpdate E) True ct d1 = (1, p, d2)
   \<and> DecryptFinal E d2 = (1, [], d3))"

definition gcm_ok :: "'c evp \<Rightarrow> bool" where
  "gcm_ok E \<longleftrightarrow> (\<forall>cipher key iv aad p. length iv = 12 \<longrightarrow> (\<exists>ct. gcm_run E cipher key iv aad p ct))"

lemma evp_loop_once:
  assumes "inl \<le> length inp" and "feed upd (out \<noteq> None) (take inl inp) c = (1, bs, c')" and "length bs = inl"
  shows "out = None \<Longrightarrow> evp_loop upd 127 c out outl inp inl 0 = Some (1, c', None, inl)"
    and "out = Some (m, p) \<Longrightarrow> p + inl \<le> length m \<Longrightarrow>
      evp_loop upd 127 c out outl inp inl 0 = Some (1, c', Some (take p m @ bs @ drop (p + inl) m), inl)"
proof -
  have k: "(127 :: nat) = Suc 126" "(126 :: nat) = Suc 125"
    by simp_all
  have e: "evp_loop upd 126 c' o' outl inp inl inl = Some (1, c', map_option fst o', inl)" for o'
    unfolding k(2) evp_loop.simps by simp
  have rd: "rdn inp 0 inl = Some (take inl inp)"
    using assms(1) by (simp add: rdn_def)
  have z: "c' = c \<and> bs = []" if "inl = 0"
    using assms(2) that by (auto simp: feed_def)
  have u: "upd (out \<noteq> None) (take inl inp) c = (1, bs, c')" if "inl \<noteq> 0"
  proof -
    have "take inl inp \<noteq> []"
      using assms(1) that by auto
    then show ?thesis
      using assms(2) by (simp only: feed_def if_False)
  qed
  show "evp_loop upd 127 c out outl inp inl 0 = Some (1, c', None, inl)" if "out = None"
  proof (cases "inl = 0")
    case False
    then show ?thesis
      unfolding k(1) evp_loop.simps(2) [of upd 126] using u that assms(3) e by (simp add: rd)
  qed (use z that in \<open>simp only: k(1) evp_loop.simps\<close>, simp)
  show "evp_loop upd 127 c out outl inp inl 0 = Some (1, c', Some (take p m @ bs @ drop (p + inl) m), inl)"
    if "out = Some (m, p)" "p + inl \<le> length m"
  proof (cases "inl = 0")
    case False
    then show ?thesis
      unfolding k(1) evp_loop.simps(2) [of upd 126] using u that assms(3) e by (simp add: rd wrn_def)
  qed (use z that in \<open>simp only: k(1) evp_loop.simps\<close>, simp)
qed

text \<open>The bytes of an encoded token, and the two directions against one run of the cipher.\<close>

definition sealed :: "mem \<Rightarrow> mem \<Rightarrow> mem \<Rightarrow> mem" where
  "sealed nc ct tag = bytes16 (nswap16 12) @ nc @ ct @ tag"

lemma encode_eq:
  assumes "get_cipher_type (k_as_rs_alg k) = Some cipher" and "wf_block (enc_block dt)" and "key_length (enc_block dt) \<le> 128"
    and "length (token et) = 1024" and "length n0 = 12" and "0 \<notin> set s"
    and "gcm_setup E (EncryptInit E cipher) (k_as_rs_key k) n0 = Some c0"
    and "feed (EncryptUpdate E) False s c0 = (1, y, c1)" and "length y = length s"
    and "feed (EncryptUpdate E) True (oauth_body (enc_block dt)) c1 = (1, ct, c2)" and "length ct = length (oauth_body (enc_block dt))"
    and "EncryptFinal E c2 = ([], c3)" and "length (get_tag E c3) = 16"
  shows "encode_oauth_token_gcm e E (Some (s @ 0 # x)) (Some et) (Some k) (Some dt) (Some n0) =
    Some (0, Some (et\<lparr>token := sealed n0 ct (get_tag E c3) @ drop (30 + length ct) (token et), token_size := 30 + length ct\<rparr>))"
proof -
  let ?blk = "enc_block dt" and ?n = "bytes16 (nswap16 12)" and ?tag = "get_tag E c3"
  have kl: "unat (key_length ?blk) \<le> 128"
    using assms(3) by (simp add: word_le_nat_alt)
  note lb = length_oauth_body [OF assms(2) kl]
  let ?o = "(?n @ n0 @ oauth_body ?blk) @ replicate (996 - unat (key_length ?blk)) 0"
  let ?t1 = "(?n @ n0) @ drop 14 (token et)"
  let ?t2 = "(?n @ n0) @ ct @ drop (14 + length ct) (token et)"
  have nc: "rdn n0 0 12 = Some n0"
    using assms(5) by (simp add: rdn_def)
  have sl: "c_strlen (s @ 0 # x) = Some (length s)"
    using assms(6) by (rule c_strlen_append)
  have u1: "my_EVP_EncryptUpdate E c0 None 0 (s @ 0 # x) (length s) = Some (1, c1, None, length s)"
    unfolding my_EVP_EncryptUpdate_def using assms(8,9) by (intro evp_loop_once(1) [where bs = y]) simp_all
  have hd: "rdn ?o 0 14 = Some (?n @ n0)" "wrn (token et) 0 (?n @ n0) = Some ?t1"
    using assms(4,5) by (simp_all add: rdn_def wrn_def)
  have inl: "28 + unat (key_length ?blk) - 14 = length ct"
    using lb assms(11) by simp
  have d: "drop 14 ?o = oauth_body ?blk @ replicate (996 - unat (key_length ?blk)) 0"
    using assms(5) by simp
  have "my_EVP_EncryptUpdate E c1 (Some (?t1, 14)) 0 (drop 14 ?o) (length ct) =
      Some (1, c2, Some (take 14 ?t1 @ ct @ drop (14 + length ct) ?t1), length ct)"
    unfolding my_EVP_EncryptUpdate_def d using assms(4,5,10,11) lb kl by (intro evp_loop_once(2) [OF _ _ refl refl]) simp_all
  moreover have "take 14 ?t1 @ ct @ drop (14 + length ct) ?t1 = ?t2"
    using assms(5) by (simp add: add.commute)
  ultimately have u2: "my_EVP_EncryptUpdate E c1 (Some (?t1, 14)) 0 (drop 14 ?o) (length ct) = Some (1, c2, Some ?t2, length ct)"
    by (simp only:)
  have w: "wrn ?t2 (14 + length ct) [] = Some ?t2"
    "wrn ?t2 (14 + (length ct + length [])) ?tag = Some (sealed n0 ct ?tag @ drop (30 + length ct) (token et))"
    using assms(4,5,11,13) lb kl by (simp_all add: wrn_def sealed_def)
  show ?thesis
    unfolding encode_oauth_token_gcm_def Let_def
    using assms(3)
    by (simp only: option.case prod.case nc bind.bind_lunit oauth_plain_eq [OF assms(5,2) kl] assms(1,7,12) sl u1 hd inl u2 w if_True) simp
qed

lemma decode_eq:
  assumes "get_cipher_type (k_as_rs_alg k) = Some cipher" and "wf_block blk" and "1 \<le> key_length blk" and "unat (key_length blk) \<le> 128"
    and "length n0 = 12" and "0 \<notin> set s" and "wf_block (enc_block dt0)" and "length junk = 1024"
    and "length ct = length (oauth_body blk)" and "length tag = 16"
    and "gcm_setup E (DecryptInit E cipher) (k_as_rs_key k) n0 = Some d0"
    and "feed (DecryptUpdate E) False s (set_tag E tag d0) = (1, y, d1)" and "length y = length s"
    and "feed (DecryptUpdate E) True ct d1 = (1, oauth_body blk, d2)" and "DecryptFinal E d2 = (1, [], d3)"
    and "token et = sealed n0 ct tag @ rest" and "token_size et = 30 + length ct"
  shows "decode_oauth_token_gcm E junk (Some (s @ 0 # x)) (Some et) (Some k) (Some dt0) = Some (0, Some (dt0\<lparr>enc_block :=
    (enc_block dt0)\<lparr>nonce_length := 12, nonce := n0 @ drop 12 (nonce (enc_block dt0)), key_length := key_length blk,
      mac_key := take (unat (key_length blk)) (mac_key blk) @ drop (unat (key_length blk)) (mac_key (enc_block dt0)),
      timestamp := timestamp blk, lifetime := lifetime blk\<rparr>\<rparr>))"
proof -
  let ?n = "bytes16 (nswap16 12)" and ?b0 = "enc_block dt0"
  note lb = length_oauth_body [OF assms(2,4)]
  have kl: "1 \<le> unat (key_length blk)"
    using assms(3) by (simp add: word_le_nat_alt)
  have rd: "rd16 (token et) 0 = Some (nswap16 12)"
    using rd16_at [of "[]" 0 "nswap16 12"] by (simp add: assms(16) sealed_def)
  have nl: "unat (12 :: u16) = 12"
    by simp
  have sz1: "\<not> 30 + length ct < 2 + 4 + 8 + 12 + 2 + 16 + 1"
    using lb assms(4,9) kl by simp
  have "int (30 + length ct) - int 12 - 2 - 16 = int (length ct)" "length ct < 2 ^ 32"
    using lb assms(4,9) by simp_all
  then have sz2: "nat ((int (30 + length ct) - int 12 - 2 - 16) mod 2 ^ 32) = length ct"
    by (simp only: mod_pos_pos_trivial) simp
  note sz = sz1 sz2
  have nc: "rdn (token et) 2 12 = Some n0"
    using rdn_at [of ?n 2 n0 12] assms(5) by (simp add: assms(16) sealed_def)
  have wn: "wrn (nonce ?b0) 0 n0 = Some (n0 @ drop 12 (nonce ?b0))"
    using assms(5,7) by (simp add: wrn_def wf_block_def)
  have tg: "rdn (token et) (12 + 2 + length ct) 16 = Some tag"
    using rdn_at [of "?n @ n0 @ ct" "12 + 2 + length ct" tag 16] assms(5,10) by (simp add: assms(16) sealed_def)
  have sl: "c_strlen (s @ 0 # x) = Some (length s)"
    using assms(6) by (rule c_strlen_append)
  have u1: "my_EVP_DecryptUpdate E (set_tag E tag d0) None 0 (s @ 0 # x) (length s) = Some (1, d1, None, length s)"
    unfolding my_EVP_DecryptUpdate_def using assms(12,13) by (intro evp_loop_once(1) [where bs = y]) simp_all
  have d: "drop (12 + 2) (token et) = ct @ tag @ rest"
    using assms(5) by (simp add: assms(16) sealed_def)
  let ?f = "oauth_body blk @ drop (length ct) junk"
  have "my_EVP_DecryptUpdate E d1 (Some (junk, 0)) (length s) (ct @ tag @ rest) (length ct) =
      Some (1, d2, Some (take 0 junk @ oauth_body blk @ drop (0 + length ct) junk), length ct)"
    unfolding my_EVP_DecryptUpdate_def using assms(4,8,9,14) lb by (intro evp_loop_once(2) [OF _ _ _ refl]) simp_all
  then have u2: "my_EVP_DecryptUpdate E d1 (Some (junk, 0)) (length s) (ct @ tag @ rest) (length ct) = Some (1, d2, Some ?f, length ct)"
    by simp
  have wf: "wrn ?f (length ct) [] = Some ?f"
    using assms(9) by (simp add: wrn_def)
  let ?b1 = "?b0\<lparr>nonce_length := 12, nonce := n0 @ drop 12 (nonce ?b0)\<rparr>"
  have "wf_block ?b1"
    using assms(5,7) by (simp add: wf_block_def)
  note up = oauth_unpack_eq [OF assms(2,4) this, of "drop (length ct) junk"]
  show ?thesis
    unfolding decode_oauth_token_gcm_def Let_def
    by (simp only: option.case prod.case rd bind.bind_lunit nl assms(17) sz if_False oauth_encrypted_block.simps nc wn tg assms(1,11) sl u1 d u2
        wf assms(15) nswap16_nswap16 up) (simp add: wn up)
qed

text \<open>C18: Round trip of an OAuth token over any GCM implementation that behaves as documented: a block whose key
  has between 1 and 128 bytes is encoded into \<open>44 + key_length\<close> bytes of the token, and decoding them under the
  same key and server name gives the key, the time stamp and the lifetime back, with the nonce that was used.\<close>

theorem oauth_token_roundtrip:
  assumes "gcm_ok E" and "k_as_rs_alg k = A256GCM \<or> k_as_rs_alg k = A128GCM"
    and "wf_block (enc_block dt)" and "1 \<le> key_length (enc_block dt)" and "key_length (enc_block dt) \<le> 128"
    and "length (token et) = 1024" and "length n0 = 12" and "0 \<notin> set s" and "wf_block (enc_block dt0)" and "length junk = 1024"
  shows "\<exists>et'. encode_oauth_token e E (Some (s @ 0 # x)) (Some et) (Some k) (Some dt) (Some n0) = Some (0, Some et')
    \<and> token_size et' = 44 + unat (key_length (enc_block dt)) \<and> length (token et') = 1024
    \<and> (\<exists>dt'. decode_oauth_token E junk (Some (s @ 0 # x)) (Some et') (Some k) (Some dt0) = Some (0, Some dt')
        \<and> key_length (enc_block dt') = key_length (enc_block dt)
        \<and> take (unat (key_length (enc_block dt))) (mac_key (enc_block dt')) = take (unat (key_length (enc_block dt))) (mac_key (enc_block dt))
        \<and> timestamp (enc_block dt') = timestamp (enc_block dt) \<and> lifetime (enc_block dt') = lifetime (enc_block dt)
        \<and> nonce_length (enc_block dt') = 12 \<and> take 12 (nonce (enc_block dt')) = n0)"
proof -
  let ?blk = "enc_block dt"
  have kl: "unat (key_length ?blk) \<le> 128"
    using assms(5) by (simp add: word_le_nat_alt)
  note lb = length_oauth_body [OF assms(3) kl]
  obtain cipher where c: "get_cipher_type (k_as_rs_alg k) = Some cipher"
    using assms(2) by (auto simp: get_cipher_type_def)
  obtain ct where "gcm_run E cipher (k_as_rs_key k) n0 s (oauth_body ?blk) ct"
    using assms(1,7) unfolding gcm_ok_def by blast
  then obtain c0 c1 c2 c3 d0 d1 d2 d3 y z where g: "gcm_setup E (EncryptInit E cipher) (k_as_rs_key k) n0 = Some c0"
    "feed (EncryptUpdate E) False s c0 = (1, y, c1)" "length y = length s"
    "feed (EncryptUpdate E) True (oauth_body ?blk) c1 = (1, ct, c2)" "length ct = length (oauth_body ?blk)"
    "EncryptFinal E c2 = ([], c3)" "length (get_tag E c3) = 16"
    and h: "gcm_setup E (DecryptInit E cipher) (k_as_rs_key k) n0 = Some d0"
    "feed (DecryptUpdate E) False s (set_tag E (get_tag E c3) d0) = (1, z, d1)" "length z = length s"
    "feed (DecryptUpdate E) True ct d1 = (1, oauth_body ?blk, d2)" "DecryptFinal E d2 = (1, [], d3)"
    unfolding gcm_run_def by blast
  define et' where "et' = et\<lparr>token := sealed n0 ct (get_tag E c3) @ drop (30 + length ct) (token et), token_size := 30 + length ct\<rparr>"
  have enc: "encode_oauth_token e E (Some (s @ 0 # x)) (Some et) (Some k) (Some dt) (Some n0) = Some (0, Some et')"
    using encode_eq [OF c assms(3,5,6,7,8) g] assms(2) by (simp add: encode_oauth_token_def et'_def)
  have sz: "token_size et' = 44 + unat (key_length ?blk)" "length (token et') = 1024"
    using lb g(5,7) assms(6,7) kl by (simp_all add: et'_def sealed_def)
  have tk: "token et' = sealed n0 ct (get_tag E c3) @ drop (30 + length ct) (token et)" "token_size et' = 30 + length ct"
    by (simp_all add: et'_def)
  have dec: "decode_oauth_token E junk (Some (s @ 0 # x)) (Some et') (Some k) (Some dt0) =
      decode_oauth_token_gcm E junk (Some (s @ 0 # x)) (Some et') (Some k) (Some dt0)"
    using assms(2) by (auto simp: decode_oauth_token_def)
  show ?thesis
    using decode_eq [OF c assms(3,4) kl assms(7,8,9,10) g(5,7) h tk] assms(3,7) kl
    by (intro exI [of _ et']) (simp add: enc sz dec wf_block_def)
qed

text \<open>The context that encrypts by the identity and tags with zeroes keeps to the documentation.\<close>

definition plain_evp :: "unit evp" where
  "plain_evp = \<lparr>EncryptInit = (\<lambda>_. Some ()), DecryptInit = (\<lambda>_. Some ()), set_ivlen = (\<lambda>_ _. Some ()),
     set_key_iv = (\<lambda>_ _ _. Some ()), set_tag = (\<lambda>_ _. ()), get_tag = (\<lambda>_. replicate 16 0),
     EncryptUpdate = (\<lambda>_ d _. (1, d, ())), DecryptUpdate = (\<lambda>_ d _. (1, d, ())),
     EncryptFinal = (\<lambda>_. ([], ())), DecryptFinal = (\<lambda>_. (1, [], ()))\<rparr>"

lemma plain_evp_ok: "gcm_ok plain_evp"
  by (auto simp: gcm_ok_def gcm_run_def plain_evp_def gcm_setup_def feed_def)

definition sample_key :: oauth_key where
  "sample_key = zero_key\<lparr>k_as_rs_alg := A128GCM\<rparr>"

definition sample_token :: oauth_token where
  "sample_token = \<lparr>enc_block = \<lparr>nonce_length = 0, nonce = replicate 256 0, key_length = 20, mac_key = replicate 128 5,
     timestamp = 1000, lifetime = 600\<rparr>\<rparr>"

theorem oauth_token_roundtrip_witness:
  "\<exists>et' dt'. encode_oauth_token sample_entropy plain_evp (Some (c_lit ''turn'')) (Some \<lparr>token = replicate 1024 0, token_size = 0\<rparr>)
      (Some sample_key) (Some sample_token) (Some (replicate 12 3)) = Some (0, Some et')
    \<and> token_size et' = 64
    \<and> decode_oauth_token plain_evp (replicate 1024 0) (Some (c_lit ''turn'')) (Some et') (Some sample_key) (Some sample_token) = Some (0, Some dt')
    \<and> timestamp (enc_block dt') = 1000"
proof -
  have "wf_block (enc_block sample_token)" "key_length (enc_block sample_token) = 20" "timestamp (enc_block sample_token) = 1000"
    by (simp_all add: sample_token_def wf_block_def)
  moreover have "k_as_rs_alg sample_key = A128GCM" "0 \<notin> set (chars ''turn'')"
    by (simp_all add: sample_key_def chars_def of_char_def)
  ultimately show ?thesis
    using oauth_token_roundtrip [of plain_evp sample_key sample_token "\<lparr>token = replicate 1024 0, token_size = 0\<rparr>"
        "replicate 12 3" "chars ''turn''" sample_token "replicate 1024 0" sample_entropy "[]"] plain_evp_ok
    unfolding c_lit_def by (simp add: word_le_nat_alt) blast
qed

text \<open>A received token overruns the caller's block before anything is authenticated: the nonce is copied with
  the length the token announces, and a length above 256 passes the only check there is, the one against the size
  of the token.\<close>

lemma oauth_nonce_overrun:
  assumes "wf_block (enc_block dt)" and "length (token et) = 1024" and "token_size et \<le> 1024"
    and "rd16 (token et) 0 = Some (nswap16 w)" and "256 < unat w" and "unat w + 33 \<le> token_size et"
    and "k_as_rs_alg k = A256GCM \<or> k_as_rs_alg k = A128GCM"
  shows "decode_oauth_token E junk (Some sn) (Some et) (Some k) (Some dt) = None"
proof -
  let ?b = "(enc_block dt)\<lparr>nonce_length := w\<rparr>"
  have "rdn (token et) 2 (unat w) = Some (take (unat w) (drop 2 (token et)))"
    using assms(2,3,6) by (simp add: rdn_def)
  moreover have "wrn (nonce ?b) 0 (take (unat w) (drop 2 (token et))) = None"
    using assms(1-3,5,6) by (simp add: wrn_def wf_block_def)
  ultimately have "decode_oauth_token_gcm E junk (Some sn) (Some et) (Some k) (Some dt) = None"
    unfolding decode_oauth_token_gcm_def Let_def using assms(4,6) by simp
  then show ?thesis
    using assms(7) by (auto simp: decode_oauth_token_def)
qed

subsection \<open>Keys\<close>

declare move_word.simps [simp del] end_word.simps [simp del] norm_loop.simps [simp del]

lemma end_word_eq:
  "0 \<notin> set u \<Longrightarrow> \<exists>y. end_word (a @ u @ 0 # x) (length a) = Some (a @ takeWhile (\<lambda>c. c \<noteq> 32) u @ 0 # y)
    \<and> length (takeWhile (\<lambda>c. c \<noteq> 32) u @ 0 # y) = length (u @ 0 # x)"
proof (induction u arbitrary: a)
  case Nil
  then show ?case
    by (simp add: end_word.simps rd8_at)
next
  case (Cons c u)
  then show ?case
    using Cons.IH [of "a @ [c]"] by (auto simp: end_word.simps [of _ "length a"] rd8_at wr8_at)
qed

lemma move_word_eq:
  "0 \<notin> set u \<Longrightarrow> g \<noteq> [] \<Longrightarrow>
    \<exists>y. move_word (a @ g @ u @ 0 # x) (length a) (length a + length g) = Some (a @ takeWhile (\<lambda>c. c \<noteq> 32) u @ 0 # y)
      \<and> length (takeWhile (\<lambda>c. c \<noteq> 32) u @ 0 # y) = length (g @ u @ 0 # x)"
proof (induction u arbitrary: a g)
  case Nil
  then obtain h t where g: "g = h # t"
    by (cases g) auto
  have "rd8 (a @ g @ 0 # x) (length a + length g) = Some 0"
    using rd8_at [of "a @ g" "length a + length g" 0 x] by simp
  then show ?case
    by (simp add: move_word.simps g wr8_at)
next
  case (Cons c u)
  then obtain h t where g: "g = h # t"
    by (cases g) auto
  have rd: "rd8 (a @ g @ c # u @ 0 # x) (length a + length g) = Some c"
    using rd8_at [of "a @ g" "length a + length g" c "u @ 0 # x"] by simp
  show ?case
  proof (cases "c = 32")
    case True
    then show ?thesis
      using rd by (simp add: move_word.simps g wr8_at)
  next
    case False
    then show ?thesis
      using rd Cons.prems Cons.IH [where a = "a @ [c]" and g = "t @ [c]"]
      by (auto simp: move_word.simps [of _ "length a"] g wr8_at)
  qed
qed

lemma norm_loop_eq: "0 \<notin> set u \<Longrightarrow> norm_loop (a @ u @ 0 # x) (length a) = Some (a @ map norm_char u @ 0 # x)"
proof (induction u arbitrary: a)
  case Nil
  then show ?case
    by (simp add: norm_loop.simps rd8_at)
next
  case (Cons c u)
  then show ?case
    using Cons.IH [of "a @ [norm_char c]"] by (auto simp: norm_loop.simps [of _ "length a"] rd8_at wr8_at)
qed

text \<open>What \<open>remove_spaces\<close> leaves: the first word, or a string of blanks as it is.\<close>

definition first_word :: "mem \<Rightarrow> mem" where
  "first_word u = (if \<forall>c\<in>set u. c = 32 then u else takeWhile (\<lambda>c. c \<noteq> 32) (dropWhile (\<lambda>c. c = 32) u))"

lemma first_word_props: "0 \<notin> set u \<Longrightarrow> 0 \<notin> set (first_word u)" "first_word u = [] \<longleftrightarrow> u = []" "length (first_word u) \<le> length u"
proof -
  show "0 \<notin> set (first_word u)" if "0 \<notin> set u"
    using that by (auto simp: first_word_def dest: set_takeWhileD set_dropWhileD)
  have "dropWhile (\<lambda>c. c = 32) u = [] \<or> hd (dropWhile (\<lambda>c. c = 32) u) \<noteq> 32"
    using hd_dropWhile [of "\<lambda>c. c = 32" u] by auto
  then show "first_word u = [] \<longleftrightarrow> u = []"
    by (cases "dropWhile (\<lambda>c. c = 32) u") (auto simp: first_word_def dropWhile_eq_Nil_conv)
  show "length (first_word u) \<le> length u"
    using length_takeWhile_le [of "\<lambda>c. c \<noteq> 32" "dropWhile (\<lambda>c. c = 32) u"] length_dropWhile_le [of "\<lambda>c. c = 32" u]
    by (simp add: first_word_def)
qed

lemma remove_spaces_eq:
  assumes "0 \<notin> set u"
  shows "\<exists>y. remove_spaces (u @ 0 # x) = Some (first_word u @ 0 # y) \<and> length (first_word u @ 0 # y) = length (u @ 0 # x)"
proof -
  let ?b = "takeWhile (\<lambda>c. c = 32) u" and ?w = "dropWhile (\<lambda>c. c = 32) u"
  have u: "u = ?b @ ?w"
    by simp
  have sk: "skip_blanks (u @ 0 # x) 0 = Some (length ?b)"
    using skip_blanks_eq [OF assms, of "[]" x] by simp
  show ?thesis
  proof (cases "?w")
    case Nil
    then have all: "\<forall>c\<in>set u. c = 32" "?b = u"
      using u by (auto simp: dropWhile_eq_Nil_conv)
    have "rd8 (u @ 0 # x) (length ?b) = Some 0"
      unfolding all(2) by (rule rd8_at) simp
    then show ?thesis
      using sk all(1) by (simp add: remove_spaces_def first_word_def)
  next
    case (Cons d w)
    have d: "d \<noteq> 32" "d \<noteq> 0"
      using hd_dropWhile [of "\<lambda>c. c = 32" u] assms set_dropWhileD [of d "\<lambda>c. c = 32" u] by (auto simp: Cons)
    have "d \<in> set u"
      using Cons by (metis list.set_intros(1) set_dropWhileD)
    then have fw: "first_word u = takeWhile (\<lambda>c. c \<noteq> 32) ?w"
      using d by (auto simp: first_word_def)
    have rd: "rd8 (u @ 0 # x) (length ?b) = Some d"
      using rd8_at [of ?b "length ?b" d "w @ 0 # x"] Cons u by (metis append.assoc append_Cons)
    have z: "0 \<notin> set ?w"
      using assms by (auto dest: set_dropWhileD)
    show ?thesis
    proof (cases "?b = []")
      case True
      then have "?w = u"
        using u by (metis append_Nil)
      then show ?thesis
        using sk rd d True fw end_word_eq [OF assms, of "[]" x] by (auto simp: remove_spaces_def)
    next
      case False
      have e: "?b @ ?w @ 0 # x = u @ 0 # x"
        using u by (metis append.assoc)
      show ?thesis
        using sk rd d False fw move_word_eq [OF z False, of "[]" x, unfolded append_Nil e] by (auto simp: remove_spaces_def)
    qed
  qed
qed

definition alg_of :: "mem \<Rightarrow> ENC_ALG option" where
  "alg_of v = (if map norm_char (first_word v) = chars ''A128GCM'' then Some A128GCM
     else if map norm_char (first_word v) = chars ''A256GCM'' then Some A256GCM else None)"

text \<open>The key that a well-formed record of key data stands for.\<close>

definition the_key :: "u32 \<Rightarrow> oauth_key_data \<Rightarrow> mem \<Rightarrow> ENC_ALG \<Rightarrow> oauth_key" where
  "the_key now d u a = zero_key\<lparr>k_kid := first_word u @ replicate (129 - length (first_word u)) 0,
     k_ikm_key := kd_ikm_key d, k_ikm_key_size := kd_ikm_key_size d,
     k_timestamp := (if kd_timestamp d = 0 then now else kd_timestamp d), k_lifetime := kd_lifetime d,
     k_as_rs_alg := a, k_as_rs_key_size := calculate_enc_key_length a,
     k_as_rs_key := take (calculate_enc_key_length a) (kd_ikm_key d) @ replicate (257 - calculate_enc_key_length a) 0\<rparr>"

lemma key_fields_eq:
  assumes "0 \<notin> set w" and "length w \<le> 128" and "length (kd_ikm_key d) = 257"
  shows "key_fields now d (w @ 0 # y) = Some (zero_key\<lparr>k_kid := w @ replicate (129 - length w) 0, k_ikm_key := kd_ikm_key d,
    k_ikm_key_size := kd_ikm_key_size d, k_timestamp := (if kd_timestamp d = 0 then now else kd_timestamp d),
    k_lifetime := kd_lifetime d, k_as_rs_alg := A256GCM\<rparr>)"
proof -
  have "c_strncpy 129 (w @ 0 # y) = Some (w @ replicate (129 - length w) 0)"
    using c_strncpy_short [OF assms(1), of 129 y] assms(2) by simp
  moreover have "129 - length w = Suc (128 - length w)"
    using assms(2) by simp
  then have "w @ replicate (129 - length w) (0 :: u8) = (w @ replicate (128 - length w) 0) @ 0 # []"
    by (simp only: append.assoc replicate_append_same replicate_Suc)
  then have "wr8 (w @ replicate (129 - length w) 0) 128 0 = Some (w @ replicate (129 - length w) 0)"
    using wr8_at [of "w @ replicate (128 - length w) 0" 128 0 "[]" 0] assms(2) by simp
  moreover have "rdn (kd_ikm_key d) 0 257 = Some (kd_ikm_key d)"
    using assms(3) by (simp add: rdn_def)
  ultimately show ?thesis
    by (simp add: key_fields_def)
qed

lemma key_of_alg_eq:
  assumes "length (k_ikm_key k) = 257" and "k_as_rs_key k = replicate 257 0" and "k_auth_key k = replicate 257 0" and "k_auth_key_size k = 0"
  shows "key_of_alg k a = Some (0, k\<lparr>k_as_rs_alg := a, k_as_rs_key_size := calculate_enc_key_length a,
    k_as_rs_key := take (calculate_enc_key_length a) (k_ikm_key k) @ replicate (257 - calculate_enc_key_length a) 0\<rparr>)"
proof -
  have n: "calculate_enc_key_length a \<le> 32"
    by (simp add: calculate_enc_key_length_def)
  have "wr8 (replicate 257 0) 0 0 = Some (replicate 257 0)"
    using wr8_at [of "[]" 0 0 "replicate 256 0" 0] by (simp add: replicate_Suc [symmetric] del: replicate_Suc)
  then show ?thesis
    using assms n by (cases k) (simp add: key_of_alg_def Let_def calculate_auth_key_length_def calculate_key_def rdn_def wrn_def)
qed

lemma convert_key_eq:
  assumes "0 \<notin> set u" and "0 \<notin> set v" and "kd_kid d = u @ 0 # x" and "length (kd_kid d) = 129"
    and "kd_as_rs_alg d = v @ 0 # y" and "length (kd_ikm_key d) = 257"
  shows "u = [] \<Longrightarrow> convert_oauth_key_data now (Some d) (Some k0) None 0 = Some (-1, Some k0, None)"
    and "u \<noteq> [] \<Longrightarrow> alg_of v = None \<Longrightarrow> \<exists>k. convert_oauth_key_data now (Some d) (Some k0) None 0 = Some (-1, Some k, None)"
    and "u \<noteq> [] \<Longrightarrow> alg_of v = Some a
      \<Longrightarrow> convert_oauth_key_data now (Some d) (Some k0) None 0 = Some (0, Some (the_key now d u a), None)"
proof -
  note fu = first_word_props [of u]
  obtain p where p: "remove_spaces (kd_kid d) = Some (first_word u @ 0 # p)"
    using remove_spaces_eq [OF assms(1), of x] assms(3) by auto
  obtain q where q: "remove_spaces (kd_as_rs_alg d) = Some (first_word v @ 0 # q)"
    using remove_spaces_eq [OF assms(2), of y] assms(5) by auto
  let ?v = "map norm_char (first_word v)"
  have n: "normalize_algorithm (first_word v @ 0 # q) = Some (?v @ 0 # q)"
    using norm_loop_eq [OF first_word_props(1) [OF assms(2)], of "[]" q] by (simp add: normalize_algorithm_def)
  have "norm_char c \<noteq> 0" if "c \<noteq> 0" for c
    using that by (auto simp: norm_char_def word_le_nat_alt word_unat_eq_iff unat_sub_if' unat_plus_if')
  then have v0: "0 \<notin> set ?v"
    using first_word_props(1) [OF assms(2)] by (metis imageE set_map)
  have lit: "0 \<notin> set (chars ''A128GCM'')" "0 \<notin> set (chars ''A256GCM'')"
    by (simp_all add: chars_def of_char_def)
  have eq: "c_streq (?v @ 0 # q) (c_lit ''A128GCM'') = Some (?v = chars ''A128GCM'')"
    "c_streq (?v @ 0 # q) (c_lit ''A256GCM'') = Some (?v = chars ''A256GCM'')"
    unfolding c_lit_def by (rule c_streq_append [OF v0 lit(1)], rule c_streq_append [OF v0 lit(2)])
  let ?k = "zero_key\<lparr>k_kid := first_word u @ replicate (129 - length (first_word u)) 0, k_ikm_key := kd_ikm_key d,
    k_ikm_key_size := kd_ikm_key_size d, k_timestamp := (if kd_timestamp d = 0 then now else kd_timestamp d),
    k_lifetime := kd_lifetime d, k_as_rs_alg := A256GCM\<rparr>"
  have kf: "key_fields now d (first_word u @ 0 # p) = Some ?k"
    using key_fields_eq [OF fu(1) [OF assms(1)] _ assms(6)] fu(3) assms(3,4) by simp
  have ka: "key_of_alg ?k a = Some (0, the_key now d u a)" for a
    using key_of_alg_eq [of ?k a] assms(6) by (simp add: the_key_def zero_key_def)
  show "convert_oauth_key_data now (Some d) (Some k0) None 0 = Some (-1, Some k0, None)" if "u = []"
    using that p q n by (simp add: convert_oauth_key_data_def put_msg_def first_word_def rd8_def)
  have run: "convert_oauth_key_data now (Some d) (Some k0) None 0 = (case alg_of v of None \<Rightarrow> Some (-1, Some ?k, None)
      | Some a \<Rightarrow> Some (0, Some (the_key now d u a), None))" if ne: "u \<noteq> []"
  proof -
    obtain h t where "first_word u = h # t" "h \<noteq> 0"
      using ne fu(1) [OF assms(1)] fu(2) by (cases "first_word u") auto
    then have "rd8 (first_word u @ 0 # p) 0 = Some h"
      by (simp add: rd8_def)
    then show ?thesis
      using ne \<open>h \<noteq> 0\<close> v0 by (auto simp: convert_oauth_key_data_def put_msg_def p q n kf eq ka alg_of_def)
  qed
  show "\<exists>k. convert_oauth_key_data now (Some d) (Some k0) None 0 = Some (-1, Some k, None)" if "u \<noteq> []" "alg_of v = None"
    using run that by simp
  show "convert_oauth_key_data now (Some d) (Some k0) None 0 = Some (0, Some (the_key now d u a), None)"
    if "u \<noteq> []" "alg_of v = Some a"
    using run that by simp
qed

text \<open>Reading key data: with the key id and the algorithm as C strings in their arrays, the conversion succeeds
  exactly when the key id is not empty and the first word of the algorithm, with letters raised and underscores as
  hyphens, names one of the two GCM ciphers; the key then holds the first word of the key id, the front of the input
  key as long as the cipher needs, and the current time for a missing time stamp.  A key id of blanks only and an
  input key of size 0 are accepted, although the code has messages for an undefined key id and an undefined key.\<close>

lemma convert_key_correct:
  assumes "0 \<notin> set u" and "0 \<notin> set v" and "kd_kid d = u @ 0 # x" and "length (kd_kid d) = 129"
    and "kd_as_rs_alg d = v @ 0 # y" and "length (kd_ikm_key d) = 257"
  shows "\<exists>r k. convert_oauth_key_data now (Some d) (Some k0) None 0 = Some (r, Some k, None)
    \<and> (r = 0 \<longleftrightarrow> u \<noteq> [] \<and> alg_of v \<noteq> None) \<and> (r \<noteq> 0 \<longrightarrow> r = -1)
    \<and> (r = 0 \<longrightarrow> k = the_key now d u (the (alg_of v)))"
  using convert_key_eq [OF assms, where now = now and ?k0.0 = k0] by (cases "u = []"; cases "alg_of v") auto

definition sample_key_data :: oauth_key_data where
  "sample_key_data = \<lparr>kd_kid = chars ''north'' @ 0 # replicate 123 0, kd_ikm_key = replicate 257 7, kd_ikm_key_size = 0,
     kd_timestamp = 0, kd_lifetime = 0, kd_as_rs_alg = chars '' a256gcm'' @ 0 # replicate 56 0\<rparr>"

end
