(* ===== verification/Recv_Safety.thy ===== *)
theory Recv_Safety
  imports Messages
begin

text \<open>
  Received bytes: the readers of \<open>client/ns_turn_msg.c\<close> that a client applies to a datagram, on arbitrary contents.
  Each of them returns, and touches no byte outside the datagram.
\<close>

definition safe :: "'a option \<Rightarrow> bool" where
  "safe x \<longleftrightarrow> x \<noteq> None"

named_theorems safe_intros \<open>readers that stay inside the datagram\<close>

lemma safe_Some [safe_intros]: "safe (Some x)"
  by (simp add: safe_def)

lemma safe_bind: "safe x \<Longrightarrow> (\<And>v. x = Some v \<Longrightarrow> safe (f v)) \<Longrightarrow> safe (Option.bind x f)"
  by (auto simp: safe_def)

lemma safe_then: "safe (Option.bind x f) \<Longrightarrow> (\<And>v. safe (g v)) \<Longrightarrow> safe (do { v \<leftarrow> x; w \<leftarrow> f v; g w })"
  by (cases x) (auto simp: safe_def)

lemma safe_if [safe_intros]: "(c \<Longrightarrow> safe x) \<Longrightarrow> (\<not> c \<Longrightarrow> safe y) \<Longrightarrow> safe (if c then x else y)"
  by simp

lemma safe_iff: "safe x \<longleftrightarrow> (\<exists>v. x = Some v)"
  by (auto simp: safe_def)

subsection \<open>Header\<close>

lemma channel_safe: "len \<le> length b \<Longrightarrow> safe (is_channel_msg_str b len)"
  by (auto simp: safe_def is_channel_msg_str_def rd16_def Let_def)

lemma msg_type_safe: "len \<le> length b \<Longrightarrow> safe (stun_get_msg_type_str b len)"
  by (auto simp: safe_def stun_get_msg_type_str_def rd16_def Let_def)

lemma method_safe: "len \<le> length b \<Longrightarrow> safe (stun_get_method_str b len)"
  by (auto simp: safe_def stun_get_method_str_def rd16_def Let_def)

lemma command_safe: "20 \<le> length b \<Longrightarrow> safe (stun_is_command_message_str b len)"
  by (auto simp: safe_def stun_is_command_message_str_def rd8_def rd16_def rd32_def Let_def)

lemma tid_safe: "20 \<le> length b \<Longrightarrow> safe (stun_tid_from_message_str b len)"
  by (auto simp: safe_def stun_tid_from_message_str_def rdn_def)

lemma class_safe:
  assumes "len \<le> length b"
  shows "safe (stun_is_response_str b len)" "safe (stun_is_success_response_str b len)" "safe (stun_is_request_str b len)"
    "safe (stun_is_indication_str b len)"
  unfolding stun_is_response_str_def stun_is_success_response_str_def stun_is_request_str_def stun_is_indication_str_def
  by (intro safe_bind safe_intros channel_safe msg_type_safe assms)+

lemma binding_response_safe: "20 \<le> length b \<Longrightarrow> len \<le> length b \<Longrightarrow> safe (stun_is_binding_response_str b len)"
  unfolding stun_is_binding_response_str_def
  by (intro safe_bind safe_intros command_safe method_safe class_safe)

subsection \<open>Attributes\<close>

text \<open>An attribute that a scan of the datagram visits: its value lies in the datagram.\<close>

lemma visited:
  assumes "len \<le> length b" and "p \<in> set (message_offsets b len)"
  obtains n where "stun_attr_get_len b (Some p) = Some (int n)" "p + 4 + n \<le> length b"
    "stun_attr_get_value b (Some p) = Some (if n = 0 then None else Some (p + 4))"
    "stun_attr_get_type b (Some p) = Some (uint (fst (attr_at b p)))"
proof -
  note o = message_offsets_in [OF assms]
  let ?n = "unat (le16 (b ! (p + 3)) (b ! (p + 2)))"
  have p4: "p + 4 \<le> length b"
    using o(2) assms(1) by simp
  then have l: "stun_attr_get_len b (Some p) = Some (int ?n)"
    by (rule get_len_Some)
  then have "length (snd (attr_at b p)) = ?n"
    using o(4) by simp
  then have "p + 4 + ?n \<le> length b"
    using o(2) assms(1) by simp
  moreover have "stun_attr_get_value b (Some p) = Some (if ?n = 0 then None else Some (p + 4))"
    using get_value_of_len [OF l] by (simp del: of_nat_unat split del: if_split)
  ultimately show thesis
    using that [OF l] get_type_Some [OF p4] by blast
qed

lemma by_type_safe: "len \<le> length b \<Longrightarrow> safe (stun_attr_get_first_by_type_str b len ty)"
  by (simp add: first_by_type_find safe_def)

lemma by_type_visited:
  assumes "len \<le> length b" and "stun_attr_get_first_by_type_str b len ty = Some (Some p)"
  shows "p \<in> set (message_offsets b len)"
  using assms by (auto simp: first_by_type_find find_Some_iff)

lemma decode_safe:
  assumes "n \<le> length f"
  shows "safe (stun_addr_decode (Some a) f (int n) x mc t)"
  using assms by (auto simp: safe_def stun_addr_decode_def rd8_def rd16_def rd32_def rdn_def Let_def)

lemma get_addr_safe:
  assumes "20 \<le> length b" and "len \<le> length b" and "p \<in> set (message_offsets b len)"
  shows "safe (stun_attr_get_addr_str tbl b len (Some p) ca None)"
proof -
  obtain n where n: "stun_attr_get_len b (Some p) = Some (int n)" "p + 4 + n \<le> length b"
    "stun_attr_get_value b (Some p) = Some (if n = 0 then None else Some (p + 4))"
    "stun_attr_get_type b (Some p) = Some (uint (fst (attr_at b p)))"
    using visited [OF assms(2,3)] by metis
  obtain t where t: "stun_tid_from_message_str b len = Some t"
    using tid_safe [OF assms(1)] by (auto simp: safe_iff)
  have "safe (stun_addr_decode (Some zero_addr) (drop (p + 4) b) (int n) x STUN_MAGIC_COOKIE t)" for x
    by (rule decode_safe) (use n(2) in simp)
  then obtain r pa where "stun_addr_decode (Some zero_addr) (drop (p + 4) b) (int n)
      (is_xor_type (fst (attr_at b p))) STUN_MAGIC_COOKIE t = Some (r, pa)"
    unfolding safe_iff by (metis surj_pair)
  moreover from this have "pa \<noteq> None"
    by (auto simp: stun_addr_decode_def Let_def split: if_splits bind_splits)
  ultimately show ?thesis
    using n t by (auto simp: safe_def stun_attr_get_addr_str_def Let_def)
qed

lemma scan_list_st_safe:
  "\<forall>p\<in>set ps. \<forall>st. safe (body p st) \<Longrightarrow> safe (scan_list_st body st ps)"
  by (induction ps arbitrary: st) (auto simp: safe_iff split: option.splits prod.splits)

lemma scan_st_message:
  assumes "len \<le> length b"
  shows "do { attr \<leftarrow> stun_attr_get_first_str b len; attr_scan_st b len body st attr } =
    scan_list_st body st (message_offsets b len)"
proof -
  let ?n = "unat (le16 (b ! 3) (b ! 2))"
  show ?thesis
  proof (cases "20 \<le> len \<and> 20 + ?n \<le> len")
    case True
    then have l: "stun_get_command_message_len_str b len = Some (int (20 + ?n))" and e: "20 + ?n \<le> length b"
      using command_len_eq [OF assms] assms by (auto simp: Let_def)
    have first: "stun_attr_get_first_str b len = Some (if attr_fits b (20 + ?n) 20 then Some 20 else None)"
      by (rule first_str_region [OF l e]) simp
    show ?thesis
      using True by (simp only: first bind.bind_lunit attr_scan_st_region [OF l e]) (simp add: message_offsets_def Let_def)
  next
    case False
    then have "stun_get_command_message_len_str b len = Some (-1)" and "message_offsets b len = []"
      using command_len_eq [OF assms] by (auto simp: Let_def message_offsets_def)
    then show ?thesis
      by (simp add: stun_attr_get_first_str_def)
  qed
qed

lemma first_addr_safe:
  assumes "20 \<le> length b" and "len \<le> length b"
  shows "safe (stun_attr_get_first_addr_str tbl b len ty ca None)"
proof -
  let ?body = "\<lambda>p ca. do {
         is_addr \<leftarrow> stun_attr_is_addr b (Some p);
         t \<leftarrow> stun_attr_get_type b (Some p);
         if is_addr \<and> uint ty = t then do {
           (r, ca) \<leftarrow> stun_attr_get_addr_str tbl b len (Some p) ca None;
           Some (r = 0, ca) }
         else Some (False, ca) }"
  have "safe (?body p st)" if p: "p \<in> set (message_offsets b len)" for p st
  proof -
    obtain n where "stun_attr_get_type b (Some p) = Some (uint (fst (attr_at b p)))"
      using visited [OF assms(2) p] by metis
    moreover obtain r c where "stun_attr_get_addr_str tbl b len (Some p) st None = Some (r, c)"
      using get_addr_safe [OF assms p, of tbl st] unfolding safe_iff by (metis surj_pair)
    ultimately show ?thesis
      by (auto simp: safe_iff stun_attr_is_addr_def)
  qed
  then have "safe (scan_list_st ?body ca (message_offsets b len))"
    by (intro scan_list_st_safe) auto
  then have "safe (do { attr \<leftarrow> stun_attr_get_first_str b len; attr_scan_st b len ?body ca attr })"
    unfolding scan_st_message [OF assms(2)] .
  then show ?thesis
    unfolding stun_attr_get_first_addr_str_def by (rule safe_then) (simp add: safe_def split: prod.split)
qed

lemma error_response_safe:
  assumes "len \<le> length b" and "\<And>m. err_msg = Some m \<Longrightarrow> n = length m"
  shows "safe (stun_is_error_response_str b len err_code err_msg n)"
proof -
  have rest: "safe (do {
           l \<leftarrow> stun_attr_get_len b (Some p);
           if l < 4 then Some (True, err_code, err_msg)
           else do {
             val \<leftarrow> stun_attr_get_value b (Some p);
             v \<leftarrow> val;
             v2 \<leftarrow> rd8 b (v + 2);
             v3 \<leftarrow> rd8 b (v + 3);
             let err_code = Some (uint v2 * 100 + uint v3);
             case err_msg of
               None \<Rightarrow> Some (True, err_code, err_msg)
             | Some m \<Rightarrow>
                 if n = 0 then Some (True, err_code, err_msg)
                 else do {
                   m \<leftarrow> wr8 m 0 0;
                   if l > 4 then do {
                     let msg_len = (if nat l - 4 > n - 1 then n - 1 else nat l - 4);
                     bs \<leftarrow> rdn b (v + 4) msg_len;
                     m \<leftarrow> wrn m 0 bs;
                     m \<leftarrow> wr8 m msg_len 0;
                     Some (True, err_code, Some m) }
                   else Some (True, err_code, Some m) } } })"
    if p: "p \<in> set (message_offsets b len)" for p
  proof -
    obtain k where "stun_attr_get_len b (Some p) = Some (int k)" "p + 4 + k \<le> length b"
      "stun_attr_get_value b (Some p) = Some (if k = 0 then None else Some (p + 4))"
      using visited [OF assms(1) p] by metis
    then show ?thesis
      using assms(2)
      by (cases err_msg) (auto simp: safe_def rd8_def rdn_def wr8_def wrn_def Let_def Suc_le_eq)
  qed
  obtain c t sar where r: "is_channel_msg_str b len = Some c" "stun_get_msg_type_str b len = Some t"
    "stun_attr_get_first_by_type_str b len STUN_ATTRIBUTE_ERROR_CODE = Some sar"
    using channel_safe [OF assms(1)] msg_type_safe [OF assms(1)] by_type_safe [OF assms(1)] unfolding safe_iff by metis
  show ?thesis
  proof (cases sar)
    case None
    then show ?thesis
      unfolding stun_is_error_response_str_def r bind.bind_lunit by (auto intro!: safe_intros)
  next
    case (Some p)
    then have "p \<in> set (message_offsets b len)"
      using by_type_visited [OF assms(1)] r(3) by simp
    then show ?thesis
      unfolding stun_is_error_response_str_def r bind.bind_lunit Some by (intro safe_if safe_Some rest)
  qed
qed

end
