(* ===== verification/Turn_Io.thy ===== *)
theory Turn_Io
  imports Sockets Stun_Buffer Oauth Recv_Safety
begin

text \<open>
  The transport of the TURN client: \<open>wait_fd\<close>, \<open>send_buffer\<close> and \<open>recv_buffer\<close> of \<open>p2p/p2p_client.c\<close>, with the
  structures of \<open>p2p/session.h\<close> and the variables of \<open>p2p/uclient_manager.c\<close>.

  The record \<open>lib\<close> has what lies outside the repository: the system calls of \<open>os\<close>, further ones, the TLS library, which is
  reached through handles, and the cryptographic functions.  \<open>SSL_new\<close> stands for a new session on a context, joined to a
  socket and, for DTLS, to the address of the server; \<open>SSL_set_mtu\<close> and \<open>SSL_query_mtu\<close> for the calls that set and ask the MTU
  of a session; \<open>SSL_CTX_setup\<close> for the calls that make and prepare the context at an index, one per constructor of \<open>ctx_call\<close>,
  with \<open>False\<close> for a failure; \<open>l_event\<close> for the registration of a socket with the event loop, \<open>l_callback\<close> for a call of the application.  \<open>l_buffer\<close>, \<open>l_addr\<close>,
  \<open>l_junk\<close>, \<open>l_otoken\<close> and \<open>l_etoken\<close> are what uninitialised variables hold.  \<open>settings\<close> has the variables that the client is configured by.
  A C function returns its result, what it changed and the world; \<open>None\<close> is an access outside an array or a loop that does
  not end.  A connection over SCTP behaves like one over TCP here: both are selected by \<open>use_tcp\<close>.
\<close>

subsection \<open>State\<close>

datatype ctx_call =
    CTX_new string | CTX_set_cipher_list mem
  | CTX_use_certificate_chain_file mem | CTX_use_PrivateKey_file mem | CTX_check_private_key
  | CTX_load_verify_locations mem | CTX_set_verify bool | CTX_set_verify_depth int | CTX_set_read_ahead bool

record ('w, 'c) lib =
  l_os :: "'w os"
  l_send :: "int \<Rightarrow> mem \<Rightarrow> 'w \<Rightarrow> int \<times> 'w"
  l_peek :: "int \<Rightarrow> nat \<Rightarrow> 'w \<Rightarrow> int \<times> mem \<times> 'w"
  l_select :: "int \<Rightarrow> int \<Rightarrow> int \<Rightarrow> 'w \<Rightarrow> int \<times> 'w"
  l_seconds :: "'w \<Rightarrow> int \<times> 'w"
  l_random :: "'w \<Rightarrow> int \<times> 'w"
  l_entropy :: "'w \<Rightarrow> entropy \<times> 'w"
  l_RAND_bytes :: "nat \<Rightarrow> 'w \<Rightarrow> mem \<times> 'w"
  l_turn_time :: "'w \<Rightarrow> u32 \<times> 'w"
  l_usleep :: "int \<Rightarrow> 'w \<Rightarrow> 'w"
  l_nonblock :: "int \<Rightarrow> 'w \<Rightarrow> int \<times> 'w"
  l_time :: "'w \<Rightarrow> u64 \<times> 'w"
  l_event :: "int \<Rightarrow> 'w \<Rightarrow> 'w"
  l_callback :: "nat \<Rightarrow> int \<Rightarrow> mem \<Rightarrow> int \<Rightarrow> 'w \<Rightarrow> 'w"
  l_resolver :: resolver
  SSL_new :: "int \<Rightarrow> int \<Rightarrow> ioa_addr option \<Rightarrow> 'w \<Rightarrow> nat \<times> 'w"
  SSL_set_mtu :: "nat \<Rightarrow> int \<Rightarrow> 'w \<Rightarrow> 'w"
  SSL_query_mtu :: "nat \<Rightarrow> 'w \<Rightarrow> int"
  SSL_connect :: "nat \<Rightarrow> 'w \<Rightarrow> int \<times> 'w"
  SSL_shutdown :: "nat \<Rightarrow> 'w \<Rightarrow> 'w"
  SSL_free :: "nat \<Rightarrow> 'w \<Rightarrow> 'w"
  SSL_CTX_setup :: "ctx_call \<Rightarrow> int \<Rightarrow> 'w \<Rightarrow> bool \<times> 'w"
  SSL_get_shutdown :: "nat \<Rightarrow> 'w \<Rightarrow> bool"
  SSL_write :: "nat \<Rightarrow> mem \<Rightarrow> 'w \<Rightarrow> int \<times> 'w"
  SSL_read :: "nat \<Rightarrow> nat \<Rightarrow> 'w \<Rightarrow> int \<times> mem \<times> 'w"
  SSL_get_error :: "nat \<Rightarrow> int \<Rightarrow> 'w \<Rightarrow> int"
  l_hmac :: hmac_fn
  l_digest :: digest_fn
  l_malloc :: "nat \<Rightarrow> mem"
  l_evp :: "'c evp"
  l_junk :: mem
  l_buffer :: stun_buffer
  l_addr :: ioa_addr
  l_otoken :: oauth_token
  l_etoken :: encoded_oauth_token

record settings =
  use_tcp :: bool
  use_secure :: bool
  use_sctp :: bool
  dos :: bool
  negative_test :: bool
  negative_protocol_test :: bool
  relay_transport :: u8
  clmessage_length :: int
  use_fingerprints :: bool
  no_permissions :: bool
  dual_allocation :: bool
  mobility :: bool
  no_rtcp :: bool
  c2c :: bool
  do_not_use_channel :: bool
  extra_requests :: bool
  dont_fragment :: bool
  bps :: u64
  root_tls_ctx_num :: int
  origin :: mem
  s_oauth :: bool
  shatype :: SHATYPE
  okey_array :: "oauth_key list"
  g_uname :: mem
  g_upwd :: mem
  addr_tbl :: addr_map

record app_tcp_conn_info =
  cid :: u32
  tcp_data_local_addr :: ioa_addr
  tcp_data_fd :: int
  tcp_data_ssl :: "nat option"
  tcp_data_bound :: bool

record app_ur_conn_info =
  ci_fd :: int
  ci_ssl :: "nat option"
  broken :: bool
  ci_nonce :: mem
  ci_realm :: mem
  ci_oauth :: bool
  ci_server_name :: mem
  ci_key :: mem
  key_set :: bool
  cok :: int
  is_peer :: bool
  s_mobile_id :: mem
  ci_peer_addr :: ioa_addr
  ci_relay_addr :: ioa_addr
  ci_local_addr :: ioa_addr
  ci_remote_addr :: ioa_addr
  lsaddr :: mem
  rsaddr :: mem
  ifname :: mem
  tcp_conn :: "app_tcp_conn_info option list"

definition is_TCP_relay :: "settings \<Rightarrow> bool" where
  "is_TCP_relay g \<longleftrightarrow> relay_transport g = 6"

definition get_socket_type :: "settings \<Rightarrow> SOCKET_TYPE" where
  "get_socket_type g =
     (if use_sctp g then (if use_secure g then TLS_SCTP_SOCKET else SCTP_SOCKET)
      else if use_tcp g then (if use_secure g then TLS_SOCKET else TCP_SOCKET)
      else (if use_secure g then DTLS_SOCKET else UDP_SOCKET))"

abbreviation (input) SSL_ERROR_NONE :: int where "SSL_ERROR_NONE \<equiv> 0"
abbreviation (input) SSL_ERROR_WANT_READ :: int where "SSL_ERROR_WANT_READ \<equiv> 2"
abbreviation (input) SSL_ERROR_WANT_WRITE :: int where "SSL_ERROR_WANT_WRITE \<equiv> 3"
abbreviation (input) SSL_ERROR_SYSCALL :: int where "SSL_ERROR_SYSCALL \<equiv> 5"
abbreviation (input) SSL_ERROR_ZERO_RETURN :: int where "SSL_ERROR_ZERO_RETURN \<equiv> 6"

text \<open>The switch over the error of the TLS library: is the connection broken?\<close>

definition ssl_broken :: "('w, 'c) lib \<Rightarrow> nat \<Rightarrow> int \<Rightarrow> 'w \<Rightarrow> bool" where
  "ssl_broken L ssl rc w = (let sslerr = SSL_get_error L ssl rc w in
     if sslerr = SSL_ERROR_NONE \<or> sslerr = SSL_ERROR_WANT_WRITE \<or> sslerr = SSL_ERROR_WANT_READ
        \<or> sslerr = SSL_ERROR_ZERO_RETURN then False
     else if sslerr = SSL_ERROR_SYSCALL \<and> handle_socket_error (os_errno (l_os L) w) \<noteq> 0 then False
     else True)"

text \<open>\<open>random()\<close> as an unsigned number.\<close>

definition urandom :: "('w, 'c) lib \<Rightarrow> 'w \<Rightarrow> nat \<times> 'w" where
  "urandom L w = (case l_random L w of (r, w) \<Rightarrow> (unat (word_of_int r :: u64), w))"

subsection \<open>Sending\<close>

fun garble :: "('w, 'c) lib \<Rightarrow> nat \<Rightarrow> nat \<Rightarrow> mem \<Rightarrow> 'w \<Rightarrow> (mem \<times> 'w) option" where
  "garble L n 0 m w = Some (m, w)"
| "garble L n (Suc np) m w =
     (case urandom L w of (pos, w) \<Rightarrow> case urandom L w of (val, w) \<Rightarrow> do {
        m \<leftarrow> wr8 m (pos mod n) (of_nat (val mod 256));
        garble L n np m w })"

partial_function (option) ssl_send ::
    "('w, 'c) lib \<Rightarrow> nat \<Rightarrow> mem \<Rightarrow> app_ur_conn_info \<Rightarrow> 'w \<Rightarrow> (int \<times> app_ur_conn_info \<times> 'w) option" where
  "ssl_send L ssl bs ci w =
     (if SSL_get_shutdown L ssl w then Some (-1, ci, w)
      else do {
        (n, w) \<leftarrow> retry (SSL_write L ssl bs)
          (\<lambda>n w. n < 0 \<and> (os_errno (l_os L) w = EINTR \<or> os_errno (l_os L) w = ENOBUFS)) w;
        if n = int (length bs) then Some (n, ci, w)
        else if ssl_broken L ssl n w then Some (-1, ci\<lparr>broken := True\<rparr>, w)
        else ssl_send L ssl bs ci w })"

text \<open>
  \<open>off\<close> is how far the pointer \<open>buffer\<close> has moved, \<open>left\<close> a \<open>size_t\<close>; the result is what is left at the end.
\<close>

partial_function (option) send_loop :: "('w, 'c) lib \<Rightarrow> int \<Rightarrow> mem \<Rightarrow> nat \<Rightarrow> nat \<Rightarrow> 'w \<Rightarrow> (nat \<times> 'w) option" where
  "send_loop L fd m off left w =
     (if left > 0 then do {
        bs \<leftarrow> rdn m off left;
        (rc, w) \<leftarrow> retry (l_send L fd bs) (\<lambda>rc w. rc \<le> 0 \<and> (os_errno (l_os L) w = EINTR
            \<or> os_errno (l_os L) w = ENOBUFS \<or> os_errno (l_os L) w = EAGAIN)) w;
        if rc > 0 then send_loop L fd m (off + nat rc) (unat (of_nat left - word_of_int rc :: u64)) w
        else Some (left, w) }
      else Some (left, w))"

definition send_buffer ::
    "('w, 'c) lib \<Rightarrow> settings \<Rightarrow> app_ur_conn_info \<Rightarrow> stun_buffer \<Rightarrow> bool \<Rightarrow> app_tcp_conn_info option \<Rightarrow> 'w
     \<Rightarrow> (int \<times> app_ur_conn_info \<times> stun_buffer \<times> 'w) option" where
  "send_buffer L g ci message data_connection atc w = do {
     (m, w) \<leftarrow> (if negative_protocol_test g \<and> len message > 0 then
         (case urandom L w of (r, w) \<Rightarrow>
            if r mod 10 = 0 then (case urandom L w of (np, w) \<Rightarrow> garble L (len message) (np mod 10) (buf message) w)
            else Some (buf message, w))
       else Some (buf message, w));
     let message = message\<lparr>buf := m\<rparr>;
     let (ssl, fd) = (if data_connection then (case atc of Some c \<Rightarrow> (tcp_data_ssl c, tcp_data_fd c) | None \<Rightarrow> (ci_ssl ci, ci_fd ci))
        else (ci_ssl ci, ci_fd ci));
     if data_connection \<and> atc = None \<and> is_TCP_relay g then Some (-1, ci, message, w)
     else (case ssl of
       Some s \<Rightarrow> do {
         bs \<leftarrow> rdn m 0 (len message);
         (r, ci, w) \<leftarrow> ssl_send L s bs ci w;
         Some (r, ci, message, w) }
     | None \<Rightarrow>
         if fd \<ge> 0 then do {
           (left, w) \<leftarrow> send_loop L fd m 0 (len message) w;
           Some (if left > 0 then -1 else int (len message), ci, message, w) }
         else Some (-1, ci, message, w)) }"

subsection \<open>Waiting\<close>

abbreviation (input) FD_SETSIZE :: int where "FD_SETSIZE \<equiv> 1024"

text \<open>
  \<open>while(--cycle) tv_sec = tv_sec + tv_sec\<close>.  \<open>tv_sec\<close> is a \<open>time_t\<close>, which has 32 bits on the smallest of the supported
  platforms: a sum that does not fit is undefined.
\<close>

function double_loop :: "u32 \<Rightarrow> int \<Rightarrow> int option" where
  "double_loop cycle sec =
     (let cycle = cycle - 1 in
      if cycle = 0 then Some sec
      else if sec + sec \<ge> 2 ^ 31 then None
      else double_loop cycle (sec + sec))"
  by auto

lemma unat_pred: "(c :: u32) \<noteq> 0 \<Longrightarrow> unat c = Suc (unat (c - 1))"
  using unat_gt_0 [of c] by (simp add: unat_minus_one)

termination double_loop
proof (relation "measure (\<lambda>(cycle, sec). unat (cycle - 1))")
  fix cycle sec and c :: u32
  assume "c = cycle - 1" and "c \<noteq> 0"
  then show "((c, sec + sec), cycle, sec) \<in> measure (\<lambda>(cycle, sec). unat (cycle - 1))"
    using unat_pred [of c] by simp
qed simp

declare double_loop.simps [simp del]

partial_function (option) wait_loop :: "('w, 'c) lib \<Rightarrow> int \<Rightarrow> int \<Rightarrow> int \<Rightarrow> u32 \<Rightarrow> int \<Rightarrow> 'w \<Rightarrow> (int \<times> 'w) option" where
  "wait_loop L fd start_time ctime cycle rc w = do {
     sec \<leftarrow> (if cycle = 0 then Some 0 else double_loop cycle 1);
     if cycle \<noteq> 0 \<and> ctime > start_time \<and> ctime \<ge> start_time + sec then Some (rc, w)
     else
       (case (if cycle = 0 then (0, 500000) else if ctime > start_time then (sec - (ctime - start_time), 0) else (sec, 0))
        of (sec, usec) \<Rightarrow> case l_select L fd sec usec w of (rc, w) \<Rightarrow>
          if rc < 0 \<and> os_errno (l_os L) w = EINTR
          then (case l_seconds L w of (ctime, w) \<Rightarrow> wait_loop L fd start_time ctime 0 rc w)
          else Some (rc, w)) }"

definition wait_fd :: "('w, 'c) lib \<Rightarrow> settings \<Rightarrow> int \<Rightarrow> u32 \<Rightarrow> 'w \<Rightarrow> (int \<times> 'w) option" where
  "wait_fd L g fd cycle w =
     (if fd \<ge> FD_SETSIZE then Some (1, w)
      else if fd < 0 then None
      else if dos g \<and> cycle = 0 then Some (0, w)
      else (case l_seconds L w of (start_time, w) \<Rightarrow> wait_loop L fd start_time start_time cycle 0 w))"

subsection \<open>Receiving\<close>

text \<open>
  The parts of \<open>recv_buffer\<close> return \<open>Inl r\<close> for \<open>return r\<close> and \<open>Inr rc\<close> to go on.

  Until something arrives, the request is sent again, up to \<open>n\<close> times more.
\<close>

fun listen_loop ::
    "('w, 'c) lib \<Rightarrow> settings \<Rightarrow> bool \<Rightarrow> app_tcp_conn_info option \<Rightarrow> int \<Rightarrow> nat \<Rightarrow> nat \<Rightarrow> app_ur_conn_info \<Rightarrow> stun_buffer \<Rightarrow> 'w
     \<Rightarrow> ((int + unit) \<times> app_ur_conn_info \<times> stun_buffer \<times> 'w) option" where
  "listen_loop L g data_connection atc fd 0 cycle ci req w = Some (Inr (), ci, req, w)"
| "listen_loop L g data_connection atc fd (Suc n) cycle ci req w = do {
     (serc, w) \<leftarrow> wait_fd L g fd (of_nat cycle) w;
     if serc > 0 then Some (Inr (), ci, req, w)
     else if serc < 0 then Some (Inl (-1), ci, req, w)
     else do {
       (r, ci, req, w) \<leftarrow> send_buffer L g ci req data_connection atc w;
       if r \<le> 0 then Some (Inl (-1), ci, req, w)
       else listen_loop L g data_connection atc fd n (cycle + 1) ci req w } }"

text \<open>A read that is repeated: \<open>again\<close> adds EAGAIN to EINTR for a synchronous one.\<close>

definition sync_read :: "('w, 'c) lib \<Rightarrow> bool \<Rightarrow> ('w \<Rightarrow> int \<times> mem \<times> 'w) \<Rightarrow> 'w \<Rightarrow> ((int \<times> mem) \<times> 'w) option" where
  "sync_read L sync call w = retry (\<lambda>w. case call w of (n, bs, w) \<Rightarrow> ((n, bs), w))
     (\<lambda>(n, bs) w. n < 0 \<and> (os_errno (l_os L) w = EINTR \<or> os_errno (l_os L) w = EAGAIN \<and> sync)) w"

definition udp_recv :: "('w, 'c) lib \<Rightarrow> bool \<Rightarrow> int \<Rightarrow> stun_buffer \<Rightarrow> 'w \<Rightarrow> ((int + int) \<times> stun_buffer \<times> 'w) option" where
  "udp_recv L sync fd message w = do {
     ((rc, bs), w) \<leftarrow> sync_read L sync (os_recv (l_os L) fd 65506) w;
     if rc < 0 then Some (Inl (-1), message, w)
     else do { m \<leftarrow> wrn (buf message) 0 bs; Some (Inr rc, message\<lparr>buf := m, len := nat rc\<rparr>, w) } }"

fun ssl_recv ::
    "('w, 'c) lib \<Rightarrow> bool \<Rightarrow> nat \<Rightarrow> nat \<Rightarrow> app_ur_conn_info \<Rightarrow> stun_buffer \<Rightarrow> int \<Rightarrow> 'w
     \<Rightarrow> ((int + int) \<times> app_ur_conn_info \<times> stun_buffer \<times> 'w) option" where
  "ssl_recv L sync ssl 0 ci message rc w = Some (Inr rc, ci, message, w)"
| "ssl_recv L sync ssl (Suc cycles) ci message rc w =
     (if SSL_get_shutdown L ssl w then Some (Inl (-1), ci, message, w)
      else do {
        ((rc, bs), w) \<leftarrow> sync_read L False (SSL_read L ssl 65506) w;
        if rc > 0 then do { m \<leftarrow> wrn (buf message) 0 bs; Some (Inr rc, ci, message\<lparr>buf := m, len := nat rc\<rparr>, w) }
        else if ssl_broken L ssl rc w then Some (Inl (-1), ci\<lparr>broken := True\<rparr>, message, w)
        else if \<not> sync then Some (Inr rc, ci, message, w)
        else ssl_recv L sync ssl cycles ci message rc w })"

fun tcp_fill :: "('w, 'c) lib \<Rightarrow> bool \<Rightarrow> int \<Rightarrow> int \<Rightarrow> nat \<Rightarrow> mem \<Rightarrow> int \<Rightarrow> 'w \<Rightarrow> (mem \<times> int \<times> 'w) option" where
  "tcp_fill L sync fd mlen 0 m rsf w = Some (m, rsf, w)"
| "tcp_fill L sync fd mlen (Suc cycles) m rsf w =
     (if rsf < mlen then do {
        ((rcr, bs), w) \<leftarrow> sync_read L sync (os_recv (l_os L) fd (nat (mlen - rsf))) w;
        if rcr > 0 then do { m \<leftarrow> wrn m (nat rsf) bs; tcp_fill L sync fd mlen cycles m (rsf + rcr) w }
        else tcp_fill L sync fd mlen cycles m rsf w }
      else Some (m, rsf, w))"

definition tcp_recv ::
    "('w, 'c) lib \<Rightarrow> settings \<Rightarrow> bool \<Rightarrow> app_tcp_conn_info option \<Rightarrow> int \<Rightarrow> stun_buffer \<Rightarrow> 'w
     \<Rightarrow> ((int + int) \<times> stun_buffer \<times> 'w) option" where
  "tcp_recv L g sync atc fd message w = do {
     ((rc, bs), w) \<leftarrow> sync_read L sync (l_peek L fd 65506) w;
     if rc > 0 then do {
       m \<leftarrow> wrn (buf message) 0 bs;
       (mlen, app_msg_len) \<leftarrow> (if atc = None then stun_get_message_len_str m (nat rc) True (nat rc)
          else (let mlen = (if \<not> sync then clmessage_length g else rc);
                    mlen = (if mlen > clmessage_length g then clmessage_length g else mlen)
                in Some (mlen, unat (word_of_int mlen :: u64))));
       if mlen > 0 then do {
         (m, rsf, w) \<leftarrow> tcp_fill L sync fd mlen 128 m 0 w;
         let message = message\<lparr>buf := m\<rparr>;
         if rsf < 1 then Some (Inl (-1), message, w)
         else if rsf < int app_msg_len \<and> app_msg_len div nat rsf * nat rsf \<noteq> app_msg_len then Some (Inl (-1), message, w)
         else Some (Inr (int app_msg_len), message\<lparr>len := app_msg_len\<rparr>, w) }
       else Some (Inr 0, message\<lparr>buf := m\<rparr>, w) }
     else Some (Inr rc, message, w) }"

definition recv_once ::
    "('w, 'c) lib \<Rightarrow> settings \<Rightarrow> bool \<Rightarrow> app_tcp_conn_info option \<Rightarrow> int \<Rightarrow> nat option \<Rightarrow> app_ur_conn_info \<Rightarrow> stun_buffer \<Rightarrow> 'w
     \<Rightarrow> ((int + int) \<times> app_ur_conn_info \<times> stun_buffer \<times> 'w) option" where
  "recv_once L g sync atc fd ssl ci message w =
     (if \<not> use_secure g \<and> \<not> use_tcp g \<and> fd \<ge> 0
      then do { (r, message, w) \<leftarrow> udp_recv L sync fd message w; Some (r, ci, message, w) }
      else if use_secure g \<and> ssl \<noteq> None \<and> \<not> broken ci then ssl_recv L sync (the ssl) 100 ci message 0 w
      else if \<not> use_secure g \<and> use_tcp g \<and> fd \<ge> 0
      then do { (r, message, w) \<leftarrow> tcp_recv L g sync atc fd message w; Some (r, ci, message, w) }
      else Some (Inr 0, ci, message, w))"

text \<open>Is this the answer to the request with the method and the transaction identifier?\<close>

definition recv_match :: "u16 \<Rightarrow> mem \<Rightarrow> stun_buffer \<Rightarrow> bool option" where
  "recv_match method tid message = do {
     recv_tid \<leftarrow> stun_tid_from_message message;
     recv_method \<leftarrow> stun_get_method message;
     Some (method = recv_method \<and> tid = recv_tid) }"

text \<open>
  From the label \<open>recv_again\<close> to its \<open>goto\<close>s: \<open>Inl\<close> is a return, \<open>Inr\<close> going back to the label.  The request comes with
  its method and transaction identifier, which were read before it could be garbled.
\<close>

definition recv_step ::
    "('w, 'c) lib \<Rightarrow> settings \<Rightarrow> bool \<Rightarrow> bool \<Rightarrow> app_tcp_conn_info option \<Rightarrow> int \<Rightarrow> nat option \<Rightarrow> u16 \<Rightarrow> mem
     \<Rightarrow> stun_buffer option \<Rightarrow> app_ur_conn_info \<Rightarrow> stun_buffer \<Rightarrow> 'w
     \<Rightarrow> ((int + unit) \<times> app_ur_conn_info \<times> stun_buffer \<times> stun_buffer option \<times> 'w) option" where
  "recv_step L g sync data_connection atc fd ssl method tid request ci message w = do {
     (r, ci, request, w) \<leftarrow> (if \<not> use_tcp g \<and> sync \<and> request \<noteq> None \<and> fd \<ge> 0
        then do { (r, ci, req, w) \<leftarrow> listen_loop L g data_connection atc fd 7 0 ci (the request) w; Some (r, ci, Some req, w) }
        else Some (Inr (), ci, request, w));
     case r of Inl r \<Rightarrow> Some (Inl r, ci, message, request, w)
     | Inr _ \<Rightarrow> do {
         (r, ci, message, w) \<leftarrow> recv_once L g sync atc fd ssl ci message w;
         case r of Inl r \<Rightarrow> Some (Inl r, ci, message, request, w)
         | Inr rc \<Rightarrow>
             if rc > 0 \<and> request \<noteq> None then do {
               ok \<leftarrow> recv_match method tid message;
               Some (if ok then Inl rc else Inr (), ci, message, request, w) }
             else Some (Inl rc, ci, message, request, w) } }"

partial_function (option) recv_again ::
    "('w, 'c) lib \<Rightarrow> settings \<Rightarrow> bool \<Rightarrow> bool \<Rightarrow> app_tcp_conn_info option \<Rightarrow> int \<Rightarrow> nat option \<Rightarrow> u16 \<Rightarrow> mem
     \<Rightarrow> stun_buffer option \<Rightarrow> app_ur_conn_info \<Rightarrow> stun_buffer \<Rightarrow> 'w
     \<Rightarrow> (int \<times> app_ur_conn_info \<times> stun_buffer \<times> stun_buffer option \<times> 'w) option" where
  "recv_again L g sync data_connection atc fd ssl method tid request ci message w = do {
     (r, ci, message, request, w) \<leftarrow> recv_step L g sync data_connection atc fd ssl method tid request ci message w;
     case r of Inl rc \<Rightarrow> Some (rc, ci, message, request, w)
     | Inr _ \<Rightarrow> recv_again L g sync data_connection atc fd ssl method tid request ci message w }"

definition recv_buffer ::
    "('w, 'c) lib \<Rightarrow> settings \<Rightarrow> app_ur_conn_info \<Rightarrow> stun_buffer \<Rightarrow> bool \<Rightarrow> bool \<Rightarrow> app_tcp_conn_info option
     \<Rightarrow> stun_buffer option \<Rightarrow> 'w \<Rightarrow> (int \<times> app_ur_conn_info \<times> stun_buffer \<times> stun_buffer option \<times> 'w) option" where
  "recv_buffer L g ci message sync data_connection atc request w = do {
     (tid, method) \<leftarrow> (case request of None \<Rightarrow> Some ([], 0)
       | Some req \<Rightarrow> do { t \<leftarrow> stun_tid_from_message req; m \<leftarrow> stun_get_method req; Some (t, m) });
     let fd = (case atc of None \<Rightarrow> ci_fd ci | Some c \<Rightarrow> tcp_data_fd c);
     let ssl = (case atc of None \<Rightarrow> ci_ssl ci | Some c \<Rightarrow> tcp_data_ssl c);
     recv_again L g sync data_connection atc fd ssl method tid request ci message w }"

subsection \<open>What is sent\<close>

lemma unat_of_nat_diff64: "b \<le> a \<Longrightarrow> a < 2 ^ 64 \<Longrightarrow> unat (of_nat a - of_nat b :: u64) = a - b"
  by (simp add: unat_of_nat flip: of_nat_diff)

text \<open>
  \<open>out\<close> is what has been sent on the socket: a call of \<open>send\<close> that returns \<open>n\<close> has sent the first \<open>n\<close> bytes, at most
  what it was given, and a call that fails none.  It is not interrupted forever.
\<close>

definition sends_on :: "('w, 'c) lib \<Rightarrow> int \<Rightarrow> ('w \<Rightarrow> mem) \<Rightarrow> bool" where
  "sends_on L fd out \<longleftrightarrow>
     (\<forall>bs w. fst (l_send L fd bs w) \<le> int (length bs)
        \<and> out (snd (l_send L fd bs w)) = out w @ take (nat (fst (l_send L fd bs w))) bs)
     \<and> (\<forall>bs. ends (l_send L fd bs) (\<lambda>rc w. rc \<le> 0 \<and> (os_errno (l_os L) w = EINTR
          \<or> os_errno (l_os L) w = ENOBUFS \<or> os_errno (l_os L) w = EAGAIN)))"

text \<open>The socket always takes something.\<close>

definition accepts :: "('w, 'c) lib \<Rightarrow> int \<Rightarrow> bool" where
  "accepts L fd \<longleftrightarrow> (\<forall>bs w. bs \<noteq> [] \<longrightarrow> 0 < fst (l_send L fd bs w))"

lemma send_once:
  assumes "sends_on L fd out"
  shows "\<exists>rc w'. retry (l_send L fd bs) (\<lambda>rc w. rc \<le> 0 \<and> (os_errno (l_os L) w = EINTR
      \<or> os_errno (l_os L) w = ENOBUFS \<or> os_errno (l_os L) w = EAGAIN)) w = Some (rc, w')
    \<and> rc \<le> int (length bs) \<and> out w' = out w @ take (nat rc) bs \<and> (accepts L fd \<longrightarrow> bs \<noteq> [] \<longrightarrow> 0 < rc)"
proof -
  let ?again = "\<lambda>rc w. rc \<le> 0 \<and> (os_errno (l_os L) w = EINTR \<or> os_errno (l_os L) w = ENOBUFS \<or> os_errno (l_os L) w = EAGAIN)"
  have s: "r \<le> int (length bs)" "out w' = out w1 @ take (nat r) bs" if "l_send L fd bs w1 = (r, w')" for r w' w1
    using assms that unfolding sends_on_def by (metis fst_conv snd_conv)+
  have "ends (l_send L fd bs) ?again"
    using assms unfolding sends_on_def by blast
  then obtain r w' where r: "retry (l_send L fd bs) ?again w = Some (r, w')"
    using ends_retry [of "l_send L fd bs" ?again w] by blast
  have "\<exists>w1. out w1 = out w \<and> l_send L fd bs w1 = (r, w')"
    by (rule retry_keeps [OF r]) (use s(2) in fastforce)
  then obtain w1 where w1: "out w1 = out w" "l_send L fd bs w1 = (r, w')"
    by blast
  moreover have "accepts L fd \<longrightarrow> bs \<noteq> [] \<longrightarrow> 0 < r"
    using w1(2) unfolding accepts_def by (metis fst_conv)
  ultimately show ?thesis
    using r s by metis
qed

lemma send_loop_exact:
  assumes "sends_on L fd out" and "off + left \<le> length m" and "left < 2 ^ 64"
  shows "\<exists>rest w'. send_loop L fd m off left w = Some (rest, w') \<and> rest \<le> left
    \<and> out w' = out w @ take (left - rest) (drop off m) \<and> (accepts L fd \<longrightarrow> rest = 0)"
  using assms(2,3)
proof (induction left arbitrary: off w rule: less_induct)
  case (less left)
  show ?case
  proof (cases "left = 0")
    case True
    then show ?thesis
      by (subst send_loop.simps) simp
  next
    case False
    let ?bs = "take left (drop off m)"
    have rd: "rdn m off left = Some ?bs"
      using less.prems(1) by (simp add: rdn_def)
    obtain rc w1 where r: "retry (l_send L fd ?bs) (\<lambda>rc w. rc \<le> 0 \<and> (os_errno (l_os L) w = EINTR
        \<or> os_errno (l_os L) w = ENOBUFS \<or> os_errno (l_os L) w = EAGAIN)) w = Some (rc, w1)"
        "rc \<le> int left" "out w1 = out w @ take (nat rc) ?bs" "accepts L fd \<longrightarrow> 0 < rc"
      using send_once [OF assms(1), of ?bs w] less.prems(1) False by auto
    show ?thesis
    proof (cases "rc > 0")
      case True
      have u: "unat (of_nat left - word_of_int rc :: u64) = left - nat rc"
        using True r(2) less.prems(2) unat_of_nat_diff64 [of "nat rc" left] by simp
      have "left - nat rc < left" "off + nat rc + (left - nat rc) \<le> length m" "left - nat rc < 2 ^ 64"
        using True r(2) less.prems by auto
      from less.IH [OF this] obtain rest w' where
        i: "send_loop L fd m (off + nat rc) (left - nat rc) w1 = Some (rest, w')" "rest \<le> left - nat rc"
          "out w' = out w1 @ take (left - nat rc - rest) (drop (off + nat rc) m)" "accepts L fd \<longrightarrow> rest = 0"
        by blast
      have "take (nat rc) ?bs @ take (left - nat rc - rest) (drop (off + nat rc) m) = take (left - rest) (drop off m)"
      proof -
        have "left - rest = nat rc + (left - nat rc - rest)"
          using i(2) r(2) True by linarith
        moreover have "min (nat rc) left = nat rc"
          using r(2) by simp
        ultimately show ?thesis
          by (simp add: take_add add.commute)
      qed
      moreover have "send_loop L fd m off left w = Some (rest, w')"
        using False True by (subst send_loop.simps) (simp add: rd r(1) u i(1))
      ultimately show ?thesis
        using i(2-4) r(3) by auto
    next
      case nr: False
      then have "send_loop L fd m off left w = Some (left, w1)"
        using False by (subst send_loop.simps) (simp add: rd r(1))
      then show ?thesis
        using r(3,4) nr by simp
    qed
  qed
qed

lemma send_buffer_sends:
  assumes "sends_on L (ci_fd ci) out" and "0 \<le> ci_fd ci" and "ci_ssl ci = None" and "\<not> negative_protocol_test g"
    and "0 < len message" and "len message \<le> length (buf message)" and "length (buf message) = 65507"
  shows "\<exists>r n w'. send_buffer L g ci message False atc w = Some (r, ci, message, w')
    \<and> n \<le> len message \<and> out w' = out w @ take n (buf message) \<and> r = (if n = len message then int n else -1)
    \<and> (accepts L (ci_fd ci) \<longrightarrow> n = len message)"
proof -
  have "0 + len message \<le> length (buf message)" "len message < 2 ^ 64"
    using assms(6,7) by simp_all
  from send_loop_exact [OF assms(1) this, of w] obtain rest w' where
    "send_loop L (ci_fd ci) (buf message) 0 (len message) w = Some (rest, w')" "rest \<le> len message"
    "out w' = out w @ take (len message - rest) (buf message)" "accepts L (ci_fd ci) \<longrightarrow> rest = 0"
    by auto
  then show ?thesis
    using assms(2-5)
    by (intro exI [of _ "if rest > 0 then -1 else int (len message)"] exI [of _ "len message - rest"] exI [of _ w'])
      (auto simp: send_buffer_def)
qed

text \<open>C30: Sending over a plain socket: the buffer goes out byte for byte and in order, in as many pieces as the system takes;
  the result is its length when all of it was sent, and -1 with some of it, less than all, sent otherwise; and all of it is sent
  if the system takes at least one byte each time.\<close>

theorem send_buffer_exact:
  assumes "sends_on L (ci_fd ci) out" and "0 \<le> ci_fd ci" and "ci_ssl ci = None" and "\<not> negative_protocol_test g"
    and "0 < len message" and "len message \<le> length (buf message)" and "length (buf message) = 65507"
  shows "\<exists>r n w'. send_buffer L g ci message False atc w = Some (r, ci, message, w')
    \<and> n \<le> len message \<and> out w' = out w @ take n (buf message) \<and> r = (if n = len message then int n else -1)
    \<and> (accepts L (ci_fd ci) \<longrightarrow> n = len message)"
  using send_buffer_sends [OF assms] .

subsection \<open>What is received\<close>

text \<open>Every early return is -1.\<close>

lemma listen_loop_return:
  "listen_loop L g dc atc fd n cycle ci req w = Some (Inl r, ci', req', w') \<Longrightarrow> r = -1"
  by (induction n arbitrary: cycle ci req w) (auto split: bind_splits if_splits)

lemma ssl_recv_return: "ssl_recv L sync ssl n ci message rc w = Some (Inl r, ci', message', w') \<Longrightarrow> r = -1"
  by (induction n arbitrary: ci message rc w) (auto split: bind_splits if_splits)

lemma recv_once_return: "recv_once L g sync atc fd ssl ci message w = Some (Inl r, ci', message', w') \<Longrightarrow> r = -1"
  by (auto simp: recv_once_def udp_recv_def tcp_recv_def Let_def dest: ssl_recv_return split: bind_splits if_splits)

lemma recv_step_matches:
  assumes "recv_step L g sync dc atc fd ssl meth tid request ci message w = Some (r, ci', message', request', w')"
    and "request \<noteq> None"
  shows "request' \<noteq> None" and "r = Inl rc \<Longrightarrow> 0 < rc \<Longrightarrow> recv_match meth tid message' = Some True"
  using assms
  by (auto simp: recv_step_def dest!: listen_loop_return recv_once_return split: bind_splits if_splits sum.splits)

text \<open>Without the garbling of the protocol test a request is still the same after it was sent and awaited.\<close>

lemma send_buffer_same:
  "\<not> negative_protocol_test g \<Longrightarrow> send_buffer L g ci message dc atc w = Some (r, ci', message', w') \<Longrightarrow> message' = message"
  by (auto simp: send_buffer_def Let_def split: bind_splits if_splits option.splits prod.splits)

lemma listen_loop_same:
  assumes "\<not> negative_protocol_test g"
  shows "listen_loop L g dc atc fd n cycle ci req w = Some (r, ci', req', w') \<Longrightarrow> req' = req"
  by (induction n arbitrary: cycle ci w) (auto dest!: send_buffer_same [OF assms] split: bind_splits if_splits)

lemma recv_step_same:
  assumes "\<not> negative_protocol_test g"
    and "recv_step L g sync dc atc fd ssl meth tid request ci message w = Some (r, ci', message', request', w')"
  shows "request' = request"
  using assms(2)
  by (auto simp: recv_step_def dest!: listen_loop_same [OF assms(1)] split: bind_splits if_splits sum.splits)

lemma recv_again_matches:
  fixes L :: "('w, 'c) lib"
  assumes "recv_again L g sync dc atc fd ssl meth tid request ci message w = Some (rc, ci', message', request', w')"
    and "0 < rc" and "request \<noteq> None"
  shows "recv_match meth tid message' = Some True" and "\<not> negative_protocol_test g \<Longrightarrow> request' = request"
proof -
  define P where "P L g sync dc atc fd ssl meth tid request ci message w x \<longleftrightarrow>
      (request \<noteq> None \<longrightarrow> 0 < fst x \<longrightarrow> recv_match meth tid (fst (snd (snd x))) = Some True)
      \<and> (\<not> negative_protocol_test g \<longrightarrow> fst (snd (snd (snd x))) = request)"
    for L :: "('w, 'c) lib" and g :: settings and sync dc :: bool and atc :: "app_tcp_conn_info option" and fd :: int
      and ssl :: "nat option" and meth tid and request :: "stun_buffer option" and ci :: app_ur_conn_info
      and message :: stun_buffer and w :: 'w and x :: "int \<times> app_ur_conn_info \<times> stun_buffer \<times> stun_buffer option \<times> 'w"
  have "P L g sync dc atc fd ssl meth tid request ci message w (rc, ci', message', request', w')"
  proof (rule recv_again.raw_induct [where P = P, OF _ assms(1)])
    fix f L g sync dc atc fd ssl meth tid request ci message w x
    assume IH: "\<And>L g sync dc atc fd ssl meth tid request ci message w x.
        f L g sync dc atc fd ssl meth tid request ci message w = Some x
        \<Longrightarrow> P L g sync dc atc fd ssl meth tid request ci message w x"
      and eq: "do {
        (r, ci, message, request, w) \<leftarrow> recv_step L g sync dc atc fd ssl meth tid request ci message w;
        case r of Inl rc \<Rightarrow> Some (rc, ci, message, request, w)
        | Inr _ \<Rightarrow> f L g sync dc atc fd ssl meth tid request ci message w } = Some x"
    then obtain r ci1 message1 request1 w1 where
      s: "recv_step L g sync dc atc fd ssl meth tid request ci message w = Some (r, ci1, message1, request1, w1)"
      by (auto split: bind_splits)
    show "P L g sync dc atc fd ssl meth tid request ci message w x"
    proof (cases r)
      case (Inl rc)
      then show ?thesis
        using eq s recv_step_matches(2) [OF s] recv_step_same [OF _ s] by (auto simp: P_def)
    next
      case (Inr u)
      then have "f L g sync dc atc fd ssl meth tid request1 ci1 message1 w1 = Some x"
        using eq s by simp
      from IH [OF this] show ?thesis
        using recv_step_matches(1) [OF s] recv_step_same [OF _ s] by (simp add: P_def)
    qed
  qed
  then show "recv_match meth tid message' = Some True" and "\<not> negative_protocol_test g \<Longrightarrow> request' = request"
    using assms(2,3) by (simp_all add: P_def)
qed

lemma recv_buffer_answer:
  assumes "recv_buffer L g ci message sync data_connection atc (Some request) w = Some (rc, ci', message', request', w')"
    and "0 < rc"
  shows "\<exists>t m. stun_tid_from_message request = Some t \<and> stun_get_method request = Some m
    \<and> stun_tid_from_message message' = Some t \<and> stun_get_method message' = Some m
    \<and> (\<not> negative_protocol_test g \<longrightarrow> request' = Some request)"
proof -
  obtain t m where tm: "stun_tid_from_message request = Some t" "stun_get_method request = Some m"
    using assms(1) by (auto simp: recv_buffer_def split: bind_splits)
  let ?fd = "case atc of None \<Rightarrow> ci_fd ci | Some c \<Rightarrow> tcp_data_fd c"
  let ?ssl = "case atc of None \<Rightarrow> ci_ssl ci | Some c \<Rightarrow> tcp_data_ssl c"
  have "recv_again L g sync data_connection atc ?fd ?ssl m t (Some request) ci message w = Some (rc, ci', message', request', w')"
    using assms(1) tm by (simp add: recv_buffer_def Let_def)
  from recv_again_matches [OF this assms(2)] show ?thesis
    using tm by (auto simp: recv_match_def split: bind_splits)
qed

text \<open>C29: What the client takes for the response to a request has the method and the transaction identifier of that request,
  whatever the network delivers, over UDP, DTLS, TCP or TLS.\<close>

theorem recv_buffer_matches:
  assumes "recv_buffer L g ci message sync data_connection atc (Some request) w = Some (rc, ci', message', request', w')"
    and "0 < rc"
  shows "\<exists>t m. stun_tid_from_message request = Some t \<and> stun_get_method request = Some m
    \<and> stun_tid_from_message message' = Some t \<and> stun_get_method message' = Some m"
  using recv_buffer_answer [OF assms] by blast

subsection \<open>Waiting\<close>

lemma double_loop_eq:
  assumes "0 < sec" and "sec * 2 ^ n < 2 ^ 31" and "unat cycle = Suc n"
  shows "double_loop cycle sec = Some (sec * 2 ^ n)"
  using assms
proof (induction n arbitrary: cycle sec)
  case 0
  then have "cycle - 1 = 0"
    by (metis unat_pred nat.inject unat_0 unat_eq_0 old.nat.distinct(1))
  then show ?case
    by (simp add: double_loop.simps)
next
  case (Suc n)
  have c: "unat (cycle - 1) = Suc n"
    using Suc.prems(3) unat_pred [of cycle] by fastforce
  then have "cycle - 1 \<noteq> 0"
    by (metis nat.distinct(1) unat_0)
  moreover have "sec + sec < 2 ^ 31"
  proof -
    have "(sec + sec) * 1 \<le> (sec + sec) * 2 ^ n"
      using Suc.prems(1) by (intro mult_left_mono) simp_all
    then show ?thesis
      using Suc.prems(2) by (simp add: mult.commute mult.left_commute)
  qed
  ultimately show ?case
    using Suc.IH [of "sec + sec" "cycle - 1"] Suc.prems(1,2) c
    by (subst double_loop.simps) (simp add: Let_def mult.commute mult.left_commute)
qed

text \<open>Once the counter is 0, the time that has gone by is not looked at.\<close>

lemma wait_loop_zero:
  fixes L :: "('w, 'c) lib"
  assumes "wait_loop L fd s c 0 rc w = Some y"
  shows "wait_loop L fd s' c' 0 rc' w = Some y"
proof -
  define P where "P = (\<lambda>(L :: ('w, 'c) lib) fd (s :: int) (c :: int) (cycle :: u32) (rc :: int) w y.
    cycle = 0 \<longrightarrow> (\<forall>s' c' rc'. wait_loop L fd s' c' 0 rc' w = Some y))"
  have "P L fd s c 0 rc w y"
  proof (rule wait_loop.raw_induct [where P = P, OF _ assms])
    fix f and L :: "('w, 'c) lib" and fd s c cycle rc w y
    assume f: "\<And>L fd s c cycle rc w y. f L fd s c cycle rc w = Some y \<Longrightarrow> P L fd s c cycle rc w y"
      and step: "do {
         sec \<leftarrow> (if cycle = 0 then Some 0 else double_loop cycle 1);
         if cycle \<noteq> 0 \<and> c > s \<and> c \<ge> s + sec then Some (rc, w)
         else
           (case (if cycle = 0 then (0, 500000) else if c > s then (sec - (c - s), 0) else (sec, 0))
            of (sec, usec) \<Rightarrow> case l_select L fd sec usec w of (rc, w) \<Rightarrow>
              if rc < 0 \<and> os_errno (l_os L) w = EINTR
              then (case l_seconds L w of (c, w) \<Rightarrow> f L fd s c 0 rc w)
              else Some (rc, w)) } = Some y"
    then show "P L fd s c cycle rc w y"
      unfolding P_def by (cases y, subst wait_loop.simps) (auto split: prod.splits if_splits)
  qed
  then show ?thesis
    by (simp add: P_def)
qed

lemma wait_loop_interrupted: "wait_loop L fd s c 0 rc w = wait_loop L fd s' c' 0 rc' w"
proof (cases "wait_loop L fd s c 0 rc w")
  case None
  then show ?thesis
    using wait_loop_zero [of L fd s' c' rc' w _ s c rc] by (cases "wait_loop L fd s' c' 0 rc' w") auto
next
  case (Some y)
  then show ?thesis
    using wait_loop_zero [of L fd s c rc w y s' c' rc'] by simp
qed

text \<open>C32: The client waits half a second after the first transmission of a request and 1, 2, 4, \dots seconds after the
  following ones, twice as long each time, as long as the time fits the 32 bits of \<open>time_t\<close> (the client never gets beyond
  cycle 6).  A wait that a signal interrupts is not resumed with the time that is left: it starts over with half a second.\<close>

theorem wait_fd_doubles:
  assumes "0 \<le> fd" and "fd < 1024" and "\<not> (dos g \<and> cycle = 0)" and "unat cycle \<le> 31"
    and "l_seconds L w = (now, w1)"
    and "l_select L fd (if cycle = 0 then 0 else 2 ^ (unat cycle - 1)) (if cycle = 0 then 500000 else 0) w1 = (rc, w2)"
  shows "wait_fd L g fd cycle w =
    (if rc < 0 \<and> os_errno (l_os L) w2 = EINTR then wait_fd L (g\<lparr>dos := False\<rparr>) fd 0 w2 else Some (rc, w2))"
proof -
  have "double_loop cycle 1 = Some (2 ^ (unat cycle - 1))" if "cycle \<noteq> 0"
  proof -
    have "(2 :: int) ^ (unat cycle - 1) \<le> 2 ^ 30"
      using assms(4) by (intro power_increasing) simp_all
    then show ?thesis
      using double_loop_eq [of 1 "unat cycle - 1" cycle] unat_pred [OF that] by simp
  qed
  then have "wait_loop L fd now now cycle 0 w1 = (if rc < 0 \<and> os_errno (l_os L) w2 = EINTR
      then (case l_seconds L w2 of (c, w) \<Rightarrow> wait_loop L fd now c 0 rc w) else Some (rc, w2))"
    using assms(6) by (subst wait_loop.simps) (auto split: if_splits)
  then show ?thesis
    using assms(1-3,5) wait_loop_interrupted by (auto simp: wait_fd_def split: prod.splits)
qed

subsection \<open>A library for the witnesses\<close>

text \<open>
  The world is what was sent; a call of \<open>send\<close> takes at most 1000 bytes, \<open>bs\<close> is what is received, and waiting times out.
\<close>

definition sample_lib :: "mem \<Rightarrow> (mem, unit) lib" where
  "sample_lib bs = \<lparr>l_os = sample_os zero_addr bs, l_send = \<lambda>fd m w. (int (min 1000 (length m)), w @ take 1000 m),
     l_peek = \<lambda>fd n w. (int (length bs), bs, w), l_select = \<lambda>fd sec usec w. (0, w), l_seconds = \<lambda>w. (0, w),
     l_random = \<lambda>w. (1, w), l_entropy = \<lambda>w. (sample_entropy, w), l_RAND_bytes = \<lambda>n w. (replicate n 5, w),
     l_turn_time = \<lambda>w. (0, w), l_usleep = \<lambda>n w. w,
     l_nonblock = \<lambda>fd w. (0, w), l_time = \<lambda>w. (1000, w), l_event = \<lambda>fd w. w, l_callback = \<lambda>cb t a p w. w,
     l_resolver = sample_resolver, SSL_new = \<lambda>ctx fd a w. (7, w), SSL_set_mtu = \<lambda>s n w. w, SSL_query_mtu = \<lambda>s w. 1300,
     SSL_connect = \<lambda>s w. (1, w), SSL_shutdown = \<lambda>s w. w, SSL_free = \<lambda>s w. w, SSL_CTX_setup = \<lambda>n c w. (True, w),
     SSL_get_shutdown = \<lambda>s w. False, SSL_write = \<lambda>s m w. (int (length m), w @ m),
     SSL_read = \<lambda>s n w. (int (length bs), bs, w), SSL_get_error = \<lambda>s n w. 0, l_hmac = \<lambda>md k m. Some (replicate (md_size md) 0),
     l_digest = \<lambda>md m. replicate (md_size md) 0, l_malloc = \<lambda>n. replicate n 0, l_evp = plain_evp, l_junk = replicate 1024 9, l_buffer = blank_buffer, l_addr = zero_addr,
     l_otoken = sample_token, l_etoken = \<lparr>token = replicate 1024 0, token_size = 0\<rparr>\<rparr>"

definition sample_settings :: settings where
  "sample_settings = \<lparr>use_tcp = False, use_secure = False, use_sctp = False, dos = False, negative_test = False,
     negative_protocol_test = False, relay_transport = 17, clmessage_length = 100, use_fingerprints = True, no_permissions = False,
     dual_allocation = False, mobility = False, no_rtcp = False, c2c = False, do_not_use_channel = False, extra_requests = False,
     dont_fragment = False, bps = 0, root_tls_ctx_num = 0, origin = [0], s_oauth = False, shatype = SHATYPE_SHA1, okey_array = [],
     g_uname = [117, 0], g_upwd = [112, 0], addr_tbl = empty_map\<rparr>"

definition sample_conn :: app_ur_conn_info where
  "sample_conn = \<lparr>ci_fd = 5, ci_ssl = None, broken = False, ci_nonce = replicate 128 0, ci_realm = replicate 128 0, ci_oauth = False,
     ci_server_name = replicate 1026 0, ci_key = replicate 64 0, key_set = False, cok = 0, is_peer = False,
     s_mobile_id = replicate 33 0, ci_peer_addr = zero_addr, ci_relay_addr = zero_addr, ci_local_addr = zero_addr,
     ci_remote_addr = zero_addr, lsaddr = replicate 129 0, rsaddr = replicate 129 0, ifname = replicate 129 0, tcp_conn = []\<rparr>"

definition small_buffer :: "mem \<Rightarrow> stun_buffer" where
  "small_buffer m = \<lparr>channel = replicate 4 0, buf = m, len = length m, offset = 0, coffset = 0\<rparr>"

lemma sample_accepts: "accepts (sample_lib bs) fd"
  by (simp add: accepts_def sample_lib_def)

lemma sample_sends: "sends_on (sample_lib bs) fd id"
  by (auto simp: sends_on_def sample_lib_def ends_def attempt_def min_def sample_os_def)

theorem send_buffer_exact_witness:
  "send_buffer (sample_lib []) sample_settings sample_conn (blank_buffer\<lparr>len := 1500\<rparr>) False None []
      = Some (1500, sample_conn, blank_buffer\<lparr>len := 1500\<rparr>, take 1500 (buf blank_buffer))"
  using send_buffer_exact [OF sample_sends, of sample_conn sample_settings "blank_buffer\<lparr>len := 1500\<rparr>" "[]" None "[]"] sample_accepts
  by (simp add: sample_conn_def sample_settings_def blank_buffer_def)

definition tiny_message :: "u8 \<Rightarrow> mem" where
  "tiny_message c = [c, 9, 0, 0, 0x21, 0x12, 0xA4, 0x42] @ replicate 12 7"

theorem recv_buffer_matches_witness:
  "\<exists>rc ci' message' request' w'. recv_buffer (sample_lib (tiny_message 1)) sample_settings sample_conn
      (small_buffer (replicate 24 0)) False False None (Some (small_buffer (tiny_message 0))) [] = Some (rc, ci', message', request', w')
    \<and> 0 < rc \<and> stun_get_method message' = Some STUN_METHOD_CHANNEL_BIND"
proof -
  let ?r = "recv_buffer (sample_lib (tiny_message 1)) sample_settings sample_conn
      (small_buffer (replicate 24 0)) False False None (Some (small_buffer (tiny_message 0))) []"
  let ?m = "(small_buffer (tiny_message 1 @ replicate 4 0))\<lparr>len := 20\<rparr>"
  have "udp_recv (sample_lib (tiny_message 1)) False 5 (small_buffer (replicate 24 0)) [] = Some (Inr 20, ?m, [])"
    by (simp add: udp_recv_def sync_read_def retry_once sample_lib_def sample_os_def tiny_message_def small_buffer_def wrn_def)
  then have o: "recv_once (sample_lib (tiny_message 1)) sample_settings False None 5 None sample_conn (small_buffer (replicate 24 0)) []
      = Some (Inr 20, sample_conn, ?m, [])"
    by (simp add: recv_once_def sample_settings_def)
  have t: "stun_tid_from_message (small_buffer (tiny_message 0)) = Some (replicate 12 7)"
    "stun_get_method (small_buffer (tiny_message 0)) = Some 9" "recv_match 9 (replicate 12 7) ?m = Some True"
    by code_simp+
  have c: "ci_fd sample_conn = 5" "ci_ssl sample_conn = None" "\<not> use_tcp sample_settings"
    by (simp_all add: sample_conn_def sample_settings_def)
  have r: "?r = Some (20, sample_conn, ?m, Some (small_buffer (tiny_message 0)), [])"
    by (simp add: recv_buffer_def t(1,2) c) (subst recv_again.simps, simp add: recv_step_def o t(3) c)
  then show ?thesis
    using recv_buffer_matches [OF r] t(2) by auto
qed

theorem wait_fd_doubles_witness: "wait_fd (sample_lib []) sample_settings 5 3 [] = Some (0, [])"
  using wait_fd_doubles [of 5 sample_settings 3 "sample_lib []" "[]" 0 "[]" 0 "[]"] by (simp add: sample_lib_def sample_settings_def)

end
