(* ===== verification/Crc32.thy ===== *)
theory Crc32
  imports Prelude
begin

text \<open>
  The CRC-32 of \<open>client/ns_turn_msg.c\<close>: the literal table, the table-driven update and the loop
  \<open>ns_crc32\<close>.  The reference is the bit-by-bit division that the comment \<open>make_crctable\<close> gives; the
  table is that reference, the update is eight steps of it, and a change of one byte changes the
  result.
\<close>

subsection \<open>The code\<close>

definition crctable :: "u32 list" where
  "crctable =
    [0x00000000, 0x77073096, 0xEE0E612C, 0x990951BA, 0x076DC419, 0x706AF48F,
     0xE963A535, 0x9E6495A3, 0x0EDB8832, 0x79DCB8A4, 0xE0D5E91E, 0x97D2D988,
     0x09B64C2B, 0x7EB17CBD, 0xE7B82D07, 0x90BF1D91, 0x1DB71064, 0x6AB020F2,
     0xF3B97148, 0x84BE41DE, 0x1ADAD47D, 0x6DDDE4EB, 0xF4D4B551, 0x83D385C7,
     0x136C9856, 0x646BA8C0, 0xFD62F97A, 0x8A65C9EC, 0x14015C4F, 0x63066CD9,
     0xFA0F3D63, 0x8D080DF5, 0x3B6E20C8, 0x4C69105E, 0xD56041E4, 0xA2677172,
     0x3C03E4D1, 0x4B04D447, 0xD20D85FD, 0xA50AB56B, 0x35B5A8FA, 0x42B2986C,
     0xDBBBC9D6, 0xACBCF940, 0x32D86CE3, 0x45DF5C75, 0xDCD60DCF, 0xABD13D59,
     0x26D930AC, 0x51DE003A, 0xC8D75180, 0xBFD06116, 0x21B4F4B5, 0x56B3C423,
     0xCFBA9599, 0xB8BDA50F, 0x2802B89E, 0x5F058808, 0xC60CD9B2, 0xB10BE924,
     0x2F6F7C87, 0x58684C11, 0xC1611DAB, 0xB6662D3D, 0x76DC4190, 0x01DB7106,
     0x98D220BC, 0xEFD5102A, 0x71B18589, 0x06B6B51F, 0x9FBFE4A5, 0xE8B8D433,
     0x7807C9A2, 0x0F00F934, 0x9609A88E, 0xE10E9818, 0x7F6A0DBB, 0x086D3D2D,
     0x91646C97, 0xE6635C01, 0x6B6B51F4, 0x1C6C6162, 0x856530D8, 0xF262004E,
     0x6C0695ED, 0x1B01A57B, 0x8208F4C1, 0xF50FC457, 0x65B0D9C6, 0x12B7E950,
     0x8BBEB8EA, 0xFCB9887C, 0x62DD1DDF, 0x15DA2D49, 0x8CD37CF3, 0xFBD44C65,
     0x4DB26158, 0x3AB551CE, 0xA3BC0074, 0xD4BB30E2, 0x4ADFA541, 0x3DD895D7,
     0xA4D1C46D, 0xD3D6F4FB, 0x4369E96A, 0x346ED9FC, 0xAD678846, 0xDA60B8D0,
     0x44042D73, 0x33031DE5, 0xAA0A4C5F, 0xDD0D7CC9, 0x5005713C, 0x270241AA,
     0xBE0B1010, 0xC90C2086, 0x5768B525, 0x206F85B3, 0xB966D409, 0xCE61E49F,
     0x5EDEF90E, 0x29D9C998, 0xB0D09822, 0xC7D7A8B4, 0x59B33D17, 0x2EB40D81,
     0xB7BD5C3B, 0xC0BA6CAD, 0xEDB88320, 0x9ABFB3B6, 0x03B6E20C, 0x74B1D29A,
     0xEAD54739, 0x9DD277AF, 0x04DB2615, 0x73DC1683, 0xE3630B12, 0x94643B84,
     0x0D6D6A3E, 0x7A6A5AA8, 0xE40ECF0B, 0x9309FF9D, 0x0A00AE27, 0x7D079EB1,
     0xF00F9344, 0x8708A3D2, 0x1E01F268, 0x6906C2FE, 0xF762575D, 0x806567CB,
     0x196C3671, 0x6E6B06E7, 0xFED41B76, 0x89D32BE0, 0x10DA7A5A, 0x67DD4ACC,
     0xF9B9DF6F, 0x8EBEEFF9, 0x17B7BE43, 0x60B08ED5, 0xD6D6A3E8, 0xA1D1937E,
     0x38D8C2C4, 0x4FDFF252, 0xD1BB67F1, 0xA6BC5767, 0x3FB506DD, 0x48B2364B,
     0xD80D2BDA, 0xAF0A1B4C, 0x36034AF6, 0x41047A60, 0xDF60EFC3, 0xA867DF55,
     0x316E8EEF, 0x4669BE79, 0xCB61B38C, 0xBC66831A, 0x256FD2A0, 0x5268E236,
     0xCC0C7795, 0xBB0B4703, 0x220216B9, 0x5505262F, 0xC5BA3BBE, 0xB2BD0B28,
     0x2BB45A92, 0x5CB36A04, 0xC2D7FFA7, 0xB5D0CF31, 0x2CD99E8B, 0x5BDEAE1D,
     0x9B64C2B0, 0xEC63F226, 0x756AA39C, 0x026D930A, 0x9C0906A9, 0xEB0E363F,
     0x72076785, 0x05005713, 0x95BF4A82, 0xE2B87A14, 0x7BB12BAE, 0x0CB61B38,
     0x92D28E9B, 0xE5D5BE0D, 0x7CDCEFB7, 0x0BDBDF21, 0x86D3D2D4, 0xF1D4E242,
     0x68DDB3F8, 0x1FDA836E, 0x81BE16CD, 0xF6B9265B, 0x6FB077E1, 0x18B74777,
     0x88085AE6, 0xFF0F6A70, 0x66063BCA, 0x11010B5C, 0x8F659EFF, 0xF862AE69,
     0x616BFFD3, 0x166CCF45, 0xA00AE278, 0xD70DD2EE, 0x4E048354, 0x3903B3C2,
     0xA7672661, 0xD06016F7, 0x4969474D, 0x3E6E77DB, 0xAED16A4A, 0xD9D65ADC,
     0x40DF0B66, 0x37D83BF0, 0xA9BCAE53, 0xDEBB9EC5, 0x47B2CF7F, 0x30B5FFE9,
     0xBDBDF21C, 0xCABAC28A, 0x53B39330, 0x24B4A3A6, 0xBAD03605, 0xCDD70693,
     0x54DE5729, 0x23D967BF, 0xB3667A2E, 0xC4614AB8, 0x5D681B02, 0x2A6F2B94,
     0xB40BBE37, 0xC30C8EA1, 0x5A05DF1B, 0x2D02EF8D]"

definition UPDATE_CRC :: "u32 \<Rightarrow> u8 \<Rightarrow> u32" where
  "UPDATE_CRC crc c = crctable ! unat (ucast crc XOR c :: u8) XOR drop_bit 8 crc"

text \<open>The loop \<open>while (len--) UPDATE_CRC(crc, *buffer++)\<close>.\<close>

fun crc_loop :: "u32 \<Rightarrow> mem \<Rightarrow> nat \<Rightarrow> u32 option" where
  "crc_loop crc buffer 0 = Some crc"
| "crc_loop crc [] (Suc len) = None"
| "crc_loop crc (c # buffer) (Suc len) = crc_loop (UPDATE_CRC crc c) buffer len"

definition ns_crc32 :: "mem \<Rightarrow> u32 \<Rightarrow> u32 option" where
  "ns_crc32 buffer len = do { crc \<leftarrow> crc_loop 0xFFFFFFFF buffer (unat len); Some (NOT crc) }"

subsection \<open>The reference\<close>

definition crc_bit :: "u32 \<Rightarrow> u32" where
  "crc_bit r = (if bit r 0 then drop_bit 1 r XOR 0xEDB88320 else drop_bit 1 r)"

definition crc_byte :: "u32 \<Rightarrow> u32" where
  "crc_byte r = crc_bit (crc_bit (crc_bit (crc_bit (crc_bit (crc_bit (crc_bit (crc_bit r)))))))"

definition make_crctable :: "u32 list" where
  "make_crctable = map (\<lambda>i. crc_byte (of_nat i)) [0..<256]"

text \<open>The CRC of a byte string, one bit at a time.\<close>

definition crc_ref :: "mem \<Rightarrow> u32" where
  "crc_ref bs = NOT (foldl (\<lambda>crc c. crc_byte (crc XOR ucast c)) 0xFFFFFFFF bs)"

lemma crc_byte_funpow: "crc_byte r = (crc_bit ^^ 8) r"
  by (simp add: crc_byte_def numeral_eq_Suc)

lemmas crc_byte_eval = crc_byte_def [of "0 :: u32"] crc_byte_def [of "1 :: u32"] crc_byte_def [of "numeral n :: u32" for n]
  crc_bit_def [of "0 :: u32"] crc_bit_def [of "1 :: u32"] crc_bit_def [of "numeral n :: u32" for n]

lemma map_upt_numeral:
  "map f [numeral m..<numeral n] =
     (if numeral m < (numeral n :: nat) then f (numeral m) # map f [Num.numeral (Num.inc m)..<numeral n] else [])"
  by (simp add: upt_rec [of "numeral m"] numeral_inc)

lemma crctable_eq: "crctable = make_crctable"
proof -
  have "[0..<256] = 0 # Suc 0 # [2..<256]"
    by (simp add: upt_rec [of 0] upt_rec [of "Suc 0"] numeral_2_eq_2)
  then show ?thesis
    by (simp add: crctable_def make_crctable_def map_upt_numeral crc_byte_eval)
qed

lemma length_crctable: "length crctable = 256"
  by (simp add: crctable_eq make_crctable_def)

lemma crctable_nth: "crctable ! unat (c :: u8) = crc_byte (ucast c)"
  using unat_u8_less [of c] by (simp add: crctable_eq make_crctable_def)

lemma crc_bit_xor: "crc_bit (a XOR b) = crc_bit a XOR crc_bit b"
  by (rule bit_word_eqI) (auto simp: crc_bit_def bit_simps)

lemma crc_byte_xor: "crc_byte (a XOR b) = crc_byte a XOR crc_byte b"
  by (simp add: crc_byte_def crc_bit_xor)

lemma crc_bit_even: "\<not> bit r 0 \<Longrightarrow> crc_bit r = drop_bit 1 r"
  by (simp add: crc_bit_def)

lemma crc_bits_even: "(\<forall>n<k. \<not> bit r n) \<Longrightarrow> (crc_bit ^^ k) r = drop_bit k r"
proof (induction k)
  case (Suc k)
  then have "(crc_bit ^^ k) r = drop_bit k r" and "\<not> bit (drop_bit k r) 0"
    by (simp_all add: bit_simps)
  then show ?case
    by (simp add: crc_bit_even)
qed simp

lemma crc_byte_high: "(\<forall>n<8. \<not> bit r n) \<Longrightarrow> crc_byte r = drop_bit 8 r"
  unfolding crc_byte_funpow by (rule crc_bits_even)

text \<open>The table-driven step is eight steps of the division.\<close>

lemma update_crc_ref: "UPDATE_CRC crc c = crc_byte (crc XOR ucast c)"
proof -
  let ?low = "ucast (ucast crc :: u8) :: u32"
  have "crc_byte (crc XOR ?low) = drop_bit 8 (crc XOR ?low)"
    by (rule crc_byte_high) (auto simp: bit_simps)
  also have "\<dots> = drop_bit 8 crc"
    by (rule bit_word_eqI) (auto simp: bit_simps)
  finally have high: "crc_byte (crc XOR ?low) = drop_bit 8 crc" .
  have "crc XOR ucast c = ucast (ucast crc XOR c :: u8) XOR (crc XOR ?low)"
    by (rule bit_word_eqI) (auto simp: bit_simps)
  then have "crc_byte (crc XOR ucast c) = crc_byte (ucast (ucast crc XOR c :: u8)) XOR drop_bit 8 crc"
    by (simp only: crc_byte_xor [of "ucast (ucast crc XOR c :: u8)"] high)
  then show ?thesis
    by (simp only: UPDATE_CRC_def crctable_nth)
qed

lemma crc_loop_ref:
  "n \<le> length bs \<Longrightarrow> crc_loop crc bs n = Some (foldl (\<lambda>crc c. crc_byte (crc XOR ucast c)) crc (take n bs))"
  by (induction crc bs n rule: crc_loop.induct) (auto simp: update_crc_ref)

subsection \<open>Sensitivity\<close>

lemma xor_cancel:
  fixes x :: u32
  assumes "x XOR a = x XOR b"
  shows "a = b"
proof -
  have "x XOR (x XOR a) = x XOR (x XOR b)"
    using assms by simp
  then show ?thesis
    by (simp flip: xor.assoc)
qed

lemma crc_bit_inj: "crc_bit a = crc_bit b \<Longrightarrow> a = b"
proof -
  have "a = 0" if "crc_bit a = 0" for a
  proof (cases "bit a 0")
    case True
    have "bit (crc_bit a) 31"
      using True bit_imp_le_length [of a 32] by (auto simp: crc_bit_def bit_simps)
    with that show ?thesis by simp
  next
    case False
    then have "drop_bit 1 a = 0"
      using that by (simp add: crc_bit_def)
    then have "\<not> bit (drop_bit 1 a) n" for n
      by simp
    then have "\<not> bit a (Suc n)" for n
      by (simp add: bit_simps)
    then have "\<not> bit a n" for n
      using False by (cases n) simp_all
    then show ?thesis
      by (intro bit_word_eqI) simp
  qed
  moreover assume "crc_bit a = crc_bit b"
  ultimately have "a XOR b = a XOR a"
    by (simp add: crc_bit_xor)
  then show "a = b"
    using xor_cancel by blast
qed

lemma crc_byte_inj: "crc_byte a = crc_byte b \<Longrightarrow> a = b"
  by (auto simp: crc_byte_def dest!: crc_bit_inj)

text \<open>Two byte strings of equal length that differ in one place have different checksums.\<close>

lemma crc_fold_inj:
  "foldl (\<lambda>crc c. crc_byte (crc XOR ucast c)) x bs = foldl (\<lambda>crc c. crc_byte (crc XOR ucast c)) y bs
   \<Longrightarrow> x = y"
proof (induction bs arbitrary: x y)
  case (Cons c bs)
  then have "ucast c XOR x = ucast c XOR y"
    by (auto dest!: Cons.IH crc_byte_inj simp: xor.commute)
  then show ?case
    by (rule xor_cancel)
qed simp

lemma ucast_u8_u32_inj:
  assumes "(ucast (a :: u8) :: u32) = ucast b"
  shows "a = b"
proof -
  have "ucast (ucast x :: u32) = x" for x :: u8
    by (rule bit_word_eqI) (simp add: bit_simps)
  then show ?thesis
    using assms by metis
qed

lemma crc_ref_one_byte:
  assumes "crc_ref (xs @ a # ys) = crc_ref (xs @ b # ys)"
  shows "a = b"
proof -
  let ?x = "foldl (\<lambda>crc c. crc_byte (crc XOR ucast c)) 0xFFFFFFFF xs"
  have "crc_byte (?x XOR ucast a) = crc_byte (?x XOR ucast b)"
    using assms by (auto simp: crc_ref_def dest: crc_fold_inj)
  then have "?x XOR ucast a = ?x XOR ucast b"
    by (rule crc_byte_inj)
  then have "(ucast a :: u32) = ucast b"
    by (rule xor_cancel)
  then show ?thesis
    by (rule ucast_u8_u32_inj)
qed

lemma ns_crc32_ref: "unat len \<le> length bs \<Longrightarrow> ns_crc32 bs len = Some (crc_ref (take (unat len) bs))"
  by (simp add: ns_crc32_def crc_ref_def crc_loop_ref)

text \<open>C4: The table-driven checksum is the CRC-32 of the polynomial 0xEDB88320 computed bit by
  bit, for every byte string; it reads exactly the \<open>len\<close> bytes it is given; and changing any
  single byte of the string changes it.\<close>

theorem crc32_equiv_bitwise:
  assumes "unat len = length bs"
  shows "ns_crc32 (bs @ rest) len = Some (crc_ref bs)
    \<and> (\<forall>i < length bs. \<forall>c. c \<noteq> bs ! i \<longrightarrow> ns_crc32 (bs[i := c] @ rest) len \<noteq> Some (crc_ref bs))"
proof -
  have "crc_ref (bs[i := c]) \<noteq> crc_ref bs" if "i < length bs" and "c \<noteq> bs ! i" for i c
    using crc_ref_one_byte [of "take i bs" c "drop (Suc i) bs" "bs ! i"] that
    by (auto simp: upd_conv_take_nth_drop id_take_nth_drop [symmetric])
  then show ?thesis
    using assms by (simp add: ns_crc32_ref)
qed

theorem crc32_equiv_bitwise_witness:
  "ns_crc32 (chars ''123456789'' @ [0]) 9 = Some (crc_ref (chars ''123456789''))
   \<and> crc_ref (chars ''123456789'') = 0xCBF43926"
proof -
  have "ns_crc32 (chars ''123456789'' @ [0]) 9 = Some (crc_ref (chars ''123456789''))"
    using crc32_equiv_bitwise [of 9 "chars ''123456789''" "[0]"] by (simp add: chars_def)
  moreover have "crc_ref (chars ''123456789'') = 0xCBF43926"
    by (simp add: crc_ref_def chars_def of_char_def crc_byte_def crc_bit_def)
  ultimately show ?thesis by simp
qed

end
