(* ===== verification/Fingerprint.thy ===== *)
theory Fingerprint
  imports Attr_Last Crc32
begin

text \<open>
  The FINGERPRINT attribute of \<open>client/ns_turn_msg.c\<close>: \<open>stun_attr_add_fingerprint_str\<close> and the
  check \<open>stun_is_command_message_full_check_str\<close>.  The out-parameter \<open>fingerprint_present\<close> is an
  option, \<open>None\<close> for NULL; the function returns its new contents.
\<close>

subsection \<open>The code\<close>

definition stun_attr_add_fingerprint_str :: "mem \<Rightarrow> nat \<Rightarrow> (int \<times> mem \<times> nat) option" where
  "stun_attr_add_fingerprint_str buf len = do {
     (_, b, l) \<leftarrow> stun_attr_add_str buf len STUN_ATTRIBUTE_FINGERPRINT (Some (bytes32 0)) 4;
     crc32 \<leftarrow> ns_crc32 b (word_of_int (int l - 8));
     b \<leftarrow> (if l < 4 then None else wr32 b (l - 4) (nswap32 (crc32 XOR 0x5354554E)));
     Some (0, b, l) }"

definition stun_is_command_message_full_check_str ::
    "mem \<Rightarrow> nat \<Rightarrow> bool \<Rightarrow> int option \<Rightarrow> (bool \<times> int option) option" where
  "stun_is_command_message_full_check_str buf blen must_check_fingerprint fingerprint_present = do {
     c \<leftarrow> stun_is_command_message_str buf blen;
     if \<not> c then Some (False, fingerprint_present)
     else do {
       sar \<leftarrow> stun_attr_get_first_by_type_str buf blen STUN_ATTRIBUTE_FINGERPRINT;
       if sar = None then do {
         let present = map_option (\<lambda>_. 0) fingerprint_present;
         m \<leftarrow> stun_get_method_str buf blen;
         if m = STUN_METHOD_BINDING then Some (True, present)
         else Some (\<not> must_check_fingerprint, present) }
       else do {
         l \<leftarrow> stun_attr_get_len buf sar;
         if l \<noteq> 4 then Some (False, fingerprint_present)
         else do {
           fingerprint \<leftarrow> stun_attr_get_value buf sar;
           case fingerprint of
             None \<Rightarrow> Some (\<not> must_check_fingerprint, fingerprint_present)
           | Some q \<Rightarrow> do {
               let crc32len = word_of_int (int q - 4);
               w \<leftarrow> rd32 buf q;
               crc \<leftarrow> ns_crc32 buf crc32len;
               let ret = (w = nswap32 (crc XOR 0x5354554E));
               Some (ret, if ret then map_option (\<lambda>_. 1) fingerprint_present
                          else fingerprint_present) } } } } }"

subsection \<open>What the check reads\<close>

text \<open>The value the attribute must have when it starts at offset \<open>p\<close>.\<close>

definition fingerprint_at :: "mem \<Rightarrow> nat \<Rightarrow> mem" where
  "fingerprint_at buf p = bytes32 (nswap32 (crc_ref (take p buf) XOR 0x5354554E))"

lemma rd32_bytes: "length v = 4 \<Longrightarrow> rd32 (a @ v @ c) (length a) = Some w \<longleftrightarrow> v = bytes32 w"
proof -
  assume "length v = 4"
  then obtain b0 b1 b2 b3 where v: "v = [b0, b1, b2, b3]"
    by (auto simp: numeral_eq_Suc length_Suc_conv)
  have "le32 b0 b1 b2 b3 = w \<longleftrightarrow> [b0, b1, b2, b3] = bytes32 w"
    by (auto simp: bytes32_def byte_simps)
  then show ?thesis
    by (simp add: rd32_def v nth_append)
qed

lemma is_command_len:
  assumes "stun_is_command_message_str buf blen = Some True"
  shows "blen < 65556"
proof -
  obtain l :: u16 where "blen = unat l + 20"
    using assms by (auto simp: stun_is_command_message_str_def bind_eq_Some_conv Let_def split: if_splits)
  then show ?thesis
    using unat_u16_less [of l] by simp
qed

lemma full_check_found:
  assumes "blen \<le> length buf" and "stun_is_command_message_str buf blen = Some True"
    and "stun_attr_get_first_by_type_str buf blen STUN_ATTRIBUTE_FINGERPRINT = Some (Some p)"
  shows "stun_is_command_message_full_check_str buf blen must fp =
    (let ret = (snd (attr_at buf p) = fingerprint_at buf p)
     in Some (ret, if ret then map_option (\<lambda>_. 1) fp else fp))"
proof -
  have "p \<in> set (message_offsets buf blen)"
    using assms(3) by (auto simp: first_by_type_find [OF assms(1)] find_Some_iff)
  note o = message_offsets_in [OF assms(1) this]
  let ?v = "snd (attr_at buf p)"
  have p: "p + 4 + length ?v \<le> length buf" "p + 4 \<le> length buf" "p < 2 ^ 31"
    using o(2) assms(1) is_command_len [OF assms(2)] by simp_all
  have len: "stun_attr_get_len buf (Some p) = Some (int (length ?v))"
    using p(2) o(4) get_len_Some [of p buf] by simp
  show ?thesis
  proof (cases "length ?v = 4")
    case False
    moreover have "length (fingerprint_at buf p) = 4"
      by (simp add: fingerprint_at_def)
    ultimately have "?v \<noteq> fingerprint_at buf p"
      by auto
    with False show ?thesis
      by (simp add: stun_is_command_message_full_check_str_def assms(2,3) len Let_def)
  next
    case True
    have val: "stun_attr_get_value buf (Some p) = Some (Some (p + 4))"
      using get_value_of_len [OF len] True by simp
    have v: "?v = take 4 (drop (p + 4) buf)"
      using o(3,4) True by simp
    have "buf = take (p + 4) buf @ ?v @ drop 4 (drop (p + 4) buf)"
      unfolding v by (simp only: append_take_drop_id)
    moreover have "length (take (p + 4) buf) = p + 4"
      using p(2) by simp
    ultimately have rd: "rd32 buf (p + 4) = Some w \<longleftrightarrow> ?v = bytes32 w" for w
      using rd32_bytes [OF True, of "take (p + 4) buf" "drop 4 (drop (p + 4) buf)" w] by metis
    obtain w where w: "rd32 buf (p + 4) = Some w"
      using p(1) True by (simp add: rd32_def)
    have "unat (of_nat p :: u32) = p"
      using p(3) by (simp add: unat_of_nat)
    then have crc: "ns_crc32 buf (of_nat p) = Some (crc_ref (take p buf))"
      using ns_crc32_ref [of "of_nat p" buf] p(2) by simp
    have "w = x \<longleftrightarrow> ?v = bytes32 x" for x
      using rd w by auto
    then show ?thesis
      by (simp add: stun_is_command_message_full_check_str_def assms(2,3) len True val w crc
          fingerprint_at_def Let_def)
  qed
qed

lemma full_check_msg:
  assumes "stun_msg buf len mt STUN_MAGIC_COOKIE tid (as @ [(STUN_ATTRIBUTE_FINGERPRINT, v)])"
    and "STUN_ATTRIBUTE_FINGERPRINT \<notin> fst ` set as" and "length v = 4" and "drop_bit 14 mt = 0"
  shows "stun_is_command_message_full_check_str buf len must fp =
    (let ret = (v = fingerprint_at buf (len - 8))
     in Some (ret, if ret then map_option (\<lambda>_. 1) fp else fp))"
proof -
  have "pad4 (length v) = 4"
    using assms(3) by (simp add: pad4_def)
  then have "attr_at buf (len - 8) = (STUN_ATTRIBUTE_FINGERPRINT, v)"
    and "stun_attr_get_first_by_type_str buf len STUN_ATTRIBUTE_FINGERPRINT = Some (Some (len - 8))"
    using first_by_type_last [OF assms(1,2)] by simp_all
  then show ?thesis
    using full_check_found [OF stun_msg_len(2) [OF assms(1)]] stun_msg_view(5) [OF assms(1,4)] by simp
qed

subsection \<open>Properties\<close>

lemma add_fingerprint_msg:
  assumes "stun_msg buf len mt ck tid as" and "len + 8 < 65507" and "len + 8 \<le> length buf"
  shows "\<exists>b v. stun_attr_add_fingerprint_str buf len = Some (0, b, len + 8)
    \<and> stun_msg b (len + 8) mt ck tid (as @ [(STUN_ATTRIBUTE_FINGERPRINT, v)])
    \<and> v = fingerprint_at b len \<and> length b = length buf"
proof -
  have p4: "pad4 4 = 4"
    by (simp add: pad4_def)
  obtain b where add: "stun_attr_add_str buf len STUN_ATTRIBUTE_FINGERPRINT (Some (bytes32 0)) 4 = Some (0, b, len + 8)"
    and rep: "stun_msg b (len + 8) mt ck tid (as @ [(STUN_ATTRIBUTE_FINGERPRINT, bytes32 0)])"
    and lb: "length b = length buf"
  proof -
    have e: "len + 4 + pad4 4 = len + 8"
      by (simp add: p4)
    show thesis
      using attr_added [OF assms(1), of 4 "bytes32 0" STUN_ATTRIBUTE_FINGERPRINT, unfolded e]
        assms(2,3) that by auto
  qed
  let ?c = "crc_ref (take len b)"
  let ?v = "bytes32 (nswap32 (?c XOR 0x5354554E))"
  have "len < 2 ^ 32"
    using assms(2) by simp
  then have u: "unat (of_nat len :: u32) = len"
    by (simp add: unat_of_nat)
  then have crc: "ns_crc32 b (of_nat len) = Some ?c"
    using ns_crc32_ref [of "of_nat len" b] lb assms(3) by simp
  obtain b' where b': "wrn b (len + 4) ?v = Some b'"
    and rep': "stun_msg b' (len + 8) mt ck tid (as @ [(STUN_ATTRIBUTE_FINGERPRINT, ?v)])"
    and lb': "length b' = length b" and same: "take (len + 4) b' = take (len + 4) b"
  proof -
    have e: "len + 8 - pad4 (length (bytes32 0)) = len + 4"
      by (simp add: p4)
    show thesis
      using stun_msg_set_last [OF rep, of ?v, unfolded e] that by auto
  qed
  have "take len b' = take len b"
    using same by (metis le_add1 min.absorb1 take_take)
  moreover have "stun_attr_add_fingerprint_str buf len = Some (0, b', len + 8)"
    using add crc b' by (simp add: stun_attr_add_fingerprint_str_def wr32_def add.commute)
  ultimately show ?thesis
    using rep' lb lb' by (auto simp: fingerprint_at_def)
qed

text \<open>C5: A message closed with a fingerprint passes the full check, with or without the
  obligation to check, and reports the fingerprint as present.\<close>

theorem fingerprint_roundtrip:
  assumes "stun_msg buf len mt STUN_MAGIC_COOKIE tid as" and "drop_bit 14 mt = 0"
    and "STUN_ATTRIBUTE_FINGERPRINT \<notin> fst ` set as"
    and "len + 8 < 65507" and "len + 8 \<le> length buf"
  shows "\<exists>b. stun_attr_add_fingerprint_str buf len = Some (0, b, len + 8)
    \<and> stun_is_command_message_full_check_str b (len + 8) must fp = Some (True, map_option (\<lambda>_. 1) fp)"
proof -
  obtain b v where b: "stun_attr_add_fingerprint_str buf len = Some (0, b, len + 8)"
    and rep: "stun_msg b (len + 8) mt STUN_MAGIC_COOKIE tid (as @ [(STUN_ATTRIBUTE_FINGERPRINT, v)])"
    and v: "v = fingerprint_at b len"
    using add_fingerprint_msg [OF assms(1,4,5)] by blast
  have "length v = 4"
    by (simp add: v fingerprint_at_def)
  then show ?thesis
    using b full_check_msg [OF rep assms(3) _ assms(2), of must fp] v by simp
qed

theorem fingerprint_roundtrip_witness:
  "\<exists>b. stun_attr_add_fingerprint_str
       (header (stun_make_request STUN_METHOD_BINDING) 0 STUN_MAGIC_COOKIE (replicate 12 7) @ replicate 20 0) 20
       = Some (0, b, 28)
     \<and> stun_is_command_message_full_check_str b 28 True (Some 0) = Some (True, Some 1)"
  using fingerprint_roundtrip [OF stun_msg_new, of "replicate 12 7" "stun_make_request STUN_METHOD_BINDING"
      "replicate 20 0" True "Some 0"] by simp

lemma bytes32_inj: "bytes32 v = bytes32 w \<longleftrightarrow> v = w"
proof
  assume "bytes32 v = bytes32 w"
  then have "le32 (byte_of 0 v) (byte_of (Suc 0) v) (byte_of 2 v) (byte_of 3 v) =
      le32 (byte_of 0 w) (byte_of (Suc 0) w) (byte_of 2 w) (byte_of 3 w)"
    by (simp add: bytes32_def)
  then show "v = w"
    by (simp add: byte_simps)
qed simp

lemma nswap32_inj: "nswap32 v = nswap32 w \<longleftrightarrow> v = w"
  by (metis nswap32_nswap32)

lemma fingerprint_at_update:
  assumes "i < p" and "p \<le> length buf" and "c \<noteq> buf ! i"
  shows "fingerprint_at (buf[i := c]) p \<noteq> fingerprint_at buf p"
proof
  let ?x = "take i buf" and ?y = "take (p - Suc i) (drop (Suc i) buf)"
  assume "fingerprint_at (buf[i := c]) p = fingerprint_at buf p"
  then have "0x5354554E XOR crc_ref (take p (buf[i := c])) = 0x5354554E XOR crc_ref (take p buf)"
    by (simp add: fingerprint_at_def bytes32_inj nswap32_inj xor.commute)
  then have "crc_ref (take p (buf[i := c])) = crc_ref (take p buf)"
    by (rule xor_cancel)
  moreover have "take p buf = ?x @ buf ! i # ?y" and "take p (buf[i := c]) = ?x @ c # ?y"
  proof -
    have "i < length buf"
      using assms(1,2) by simp
    then have "take p (take i buf @ d # drop (Suc i) buf) = ?x @ d # ?y" for d
      using assms(1) by (simp add: take_Cons')
    then show "take p buf = ?x @ buf ! i # ?y" and "take p (buf[i := c]) = ?x @ c # ?y"
      using \<open>i < length buf\<close> by (metis id_take_nth_drop, metis upd_conv_take_nth_drop)
  qed
  ultimately show False
    using crc_ref_one_byte assms(3) by metis
qed

lemma is_command_total:
  assumes "blen \<le> length buf"
  shows "\<exists>r. stun_is_command_message_str buf blen = Some r"
  using assms by (auto simp: stun_is_command_message_str_def rd16_def rd32_def rd8_def Let_def)

text \<open>The full check reads only bytes of the datagram, whatever was received.\<close>

lemma full_check_safe:
  assumes "blen \<le> length buf"
  shows "\<exists>r. stun_is_command_message_full_check_str buf blen must fp = Some r"
proof -
  obtain c where c: "stun_is_command_message_str buf blen = Some c"
    using is_command_total [OF assms] by blast
  obtain sar where sar: "stun_attr_get_first_by_type_str buf blen STUN_ATTRIBUTE_FINGERPRINT = Some sar"
    using first_by_type_find [OF assms] by blast
  show ?thesis
  proof (cases "c \<and> sar \<noteq> None")
    case True
    then show ?thesis
      using full_check_found [OF assms, of _ must fp] c sar by (auto simp: Let_def)
  next
    case False
    then show ?thesis
      using c sar assms
      by (auto simp: stun_is_command_message_full_check_str_def stun_get_method_str_def rd16_def Let_def)
  qed
qed

text \<open>A message that passed the check with its fingerprint at offset \<open>p\<close> does not pass once a
  byte in front of the fingerprint is changed, as long as the attribute is still found there.\<close>

lemma fingerprint_detects_change:
  assumes "stun_attr_get_first_by_type_str buf blen STUN_ATTRIBUTE_FINGERPRINT = Some (Some p)"
    and "stun_is_command_message_full_check_str buf blen True fp = Some (True, fp')"
    and "blen \<le> length buf" and "i < p" and "c \<noteq> buf ! i"
    and "stun_attr_get_first_by_type_str (buf[i := c]) blen STUN_ATTRIBUTE_FINGERPRINT = Some (Some p)"
  shows "\<exists>fp''. stun_is_command_message_full_check_str (buf[i := c]) blen True fp = Some (False, fp'')"
proof (cases "stun_is_command_message_str (buf[i := c]) blen = Some True")
  case True
  have cmd: "stun_is_command_message_str buf blen = Some True"
    using assms(2) by (auto simp: stun_is_command_message_full_check_str_def bind_eq_Some_conv
        split: if_splits)
  have v: "snd (attr_at buf p) = fingerprint_at buf p"
    using assms(2) full_check_found [OF assms(3) cmd assms(1), of True fp] by (auto simp: Let_def)
  have "p \<in> set (message_offsets buf blen)"
    using assms(1) by (auto simp: first_by_type_find [OF assms(3)] find_Some_iff)
  then have p: "p \<le> length buf"
    using message_offsets_in(2) [OF assms(3)] assms(3) by (metis add_leD1 le_trans)
  have "attr_at (buf[i := c]) p = attr_at buf p"
    using assms(4) by (simp add: attr_at_def)
  moreover have "fingerprint_at (buf[i := c]) p \<noteq> fingerprint_at buf p"
    using p assms(4,5) by (simp add: fingerprint_at_update)
  ultimately have "snd (attr_at (buf[i := c]) p) \<noteq> fingerprint_at (buf[i := c]) p"
    using v by simp
  then show ?thesis
    using full_check_found [OF _ True assms(6), of True fp] assms(3) by (simp add: Let_def)
next
  case False
  have "\<exists>r. stun_is_command_message_str (buf[i := c]) blen = Some r"
    using is_command_total [of blen "buf[i := c]"] assms(3) by simp
  with False show ?thesis
    by (auto simp: stun_is_command_message_full_check_str_def)
qed

end
