(* ===== verification/Turn_Session.thy ===== *)
theory Turn_Session
  imports Turn_Io Fingerprint
begin

text \<open>
  The transactions of the TURN client: credentials (\<open>add_integrity\<close>, \<open>check_integrity\<close>) and the refreshing of a session of
  \<open>p2p/p2p_client.c\<close>, channel bindings and permissions of \<open>p2p/connect_manager.c\<close>.

  The transport is that of theory \<open>Turn_Io\<close>.  \<open>exit\<close> is the result \<open>Inl\<close> of the status.
\<close>

subsection \<open>Parts of requests and responses\<close>

definition add_origin :: "settings \<Rightarrow> stun_buffer \<Rightarrow> stun_buffer option" where
  "add_origin g message = do {
     c \<leftarrow> rd8 (origin g) 0;
     if c \<noteq> 0 then do {
       (_, message) \<leftarrow> stun_attr_add message STUN_ATTRIBUTE_ORIGIN (Some (c_lit ''https://carleon.gov:443'')) 23;
       n \<leftarrow> c_strlen (origin g);
       (_, message) \<leftarrow> stun_attr_add message STUN_ATTRIBUTE_ORIGIN (Some (origin g)) (int n);
       (_, message) \<leftarrow> stun_attr_add message STUN_ATTRIBUTE_ORIGIN (Some (c_lit ''ftp://uffrith.net'')) 17;
       Some message }
     else Some message }"

definition rare_event :: "('w, 'c) lib \<Rightarrow> settings \<Rightarrow> 'w \<Rightarrow> bool \<times> 'w" where
  "rare_event L g w = (if dos g then (case urandom L w of (r, w) \<Rightarrow> (r mod 1000 = 777, w)) else (False, w))"

definition not_rare_event :: "('w, 'c) lib \<Rightarrow> settings \<Rightarrow> 'w \<Rightarrow> bool \<times> 'w" where
  "not_rare_event L g w = (if dos g then (case urandom L w of (r, w) \<Rightarrow> (r mod 1000 < 200, w)) else (False, w))"

definition get_allocate_address_family :: "ioa_addr \<Rightarrow> int" where
  "get_allocate_address_family relay_addr =
     (if sa_family relay_addr = AF_INET then 0 else if sa_family relay_addr = AF_INET6 then 2 else -1)"

definition read_mobility_ticket :: "app_ur_conn_info \<Rightarrow> stun_buffer \<Rightarrow> (int \<times> app_ur_conn_info) option" where
  "read_mobility_ticket ci message = do {
     sar \<leftarrow> stun_attr_get_first_by_type message STUN_ATTRIBUTE_MOBILITY_TICKET;
     if sar \<noteq> None then do {
       smid_len \<leftarrow> stun_attr_get_len (buf message) sar;
       if smid_len > 0 \<and> smid_len < 33 then do {
         smid_val \<leftarrow> stun_attr_get_value (buf message) sar;
         case smid_val of None \<Rightarrow> Some (0, ci)
         | Some v \<Rightarrow> do {
             m \<leftarrow> copy_value (buf message) v (nat smid_len) (s_mobile_id ci) True;
             Some (0, ci\<lparr>s_mobile_id := m\<rparr>) } }
       else Some (-1, ci) }
     else Some (0, ci) }"

definition socket_connect :: "'w os \<Rightarrow> int \<Rightarrow> ioa_addr \<Rightarrow> int \<Rightarrow> 'w \<Rightarrow> (int \<times> int \<times> 'w) option" where
  "socket_connect S fd remote_addr connect_err w = do {
     (r, e, w) \<leftarrow> addr_connect S fd (Some remote_addr) (Some connect_err) w;
     e \<leftarrow> e;
     Some (if r < 0 then (if e = EINPROGRESS then 0 else if e = EADDRINUSE then 1 else -1) else 0, e, w) }"

subsection \<open>Credentials\<close>

definition get_turn_credentials_type :: turn_credential_type where
  "get_turn_credentials_type = TURN_CREDENTIALS_LONG_TERM"

definition oauth_key_length :: "SHATYPE \<Rightarrow> nat" where
  "oauth_key_length sht = (case sht of SHATYPE_SHA256 \<Rightarrow> 32 | SHATYPE_SHA384 \<Rightarrow> 48 | SHATYPE_SHA512 \<Rightarrow> 64 | _ \<Rightarrow> 20)"

text \<open>A fresh token for a key of the client's own, which is put into the message: the key, or the early \<open>return -1\<close>.\<close>

definition fresh_token ::
    "('w, 'c) lib \<Rightarrow> settings \<Rightarrow> app_ur_conn_info \<Rightarrow> stun_buffer \<Rightarrow> 'w \<Rightarrow> ((int + unit) \<times> app_ur_conn_info \<times> stun_buffer \<times> 'w) option" where
  "fresh_token L g ci message w = do {
     let (r, w) = urandom L w;
     let k = r mod 2 ^ 16 mod 3;
     let ci = ci\<lparr>cok := int k\<rparr>;
     let (nonce, w) = l_RAND_bytes L 12 w;
     (r, w) \<leftarrow> retry (l_random L) (\<lambda>r w. r = 0) w;
     let random_lifetime = \<bar>r\<bar> mod 277;
     let (now, w) = l_turn_time L w;
     let n = oauth_key_length (shatype g);
     let (rnd, w) = l_RAND_bytes L n w;
     mk \<leftarrow> wrn (mac_key (enc_block (l_otoken L))) 0 rnd;
     let otoken = \<lparr>enc_block = (enc_block (l_otoken L))\<lparr>lifetime := word_of_int (277 + random_lifetime),
       timestamp := push_bit 16 (ucast now), key_length := of_nat n, mac_key := mk\<rparr>\<rparr>;
     okey \<leftarrow> (if k < length (okey_array g) then Some (okey_array g ! k) else None);
     let (e, w) = l_entropy L w;
     (r, et) \<leftarrow> encode_oauth_token e (l_evp L) (Some (ci_server_name ci)) (Some (l_etoken L)) (Some okey) (Some otoken) (Some nonce);
     et \<leftarrow> et;
     if r < 0 then Some (Inl (-1), ci, message, w)
     else do {
       (_, message) \<leftarrow> stun_attr_add message STUN_ATTRIBUTE_OAUTH_ACCESS_TOKEN (Some (token et)) (int (token_size et));
       bs \<leftarrow> rdn mk 0 n;
       key \<leftarrow> wrn (ci_key ci) 0 bs;
       Some (Inr (), ci\<lparr>ci_key := key, key_set := True\<rparr>, message, w) } }"

definition add_integrity ::
    "('w, 'c) lib \<Rightarrow> settings \<Rightarrow> app_ur_conn_info \<Rightarrow> stun_buffer \<Rightarrow> 'w \<Rightarrow> (int \<times> app_ur_conn_info \<times> stun_buffer \<times> 'w) option" where
  "add_integrity L g ci message w = do {
     c \<leftarrow> rd8 (ci_nonce ci) 0;
     if c = 0 then Some (0, ci, message, w)
     else if s_oauth g \<and> ci_oauth ci then do {
       method \<leftarrow> stun_get_method message;
       (x, ci, message, w) \<leftarrow> (if method = STUN_METHOD_ALLOCATE \<or> method = STUN_METHOD_REFRESH \<or> \<not> key_set ci
          then fresh_token L g ci message w else Some (Inr (), ci, message, w));
       case x of Inl r \<Rightarrow> Some (r, ci, message, w)
       | Inr _ \<Rightarrow> do {
           okey \<leftarrow> (if 0 \<le> cok ci \<and> nat (cok ci) < length (okey_array g) then Some (okey_array g ! nat (cok ci)) else None);
           (r, message) \<leftarrow> store3 message (stun_attr_add_integrity_by_key_str (l_hmac L) (l_junk L) (buf message) (len message)
             (k_kid okey) (ci_realm ci) (ci_key ci) (ci_nonce ci) (shatype g));
           if r < 0 then Some (-1, ci, message, w)
           else do {
             (r, m) \<leftarrow> stun_check_message_integrity_by_key_str (l_hmac L) get_turn_credentials_type (buf message) (len message)
               (ci_key ci) (l_junk L) (shatype g);
             Some (if r < 1 then -1 else 0, ci, message\<lparr>buf := m\<rparr>, w) } } }
     else do {
       (r, message) \<leftarrow> store3 message (stun_attr_add_integrity_by_user_str (l_hmac L) (l_digest L) (l_malloc L) (l_junk L)
         (buf message) (len message) (g_uname g) (ci_realm ci) (g_upwd g) (ci_nonce ci) (shatype g));
       Some (if r < 0 then -1 else 0, ci, message, w) } }"

definition check_integrity ::
    "('w, 'c) lib \<Rightarrow> settings \<Rightarrow> app_ur_conn_info \<Rightarrow> stun_buffer \<Rightarrow> (int \<times> stun_buffer) option" where
  "check_integrity L g ci message =
     (if s_oauth g \<and> ci_oauth ci then do {
        (r, m) \<leftarrow> stun_check_message_integrity_by_key_str (l_hmac L) get_turn_credentials_type (buf message) (len message)
          (ci_key ci) (l_junk L) (shatype g);
        Some (r, message\<lparr>buf := m\<rparr>) }
      else do {
        (r, m) \<leftarrow> stun_check_message_integrity_str (l_hmac L) (l_digest L) (l_malloc L) (l_junk L) get_turn_credentials_type
          (buf message) (len message) (g_uname g) (ci_realm ci) (g_upwd g) (shatype g);
        Some (if r < 1 then -1 else 0, message\<lparr>buf := m\<rparr>) })"

text \<open>What every request is closed with: the origin, the credentials and, if \<open>fp\<close>, the fingerprint.\<close>

definition finish_request ::
    "('w, 'c) lib \<Rightarrow> settings \<Rightarrow> bool \<Rightarrow> app_ur_conn_info \<Rightarrow> stun_buffer \<Rightarrow> 'w \<Rightarrow> (int \<times> app_ur_conn_info \<times> stun_buffer \<times> 'w) option" where
  "finish_request L g fp ci message w = do {
     message \<leftarrow> add_origin g message;
     (r, ci, message, w) \<leftarrow> add_integrity L g ci message w;
     if r < 0 then Some (-1, ci, message, w)
     else if fp then do {
       (_, message) \<leftarrow> store3 message (stun_attr_add_fingerprint_str (buf message) (len message));
       Some (0, ci, message, w) }
     else Some (0, ci, message, w) }"

subsection \<open>The response to a request\<close>

text \<open>The parts of a challenge, which are stored in the connection even if the message turns out to be something else.\<close>

definition read_challenge ::
    "('w, 'c) lib \<Rightarrow> app_ur_conn_info \<Rightarrow> stun_buffer \<Rightarrow> (bool \<times> app_ur_conn_info \<times> int \<times> mem option) option" where
  "read_challenge L ci response = do {
     (chal, ch) \<leftarrow> stun_is_challenge_response_str (buf response) (len response) 129
       \<lparr>ch_err_code = 0, ch_err_msg = Some (take 129 (l_junk L)), ch_realm = ci_realm ci, ch_nonce = ci_nonce ci,
        ch_server_name = Some (ci_server_name ci), ch_oauth = Some (ci_oauth ci)\<rparr>;
     Some (chal, ci\<lparr>ci_realm := ch_realm ch, ci_nonce := ch_nonce ch, ci_server_name := the (ch_server_name ch),
       ci_oauth := the (ch_oauth ch)\<rparr>, ch_err_code ch, ch_err_msg ch) }"

datatype verdict = Granted | Denied | Challenged | NoResponse

text \<open>
  One round of \<open>while(!received)\<close>; \<open>None\<close> in the first component is a message that is none of these, after which the loop
  goes on.
\<close>

definition response_step ::
    "('w, 'c) lib \<Rightarrow> settings \<Rightarrow> app_ur_conn_info \<Rightarrow> stun_buffer \<Rightarrow> stun_buffer \<Rightarrow> 'w
     \<Rightarrow> (verdict option \<times> app_ur_conn_info \<times> stun_buffer \<times> stun_buffer \<times> 'w) option" where
  "response_step L g ci request response w = do {
     (n, ci, response, request, w) \<leftarrow> recv_buffer L g ci response True False None (Some request) w;
     request \<leftarrow> request;
     if n > 0 then do {
       s \<leftarrow> stun_is_success_response response;
       if s then do {
         c \<leftarrow> rd8 (ci_nonce ci) 0;
         if c \<noteq> 0 then do {
           (r, response) \<leftarrow> check_integrity L g ci response;
           Some (Some (if r < 0 then Denied else Granted), ci, request, response, w) }
         else Some (Some Granted, ci, request, response, w) }
       else do {
         (chal, ci, err_code, err_msg) \<leftarrow> read_challenge L ci response;
         if chal then Some (Some Challenged, ci, request, response, w)
         else do {
           (err, _, _) \<leftarrow> stun_is_error_response response (Some err_code) err_msg 129;
           Some (if err then Some Denied else None, ci, request, response, w) } } }
     else Some (Some NoResponse, ci, request, response, w) }"

partial_function (option) response_loop ::
    "('w, 'c) lib \<Rightarrow> settings \<Rightarrow> app_ur_conn_info \<Rightarrow> stun_buffer \<Rightarrow> stun_buffer \<Rightarrow> 'w
     \<Rightarrow> (verdict \<times> app_ur_conn_info \<times> stun_buffer \<times> stun_buffer \<times> 'w) option" where
  "response_loop L g ci request response w = do {
     (v, ci, request, response, w) \<leftarrow> response_step L g ci request response w;
     case v of Some v \<Rightarrow> Some (v, ci, request, response, w)
     | None \<Rightarrow> response_loop L g ci request response w }"

text \<open>
  A transaction: an attempt sends the request (\<open>Inr\<close>) or gives up (\<open>Inl\<close>); a challenge leads back to the label in front of
  the attempt, as often as the server likes.  \<open>s\<close> is what one attempt hands to the next.
\<close>

partial_function (option) transact ::
    "('w, 'c) lib \<Rightarrow> settings
     \<Rightarrow> ('s \<Rightarrow> app_ur_conn_info \<Rightarrow> stun_buffer \<Rightarrow> 'w \<Rightarrow> (('r + unit) \<times> 's \<times> app_ur_conn_info \<times> stun_buffer \<times> 'w) option)
     \<Rightarrow> 's \<Rightarrow> app_ur_conn_info \<Rightarrow> stun_buffer \<Rightarrow> stun_buffer \<Rightarrow> 'w \<Rightarrow> (('r + verdict) \<times> 's \<times> app_ur_conn_info \<times> 'w) option" where
  "transact L g try_it s ci request response w = do {
     (x, s, ci, request, w) \<leftarrow> try_it s ci request w;
     case x of Inl r \<Rightarrow> Some (Inl r, s, ci, w)
     | Inr _ \<Rightarrow> do {
         (v, ci, request, response, w) \<leftarrow> response_loop L g ci request response w;
         case v of Challenged \<Rightarrow> transact L g try_it s ci request response w
         | _ \<Rightarrow> Some (Inr v, s, ci, w) } }"

subsection \<open>Channel bindings\<close>

text \<open>Building and sending the request; \<open>Inl\<close> is a return.\<close>

definition bind_attempt ::
    "('w, 'c) lib \<Rightarrow> settings \<Rightarrow> app_ur_conn_info \<Rightarrow> ioa_addr \<Rightarrow> u16 \<Rightarrow> stun_buffer \<Rightarrow> 'w
     \<Rightarrow> ((int + unit) \<times> u16 \<times> app_ur_conn_info \<times> stun_buffer \<times> 'w) option" where
  "bind_attempt L g ci peer_addr chn request w = do {
     let (n, w) = (if negative_test g then (case urandom L w of (r, w) \<Rightarrow> (of_nat r, w)) else (chn, w));
     let (e1, w) = l_entropy L w;
     let (e2, w) = l_entropy L w;
     (chn, request) \<leftarrow> stun_set_channel_bind_request e1 e2 (addr_tbl g) request (Some peer_addr) n;
     (r, ci, request, w) \<leftarrow> finish_request L g True ci request w;
     if r < 0 then Some (Inl (-1), chn, ci, request, w)
     else do {
       (len, ci, request, w) \<leftarrow> send_buffer L g ci request False None w;
       if len > 0 then
         (case not_rare_event L g w of (stop, w) \<Rightarrow> Some (if stop then Inl 0 else Inr (), chn, ci, request, w))
       else Some (Inl (-1), chn, ci, request, w) } }"

definition turn_channel_bind ::
    "('w, 'c) lib \<Rightarrow> settings \<Rightarrow> u16 \<Rightarrow> app_ur_conn_info \<Rightarrow> ioa_addr \<Rightarrow> 'w \<Rightarrow> (int \<times> u16 \<times> app_ur_conn_info \<times> 'w) option" where
  "turn_channel_bind L g chn ci peer_addr w = do {
     (x, chn, ci, w) \<leftarrow> transact L g (\<lambda>chn ci request w. bind_attempt L g ci peer_addr chn request w) chn ci (l_buffer L) (l_buffer L) w;
     Some (case x of Inl r \<Rightarrow> r | Inr Granted \<Rightarrow> 0 | Inr _ \<Rightarrow> -1, chn, ci, w) }"

subsection \<open>Permissions\<close>

fun perm_addrs :: "addr_map \<Rightarrow> ioa_addr list \<Rightarrow> stun_buffer \<Rightarrow> stun_buffer option" where
  "perm_addrs tbl [] message = Some message"
| "perm_addrs tbl (a # as) message = do {
     (_, message) \<leftarrow> stun_attr_add_addr tbl message STUN_ATTRIBUTE_XOR_PEER_ADDRESS a;
     perm_addrs tbl as message }"

text \<open>\<open>Inl\<close> of the inner sum is \<open>exit\<close>, \<open>Inr\<close> a return.\<close>

definition perm_attempt ::
    "('w, 'c) lib \<Rightarrow> settings \<Rightarrow> app_ur_conn_info \<Rightarrow> ioa_addr list \<Rightarrow> stun_buffer \<Rightarrow> 'w
     \<Rightarrow> (((int + int) + unit) \<times> unit \<times> app_ur_conn_info \<times> stun_buffer \<times> 'w) option" where
  "perm_attempt L g ci peers request w = do {
     let (e, w) = l_entropy L w;
     request \<leftarrow> stun_init_request e STUN_METHOD_CREATE_PERMISSION request;
     request \<leftarrow> perm_addrs (addr_tbl g) peers request;
     (r, ci, request, w) \<leftarrow> finish_request L g True ci request w;
     if r < 0 then Some (Inl (Inr (-1)), (), ci, request, w)
     else do {
       (len, ci, request, w) \<leftarrow> send_buffer L g ci request False None w;
       if len > 0 then
         (case not_rare_event L g w of (stop, w) \<Rightarrow> Some (if stop then Inl (Inr 0) else Inr (), (), ci, request, w))
       else Some (Inl (Inl 1), (), ci, request, w) } }"

definition turn_create_permission ::
    "('w, 'c) lib \<Rightarrow> settings \<Rightarrow> app_ur_conn_info \<Rightarrow> ioa_addr list \<Rightarrow> 'w \<Rightarrow> ((int + int) \<times> app_ur_conn_info \<times> 'w) option" where
  "turn_create_permission L g ci peers w =
     (if no_permissions g \<or> peers = [] then Some (Inr 0, ci, w)
      else do {
        (x, _, ci, w) \<leftarrow> transact L g (\<lambda>_ ci request w. perm_attempt L g ci peers request w) () ci (l_buffer L) (l_buffer L) w;
        Some (case x of Inl r \<Rightarrow> r | Inr Granted \<Rightarrow> Inr 0 | Inr NoResponse \<Rightarrow> Inl (-1) | Inr _ \<Rightarrow> Inr (-1), ci, w) })"

subsection \<open>Refreshing\<close>

definition refresh_session ::
    "('w, 'c) lib \<Rightarrow> settings \<Rightarrow> app_ur_conn_info \<Rightarrow> u32 \<Rightarrow> stun_buffer \<Rightarrow> 'w \<Rightarrow> (int \<times> app_ur_conn_info \<times> stun_buffer \<times> 'w) option" where
  "refresh_session L g ci lt message w = do {
     let (e, w) = l_entropy L w;
     message \<leftarrow> stun_init_request e STUN_METHOD_REFRESH message;
     (_, message) \<leftarrow> stun_attr_add message STUN_ATTRIBUTE_LIFETIME (Some (bytes32 (nswap32 lt))) 4;
     (message, w) \<leftarrow> (if dual_allocation g \<and> \<not> mobility g then
         (case urandom L w of (r, w) \<Rightarrow>
            let t = r mod 256 mod 3 in
            if t \<noteq> 0 then do {
              (_, message) \<leftarrow> stun_attr_add message STUN_ATTRIBUTE_REQUESTED_ADDRESS_FAMILY
                (Some [if t = 1 then 1 else 2, 0, 0, 0]) 4;
              Some (message, w) }
            else Some (message, w))
       else Some (message, w));
     (r, ci, message, w) \<leftarrow> finish_request L g (use_fingerprints g) ci message w;
     if r < 0 then Some (-1, ci, message, w)
     else do {
       (_, ci, message, w) \<leftarrow> send_buffer L g ci message False None w;
       Some (0, ci, message, w) } }"

definition refresh_permission ::
    "('w, 'c) lib \<Rightarrow> settings \<Rightarrow> app_ur_conn_info \<Rightarrow> stun_buffer \<Rightarrow> 'w \<Rightarrow> (int \<times> app_ur_conn_info \<times> stun_buffer \<times> 'w) option" where
  "refresh_permission L g ci message w = do {
     let (e, w) = l_entropy L w;
     message \<leftarrow> stun_init_request e STUN_METHOD_CREATE_PERMISSION message;
     (_, message) \<leftarrow> stun_attr_add_addr (addr_tbl g) message STUN_ATTRIBUTE_XOR_PEER_ADDRESS (ci_peer_addr ci);
     (r, ci, message, w) \<leftarrow> finish_request L g (use_fingerprints g) ci message w;
     if r < 0 then Some (-1, ci, message, w)
     else do {
       (_, ci, message, w) \<leftarrow> send_buffer L g ci message False None w;
       Some (0, ci, message, w) } }"

definition refresh_binding ::
    "('w, 'c) lib \<Rightarrow> settings \<Rightarrow> app_ur_conn_info \<Rightarrow> u16 \<Rightarrow> stun_buffer \<Rightarrow> 'w \<Rightarrow> (int \<times> app_ur_conn_info \<times> stun_buffer \<times> 'w) option" where
  "refresh_binding L g ci chnum message w = do {
     let (e1, w) = l_entropy L w;
     let (e2, w) = l_entropy L w;
     (_, message) \<leftarrow> stun_set_channel_bind_request e1 e2 (addr_tbl g) message (Some (ci_peer_addr ci)) chnum;
     (r, ci, message, w) \<leftarrow> finish_request L g (use_fingerprints g) ci message w;
     if r < 0 then Some (-1, ci, message, w)
     else do {
       (_, ci, message, w) \<leftarrow> send_buffer L g ci message True None w;
       Some (0, ci, message, w) } }"

datatype UR_STATE = UR_STATE_UNKNOWN | UR_STATE_READY | UR_STATE_DONE

text \<open>The fields of the session that the client uses; the others are only set to zero.\<close>

record app_ur_session =
  pinfo :: app_ur_conn_info
  ur_state :: UR_STATE
  chnum :: u16
  wait_cycles :: int
  in_buffer :: stun_buffer
  refresh_time :: u32
  rmsgnum :: int
  recvmsgnum :: int
  recvtimems :: u32
  loss :: u64

text \<open>\<open>now\<close> is \<open>current_mstime\<close>.  The lifetime that is tested for 0 is the swapped one if a refresh was sent.\<close>

definition refresh_channel ::
    "('w, 'c) lib \<Rightarrow> settings \<Rightarrow> u64 \<Rightarrow> app_ur_session \<Rightarrow> u16 \<Rightarrow> u32 \<Rightarrow> 'w \<Rightarrow> (int \<times> app_ur_session \<times> 'w) option" where
  "refresh_channel L g now elem method lt w =
     (if is_peer (pinfo elem) then Some (0, elem, w)
      else do {
        let ci = pinfo elem;
        (r, ci, message, w) \<leftarrow> (if method = 0 \<or> method = STUN_METHOD_REFRESH
           then refresh_session L g ci lt (l_buffer L) w else Some (0, ci, l_buffer L, w));
        let lt = (if method = 0 \<or> method = STUN_METHOD_REFRESH then nswap32 lt else lt);
        if r < 0 then Some (-1, elem\<lparr>pinfo := ci\<rparr>, w)
        else do {
          (r, ci, message, w) \<leftarrow> (if lt \<noteq> 0 \<and> \<not> addr_any (Some (ci_peer_addr ci)) \<and> \<not> no_permissions g
               \<and> (method = 0 \<or> method = STUN_METHOD_CREATE_PERMISSION)
             then refresh_permission L g ci message w else Some (0, ci, message, w));
          if r < 0 then Some (-1, elem\<lparr>pinfo := ci\<rparr>, w)
          else do {
            (r, ci, message, w) \<leftarrow> (if lt \<noteq> 0 \<and> \<not> addr_any (Some (ci_peer_addr ci))
                 \<and> (method = 0 \<or> method = STUN_METHOD_CHANNEL_BIND) \<and> STUN_VALID_CHANNEL (chnum elem)
               then refresh_binding L g ci (chnum elem) message w else Some (0, ci, message, w));
            if r < 0 then Some (-1, elem\<lparr>pinfo := ci\<rparr>, w)
            else Some (0, elem\<lparr>pinfo := ci, refresh_time := ucast (now + 30000)\<rparr>, w) } } })"

subsection \<open>Authenticated requests\<close>

text \<open>
  The credentials of a connection with long-term authentication: user name, realm and nonce are strings in their arrays, and the
  cryptographic functions behave.  An empty nonce means that the server has not asked for authentication yet.
\<close>

definition credentials :: "('w, 'c) lib \<Rightarrow> settings \<Rightarrow> app_ur_conn_info \<Rightarrow> mem \<Rightarrow> mem \<Rightarrow> mem \<Rightarrow> bool" where
  "credentials L g ci u r n \<longleftrightarrow> (\<exists>x y z p q. g_uname g = u @ 0 # x \<and> ci_realm ci = r @ 0 # y \<and> ci_nonce ci = n @ 0 # z
       \<and> g_upwd g = p @ 0 # q \<and> 0 \<notin> set u \<and> 0 \<notin> set r \<and> 0 \<notin> set n \<and> 0 \<notin> set p)
     \<and> length u \<le> 512 \<and> length r \<le> 127 \<and> length n \<le> 127
     \<and> hmac_ok (l_hmac L) \<and> (\<forall>k d. l_hmac L (hmac_md (shatype g)) k d \<noteq> None) \<and> digest_ok (l_digest L) \<and> malloc_ok (l_malloc L)
     \<and> 128 \<le> length (l_junk L) \<and> \<not> (s_oauth g \<and> ci_oauth ci)"

definition auth_attrs :: "mem \<Rightarrow> mem \<Rightarrow> mem \<Rightarrow> mem \<Rightarrow> (u16 \<times> mem) list" where
  "auth_attrs u r n v = (if n = [] then [] else [(STUN_ATTRIBUTE_USERNAME, u), (STUN_ATTRIBUTE_NONCE, n),
     (STUN_ATTRIBUTE_REALM, r), (STUN_ATTRIBUTE_MESSAGE_INTEGRITY, v)])"

lemma pad4_bound: "pad4 n \<le> n + 3"
  by (auto simp: pad4_def Let_def)

lemma md_size_key: "digest_ok digest \<Longrightarrow> length (digest (key_md s) m) = md_size (key_md s)" "md_size (key_md s) \<le> 64"
  by (simp_all add: digest_ok_def key_md_def)

text \<open>
  The signature of some bytes: their HMAC under the digest of user name, realm and password, separated by colons.
\<close>

definition signature :: "('w, 'c) lib \<Rightarrow> settings \<Rightarrow> mem \<Rightarrow> mem \<Rightarrow> mem \<Rightarrow> mem option" where
  "signature L g u r d = l_hmac L (hmac_md (shatype g))
     (l_digest L (key_md (shatype g)) (u @ 58 # r @ 58 # the (c_str (g_upwd g)))) d"

lemma hmackey_size_md: "get_hmackey_size s = md_size (key_md s)"
  by (simp add: get_hmackey_size_def key_md_def)

lemma add_integrity_message:
  assumes "credentials L g ci u r n" and "stun_msg (buf b) (len b) mt ck t as" and "length (buf b) = 65507" and "len b < 60000"
  shows "\<exists>b' v. add_integrity L g ci b w = Some (0, ci, b', w) \<and> stun_msg (buf b') (len b') mt ck t (as @ auth_attrs u r n v)
    \<and> length (buf b') = 65507 \<and> len b' \<le> len b + 1000
    \<and> (n \<noteq> [] \<longrightarrow> 24 + sha_size (shatype g) \<le> len b'
        \<and> signature L g u r (take (len b' - 4 - sha_size (shatype g)) (buf b')) = Some v)"
proof -
  obtain x y z p q where c: "g_uname g = u @ 0 # x" "ci_realm ci = r @ 0 # y" "ci_nonce ci = n @ 0 # z" "g_upwd g = p @ 0 # q"
    "0 \<notin> set u" "0 \<notin> set r" "0 \<notin> set n" "0 \<notin> set p"
    using assms(1) unfolding credentials_def by blast
  have h: "hmac_ok (l_hmac L)" "\<And>k d. l_hmac L (hmac_md (shatype g)) k d \<noteq> None" "digest_ok (l_digest L)" "malloc_ok (l_malloc L)"
    "128 \<le> length (l_junk L)" "\<not> (s_oauth g \<and> ci_oauth ci)" "length u \<le> 512" "length r \<le> 127" "length n \<le> 127"
    using assms(1) unfolding credentials_def by blast+
  have off: "(s_oauth g \<and> ci_oauth ci) = False"
    using h(6) by blast
  show ?thesis
  proof (cases n)
    case Nil
    then show ?thesis
      using assms(2-4) c(3) by (simp add: add_integrity_def auth_attrs_def rd8_def)
  next
    case (Cons n0 ns)
    let ?key = "l_digest L (key_md (shatype g)) (u @ 58 # r @ 58 # p) @ drop (md_size (key_md (shatype g))) (take 64 (l_junk L))"
    have k: "stun_produce_integrity_key_str (l_digest L) (l_malloc L) (u @ 0 # x) (r @ 0 # y) (p @ 0 # q) (take 64 (l_junk L)) (shatype g)
        = Some (0, ?key)"
      by (rule produce_key_eq) (use h c in simp_all)
    have "64 \<le> length ?key"
      using md_size_key(1) [OF h(3), of "shatype g"] md_size_key(2) [of "shatype g"] h(5) by simp
    moreover have sz: "len b + pad4 (length u) + pad4 (length n) + pad4 (length r) + 80 < 65507"
      using h(7-9) pad4_bound [of "length u"] pad4_bound [of "length n"] pad4_bound [of "length r"] assms(4) by linarith
    ultimately obtain b1 l1 v where i: "stun_attr_add_integrity_by_key_str (l_hmac L) (l_junk L) (buf b) (len b) (u @ 0 # x) (r @ 0 # y)
          ?key (n @ 0 # z) (shatype g) = Some (0, b1, l1)"
        "stun_msg b1 l1 mt ck t (as @ [(STUN_ATTRIBUTE_USERNAME, u), (STUN_ATTRIBUTE_NONCE, n),
          (STUN_ATTRIBUTE_REALM, r), (STUN_ATTRIBUTE_MESSAGE_INTEGRITY, v)])" "length b1 = length (buf b)"
        "l1 = len b + pad4 (length u) + pad4 (length n) + pad4 (length r) + 16 + sha_size (shatype g)"
        "l_hmac L (hmac_md (shatype g)) (take (get_hmackey_size (shatype g)) ?key) (take (l1 - 4 - sha_size (shatype g)) b1) = Some v"
      using integrity_by_key_msg [OF assms(2) h(1,2) c(5,6,7) _ h(5), of ?key x y z] assms(3) by auto
    have "take (get_hmackey_size (shatype g)) ?key = l_digest L (key_md (shatype g)) (u @ 58 # r @ 58 # p)"
      using md_size_key(1) [OF h(3), of "shatype g"] by (simp add: hmackey_size_md)
    moreover have "c_str (g_upwd g) = Some p"
      using c(4,8) by (simp add: c_str_append)
    ultimately have sig: "signature L g u r (take (l1 - 4 - sha_size (shatype g)) b1) = Some v"
      using i(5) by (simp add: signature_def)
    have "24 + sha_size (shatype g) \<le> l1"
      unfolding i(4) using stun_msg_len(3) [OF assms(2)] by linarith
    note sig = sig this
    have "l1 \<le> len b + 1000"
      unfolding i(4) using h(7-9) pad4_bound [of "length u"] pad4_bound [of "length n"] pad4_bound [of "length r"]
        sha_size_bounds [of "shatype g"] by linarith
    moreover have "add_integrity L g ci b w = Some (0, ci, b\<lparr>buf := b1, len := l1\<rparr>, w)"
      using c(7) Cons k i(1) unfolding add_integrity_def off if_False c(1-4)
      by (simp add: rd8_def stun_attr_add_integrity_by_user_str_def store3_def)
    ultimately show ?thesis
      using i(2,3) assms(3) Cons sig by (auto simp: auth_attrs_def)
  qed
qed

text \<open>Appending an attribute leaves the bytes of the message behind its length field alone.\<close>

lemma wrn_take: "wrn m i bs = Some m' \<Longrightarrow> k \<le> i \<Longrightarrow> take k m' = take k m"
  by (auto simp: wrn_def min_def split: if_splits)

lemma set_len_keeps: "stun_set_command_message_len_str b l = Some (r, b') \<Longrightarrow> drop 4 b' = drop 4 b"
  by (auto simp: stun_set_command_message_len_str_def wr16_def wrn_def split: if_splits)

lemma add_str_keeps:
  assumes "stun_msg b l mt ck t as" and "stun_attr_add_str b l ty (Some v) n = Some (r, b', l')"
  shows "drop 4 (take l b') = drop 4 (take l b)"
proof -
  have "b' = b \<or> (\<exists>k r b1 b2 b3 x. stun_set_command_message_len_str b k = Some (r, b1) \<and> wr16 b1 l (nswap16 ty) = Some b2
      \<and> wr16 b2 (l + 2) x = Some b3 \<and> (b' = b3 \<or> (\<exists>bs. wrn b3 (l + 4) bs = Some b')))"
    using assms(2) stun_msg_len(1) [OF assms(1)]
    by (simp add: stun_attr_add_str_def Let_def bind_eq_Some_conv del: not_less not_le split: if_split_asm) blast+
  then show ?thesis
  proof
    assume "\<exists>k r b1 b2 b3 x. stun_set_command_message_len_str b k = Some (r, b1) \<and> wr16 b1 l (nswap16 ty) = Some b2
      \<and> wr16 b2 (l + 2) x = Some b3 \<and> (b' = b3 \<or> (\<exists>bs. wrn b3 (l + 4) bs = Some b'))"
    then obtain k r b1 b2 b3 x where w: "stun_set_command_message_len_str b k = Some (r, b1)" "wr16 b1 l (nswap16 ty) = Some b2"
      "wr16 b2 (l + 2) x = Some b3" "b' = b3 \<or> (\<exists>bs. wrn b3 (l + 4) bs = Some b')"
      by blast
    have "take l b' = take l b1"
      using w(2-4) wrn_take [of b1 l _ b2 l] wrn_take [of b2 "l + 2" _ b3 l] wrn_take [of b3 "l + 4" _ b' l]
      by (auto simp: wr16_def)
    then show ?thesis
      using set_len_keeps [OF w(1)] by (simp add: drop_take)
  qed simp
qed

lemma add_fingerprint_keeps:
  assumes "stun_msg b l mt ck t as" and "stun_attr_add_fingerprint_str b l = Some (0, b', l + 8)"
  shows "drop 4 (take l b') = drop 4 (take l b)"
proof -
  obtain r b1 c where w: "stun_attr_add_str b l STUN_ATTRIBUTE_FINGERPRINT (Some (bytes32 0)) 4 = Some (r, b1, l + 8)"
    "wr32 b1 (l + 4) c = Some b'"
    using assms(2) by (auto simp: stun_attr_add_fingerprint_str_def add.commute split: bind_splits if_splits)
  then show ?thesis
    using wrn_take [of b1 "l + 4" _ b' l] add_str_keeps [OF assms(1) w(1)] by (auto simp: wr32_def)
qed

text \<open>
  How a request is closed: MESSAGE-INTEGRITY carries the signature of everything in front of it, with the length in the header that
  counts it but not yet the fingerprint, and FINGERPRINT the checksum of everything in front of it.
\<close>

definition signed_part :: "settings \<Rightarrow> u16 \<Rightarrow> mem \<Rightarrow> stun_buffer \<Rightarrow> mem" where
  "signed_part g mt t b = header mt (of_nat (len b - 28)) STUN_MAGIC_COOKIE t @ take (len b - 32 - sha_size (shatype g)) (drop 20 (buf b))"

definition request_closed :: "('w, 'c) lib \<Rightarrow> settings \<Rightarrow> mem \<Rightarrow> mem \<Rightarrow> mem \<Rightarrow> u16 \<Rightarrow> mem \<Rightarrow> stun_buffer \<Rightarrow> mem \<Rightarrow> mem \<Rightarrow> bool" where
  "request_closed L g u r n mt t b v f \<longleftrightarrow> (n \<noteq> [] \<longrightarrow> signature L g u r (signed_part g mt t b) = Some v)
     \<and> f = fingerprint_at (buf b) (len b - 8)"

lemma signed_part_eq:
  assumes "stun_msg m l mt STUN_MAGIC_COOKIE t as" and "drop 4 (take l (buf b)) = drop 4 (take l m)" and "len b = l + 8"
    and "24 + sha_size (shatype g) \<le> l"
  shows "signed_part g mt t b = take (l - 4 - sha_size (shatype g)) m"
proof -
  let ?k = "l - 24 - sha_size (shatype g)"
  obtain r rest where m: "m = header mt (of_nat (length r)) STUN_MAGIC_COOKIE t @ r @ rest" "l = 20 + length r" "length t = 12"
    using stun_msgE [OF assms(1)] by metis
  have "take ?k (drop 20 x) = take ?k (drop 16 (drop 4 (take l x)))" for x :: mem
    by (simp add: drop_take)
  then have "take ?k (drop 20 (buf b)) = take ?k (drop 20 m)"
    using assms(2) by metis
  moreover have "take (l - 4 - sha_size (shatype g)) m = header mt (of_nat (length r)) STUN_MAGIC_COOKIE t @ take ?k (drop 20 m)"
    using m assms(4) by (simp add: add.commute)
  ultimately show ?thesis
    using m(2) assms(3) by (simp add: signed_part_def)
qed

lemma finish_request_message:
  assumes "credentials L g ci u r n" and "stun_msg (buf b) (len b) mt STUN_MAGIC_COOKIE t as" and "length (buf b) = 65507"
    and "len b < 60000" and "rd8 (origin g) 0 = Some 0"
  shows "\<exists>b' v f. finish_request L g True ci b w = Some (0, ci, b', w)
    \<and> stun_msg (buf b') (len b') mt STUN_MAGIC_COOKIE t (as @ auth_attrs u r n v @ [(STUN_ATTRIBUTE_FINGERPRINT, f)])
    \<and> length (buf b') = 65507 \<and> request_closed L g u r n mt t b' v f"
proof -
  obtain b1 v where i: "add_integrity L g ci b w = Some (0, ci, b1, w)"
    "stun_msg (buf b1) (len b1) mt STUN_MAGIC_COOKIE t (as @ auth_attrs u r n v)" "length (buf b1) = 65507" "len b1 \<le> len b + 1000"
    "n \<noteq> [] \<longrightarrow> 24 + sha_size (shatype g) \<le> len b1
      \<and> signature L g u r (take (len b1 - 4 - sha_size (shatype g)) (buf b1)) = Some v"
    using add_integrity_message [OF assms(1-4)] by blast
  have "len b1 + 8 < 65507"
    using i(4) assms(4) by simp
  then obtain m f where f: "stun_attr_add_fingerprint_str (buf b1) (len b1) = Some (0, m, len b1 + 8)"
    "stun_msg m (len b1 + 8) mt STUN_MAGIC_COOKIE t ((as @ auth_attrs u r n v) @ [(STUN_ATTRIBUTE_FINGERPRINT, f)])"
    "length m = length (buf b1)" "f = fingerprint_at m (len b1)"
    using add_fingerprint_msg [OF i(2)] i(3) by auto
  let ?b = "b1\<lparr>buf := m, len := len b1 + 8\<rparr>"
  have "request_closed L g u r n mt t ?b v f"
    using i(5) f(4) signed_part_eq [OF i(2), of ?b g] add_fingerprint_keeps [OF i(2) f(1)] by (simp add: request_closed_def)
  moreover have "finish_request L g True ci b w = Some (0, ci, ?b, w)"
    using i(1) f(1) assms(5) by (simp add: finish_request_def add_origin_def store3_def)
  ultimately show ?thesis
    using i(3) f(2,3) by (intro exI [of _ ?b] exI [of _ v] exI [of _ f]) simp
qed

subsection \<open>The channel binding\<close>

text \<open>Random bytes are drawn without sending anything.\<close>

definition quiet :: "('w, 'c) lib \<Rightarrow> ('w \<Rightarrow> mem) \<Rightarrow> bool" where
  "quiet L out \<longleftrightarrow> (\<forall>w. out (snd (l_entropy L w)) = out w)"

definition bind_attrs :: "addr_map \<Rightarrow> mem \<Rightarrow> u16 \<Rightarrow> ioa_addr \<Rightarrow> (u16 \<times> mem) list" where
  "bind_attrs tbl t chn peer = [(STUN_ATTRIBUTE_CHANNEL_NUMBER, bytes16 (nswap16 chn) @ [0, 0]),
     addr_attr tbl t STUN_ATTRIBUTE_XOR_PEER_ADDRESS peer]"

lemma valid_random_channel: "STUN_VALID_CHANNEL (0x4000 + ucast ((x :: u32) mod 0x4000) :: u16)"
proof -
  have lt: "unat (x mod 0x4000) < 0x4000"
    by (simp add: unat_mod)
  then have u: "unat (ucast (x mod 0x4000) :: u16) = unat (x mod 0x4000)"
    by (simp add: unsigned_ucast_eq take_bit_nat_eq_self)
  then have "unat (0x4000 + ucast (x mod 0x4000) :: u16) = 0x4000 + unat (x mod 0x4000)"
    using lt by (simp add: unat_plus_if')
  then show ?thesis
    using lt by (simp add: STUN_VALID_CHANNEL_def word_le_nat_alt)
qed

lemma bytes16_0: "bytes16 0 = [0, 0]"
  by code_simp

lemma channel_bind_message:
  assumes "length (buf b) = 65507" and "translatable tbl peer"
  shows "\<exists>chn' b'. stun_set_channel_bind_request e1 e2 tbl b (Some peer) chn = Some (chn', b')
    \<and> stun_msg (buf b') (len b') (stun_make_request STUN_METHOD_CHANNEL_BIND) STUN_MAGIC_COOKIE (turn_random_tid_size e2)
      (bind_attrs tbl (turn_random_tid_size e2) chn' peer)
    \<and> length (buf b') = 65507 \<and> len b' < 100 \<and> STUN_VALID_CHANNEL chn' \<and> (STUN_VALID_CHANNEL chn \<longrightarrow> chn' = chn)"
proof -
  let ?mt = "stun_make_request STUN_METHOD_CHANNEL_BIND" and ?t = "turn_random_tid_size e2"
  let ?h = "header ?mt 0 STUN_MAGIC_COOKIE ?t @ drop 20 (buf b)"
  define n where "n = (if \<not> STUN_VALID_CHANNEL chn then 0x4000 + ucast ((ucast (turn_random e1) :: u32) mod 0x4000) else chn)"
  let ?c = "(STUN_ATTRIBUTE_CHANNEL_NUMBER, bytes16 (nswap16 n) @ [0, 0])"
  have rep0: "stun_msg ?h 20 ?mt STUN_MAGIC_COOKIE ?t []" and l0: "length ?h = 65507"
    using assms(1) by (simp_all add: stun_msg_new)
  have init: "stun_init_request_str e2 STUN_METHOD_CHANNEL_BIND (buf b) = Some (?h, 20)"
    using assms(1) by (simp add: init_header)
  have sz: "msg_size [?c] = 28"
    by (simp add: msg_size_def pad4_small)
  obtain b1 where b1: "stun_attr_add_channel_number_str ?h 20 n = Some (0, b1, 28)"
    "stun_msg b1 28 ?mt STUN_MAGIC_COOKIE ?t [?c]" "length b1 = 65507"
    using built_add [OF rep0 l0, of 4 "bytes16 (nswap16 n) @ [0, 0]" STUN_ATTRIBUTE_CHANNEL_NUMBER] sz
    by (auto simp: built_def stun_attr_add_channel_number_str_def bytes16_0)
  let ?as = "bind_attrs tbl ?t n peer"
  obtain b2 where b2: "stun_attr_add_addr_str tbl b1 28 STUN_ATTRIBUTE_XOR_PEER_ADDRESS peer = Some (0, b2, msg_size ?as)"
    "stun_msg b2 (msg_size ?as) ?mt STUN_MAGIC_COOKIE ?t ?as" "length b2 = 65507"
    using built_addr [OF b1(2,3) assms(2), of STUN_ATTRIBUTE_XOR_PEER_ADDRESS] sz by (auto simp: built_def bind_attrs_def)
  have "msg_size ?as \<le> 52"
    using sz addr_attr_size [OF assms(2), of ?t STUN_ATTRIBUTE_XOR_PEER_ADDRESS] by (simp add: msg_size_def bind_attrs_def)
  moreover have "stun_set_channel_bind_request e1 e2 tbl b (Some peer) chn = Some (n, b\<lparr>buf := b2, len := msg_size ?as\<rparr>)"
    unfolding stun_set_channel_bind_request_def stun_set_channel_bind_request_str_def Let_def n_def [symmetric]
    using init b1(1) b2(1) by (simp add: store3_def)
  moreover have "STUN_VALID_CHANNEL n \<and> (STUN_VALID_CHANNEL chn \<longrightarrow> n = chn)"
    using valid_random_channel by (simp add: n_def)
  ultimately show ?thesis
    using b2(2,3) by fastforce
qed

text \<open>A request that is closed and sent: it goes out whole, or it is given up.\<close>

lemma request_goes_out:
  assumes "credentials L g ci u r n" and "rd8 (origin g) 0 = Some 0" and "sends_on L (ci_fd ci) out" and "0 \<le> ci_fd ci"
    and "ci_ssl ci = None" and "\<not> negative_protocol_test g" and "length (buf b) = 65507" and "len b < 60000"
    and "stun_msg (buf b) (len b) (stun_make_request m) STUN_MAGIC_COOKIE t as" and "m AND 0x0FFF = m"
  shows "\<exists>req w' k v f. finish_request L g True ci b w = Some (0, ci, req, w)
    \<and> send_buffer L g ci req False None w = Some (if k = len req then int k else -1, ci, req, w')
    \<and> 0 < len req \<and> out w' = out w @ take k (buf req) \<and> (accepts L (ci_fd ci) \<longrightarrow> k = len req)
    \<and> stun_is_request req = Some True \<and> stun_get_method req = Some m \<and> stun_tid_from_message req = Some t
    \<and> attrs_of (buf req) (len req) = as @ auth_attrs u r n v @ [(STUN_ATTRIBUTE_FINGERPRINT, f)]
    \<and> stun_msg (buf req) (len req) (stun_make_request m) STUN_MAGIC_COOKIE t (as @ auth_attrs u r n v @ [(STUN_ATTRIBUTE_FINGERPRINT, f)])
    \<and> length (buf req) = 65507 \<and> request_closed L g u r n (stun_make_request m) t req v f"
proof -
  obtain req v f where f: "finish_request L g True ci b w = Some (0, ci, req, w)"
    "stun_msg (buf req) (len req) (stun_make_request m) STUN_MAGIC_COOKIE t (as @ auth_attrs u r n v
      @ [(STUN_ATTRIBUTE_FINGERPRINT, f)])" "length (buf req) = 65507" "request_closed L g u r n (stun_make_request m) t req v f"
    using finish_request_message [OF assms(1,9,7,8,2), of w] by blast
  have l: "0 < len req" "len req \<le> length (buf req)"
    using stun_msg_len(2,3) [OF f(2)] by simp_all
  obtain rs k w3 where s: "send_buffer L g ci req False None w = Some (rs, ci, req, w3)" "k \<le> len req"
    "out w3 = out w @ take k (buf req)" "rs = (if k = len req then int k else -1)" "accepts L (ci_fd ci) \<longrightarrow> k = len req"
    using send_buffer_sends [OF assms(3,4,5,6) l f(3)] by blast
  have "stun_is_request req = Some True" "stun_get_method req = Some m" "stun_tid_from_message req = Some t"
    using stun_msg_view [OF f(2)] assms(10)
    by (simp_all add: stun_is_request_def stun_get_method_def stun_tid_from_message_def type_method_make class_make class_defs)
  then show ?thesis
    using f s l(1) stun_msg_attrs [OF f(2)] by blast
qed

lemma bind_attempt_sends:
  assumes "credentials L g ci u r n" and "rd8 (origin g) 0 = Some 0" and "translatable (addr_tbl g) peer"
    and "length (buf request) = 65507" and "sends_on L (ci_fd ci) out" and "quiet L out" and "0 \<le> ci_fd ci" and "ci_ssl ci = None"
    and "\<not> negative_protocol_test g" and "\<not> negative_test g" and "\<not> dos g"
    and "l_entropy L w = (e1, w1)" and "l_entropy L w1 = (e2, w2)"
  shows "\<exists>x chn' req w' k v f. bind_attempt L g ci peer chn request w = Some (x, chn', ci, req, w')
    \<and> STUN_VALID_CHANNEL chn' \<and> (STUN_VALID_CHANNEL chn \<longrightarrow> chn' = chn)
    \<and> stun_is_request req = Some True \<and> stun_get_method req = Some STUN_METHOD_CHANNEL_BIND
    \<and> stun_tid_from_message req = Some (turn_random_tid_size e2)
    \<and> attrs_of (buf req) (len req)
      = bind_attrs (addr_tbl g) (turn_random_tid_size e2) chn' peer @ auth_attrs u r n v @ [(STUN_ATTRIBUTE_FINGERPRINT, f)]
    \<and> request_closed L g u r n (stun_make_request STUN_METHOD_CHANNEL_BIND) (turn_random_tid_size e2) req v f
    \<and> out w' = out w @ take k (buf req) \<and> x = (if k = len req then Inr () else Inl (-1)) \<and> (accepts L (ci_fd ci) \<longrightarrow> k = len req)"
proof -
  have q: "out w2 = out w"
    using assms(6,12,13) unfolding quiet_def by (metis snd_conv)
  obtain chn' b where b: "stun_set_channel_bind_request e1 e2 (addr_tbl g) request (Some peer) chn = Some (chn', b)"
    "stun_msg (buf b) (len b) (stun_make_request STUN_METHOD_CHANNEL_BIND) STUN_MAGIC_COOKIE (turn_random_tid_size e2)
      (bind_attrs (addr_tbl g) (turn_random_tid_size e2) chn' peer)" "length (buf b) = 65507" "len b < 60000"
    "STUN_VALID_CHANNEL chn'" "STUN_VALID_CHANNEL chn \<longrightarrow> chn' = chn"
    using channel_bind_message [OF assms(4,3), of e1 e2 chn] by fastforce
  have "STUN_METHOD_CHANNEL_BIND AND 0x0FFF = STUN_METHOD_CHANNEL_BIND"
    by simp
  from request_goes_out [OF assms(1,2,5,7-9) b(3,4,2) this, of w2] obtain req w' k v f where
    s: "finish_request L g True ci b w2 = Some (0, ci, req, w2)"
    "send_buffer L g ci req False None w2 = Some (if k = len req then int k else -1, ci, req, w')" "0 < len req"
    "out w' = out w2 @ take k (buf req) \<and> (accepts L (ci_fd ci) \<longrightarrow> k = len req)" "stun_is_request req = Some True" "stun_get_method req = Some STUN_METHOD_CHANNEL_BIND"
    "stun_tid_from_message req = Some (turn_random_tid_size e2)" "attrs_of (buf req) (len req)
      = bind_attrs (addr_tbl g) (turn_random_tid_size e2) chn' peer @ auth_attrs u r n v @ [(STUN_ATTRIBUTE_FINGERPRINT, f)]"
    "request_closed L g u r n (stun_make_request STUN_METHOD_CHANNEL_BIND) (turn_random_tid_size e2) req v f"
    by blast
  have "bind_attempt L g ci peer chn request w = Some (if k = len req then Inr () else Inl (-1), chn', ci, req, w')"
    using assms(10-13) b(1) s(1-3) by (simp add: bind_attempt_def not_rare_event_def)
  then show ?thesis
    using b(5,6) q s(4-9) by (intro exI [of _ k] exI conjI) auto
qed

text \<open>C28: The CHANNEL-BIND request that goes out over a plain socket with long-term credentials: it asks for a valid channel
  number, the one given if that is valid, for the peer's address.  Once the server has sent a nonce it carries user name, nonce,
  realm and, as MESSAGE-INTEGRITY, the HMAC of all that precedes it under the key of user name, realm and password; it ends with
  FINGERPRINT, the checksum of all that precedes it.  And it goes out whole, or the attempt is given up with -1, which does not
  happen while the socket takes something each time.\<close>

theorem channel_bind_request_sent:
  assumes "credentials L g ci u r n" and "rd8 (origin g) 0 = Some 0" and "translatable (addr_tbl g) peer"
    and "length (buf request) = 65507" and "sends_on L (ci_fd ci) out" and "quiet L out" and "0 \<le> ci_fd ci" and "ci_ssl ci = None"
    and "\<not> negative_protocol_test g" and "\<not> negative_test g" and "\<not> dos g"
  shows "\<exists>x chn' req w' k t v f. bind_attempt L g ci peer chn request w = Some (x, chn', ci, req, w')
    \<and> STUN_VALID_CHANNEL chn' \<and> (STUN_VALID_CHANNEL chn \<longrightarrow> chn' = chn)
    \<and> stun_is_request req = Some True \<and> stun_get_method req = Some STUN_METHOD_CHANNEL_BIND
    \<and> stun_tid_from_message req = Some t
    \<and> attrs_of (buf req) (len req) = bind_attrs (addr_tbl g) t chn' peer @ auth_attrs u r n v @ [(STUN_ATTRIBUTE_FINGERPRINT, f)]
    \<and> (n \<noteq> [] \<longrightarrow> signature L g u r (signed_part g (stun_make_request STUN_METHOD_CHANNEL_BIND) t req) = Some v)
    \<and> f = fingerprint_at (buf req) (len req - 8)
    \<and> out w' = out w @ take k (buf req) \<and> x = (if k = len req then Inr () else Inl (-1)) \<and> (accepts L (ci_fd ci) \<longrightarrow> k = len req)"
proof -
  obtain e1 w1 e2 w2 where "l_entropy L w = (e1, w1)" "l_entropy L w1 = (e2, w2)"
    by fastforce
  from bind_attempt_sends [OF assms this, of chn] show ?thesis
    unfolding request_closed_def by blast
qed

text \<open>
  The last thing that happened, up to the world \<open>w'\<close>, was the arrival of a success response with the method and the
  transaction identifier of the request.
\<close>

definition granted :: "('w, 'c) lib \<Rightarrow> settings \<Rightarrow> stun_buffer \<Rightarrow> 'w \<Rightarrow> bool" where
  "granted L g request w' \<longleftrightarrow> (\<exists>ci message w n ci' resp request' t m.
      recv_buffer L g ci message True False None (Some request) w = Some (n, ci', resp, request', w') \<and> 0 < n
      \<and> stun_is_success_response resp = Some True
      \<and> stun_tid_from_message request = Some t \<and> stun_get_method request = Some m
      \<and> stun_tid_from_message resp = Some t \<and> stun_get_method resp = Some m)"

text \<open>
  The run of a transaction as step relations: \<open>rounds\<close> are the messages that are passed over while waiting for the response, and
  \<open>challenges\<close> the attempts that the server answered with a challenge.
\<close>

inductive rounds ::
    "('w, 'c) lib \<Rightarrow> settings \<Rightarrow> app_ur_conn_info \<Rightarrow> stun_buffer \<Rightarrow> stun_buffer \<Rightarrow> 'w \<Rightarrow> app_ur_conn_info \<Rightarrow> stun_buffer \<Rightarrow> stun_buffer \<Rightarrow> 'w \<Rightarrow> bool"
  for L :: "('w, 'c) lib" and g :: settings where
  here: "rounds L g ci request response w ci request response w"
| another: "response_step L g ci request response w = Some (None, ci1, request1, response1, w1)
    \<Longrightarrow> rounds L g ci1 request1 response1 w1 ci' request' response' w' \<Longrightarrow> rounds L g ci request response w ci' request' response' w'"

inductive challenges ::
    "('w, 'c) lib \<Rightarrow> settings
     \<Rightarrow> ('s \<Rightarrow> app_ur_conn_info \<Rightarrow> stun_buffer \<Rightarrow> 'w \<Rightarrow> (('r + unit) \<times> 's \<times> app_ur_conn_info \<times> stun_buffer \<times> 'w) option)
     \<Rightarrow> 's \<Rightarrow> app_ur_conn_info \<Rightarrow> stun_buffer \<Rightarrow> stun_buffer \<Rightarrow> 'w \<Rightarrow> 's \<Rightarrow> app_ur_conn_info \<Rightarrow> stun_buffer \<Rightarrow> stun_buffer \<Rightarrow> 'w \<Rightarrow> bool"
  for L :: "('w, 'c) lib" and g :: settings
    and try_it :: "'s \<Rightarrow> app_ur_conn_info \<Rightarrow> stun_buffer \<Rightarrow> 'w \<Rightarrow> (('r + unit) \<times> 's \<times> app_ur_conn_info \<times> stun_buffer \<times> 'w) option" where
  none: "challenges L g try_it s ci request response w s ci request response w"
| again: "try_it s ci request w = Some (Inr (), s1, ci1, request1, w1)
    \<Longrightarrow> response_loop L g ci1 request1 response w1 = Some (Challenged, ci2, request2, response2, w2)
    \<Longrightarrow> challenges L g try_it s1 ci2 request2 response2 w2 s' ci' request' response' w'
    \<Longrightarrow> challenges L g try_it s ci request response w s' ci' request' response' w'"

text \<open>
  The response that is received next on the connection \<open>ci\<close> grants the request and leaves the connection \<open>ci'\<close>: it is a success
  response with the method and the transaction identifier of the request, and if \<open>ci'\<close> has a nonce, it passes the integrity check
  with the credentials of \<open>ci'\<close>.
\<close>

definition confirmed ::
    "('w, 'c) lib \<Rightarrow> settings \<Rightarrow> stun_buffer \<Rightarrow> app_ur_conn_info \<Rightarrow> stun_buffer \<Rightarrow> 'w \<Rightarrow> app_ur_conn_info \<Rightarrow> 'w \<Rightarrow> bool" where
  "confirmed L g request ci message w ci' w' \<longleftrightarrow> (\<exists>n resp request' t m c.
      recv_buffer L g ci message True False None (Some request) w = Some (n, ci', resp, request', w') \<and> 0 < n
      \<and> stun_is_success_response resp = Some True
      \<and> stun_tid_from_message request = Some t \<and> stun_get_method request = Some m
      \<and> stun_tid_from_message resp = Some t \<and> stun_get_method resp = Some m
      \<and> rd8 (ci_nonce ci') 0 = Some c \<and> (c \<noteq> 0 \<longrightarrow> (\<exists>r resp'. check_integrity L g ci' resp = Some (r, resp') \<and> 0 \<le> r)))"

lemma response_step_confirmed:
  assumes "response_step L g ci request response w = Some (v, ci', request', response', w')" and "\<not> negative_protocol_test g"
  shows "v = None \<Longrightarrow> request' = request"
    and "v = Some Granted \<Longrightarrow> confirmed L g request ci response w ci' w'"
proof -
  obtain n ci1 resp req w1 where r: "recv_buffer L g ci response True False None (Some request) w = Some (n, ci1, resp, Some req, w1)"
    using assms(1) by (auto simp: response_step_def split: bind_splits)
  note eq = assms(1) [unfolded response_step_def r bind.bind_lunit prod.case]
  have pos: "0 < n" if "v = None \<or> v = Some Granted"
    using eq that by (auto split: if_splits bind_splits)
  have a: "\<exists>t m. stun_tid_from_message request = Some t \<and> stun_get_method request = Some m
      \<and> stun_tid_from_message resp = Some t \<and> stun_get_method resp = Some m \<and> req = request" if "0 < n"
    using recv_buffer_answer [OF r that] assms(2) by simp
  show "v = None \<Longrightarrow> request' = request"
    using eq a pos by (auto simp: Let_def split: if_splits bind_splits)
  assume v: "v = Some Granted"
  then have "stun_is_success_response resp = Some True" "w1 = w'" "ci1 = ci'"
    using eq by (auto simp: Let_def split: if_splits bind_splits)
  moreover obtain c where "rd8 (ci_nonce ci1) 0 = Some c" "c \<noteq> 0 \<longrightarrow> (\<exists>r resp'. check_integrity L g ci1 resp = Some (r, resp') \<and> 0 \<le> r)"
    using eq v by (auto simp: Let_def split: if_splits bind_splits)
  ultimately show "confirmed L g request ci response w ci' w'"
    using a pos v r unfolding confirmed_def by blast
qed

lemma response_loop_confirmed:
  fixes L :: "('w, 'c) lib"
  assumes "response_loop L g ci request response w = Some (Granted, ci', request', response', w')" and "\<not> negative_protocol_test g"
  shows "\<exists>ci1 response1 w1. rounds L g ci request response w ci1 request response1 w1 \<and> confirmed L g request ci1 response1 w1 ci' w'"
proof -
  define P where "P L g ci request response w x \<longleftrightarrow> (\<not> negative_protocol_test g \<longrightarrow> fst x = Granted \<longrightarrow> (\<exists>ci1 response1 w1.
      rounds L g ci request response w ci1 request response1 w1 \<and> confirmed L g request ci1 response1 w1 (fst (snd x)) (snd (snd (snd (snd x))))))"
    for L :: "('w, 'c) lib" and g :: settings and ci :: app_ur_conn_info and request response :: stun_buffer and w :: 'w
      and x :: "verdict \<times> app_ur_conn_info \<times> stun_buffer \<times> stun_buffer \<times> 'w"
  have "P L g ci request response w (Granted, ci', request', response', w')"
  proof (rule response_loop.raw_induct [where P = P, OF _ assms(1)])
    fix f L g ci request response w x
    assume IH: "\<And>L g ci request response w x. f L g ci request response w = Some x \<Longrightarrow> P L g ci request response w x"
      and eq: "do {
        (v, ci, request, response, w) \<leftarrow> response_step L g ci request response w;
        case v of Some v \<Rightarrow> Some (v, ci, request, response, w) | None \<Rightarrow> f L g ci request response w } = Some x"
    then obtain v ci1 req1 resp1 w1 where s: "response_step L g ci request response w = Some (v, ci1, req1, resp1, w1)"
      by (auto split: bind_splits)
    show "P L g ci request response w x"
    proof (cases v)
      case None
      then have "f L g ci1 req1 resp1 w1 = Some x"
        using eq s by simp
      from IH [OF this] show ?thesis
        using response_step_confirmed(1) [OF s _ None] rounds.another [OF s [unfolded None]] unfolding P_def by blast
    next
      case (Some u)
      then show ?thesis
        using eq s response_step_confirmed(2) [OF s] rounds.here unfolding P_def by fastforce
    qed
  qed
  then show ?thesis
    using assms(2) by (simp add: P_def)
qed

text \<open>A transaction that ends with success, seen as a run: challenges, the last attempt, messages that are passed over, and the response.\<close>

definition transacted ::
    "('w, 'c) lib \<Rightarrow> settings
     \<Rightarrow> ('s \<Rightarrow> app_ur_conn_info \<Rightarrow> stun_buffer \<Rightarrow> 'w \<Rightarrow> (('r + unit) \<times> 's \<times> app_ur_conn_info \<times> stun_buffer \<times> 'w) option)
     \<Rightarrow> 's \<Rightarrow> app_ur_conn_info \<Rightarrow> stun_buffer \<Rightarrow> stun_buffer \<Rightarrow> 'w \<Rightarrow> 's \<Rightarrow> app_ur_conn_info \<Rightarrow> 'w \<Rightarrow> bool" where
  "transacted L g try_it s ci request response w s' ci' w' \<longleftrightarrow>
     (\<exists>s1 ci1 request1 response1 w1 ci2 request2 w2 ci3 response3 w3.
        challenges L g try_it s ci request response w s1 ci1 request1 response1 w1
        \<and> try_it s1 ci1 request1 w1 = Some (Inr (), s', ci2, request2, w2)
        \<and> rounds L g ci2 request2 response1 w2 ci3 request2 response3 w3
        \<and> confirmed L g request2 ci3 response3 w3 ci' w')"

lemma transacted_again:
  assumes "try_it s ci request w = Some (Inr (), s1, ci1, request1, w1)"
    and "response_loop L g ci1 request1 response w1 = Some (Challenged, ci2, request2, response2, w2)"
    and "transacted L g try_it s1 ci2 request2 response2 w2 s' ci' w'"
  shows "transacted L g try_it s ci request response w s' ci' w'"
  using assms(3) challenges.again [where try_it = try_it, OF assms(1,2)] unfolding transacted_def by blast

lemma transact_confirmed:
  fixes L :: "('w, 'c) lib"
    and try_it :: "'s \<Rightarrow> app_ur_conn_info \<Rightarrow> stun_buffer \<Rightarrow> 'w \<Rightarrow> (('r + unit) \<times> 's \<times> app_ur_conn_info \<times> stun_buffer \<times> 'w) option"
  assumes "transact L g try_it s ci request response w = Some (Inr Granted, s', ci', w')" and "\<not> negative_protocol_test g"
  shows "transacted L g try_it s ci request response w s' ci' w'"
proof -
  define P where "P L g try_it s ci request response w x \<longleftrightarrow> (\<not> negative_protocol_test g \<longrightarrow> fst x = Inr Granted
      \<longrightarrow> transacted L g try_it s ci request response w (fst (snd x)) (fst (snd (snd x))) (snd (snd (snd x))))"
    for L :: "('w, 'c) lib" and g :: settings and s :: 's and ci :: app_ur_conn_info and request response :: stun_buffer and w :: 'w
      and try_it :: "'s \<Rightarrow> app_ur_conn_info \<Rightarrow> stun_buffer \<Rightarrow> 'w \<Rightarrow> (('r + unit) \<times> 's \<times> app_ur_conn_info \<times> stun_buffer \<times> 'w) option"
      and x :: "('r + verdict) \<times> 's \<times> app_ur_conn_info \<times> 'w"
  have "P L g try_it s ci request response w (Inr Granted, s', ci', w')"
  proof (rule transact.raw_induct [where P = P, OF _ assms(1)])
    fix f L g try_it s ci request response w x
    assume IH: "\<And>L g try_it s ci request response w x.
        f L g try_it s ci request response w = Some x \<Longrightarrow> P L g try_it s ci request response w x"
      and eq: "do {
        (x, s, ci, request, w) \<leftarrow> try_it s ci request w;
        case x of Inl r \<Rightarrow> Some (Inl r, s, ci, w)
        | Inr _ \<Rightarrow> do {
            (v, ci, request, response, w) \<leftarrow> response_loop L g ci request response w;
            case v of Challenged \<Rightarrow> f L g try_it s ci request response w
            | _ \<Rightarrow> Some (Inr v, s, ci, w) } } = Some x"
    obtain y s1 ci1 req1 w1 where a: "try_it s ci request w = Some (y, s1, ci1, req1, w1)"
      using eq by (auto split: bind_splits)
    show "P L g try_it s ci request response w x"
    proof (cases y)
      case (Inl r)
      then show ?thesis
        using eq a by (auto simp: P_def)
    next
      case (Inr u)
      then have a1: "try_it s ci request w = Some (Inr (), s1, ci1, req1, w1)"
        using a by simp
      obtain v ci2 req2 resp2 w2 where r: "response_loop L g ci1 req1 response w1 = Some (v, ci2, req2, resp2, w2)"
        using eq a1 by (auto split: bind_splits)
      show ?thesis
      proof (cases v)
        case Granted
        then have x: "x = (Inr Granted, s1, ci2, w2)"
          using eq a1 r by simp
        show ?thesis
          using x response_loop_confirmed [OF r [unfolded Granted]] a1 challenges.none [of L g try_it s ci request response w]
          unfolding P_def transacted_def by fastforce
      next
        case Challenged
        then have "f L g try_it s1 ci2 req2 resp2 w2 = Some x"
          using eq a1 r by simp
        from IH [OF this] show ?thesis
          using transacted_again [where try_it = try_it, OF a1 r [unfolded Challenged]] by (simp add: P_def)
      qed (use eq a1 r in \<open>auto simp: P_def\<close>)
    qed
  qed
  then show ?thesis
    using assms(2) by (simp add: P_def)
qed

lemma transact_gave_up:
  fixes L :: "('w, 'c) lib"
    and try_it :: "'s \<Rightarrow> app_ur_conn_info \<Rightarrow> stun_buffer \<Rightarrow> 'w \<Rightarrow> (('r + unit) \<times> 's \<times> app_ur_conn_info \<times> stun_buffer \<times> 'w) option"
  assumes "transact L g try_it s ci request response w = Some (Inl r, s', ci', w')"
  shows "\<exists>s1 ci1 b1 w1 b2. try_it s1 ci1 b1 w1 = Some (Inl r, s', ci', b2, w')"
proof -
  define P where "P L g try_it s ci request response w x \<longleftrightarrow> (\<forall>r s' ci' w'. x = (Inl r, s', ci', w')
      \<longrightarrow> (\<exists>s1 ci1 b1 w1 b2. try_it s1 ci1 b1 w1 = Some (Inl r, s', ci', b2, w')))"
    for L :: "('w, 'c) lib" and g :: settings and s :: 's and ci :: app_ur_conn_info and request response :: stun_buffer and w :: 'w
      and try_it :: "'s \<Rightarrow> app_ur_conn_info \<Rightarrow> stun_buffer \<Rightarrow> 'w \<Rightarrow> (('r + unit) \<times> 's \<times> app_ur_conn_info \<times> stun_buffer \<times> 'w) option"
      and x :: "('r + verdict) \<times> 's \<times> app_ur_conn_info \<times> 'w"
  have "P L g try_it s ci request response w (Inl r, s', ci', w')"
    by (rule transact.raw_induct [where P = P, OF _ assms])
       (fastforce simp: P_def split: bind_splits sum.splits verdict.splits)
  then show ?thesis
    by (simp add: P_def)
qed

text \<open>C27: When \<open>turn_channel_bind\<close> reports success, the server has confirmed the channel number it returns.  The run it made
  consists of attempts answered with a challenge, then an attempt that sent the request for this number whole, then messages
  that are passed over, and at last a success response with the method and the transaction identifier of that request; and if the
  connection, as it is returned, has a nonce, this response passed the integrity check with its credentials.\<close>

theorem channel_bind_confirmed:
  assumes "turn_channel_bind L g chn ci peer w = Some (0, chn', ci', w')" and "\<not> negative_protocol_test g" and "\<not> dos g"
  shows "\<exists>n1 ci1 request1 response1 w1 ci2 request2 w2 ci3 response3 w3.
    challenges L g (\<lambda>chn ci request w. bind_attempt L g ci peer chn request w) chn ci (l_buffer L) (l_buffer L) w
      n1 ci1 request1 response1 w1
    \<and> bind_attempt L g ci1 peer n1 request1 w1 = Some (Inr (), chn', ci2, request2, w2)
    \<and> rounds L g ci2 request2 response1 w2 ci3 request2 response3 w3
    \<and> confirmed L g request2 ci3 response3 w3 ci' w'"
proof -
  let ?at = "\<lambda>chn ci request w. bind_attempt L g ci peer chn request w"
  obtain x where x: "transact L g ?at chn ci (l_buffer L) (l_buffer L) w = Some (x, chn', ci', w')"
    "(case x of Inl r \<Rightarrow> r | Inr Granted \<Rightarrow> 0 | Inr _ \<Rightarrow> -1) = 0"
    using assms(1) by (auto simp: turn_channel_bind_def split: bind_splits)
  have "r \<noteq> 0" if "bind_attempt L g c1 peer n1 b1 w1 = Some (Inl r, n2, c2, b2, w2)" for r c1 n1 b1 w1 n2 c2 b2 w2
    using that assms(3) by (auto simp: bind_attempt_def not_rare_event_def Let_def split: bind_splits if_splits prod.splits)
  then have g: "x = Inr Granted"
    using x transact_gave_up [of L g ?at chn ci "l_buffer L" "l_buffer L" w] by (auto split: sum.splits verdict.splits) blast
  show ?thesis
    using transact_confirmed [OF x(1) [unfolded g] assms(2)] unfolding transacted_def by blast
qed

subsection \<open>Permissions\<close>

definition perm_attrs :: "addr_map \<Rightarrow> mem \<Rightarrow> ioa_addr list \<Rightarrow> (u16 \<times> mem) list" where
  "perm_attrs tbl t peers = map (addr_attr tbl t STUN_ATTRIBUTE_XOR_PEER_ADDRESS) peers"

lemma perm_addrs_message:
  assumes "stun_msg (buf b) (len b) mt STUN_MAGIC_COOKIE t as" and "length (buf b) = 65507" and "list_all (translatable tbl) peers"
    and "len b + 24 * length peers < 60000"
  shows "\<exists>b'. perm_addrs tbl peers b = Some b' \<and> stun_msg (buf b') (len b') mt STUN_MAGIC_COOKIE t (as @ perm_attrs tbl t peers)
    \<and> length (buf b') = 65507 \<and> len b' \<le> len b + 24 * length peers"
  using assms
proof (induction peers arbitrary: b as)
  case Nil
  then show ?case
    by (simp add: perm_attrs_def)
next
  case (Cons a peers)
  have l: "len b = msg_size as" "length t = 12"
    using stun_msg_size [OF Cons.prems(1)] stun_msgE [OF Cons.prems(1)] by blast+
  have "built (stun_attr_add_addr_str tbl (buf b) (len b) STUN_ATTRIBUTE_XOR_PEER_ADDRESS a) 65507 mt STUN_MAGIC_COOKIE t
      (as @ [addr_attr tbl t STUN_ATTRIBUTE_XOR_PEER_ADDRESS a])"
    using built_addr [OF Cons.prems(1,2), of tbl a STUN_ATTRIBUTE_XOR_PEER_ADDRESS] Cons.prems(3,4) l(1) by simp
  then obtain m where m: "stun_attr_add_addr tbl b STUN_ATTRIBUTE_XOR_PEER_ADDRESS a
      = Some (0, b\<lparr>buf := m, len := msg_size (as @ [addr_attr tbl t STUN_ATTRIBUTE_XOR_PEER_ADDRESS a])\<rparr>)"
    "stun_msg m (msg_size (as @ [addr_attr tbl t STUN_ATTRIBUTE_XOR_PEER_ADDRESS a])) mt STUN_MAGIC_COOKIE t
      (as @ [addr_attr tbl t STUN_ATTRIBUTE_XOR_PEER_ADDRESS a])" "length m = 65507"
    by (auto simp: built_def stun_attr_add_addr_def store3_def)
  have "msg_size (as @ [addr_attr tbl t STUN_ATTRIBUTE_XOR_PEER_ADDRESS a]) \<le> len b + 24"
    using addr_attr_size [of tbl a t STUN_ATTRIBUTE_XOR_PEER_ADDRESS] Cons.prems(3) l by (simp add: msg_size_def)
  then show ?case
    using Cons.IH [of "b\<lparr>buf := m, len := msg_size (as @ [addr_attr tbl t STUN_ATTRIBUTE_XOR_PEER_ADDRESS a])\<rparr>"
        "as @ [addr_attr tbl t STUN_ATTRIBUTE_XOR_PEER_ADDRESS a]"] m Cons.prems(3,4)
    by (fastforce simp: perm_attrs_def)
qed

lemma perm_attempt_sends:
  assumes "credentials L g ci u r n" and "rd8 (origin g) 0 = Some 0" and "list_all (translatable (addr_tbl g)) peers"
    and "length peers \<le> 25" and "length (buf request) = 65507" and "sends_on L (ci_fd ci) out" and "quiet L out" and "0 \<le> ci_fd ci"
    and "ci_ssl ci = None" and "\<not> negative_protocol_test g" and "\<not> dos g" and "l_entropy L w = (e, w1)"
  shows "\<exists>x req w' k v f. perm_attempt L g ci peers request w = Some (x, (), ci, req, w')
    \<and> stun_is_request req = Some True \<and> stun_get_method req = Some STUN_METHOD_CREATE_PERMISSION
    \<and> stun_tid_from_message req = Some (turn_random_tid_size e)
    \<and> attrs_of (buf req) (len req)
      = perm_attrs (addr_tbl g) (turn_random_tid_size e) peers @ auth_attrs u r n v @ [(STUN_ATTRIBUTE_FINGERPRINT, f)]
    \<and> out w' = out w @ take k (buf req) \<and> x = (if k = len req then Inr () else Inl (Inl 1)) \<and> (accepts L (ci_fd ci) \<longrightarrow> k = len req)"
proof -
  let ?mt = "stun_make_request STUN_METHOD_CREATE_PERMISSION" and ?t = "turn_random_tid_size e"
  let ?b = "request\<lparr>buf := header ?mt 0 STUN_MAGIC_COOKIE ?t @ drop 20 (buf request), len := 20\<rparr>"
  have q: "out w1 = out w"
    using assms(7,12) unfolding quiet_def by (metis snd_conv)
  have b: "stun_init_request e STUN_METHOD_CREATE_PERMISSION request = Some ?b"
    using assms(5) by (simp add: stun_init_request_def stun_init_command_def init_command_header make_fits store2_def)
  have m: "stun_msg (buf ?b) (len ?b) ?mt STUN_MAGIC_COOKIE ?t []" "length (buf ?b) = 65507" "len ?b + 24 * length peers < 60000"
    using assms(4,5) by (simp_all add: stun_msg_new)
  from perm_addrs_message [OF m(1,2) assms(3) m(3)] obtain b2 where b2: "perm_addrs (addr_tbl g) peers ?b = Some b2"
    "stun_msg (buf b2) (len b2) ?mt STUN_MAGIC_COOKIE ?t (perm_attrs (addr_tbl g) ?t peers)" "length (buf b2) = 65507" "len b2 < 60000"
    using m(3) by auto
  have "STUN_METHOD_CREATE_PERMISSION AND 0x0FFF = STUN_METHOD_CREATE_PERMISSION"
    by simp
  from request_goes_out [OF assms(1,2,6,8-10) b2(3,4,2) this, of w1] obtain req w' k v f where
    s: "finish_request L g True ci b2 w1 = Some (0, ci, req, w1)"
    "send_buffer L g ci req False None w1 = Some (if k = len req then int k else -1, ci, req, w')" "0 < len req"
    "out w' = out w1 @ take k (buf req) \<and> (accepts L (ci_fd ci) \<longrightarrow> k = len req)" "stun_is_request req = Some True"
    "stun_get_method req = Some STUN_METHOD_CREATE_PERMISSION" "stun_tid_from_message req = Some ?t" "attrs_of (buf req) (len req)
      = perm_attrs (addr_tbl g) ?t peers @ auth_attrs u r n v @ [(STUN_ATTRIBUTE_FINGERPRINT, f)]"
    by blast
  have "perm_attempt L g ci peers request w = Some (if k = len req then Inr () else Inl (Inl 1), (), ci, req, w')"
    using assms(11,12) b b2(1) s(1-3) by (simp add: perm_attempt_def not_rare_event_def)
  then show ?thesis
    using q s(4-8) by (intro exI [of _ k] exI conjI) auto
qed

text \<open>A server that answers every request with a challenge keeps the client in its transaction forever.\<close>

lemma transact_diverges:
  fixes L :: "('w, 'c) lib"
    and try_it :: "'s \<Rightarrow> app_ur_conn_info \<Rightarrow> stun_buffer \<Rightarrow> 'w \<Rightarrow> (('r + unit) \<times> 's \<times> app_ur_conn_info \<times> stun_buffer \<times> 'w) option"
  assumes "\<And>s ci b w. \<exists>s' ci' b' w'. try_it s ci b w = Some (Inr (), s', ci', b', w')"
    and "\<And>ci b m w. \<exists>ci' b' m' w'. response_loop L g ci b m w = Some (Challenged, ci', b', m', w')"
  shows "transact L g try_it s ci request response w = None"
proof -
  define P where "P L g try_it s ci request response w x \<longleftrightarrow> \<not> ((\<forall>s ci b w. \<exists>s' ci' b' w'. try_it s ci b w = Some (Inr (), s', ci', b', w'))
      \<and> (\<forall>ci b m w. \<exists>ci' b' m' w'. response_loop L g ci b m w = Some (Challenged, ci', b', m', w')))"
    for L :: "('w, 'c) lib" and g :: settings and s :: 's and ci :: app_ur_conn_info and request response :: stun_buffer and w :: 'w
      and try_it :: "'s \<Rightarrow> app_ur_conn_info \<Rightarrow> stun_buffer \<Rightarrow> 'w \<Rightarrow> (('r + unit) \<times> 's \<times> app_ur_conn_info \<times> stun_buffer \<times> 'w) option"
      and x :: "('r + verdict) \<times> 's \<times> app_ur_conn_info \<times> 'w"
  have "P L g try_it s ci request response w x" if "transact L g try_it s ci request response w = Some x" for x
  proof (rule transact.raw_induct [where P = P, OF _ that])
    fix f L g try_it s ci request response w x
    assume IH: "\<And>L g try_it s ci request response w x.
        f L g try_it s ci request response w = Some x \<Longrightarrow> P L g try_it s ci request response w x"
      and eq: "do {
        (x, s, ci, request, w) \<leftarrow> try_it s ci request w;
        case x of Inl r \<Rightarrow> Some (Inl r, s, ci, w)
        | Inr _ \<Rightarrow> do {
            (v, ci, request, response, w) \<leftarrow> response_loop L g ci request response w;
            case v of Challenged \<Rightarrow> f L g try_it s ci request response w
            | _ \<Rightarrow> Some (Inr v, s, ci, w) } } = Some x"
    show "P L g try_it s ci request response w x"
    proof (rule ccontr)
      assume n: "\<not> P L g try_it s ci request response w x"
      then obtain s1 ci1 b1 w1 where a: "try_it s ci request w = Some (Inr (), s1, ci1, b1, w1)"
        unfolding P_def by blast
      obtain ci2 b2 m2 w2 where "response_loop L g ci1 b1 response w1 = Some (Challenged, ci2, b2, m2, w2)"
        using n unfolding P_def by blast
      then have "f L g try_it s1 ci2 b2 m2 w2 = Some x"
        using eq a by simp
      from IH [OF this] show False
        using n by (simp add: P_def)
    qed
  qed
  then show ?thesis
    using assms by (cases "transact L g try_it s ci request response w") (auto simp: P_def)
qed

text \<open>When \<open>turn_create_permission\<close> reports success for some peers, a request for them was sent whole and the last thing to
  arrive was a success response with its method and transaction identifier that passed the integrity check.\<close>

lemma permission_confirmed:
  assumes "turn_create_permission L g ci peers w = Some (Inr 0, ci', w')" and "\<not> negative_protocol_test g" and "\<not> dos g"
    and "\<not> no_permissions g" and "peers \<noteq> []"
  shows "transacted L g (\<lambda>_ ci request w. perm_attempt L g ci peers request w) () ci (l_buffer L) (l_buffer L) w () ci' w'"
proof -
  let ?at = "\<lambda>_ ci request w. perm_attempt L g ci peers request w"
  obtain x where x: "transact L g ?at () ci (l_buffer L) (l_buffer L) w = Some (x, (), ci', w')"
    "(case x of Inl r \<Rightarrow> r | Inr Granted \<Rightarrow> Inr 0 | Inr NoResponse \<Rightarrow> Inl (-1) | Inr _ \<Rightarrow> Inr (-1)) = Inr 0"
    using assms(1,4,5) by (auto simp: turn_create_permission_def split: bind_splits)
  have "r \<noteq> Inr 0" if "perm_attempt L g c1 peers b1 w1 = Some (Inl r, u, c2, b2, w2)" for r c1 b1 w1 u c2 b2 w2
    using that assms(3) by (auto simp: perm_attempt_def not_rare_event_def Let_def split: bind_splits if_splits prod.splits)
  then have g: "x = Inr Granted"
    using x transact_gave_up [of L g ?at "()" ci "l_buffer L" "l_buffer L" w] by (auto split: sum.splits verdict.splits) blast
  show ?thesis
    by (rule transact_confirmed [OF x(1) [unfolded g] assms(2)])
qed

subsection \<open>A transaction that succeeds\<close>

text \<open>The server's answer is there at once: a success response without attributes.\<close>

definition answering_lib :: "u16 \<Rightarrow> (mem, unit) lib" where
  "answering_lib m = (sample_lib (header (stun_make_success_response m) 0 STUN_MAGIC_COOKIE (turn_random_tid_size sample_entropy)))
     \<lparr>l_select := \<lambda>fd sec usec w. (1, w)\<rparr>"

lemma answering_sends: "sends_on (answering_lib m) fd id"
  using sample_sends [of "header (stun_make_success_response m) 0 STUN_MAGIC_COOKIE (turn_random_tid_size sample_entropy)" fd]
  by (simp add: answering_lib_def sends_on_def)

lemma answering_accepts: "accepts (answering_lib m) fd"
  by (simp add: answering_lib_def accepts_def sample_lib_def)

lemma answering_quiet: "quiet (answering_lib m) id" "l_entropy (answering_lib m) w = (sample_entropy, w)"
  "l_buffer (answering_lib m) = blank_buffer"
  by (simp_all add: answering_lib_def quiet_def sample_lib_def)

lemma answering_crypto: "hmac_ok (l_hmac (answering_lib m))" "digest_ok (l_digest (answering_lib m))" "malloc_ok (l_malloc (answering_lib m))"
  by (simp_all add: answering_lib_def sample_lib_def hmac_ok_def digest_ok_def malloc_ok_def)

lemma zeros: "replicate 128 0 = [] @ 0 # replicate 127 (0 :: u8)"
  using replicate_Suc [of 127 "0 :: u8"] by simp

lemma answering_credentials: "credentials (answering_lib m) sample_settings sample_conn [117] [] []"
  unfolding credentials_def using zeros answering_crypto [of m]
  by (intro conjI exI [of _ "[]"] exI [of _ "replicate 127 0"] exI [of _ "[112]"])
     (simp_all add: answering_lib_def sample_lib_def sample_settings_def sample_conn_def)

text \<open>The connection once the server has sent the nonce \<open>n\<close>.\<close>

definition nonce_conn :: app_ur_conn_info where
  "nonce_conn = sample_conn\<lparr>ci_nonce := [110] @ 0 # replicate 126 0\<rparr>"

lemma nonce_credentials: "credentials (answering_lib m) sample_settings nonce_conn [117] [] [110]"
  unfolding credentials_def using zeros answering_crypto [of m]
  by (intro conjI exI [of _ "[]"] exI [of _ "replicate 127 0"] exI [of _ "replicate 126 0"] exI [of _ "[112]"])
     (simp_all add: answering_lib_def sample_lib_def sample_settings_def sample_conn_def nonce_conn_def)

lemma answered_at_once:
  assumes "stun_tid_from_message request = Some (turn_random_tid_size sample_entropy)" and "stun_get_method request = Some m"
    and "m AND 0x0FFF = m"
  shows "\<exists>resp. response_loop (answering_lib m) sample_settings sample_conn request blank_buffer w
    = Some (Granted, sample_conn, request, resp, w)"
proof -
  let ?L = "answering_lib m" and ?t = "turn_random_tid_size sample_entropy"
  let ?h = "header (stun_make_success_response m) 0 STUN_MAGIC_COOKIE ?t"
  let ?r = "blank_buffer\<lparr>buf := ?h @ drop 20 (buf blank_buffer), len := 20\<rparr>"
  have "length ?h = 20" "length (buf blank_buffer) = 65507"
    by (simp_all add: header_def blank_buffer_def)
  then have o: "recv_once ?L sample_settings True None 5 None sample_conn blank_buffer w = Some (Inr 20, sample_conn, ?r, w)"
    by (simp add: recv_once_def sample_settings_def udp_recv_def sync_read_def retry_once answering_lib_def sample_lib_def sample_os_def
        wrn_def)
  have "stun_msg (buf ?r) (len ?r) (stun_make_success_response m) STUN_MAGIC_COOKIE ?t []"
    by (simp add: stun_msg_new)
  note v = stun_msg_view [OF this]
  have m: "recv_match m ?t ?r = Some True" and s: "stun_is_success_response ?r = Some True"
    using v assms(3)
    by (simp_all add: recv_match_def stun_tid_from_message_def stun_get_method_def stun_is_success_response_def
        type_method_make class_make class_defs)
  have "l_select ?L 5 0 500000 w = (1, w)" and now: "l_seconds ?L w = (0, w)"
    by (simp_all add: answering_lib_def sample_lib_def)
  then have "wait_loop ?L 5 0 0 0 0 w = Some (1, w)"
    by (subst wait_loop.simps) simp
  then have "wait_fd ?L sample_settings 5 0 w = Some (1, w)"
    using now by (simp add: wait_fd_def sample_settings_def)
  then have "listen_loop ?L sample_settings False None 5 7 0 sample_conn request w = Some (Inr (), sample_conn, request, w)"
    by (simp add: numeral_eq_Suc)
  then have "recv_step ?L sample_settings True False None 5 None m ?t (Some request) sample_conn blank_buffer w
      = Some (Inl 20, sample_conn, ?r, Some request, w)"
    using o m by (simp add: recv_step_def sample_settings_def)
  then have "recv_buffer ?L sample_settings sample_conn blank_buffer True False None (Some request) w
      = Some (20, sample_conn, ?r, Some request, w)"
    using assms(1,2) by (simp add: recv_buffer_def sample_conn_def recv_again.simps [of ?L])
  then have "response_step ?L sample_settings sample_conn request blank_buffer w = Some (Some Granted, sample_conn, request, ?r, w)"
    using s by (simp add: response_step_def sample_conn_def rd8_def)
  then show ?thesis
    by (subst response_loop.simps) simp
qed

lemma answered_request:
  assumes "try_it s sample_conn blank_buffer w = Some (Inr (), s', sample_conn, req, w')"
    and "stun_tid_from_message req = Some (turn_random_tid_size sample_entropy)" and "stun_get_method req = Some m" and "m AND 0x0FFF = m"
  shows "transact (answering_lib m) sample_settings try_it s sample_conn blank_buffer blank_buffer w = Some (Inr Granted, s', sample_conn, w')"
  using answered_at_once [OF assms(2-4), of w'] assms(1) by (subst transact.simps) auto

lemma sample_basics: "rd8 (origin sample_settings) 0 = Some 0" "translatable (addr_tbl sample_settings) (sample4 3 80)"
  "length (buf blank_buffer) = 65507" "0 \<le> ci_fd sample_conn" "ci_ssl sample_conn = None" "\<not> negative_protocol_test sample_settings"
  "\<not> negative_test sample_settings" "\<not> dos sample_settings" "\<not> no_permissions sample_settings"
  using sample4_translatable by (simp_all add: sample_settings_def sample_conn_def blank_buffer_def rd8_def)

lemma sample_bind_attempt:
  "\<exists>req w'. bind_attempt (answering_lib STUN_METHOD_CHANNEL_BIND) sample_settings sample_conn (sample4 3 80) 0x4001 blank_buffer []
      = Some (Inr (), 0x4001, sample_conn, req, w')
    \<and> stun_get_method req = Some STUN_METHOD_CHANNEL_BIND \<and> stun_tid_from_message req = Some (turn_random_tid_size sample_entropy)"
  using bind_attempt_sends [OF answering_credentials [of STUN_METHOD_CHANNEL_BIND] sample_basics(1-3) answering_sends answering_quiet(1) sample_basics(4-8)
      answering_quiet(2) answering_quiet(2), where chn = "0x4001" and w = "[]"] answering_accepts
  by (auto simp: STUN_VALID_CHANNEL_def)

theorem channel_bind_request_sent_witness:
  "\<exists>req w' t v f. bind_attempt (answering_lib 9) sample_settings nonce_conn (sample4 3 80) 0x4001 blank_buffer []
      = Some (Inr (), 0x4001, nonce_conn, req, w')
    \<and> stun_is_request req = Some True \<and> w' = take (len req) (buf req)
    \<and> attrs_of (buf req) (len req) = bind_attrs empty_map t 0x4001 (sample4 3 80) @ [(STUN_ATTRIBUTE_USERNAME, [117]),
        (STUN_ATTRIBUTE_NONCE, [110]), (STUN_ATTRIBUTE_REALM, []), (STUN_ATTRIBUTE_MESSAGE_INTEGRITY, v), (STUN_ATTRIBUTE_FINGERPRINT, f)]
    \<and> f = fingerprint_at (buf req) (len req - 8)"
proof -
  have c: "0 \<le> ci_fd nonce_conn" "ci_ssl nonce_conn = None"
    by (simp_all add: nonce_conn_def sample_conn_def)
  show ?thesis
    using channel_bind_request_sent [OF nonce_credentials [of 9] sample_basics(1-3) answering_sends answering_quiet(1) c sample_basics(6-8),
        where chn = "0x4001" and w = "[]"] answering_accepts
    by (auto simp: STUN_VALID_CHANNEL_def auth_attrs_def sample_settings_def)
qed

theorem channel_bind_confirmed_witness:
  "\<exists>w'. turn_channel_bind (answering_lib STUN_METHOD_CHANNEL_BIND) sample_settings 0x4001 sample_conn (sample4 3 80) [] = Some (0, 0x4001, sample_conn, w')
    \<and> (\<exists>request ci3 response3 w3. confirmed (answering_lib STUN_METHOD_CHANNEL_BIND) sample_settings request ci3 response3 w3 sample_conn w')"
proof -
  let ?L = "answering_lib STUN_METHOD_CHANNEL_BIND"
  obtain req w' where b: "bind_attempt ?L sample_settings sample_conn (sample4 3 80) 0x4001 blank_buffer [] = Some (Inr (), 0x4001, sample_conn, req, w')"
    "stun_get_method req = Some STUN_METHOD_CHANNEL_BIND" "stun_tid_from_message req = Some (turn_random_tid_size sample_entropy)"
    using sample_bind_attempt by blast
  have "turn_channel_bind ?L sample_settings 0x4001 sample_conn (sample4 3 80) [] = Some (0, 0x4001, sample_conn, w')"
    using answered_request [where try_it = "\<lambda>chn ci request w. bind_attempt ?L sample_settings ci (sample4 3 80) chn request w", OF b(1,3,2)]
    by (simp add: turn_channel_bind_def answering_quiet(3))
  from this channel_bind_confirmed [OF this sample_basics(6,8)] show ?thesis
    by blast
qed

end
