(* ===== verification/Turn_Connect.thy ===== *)
theory Turn_Connect
  imports Turn_Session
begin

text \<open>
  Connecting to the TURN server: \<open>notify_ip\<close>, \<open>tls_connect\<close> and \<open>clnet_connect\<close> of \<open>p2p/connect_manager.c\<close>, with the
  handling of the MTU and the non-blocking flag of \<open>common/apputils.c\<close>.

  \<open>mCB\<close> is the application's callback, a handle that \<open>l_callback\<close> calls.  A part of a function says how it ends with
  \<open>flow\<close>: a return, an exit of the process, or going back to the label.
\<close>

datatype flow = Return int | Exit int | Goto

abbreviation (input) LOCAL_IP :: int where "LOCAL_IP \<equiv> 1"
abbreviation (input) RELAY_IP :: int where "RELAY_IP \<equiv> 2"
abbreviation (input) REMOTE_IP :: int where "REMOTE_IP \<equiv> 4"
abbreviation (input) SOCK_STREAM :: int where "SOCK_STREAM \<equiv> 1"
abbreviation (input) IPPROTO_SCTP :: int where "IPPROTO_SCTP \<equiv> 132"
abbreviation (input) MIN_MTU :: int where "MIN_MTU \<equiv> 548"
abbreviation (input) MAX_MTU :: int where "MAX_MTU \<equiv> 1472"
abbreviation (input) SOSO_MTU :: int where "SOSO_MTU \<equiv> 1300"
abbreviation (input) MAX_TLS_CYCLES :: nat where "MAX_TLS_CYCLES \<equiv> 32"

definition notify_ip :: "('w, 'c) lib \<Rightarrow> int \<Rightarrow> ioa_addr \<Rightarrow> nat option \<Rightarrow> 'w \<Rightarrow> 'w option" where
  "notify_ip L type addr cb w = do {
     addrbuf \<leftarrow> wrn (replicate 46 0) 0 (ntop4 (l_resolver L) (sin_addr addr) @ [0]);
     let port = uint (nswap16 (sin_port addr));
     Some (case cb of None \<Rightarrow> w | Some f \<Rightarrow> l_callback L f type addrbuf port w) }"

text \<open>The macro for an array of \<open>n\<close> bytes; copying an array onto itself is left out by it.\<close>

definition STRCPY :: "nat \<Rightarrow> mem \<Rightarrow> mem option" where
  "STRCPY n src = do { d \<leftarrow> c_strncpy n src; wr8 d (n - 1) 0 }"

subsection \<open>Flags and sizes\<close>

definition socket_set_nonblocking :: "('w, 'c) lib \<Rightarrow> int \<Rightarrow> 'w \<Rightarrow> int \<times> 'w" where
  "socket_set_nonblocking L fd w = (case l_nonblock L fd w of (r, w) \<Rightarrow> (if r = -1 then -1 else 0, w))"

definition get_mtu_from_ssl :: "('w, 'c) lib \<Rightarrow> nat option \<Rightarrow> 'w \<Rightarrow> int" where
  "get_mtu_from_ssl L ssl w = (case ssl of Some s \<Rightarrow> SSL_query_mtu L s w | None \<Rightarrow> SOSO_MTU)"

definition decrease_mtu :: "('w, 'c) lib \<Rightarrow> nat option \<Rightarrow> int \<Rightarrow> 'w \<Rightarrow> (int \<times> 'w) option" where
  "decrease_mtu L ssl mtu w = (case ssl of None \<Rightarrow> Some (mtu, w)
   | Some s \<Rightarrow> do {
       let new_mtu = get_mtu_from_ssl L ssl w;
       let new_mtu = (if new_mtu < 1 then mtu else new_mtu);
       let mtu = (if new_mtu > MAX_MTU then MAX_MTU else mtu);
       mtu \<leftarrow> (if new_mtu > 0 \<and> new_mtu < MIN_MTU then Some MIN_MTU else if new_mtu < mtu then Some new_mtu else c_int (mtu - 68));
       let mtu = (if mtu < MIN_MTU then MIN_MTU else mtu);
       Some (mtu, SSL_set_mtu L s mtu w) })"

definition set_mtu_df :: "('w, 'c) lib \<Rightarrow> nat option \<Rightarrow> int \<Rightarrow> u16 \<Rightarrow> int \<Rightarrow> int \<Rightarrow> 'w \<Rightarrow> int \<times> 'w" where
  "set_mtu_df L ssl fd family mtu df_value w = (case ssl of None \<Rightarrow> (0, w)
   | Some s \<Rightarrow>
       if fd < 0 then (0, w)
       else (case set_socket_df (l_os L) fd family df_value w of (ret, w) \<Rightarrow>
         let mtu = (if mtu = 0 then SOSO_MTU else if mtu < MIN_MTU then MIN_MTU else if mtu > MAX_MTU then MAX_MTU else mtu)
         in (ret, SSL_set_mtu L s mtu w)))"

subsection \<open>TLS\<close>

text \<open>The loop around the handshake: \<open>Inl\<close> is an exit, \<open>Inr True\<close> a session, \<open>Inr False\<close> another try.\<close>

partial_function (option) tls_loop :: "('w, 'c) lib \<Rightarrow> settings \<Rightarrow> nat \<Rightarrow> nat \<Rightarrow> 'w \<Rightarrow> ((int + bool) \<times> 'w) option" where
  "tls_loop L g ssl connect_cycle w = do {
     (rc, w) \<leftarrow> retry (SSL_connect L ssl) (\<lambda>rc w. rc < 0 \<and> os_errno (l_os L) w = EINTR) w;
     if rc > 0 then Some (Inr True, w)
     else if SSL_get_error L ssl rc w = SSL_ERROR_WANT_READ \<or> SSL_get_error L ssl rc w = SSL_ERROR_WANT_WRITE
     then tls_loop L g ssl connect_cycle (if dos g then w else l_usleep L 1000 w)
     else if connect_cycle < MAX_TLS_CYCLES then Some (Inr False, SSL_free L ssl w)
     else Some (Inl (-1), w) }"

text \<open>Without a context the remainder is not defined; \<open>SSL_new\<close> is taken to succeed.\<close>

definition tls_connect :: "('w, 'c) lib \<Rightarrow> settings \<Rightarrow> int \<Rightarrow> ioa_addr \<Rightarrow> nat \<Rightarrow> 'w \<Rightarrow> ((int + nat option) \<times> 'w) option" where
  "tls_connect L g fd remote_addr connect_cycle w =
     (if root_tls_ctx_num g = 0 then None
      else (case urandom L w of (r, w) \<Rightarrow>
        let ctxtype = int (r mod unat (word_of_int (root_tls_ctx_num g) :: u64)) in
        case SSL_new L ctxtype fd (if use_tcp g then None else Some remote_addr) w of (ssl, w) \<Rightarrow> do {
          let w = (if use_tcp g then w else snd (set_mtu_df L (Some ssl) fd (sa_family remote_addr) SOSO_MTU 1 w));
          (r, w) \<leftarrow> tls_loop L g ssl connect_cycle w;
          Some (case r of Inl e \<Rightarrow> Inl e | Inr ok \<Rightarrow> Inr (if ok then Some ssl else None), w) }))"

subsection \<open>The socket\<close>

text \<open>The local address: of the loopback interface for a peer without one, and bound if there is any.  \<open>None\<close>: return -1.\<close>

definition local_socket ::
    "('w, 'c) lib \<Rightarrow> settings \<Rightarrow> bool \<Rightarrow> int \<Rightarrow> ioa_addr \<Rightarrow> mem \<Rightarrow> 'w \<Rightarrow> (ioa_addr option \<times> 'w) option" where
  "local_socket L g peer fd remote_addr local_address w = do {
     c \<leftarrow> rd8 local_address 0;
     n \<leftarrow> (if peer \<and> c = 0 then Some 0 else c_strlen local_address);
     if peer \<and> c = 0 \<or> n > 0 then do {
       let text = (if peer \<and> c = 0 then (if sa_family remote_addr = AF_INET6 then c_lit ''::1'' else c_lit ''127.0.0.1'') else local_address);
       (r, a) \<leftarrow> make_ioa_addr (l_resolver L) (Some text) 0 (Some zero_addr);
       a \<leftarrow> a;
       if r < 0 then Some (None, w)
       else do {
         (_, w) \<leftarrow> addr_bind (l_os L) fd (Some a) 0 (get_socket_type g) w;
         Some (Some a, w) } }
     else Some (Some zero_addr, w) }"

text \<open>The socket with its options: \<open>Inl\<close> is a return.\<close>

definition open_socket :: "('w, 'c) lib \<Rightarrow> settings \<Rightarrow> mem \<Rightarrow> ioa_addr \<Rightarrow> 'w \<Rightarrow> ((int + int) \<times> 'w) option" where
  "open_socket L g ifn remote_addr w =
     (case os_socket (l_os L) (sa_family remote_addr) (if use_sctp g \<or> use_tcp g then SOCK_STREAM else SOCK_DGRAM)
         (if use_sctp g then IPPROTO_SCTP else 0) w of (fd, w) \<Rightarrow>
        if fd < 0 then Some (Inl (-1), w)
        else do {
          (r, w) \<leftarrow> sock_bind_to_device (l_os L) fd (Some ifn) w;
          if r < 0 then Some (Inl (-1), w)
          else do {
            let (_, w) = set_sock_buf_size (l_os L) fd 65536 w;
            let (_, w) = set_raw_socket_tos (l_os L) fd (sa_family remote_addr) 0x22 w;
            let (_, w) = set_raw_socket_ttl (l_os L) fd (sa_family remote_addr) 47 w;
            Some (Inr fd, w) } })"

text \<open>What is stored in the connection: the addresses, the socket and the texts.\<close>

definition note_socket ::
    "('w, 'c) lib \<Rightarrow> mem \<Rightarrow> mem \<Rightarrow> mem \<Rightarrow> int \<Rightarrow> ioa_addr \<Rightarrow> ioa_addr \<Rightarrow> app_ur_conn_info \<Rightarrow> 'w \<Rightarrow> (app_ur_conn_info \<times> 'w) option" where
  "note_socket L remote_address ifn local_address fd remote_addr local_addr ci w = do {
     let (_, a, w) = addr_get_from_sock (l_os L) (l_addr L) fd (Some local_addr) w;
     a \<leftarrow> a;
     ls \<leftarrow> STRCPY 129 local_address;
     rs \<leftarrow> STRCPY 129 remote_address;
     i \<leftarrow> STRCPY 129 ifn;
     Some (ci\<lparr>ci_remote_addr := remote_addr, ci_local_addr := a, ci_fd := fd, lsaddr := ls, rsaddr := rs, ifname := i\<rparr>, w) }"

text \<open>After the socket is connected: storing it, the TLS session and the notifications.\<close>

definition finish_connect ::
    "('w, 'c) lib \<Rightarrow> settings \<Rightarrow> nat option \<Rightarrow> mem \<Rightarrow> mem \<Rightarrow> mem \<Rightarrow> int \<Rightarrow> ioa_addr \<Rightarrow> ioa_addr \<Rightarrow> nat \<Rightarrow> app_ur_conn_info \<Rightarrow> 'w
     \<Rightarrow> (flow \<times> nat \<times> app_ur_conn_info \<times> 'w) option" where
  "finish_connect L g mCB remote_address ifn local_address fd remote_addr local_addr connect_cycle ci w = do {
     (ci, w) \<leftarrow> note_socket L remote_address ifn local_address fd remote_addr local_addr ci w;
     (x, ci, w) \<leftarrow> (if use_secure g then do {
          (x, w) \<leftarrow> tls_connect L g fd remote_addr connect_cycle w;
          case x of Inl e \<Rightarrow> Some (Inl (Exit e), ci, w)
          | Inr s \<Rightarrow> Some (if s = None then Inl Goto else Inr (), ci\<lparr>ci_ssl := s\<rparr>, w) }
        else Some (Inr (), ci, w));
     let connect_cycle = (if use_secure g then connect_cycle + 1 else connect_cycle);
     case x of Inl f \<Rightarrow> Some (f, connect_cycle, ci, w)
     | Inr _ \<Rightarrow> do {
         w \<leftarrow> notify_ip L LOCAL_IP (ci_local_addr ci) mCB w;
         w \<leftarrow> notify_ip L REMOTE_IP remote_addr mCB w;
         Some (Return 0, connect_cycle, ci, if dos g then w else l_usleep L 500 w) } }"

text \<open>From the label \<open>start_socket\<close>.  A connection that fails otherwise than with EADDRINUSE is used all the same.\<close>

definition connect_step ::
    "('w, 'c) lib \<Rightarrow> settings \<Rightarrow> nat option \<Rightarrow> u16 \<Rightarrow> mem \<Rightarrow> mem \<Rightarrow> mem \<Rightarrow> nat \<Rightarrow> app_ur_conn_info \<Rightarrow> 'w
     \<Rightarrow> (flow \<times> nat \<times> app_ur_conn_info \<times> 'w) option" where
  "connect_step L g mCB remote_port remote_address ifn local_address connect_cycle ci w = do {
     (r, a) \<leftarrow> make_ioa_addr (l_resolver L) (Some remote_address) (uint remote_port) (Some zero_addr);
     remote_addr \<leftarrow> a;
     if r < 0 then Some (Return (-1), connect_cycle, ci, w)
     else do {
       (x, w) \<leftarrow> open_socket L g ifn remote_addr w;
       case x of Inl r \<Rightarrow> Some (Return r, connect_cycle, ci, w)
       | Inr fd \<Rightarrow> do {
           (a, w) \<leftarrow> local_socket L g (is_peer ci) fd remote_addr local_address w;
           case a of None \<Rightarrow> Some (Return (-1), connect_cycle, ci, w)
           | Some local_addr \<Rightarrow> do {
               (r, w) \<leftarrow> (if is_peer ci then Some (0, w)
                  else do { (r, _, w) \<leftarrow> socket_connect (l_os L) fd remote_addr 0 w; Some (r, w) });
               if r > 0 then Some (Goto, connect_cycle, ci, w)
               else finish_connect L g mCB remote_address ifn local_address fd remote_addr local_addr connect_cycle ci w } } } }"

partial_function (option) connect_loop ::
    "('w, 'c) lib \<Rightarrow> settings \<Rightarrow> nat option \<Rightarrow> u16 \<Rightarrow> mem \<Rightarrow> mem \<Rightarrow> mem \<Rightarrow> nat \<Rightarrow> app_ur_conn_info \<Rightarrow> 'w
     \<Rightarrow> ((int + int) \<times> app_ur_conn_info \<times> 'w) option" where
  "connect_loop L g mCB remote_port remote_address ifn local_address connect_cycle ci w = do {
     (f, connect_cycle, ci, w) \<leftarrow> connect_step L g mCB remote_port remote_address ifn local_address connect_cycle ci w;
     case f of Return r \<Rightarrow> Some (Inr r, ci, w)
     | Exit e \<Rightarrow> Some (Inl e, ci, w)
     | Goto \<Rightarrow> connect_loop L g mCB remote_port remote_address ifn local_address connect_cycle ci w }"

text \<open>\<open>Inl\<close> is an exit of the process, \<open>Inr\<close> a return.\<close>

definition clnet_connect ::
    "('w, 'c) lib \<Rightarrow> settings \<Rightarrow> nat option \<Rightarrow> u16 \<Rightarrow> mem \<Rightarrow> mem \<Rightarrow> mem \<Rightarrow> app_ur_conn_info \<Rightarrow> 'w
     \<Rightarrow> ((int + int) \<times> app_ur_conn_info \<times> 'w) option" where
  "clnet_connect L g mCB remote_port remote_address ifn local_address ci w =
     connect_loop L g mCB remote_port remote_address ifn local_address 0 ci w"

subsection \<open>What a connection is\<close>

text \<open>
  A connection that was made: it has a socket, if it is secure a TLS session whose handshake on that socket was completed, the
  address that the text and the port resolve to, the local address that the socket has after it was bound, and the texts it was
  made with, for the next time.
\<close>

definition connected :: "('w, 'c) lib \<Rightarrow> settings \<Rightarrow> u16 \<Rightarrow> mem \<Rightarrow> mem \<Rightarrow> mem \<Rightarrow> app_ur_conn_info \<Rightarrow> bool" where
  "connected L g port ra ifn la ci \<longleftrightarrow> 0 \<le> ci_fd ci
     \<and> (use_secure g \<longrightarrow> ci_ssl ci \<noteq> None \<and> (\<exists>n w w'. tls_connect L g (ci_fd ci) (ci_remote_addr ci) n w = Some (Inr (ci_ssl ci), w')))
     \<and> (\<exists>r. make_ioa_addr (l_resolver L) (Some ra) (uint port) (Some zero_addr) = Some (r, Some (ci_remote_addr ci)) \<and> 0 \<le> r)
     \<and> (\<exists>a w w1 w2 r w3. local_socket L g (is_peer ci) (ci_fd ci) (ci_remote_addr ci) la w = Some (Some a, w1)
          \<and> addr_get_from_sock (l_os L) (l_addr L) (ci_fd ci) (Some a) w2 = (r, Some (ci_local_addr ci), w3))
     \<and> STRCPY 129 ra = Some (rsaddr ci) \<and> STRCPY 129 ifn = Some (ifname ci) \<and> STRCPY 129 la = Some (lsaddr ci)"

text \<open>The part of a connection that connecting leaves alone.\<close>

definition unconnected :: "app_ur_conn_info \<Rightarrow> app_ur_conn_info" where
  "unconnected ci = ci\<lparr>ci_fd := -1, ci_ssl := None, ci_local_addr := zero_addr, ci_remote_addr := zero_addr,
     lsaddr := [], rsaddr := [], ifname := []\<rparr>"

lemma open_socket_fd: "open_socket L g ifn a w = Some (Inr fd, w') \<Longrightarrow> 0 \<le> fd"
  by (auto simp: open_socket_def Let_def split: prod.splits if_splits bind_splits)

lemma open_socket_return: "open_socket L g ifn a w = Some (Inl r, w') \<Longrightarrow> r = -1"
  by (auto simp: open_socket_def Let_def split: prod.splits if_splits bind_splits)

lemma note_socket_fields:
  assumes "note_socket L ra ifn la fd remote local ci w = Some (ci', w')"
  shows "ci_fd ci' = fd \<and> ci_remote_addr ci' = remote \<and> STRCPY 129 ra = Some (rsaddr ci') \<and> STRCPY 129 ifn = Some (ifname ci')
    \<and> STRCPY 129 la = Some (lsaddr ci') \<and> unconnected ci' = unconnected ci \<and> ci_ssl ci' = ci_ssl ci \<and> is_peer ci' = is_peer ci
    \<and> (\<exists>r w3. addr_get_from_sock (l_os L) (l_addr L) fd (Some local) w = (r, Some (ci_local_addr ci'), w3))"
  using assms by (auto simp: note_socket_def unconnected_def Let_def split: prod.splits bind_splits)

lemma unconnected_ssl [simp]: "unconnected (ci\<lparr>ci_ssl := s\<rparr>) = unconnected ci"
  by (simp add: unconnected_def)

lemma finish_connect_connected:
  assumes "finish_connect L g cb ra ifn la fd remote local n ci w = Some (f, n', ci', w')" and "0 \<le> fd"
    and "make_ioa_addr (l_resolver L) (Some ra) (uint port) (Some zero_addr) = Some (r0, Some remote)" and "0 \<le> r0"
    and "local_socket L g (is_peer ci) fd remote la w0 = Some (Some local, w1)"
  shows "(f = Return r \<longrightarrow> r = 0 \<and> connected L g port ra ifn la ci') \<and> unconnected ci' = unconnected ci
    \<and> (\<not> use_secure g \<longrightarrow> ci_ssl ci' = ci_ssl ci)"
proof -
  obtain ci1 w2 where n: "note_socket L ra ifn la fd remote local ci w = Some (ci1, w2)"
    using assms(1) by (auto simp: finish_connect_def split: bind_splits)
  note fields = note_socket_fields [OF n]
  show ?thesis
  proof (cases "use_secure g")
    case True
    then obtain y w3 where t: "tls_connect L g fd remote n w2 = Some (y, w3)"
      using assms(1) n by (auto simp: finish_connect_def split: bind_splits)
    have "connected L g port ra ifn la (ci1\<lparr>ci_ssl := Some x\<rparr>)" if "y = Inr (Some x)" for x
    proof -
      have "\<exists>n w w'. tls_connect L g fd remote n w = Some (Inr (Some x), w')"
        using t that by blast
      then show ?thesis
        using fields assms(2-5) unfolding connected_def by (simp, blast)
    qed
    then show ?thesis
      using assms(1) n True fields t by (cases y) (auto simp: finish_connect_def Let_def split: bind_splits if_splits)
  next
    case False
    then have "connected L g port ra ifn la ci1"
      using fields assms(2-5) unfolding connected_def by (simp, blast)
    then show ?thesis
      using assms(1) n False fields by (auto simp: finish_connect_def Let_def split: bind_splits)
  qed
qed

lemma connect_step_connected:
  assumes "connect_step L g cb port ra ifn la n ci w = Some (f, n', ci', w')"
  shows "(f = Return r \<longrightarrow> r = -1 \<or> r = 0 \<and> connected L g port ra ifn la ci') \<and> unconnected ci' = unconnected ci
    \<and> (\<not> use_secure g \<longrightarrow> ci_ssl ci' = ci_ssl ci)"
proof -
  obtain r0 remote where m: "make_ioa_addr (l_resolver L) (Some ra) (uint port) (Some zero_addr) = Some (r0, Some remote)"
    using assms by (auto simp: connect_step_def split: bind_splits)
  show ?thesis
  proof (cases "r0 < 0")
    case True
    then show ?thesis
      using assms by (auto simp: connect_step_def m)
  next
    case False
    then have r0: "0 \<le> r0"
      by simp
    show ?thesis
      using assms finish_connect_connected [OF _ _ m r0] False
      by (auto simp: connect_step_def m dest!: open_socket_fd open_socket_return split: bind_splits if_splits sum.splits option.splits)
  qed
qed

end
