(* ===== verification/Turn_Frame.thy ===== *)
theory Turn_Frame
  imports Turn_Connect
begin

text \<open>
  What the operations on a connection leave alone: its relayed address, the address of its peer, whether it is a peer and its TCP
  data connections.
  Transport, credentials and connecting change other fields only.
\<close>

definition core :: "app_ur_conn_info \<Rightarrow> ioa_addr \<times> ioa_addr \<times> bool \<times> app_tcp_conn_info option list" where
  "core ci = (ci_relay_addr ci, ci_peer_addr ci, is_peer ci, tcp_conn ci)"

named_theorems core_keeps \<open>operations that leave the core of a connection alone\<close>

lemma core_updates [simp]:
  "core (ci\<lparr>broken := b\<rparr>) = core ci" "core (ci\<lparr>cok := k\<rparr>) = core ci" "core (ci\<lparr>ci_key := m\<rparr>) = core ci" "core (ci\<lparr>key_set := b\<rparr>) = core ci"
  "core (ci\<lparr>ci_realm := m\<rparr>) = core ci" "core (ci\<lparr>ci_nonce := m\<rparr>) = core ci" "core (ci\<lparr>ci_server_name := m\<rparr>) = core ci"
  "core (ci\<lparr>ci_oauth := b\<rparr>) = core ci" "core (ci\<lparr>s_mobile_id := m\<rparr>) = core ci" "core (ci\<lparr>ci_fd := fd\<rparr>) = core ci"
  "core (ci\<lparr>ci_ssl := s\<rparr>) = core ci"
  by (simp_all add: core_def)

subsection \<open>Transport\<close>

lemma ssl_send_core [core_keeps]:
  fixes L :: "('w, 'c) lib"
  assumes "ssl_send L ssl bs ci w = Some (r, ci', w')"
  shows "core ci' = core ci"
proof -
  define P where "P L ssl bs ci w x \<longleftrightarrow> core (fst (snd x)) = core ci"
    for L :: "('w, 'c) lib" and ssl :: nat and bs :: mem and ci :: app_ur_conn_info and w :: 'w and x :: "int \<times> app_ur_conn_info \<times> 'w"
  have "P L ssl bs ci w (r, ci', w')"
    by (rule ssl_send.raw_induct [where P = P, OF _ assms]) (fastforce simp: P_def split: bind_splits if_splits)
  then show ?thesis
    by (simp add: P_def)
qed

lemma send_buffer_core [core_keeps]:
  "send_buffer L g ci message dc atc w = Some (r, ci', message', w') \<Longrightarrow> core ci' = core ci"
  by (auto simp: send_buffer_def Let_def dest!: ssl_send_core split: bind_splits if_splits option.splits prod.splits)

lemma listen_loop_core [core_keeps]:
  "listen_loop L g dc atc fd n cycle ci req w = Some (r, ci', req', w') \<Longrightarrow> core ci' = core ci"
  by (induction n arbitrary: cycle ci req w) (auto dest!: send_buffer_core split: bind_splits if_splits)

lemma ssl_recv_core [core_keeps]:
  "ssl_recv L sync ssl n ci message rc w = Some (r, ci', message', w') \<Longrightarrow> core ci' = core ci"
  by (induction n arbitrary: ci message rc w) (auto split: bind_splits if_splits)

lemma recv_once_core [core_keeps]:
  "recv_once L g sync atc fd ssl ci message w = Some (r, ci', message', w') \<Longrightarrow> core ci' = core ci"
  by (auto simp: recv_once_def dest!: ssl_recv_core split: bind_splits if_splits)

lemma recv_step_core [core_keeps]:
  "recv_step L g sync dc atc fd ssl meth tid request ci message w = Some (r, ci', message', request', w') \<Longrightarrow> core ci' = core ci"
  by (auto simp: recv_step_def dest!: listen_loop_core recv_once_core split: bind_splits if_splits sum.splits)

lemma recv_again_core [core_keeps]:
  fixes L :: "('w, 'c) lib"
  assumes "recv_again L g sync dc atc fd ssl meth tid request ci message w = Some (rc, ci', message', request', w')"
  shows "core ci' = core ci"
proof -
  define P where "P L g sync dc atc fd ssl meth tid request ci message w x \<longleftrightarrow> core (fst (snd x)) = core ci"
    for L :: "('w, 'c) lib" and g :: settings and sync dc :: bool and atc :: "app_tcp_conn_info option" and fd :: int
      and ssl :: "nat option" and meth :: u16 and tid :: mem and request :: "stun_buffer option" and ci :: app_ur_conn_info
      and message :: stun_buffer and w :: 'w and x :: "int \<times> app_ur_conn_info \<times> stun_buffer \<times> stun_buffer option \<times> 'w"
  have "P L g sync dc atc fd ssl meth tid request ci message w (rc, ci', message', request', w')"
    by (rule recv_again.raw_induct [where P = P, OF _ assms])
       (fastforce simp: P_def dest: recv_step_core split: bind_splits sum.splits)
  then show ?thesis
    by (simp add: P_def)
qed

lemma recv_buffer_core [core_keeps]:
  "recv_buffer L g ci message sync dc atc request w = Some (rc, ci', message', request', w') \<Longrightarrow> core ci' = core ci"
  by (auto simp: recv_buffer_def Let_def dest!: recv_again_core split: bind_splits)

subsection \<open>Credentials\<close>

lemma fresh_token_core [core_keeps]: "fresh_token L g ci message w = Some (x, ci', message', w') \<Longrightarrow> core ci' = core ci"
  by (auto simp: fresh_token_def Let_def split: bind_splits if_splits prod.splits)

lemma add_integrity_core [core_keeps]: "add_integrity L g ci message w = Some (r, ci', message', w') \<Longrightarrow> core ci' = core ci"
  by (auto simp: add_integrity_def dest!: fresh_token_core split: bind_splits if_splits sum.splits)

lemma finish_request_core [core_keeps]: "finish_request L g fp ci message w = Some (r, ci', message', w') \<Longrightarrow> core ci' = core ci"
  by (auto simp: finish_request_def dest!: add_integrity_core split: bind_splits if_splits)

lemma read_challenge_core [core_keeps]: "read_challenge L ci response = Some (x, ci', e, m) \<Longrightarrow> core ci' = core ci"
  by (auto simp: read_challenge_def split: bind_splits)

lemma read_mobility_ticket_core [core_keeps]: "read_mobility_ticket ci message = Some (r, ci') \<Longrightarrow> core ci' = core ci"
  by (auto simp: read_mobility_ticket_def split: bind_splits if_splits option.splits)

subsection \<open>Connecting\<close>

lemma unconnected_core: "unconnected ci = unconnected ci' \<Longrightarrow> core ci = core ci'"
  by (cases ci, cases ci') (simp add: unconnected_def core_def)

lemma connect_loop_connected:
  fixes L :: "('w, 'c) lib"
  assumes "connect_loop L g cb port ra ifn la n ci w = Some (x, ci', w')"
  shows "(case x of Inl _ \<Rightarrow> True | Inr r \<Rightarrow> r = -1 \<or> r = 0 \<and> connected L g port ra ifn la ci') \<and> unconnected ci' = unconnected ci
    \<and> (\<not> use_secure g \<longrightarrow> ci_ssl ci' = ci_ssl ci)"
proof -
  define P where "P L g cb port ra ifn la n ci w x \<longleftrightarrow>
      (case fst x of Inl _ \<Rightarrow> True | Inr r \<Rightarrow> r = -1 \<or> r = 0 \<and> connected L g port ra ifn la (fst (snd x))) \<and> unconnected (fst (snd x)) = unconnected ci
      \<and> (\<not> use_secure g \<longrightarrow> ci_ssl (fst (snd x)) = ci_ssl ci)"
    for L :: "('w, 'c) lib" and g :: settings and cb :: "nat option" and port :: u16 and ra ifn la :: mem and n :: nat
      and ci :: app_ur_conn_info and w :: 'w and x :: "(int + int) \<times> app_ur_conn_info \<times> 'w"
  have "P L g cb port ra ifn la n ci w (x, ci', w')"
  proof (rule connect_loop.raw_induct [where P = P, OF _ assms])
    fix f L g cb port ra ifn la n ci w x
    assume IH: "\<And>L g cb port ra ifn la n ci w x. f L g cb port ra ifn la n ci w = Some x \<Longrightarrow> P L g cb port ra ifn la n ci w x"
      and eq: "do {
        (f', n, ci, w) \<leftarrow> connect_step L g cb port ra ifn la n ci w;
        case f' of Return r \<Rightarrow> Some (Inr r, ci, w) | Exit e \<Rightarrow> Some (Inl e, ci, w)
        | Goto \<Rightarrow> f L g cb port ra ifn la n ci w } = Some x"
    then obtain f' n1 ci1 w1 where s: "connect_step L g cb port ra ifn la n ci w = Some (f', n1, ci1, w1)"
      by (auto split: bind_splits)
    show "P L g cb port ra ifn la n ci w x"
    proof (cases f')
      case Goto
      then have "f L g cb port ra ifn la n1 ci1 w1 = Some x"
        using eq s by simp
      from IH [OF this] show ?thesis
        using connect_step_connected [OF s] by (simp add: P_def)
    qed (use eq s connect_step_connected [OF s] in \<open>auto simp: P_def\<close>)
  qed
  then show ?thesis
    unfolding P_def by (auto split: sum.splits)
qed

lemma clnet_connect_core [core_keeps]:
  "clnet_connect L g cb port ra ifn la ci w = Some (x, ci', w') \<Longrightarrow> core ci' = core ci"
  unfolding clnet_connect_def by (rule unconnected_core, drule connect_loop_connected, blast)

text \<open>C31: \<open>clnet_connect\<close> returns -1 or 0, and then the connection has a socket, the address that the given text and port
  resolve to without an error, the local address that the socket has after it was bound, and the texts, for the next time.  If TLS
  is asked for, it has a session whose handshake on that socket was completed; otherwise its session is left as it was.  Nothing
  but these fields is changed.\<close>

theorem clnet_connect_connected:
  assumes "clnet_connect L g cb port ra ifn la ci w = Some (Inr r, ci', w')"
  shows "(r = -1 \<or> r = 0 \<and> connected L g port ra ifn la ci') \<and> unconnected ci' = unconnected ci
    \<and> (\<not> use_secure g \<longrightarrow> ci_ssl ci' = ci_ssl ci)"
  using connect_loop_connected [OF assms [unfolded clnet_connect_def]] by simp

lemma make_empty_addr:
  "make_ioa_addr R (Some (0 # x)) port (Some a) = Some (0, Some (zero_addr\<lparr>sa_family := AF_INET, sin_port := nswap16 (word_of_int port)\<rparr>))"
proof -
  have "c_strncpy 257 (0 # x) = Some (replicate 257 0)" "wr8 (replicate 257 0) 256 0 = Some (replicate 257 0)"
    using c_strncpy_short [of "[]" 257 x] replicate_add [of 256 1 "0 :: u8"] by (simp_all add: wr8_def wrn_def)
  moreover have "c_strlen (replicate 257 0) = Some 0" "skip_blanks (replicate 257 0) 0 = Some 0" "c_str (replicate 257 0) = Some []"
    by (simp_all add: numeral_eq_Suc skip_blanks.simps rd8_def c_str_def)
  ultimately show ?thesis
    by (simp add: make_ioa_addr_def)
qed

lemma STRCPY_empty: "0 < n \<Longrightarrow> STRCPY n (0 # x) = Some (replicate n 0)"
  using c_strncpy_short [of "[]" n x] by (simp add: STRCPY_def wr8_def wrn_def flip: replicate_append_same) (metis Suc_pred replicate_append_same replicate_Suc)

text \<open>
  Connecting on the system of the witnesses, over UDP and without a callback: an empty text stands for any address, and the socket
  is 3.
\<close>

lemma plain_connect:
  assumes os: "l_os L = (sample_os zero_addr [])\<lparr>os_recv := r\<rparr>" and L: "l_resolver L = sample_resolver" "l_usleep L = (\<lambda>n w. w)"
    and g: "\<not> use_tcp g" "\<not> use_sctp g" "\<not> use_secure g" and ci: "\<not> is_peer ci"
  shows "clnet_connect L g None port (0 # x) [0] [0] ci w = Some (Inr 0, ci\<lparr>ci_remote_addr := zero_addr\<lparr>sa_family := AF_INET, sin_port := nswap16 port\<rparr>,
    ci_local_addr := zero_addr, ci_fd := 3, lsaddr := replicate 129 0, rsaddr := replicate 129 0, ifname := replicate 129 0\<rparr>, w)"
proof -
  let ?a = "zero_addr\<lparr>sa_family := AF_INET, sin_port := nswap16 port\<rparr>"
  let ?c = "ci\<lparr>ci_remote_addr := ?a, ci_local_addr := zero_addr, ci_fd := 3, lsaddr := replicate 129 0, rsaddr := replicate 129 0,
    ifname := replicate 129 0\<rparr>"
  have m: "make_ioa_addr (l_resolver L) (Some (0 # x)) (uint port) (Some zero_addr) = Some (0, Some ?a)"
    by (simp add: make_empty_addr)
  have o: "open_socket L g [0] ?a w = Some (Inr 3, w)"
    by (simp add: open_socket_def os g sample_os_def sock_bind_to_device_def rd8_def set_sock_buf_size_def
        bufsize_loop.simps set_raw_socket_tos_def set_raw_socket_ttl_def)
  have l: "local_socket L g False 3 ?a [0] w = Some (Some zero_addr, w)"
    by (simp add: local_socket_def rd8_def)
  have "retry (os_connect (l_os L) 3 ?a) (\<lambda>e w. e < 0 \<and> os_errno (l_os L) w = EINTR) w = Some (0, w)"
    by (rule retry_once) (simp_all add: os sample_os_def)
  then have "socket_connect (l_os L) 3 ?a 0 w = Some (0, 0, w)"
    by (simp add: socket_connect_def addr_connect_def os sample_os_def)
  moreover have "note_socket L (0 # x) [0] [0] 3 ?a zero_addr ci w = Some (?c, w)"
    by (simp add: note_socket_def STRCPY_empty addr_get_from_sock_def os sample_os_def addr_cpy_def)
  moreover have "notify_ip L t b None w = Some w" for t b
  proof -
    have "length (ntop4 (l_resolver L) (sin_addr b)) < 46"
      using length_dec_string_pow [of "unat (sin_addr b)" 9] unsigned_less [of "sin_addr b", where 'a = nat]
      by (simp add: L sample_resolver_def)
    then show ?thesis
      by (simp add: notify_ip_def wrn_def)
  qed
  ultimately have "connect_step L g None port (0 # x) [0] [0] 0 ci w = Some (Return 0, 0, ?c, w)"
    using m o l g ci by (simp add: connect_step_def finish_connect_def L)
  then show ?thesis
    unfolding clnet_connect_def by (subst connect_loop.simps) simp
qed

theorem clnet_connect_connected_witness:
  "\<exists>ci'. clnet_connect (sample_lib []) sample_settings None 3478 [0] [0] [0] sample_conn [] = Some (Inr 0, ci', [])
    \<and> connected (sample_lib []) sample_settings 3478 [0] [0] [0] ci'"
proof -
  have os: "l_os (sample_lib []) = (sample_os zero_addr [])\<lparr>os_recv := \<lambda>fd n w. (0, [], w)\<rparr>"
    "l_resolver (sample_lib []) = sample_resolver" "l_usleep (sample_lib []) = (\<lambda>n w. w)"
    by (simp_all add: sample_lib_def sample_os_def)
  obtain ci' where c: "clnet_connect (sample_lib []) sample_settings None 3478 [0] [0] [0] sample_conn [] = Some (Inr 0, ci', [])"
    using plain_connect [OF os, of sample_settings sample_conn 3478 "[]" "[]"] by (auto simp: sample_settings_def sample_conn_def)
  from this clnet_connect_connected [OF this] show ?thesis
    by auto
qed

end
