(* ===== verification/Turn_Allocate.thy ===== *)
theory Turn_Allocate
  imports Turn_Frame
begin

text \<open>
  The allocation: \<open>clnet_allocate\<close> of \<open>p2p/connect_manager.c\<close>, which asks the server for a relayed address, up to 32 times,
  and then refreshes the allocation, up to 33 times.

  \<open>connect_state\<close> has the variables that this file and its callers change; \<open>allocation\<close> the connection, this state and the
  local variables of the function, with \<open>a_alt\<close> for the pointers \<open>turn_addr\<close> and \<open>turn_port\<close>.
\<close>

record connect_state =
  allocate_rtcp :: bool
  current_reservation_token :: u64
  default_address_family :: int
  peer_addr :: ioa_addr
  mCB :: "nat option"

record allocation =
  a_ci :: app_ur_conn_info
  a_st :: connect_state
  a_relay :: ioa_addr
  a_alt :: "(mem \<times> u16) option"
  a_request :: stun_buffer
  a_response :: stun_buffer
  a_reopen :: bool

text \<open>How a part ends: with an exit or a return, with an answer that completes the request, or with the next attempt.\<close>

datatype alloc_verdict = AExit int | AReturn int | Finished | Next

abbreviation STUN_ATTRIBUTE_DONT_FRAGMENT :: u16 where "STUN_ATTRIBUTE_DONT_FRAGMENT \<equiv> 0x001A"

definition set_local_addr_cb :: "nat option \<Rightarrow> connect_state \<Rightarrow> connect_state" where
  "set_local_addr_cb cb st = st\<lparr>mCB := cb\<rparr>"

subsection \<open>The request\<close>

definition alloc_request ::
    "('w, 'c) lib \<Rightarrow> settings \<Rightarrow> int \<Rightarrow> connect_state \<Rightarrow> stun_buffer \<Rightarrow> 'w \<Rightarrow> (stun_buffer \<times> 'w) option" where
  "alloc_request L g af st request w = do {
     let af4 = (dual_allocation g \<or> af = 1);
     let af6 = (dual_allocation g \<or> af = 2);
     let rt = (if \<not> no_rtcp g \<and> allocate_rtcp st then Some (bytes64 (nswap64 (current_reservation_token st))) else None);
     let ep0 = (\<not> no_rtcp g \<and> \<not> dual_allocation g);
     let (ep, w) = (if is_TCP_relay g \<or> rt \<noteq> None then (-1, w)
        else if \<not> ep0 then (case urandom L w of (r, w) \<Rightarrow> (int (r mod 256 mod 2) - 1, w)) else (1, w));
     let (e, w) = l_entropy L w;
     (_, request) \<leftarrow> stun_set_allocate_request e request (if dos g then 259 else 777) af4 af6 (relay_transport g) (mobility g) rt ep;
     (_, request) \<leftarrow> (if bps g \<noteq> 0 then store3 request (stun_attr_add_bandwidth_str (buf request) (len request) (bps g)) else Some (0, request));
     (_, request) \<leftarrow> (if dont_fragment g then stun_attr_add request STUN_ATTRIBUTE_DONT_FRAGMENT None 0 else Some (0, request));
     Some (request, w) }"

text \<open>Sending it.  \<open>Finished\<close> means that it was sent.\<close>

definition alloc_attempt ::
    "('w, 'c) lib \<Rightarrow> settings \<Rightarrow> int \<Rightarrow> allocation \<Rightarrow> 'w \<Rightarrow> (alloc_verdict \<times> allocation \<times> 'w) option" where
  "alloc_attempt L g af v w = do {
     (request, w) \<leftarrow> alloc_request L g af (a_st v) (a_request v) w;
     (r, ci, request, w) \<leftarrow> finish_request L g True (a_ci v) request w;
     if r < 0 then Some (AReturn (-1), v\<lparr>a_ci := ci, a_request := request\<rparr>, w)
     else do {
       (n, ci, request, w) \<leftarrow> send_buffer L g ci request False None w;
       let v = v\<lparr>a_ci := ci, a_request := request\<rparr>;
       if n > 0 then (case not_rare_event L g w of (stop, w) \<Rightarrow> Some (if stop then AReturn 0 else Finished, v, w))
       else Some (AExit 1, v, w) } }"

subsection \<open>The response\<close>

text \<open>
  The loop over the attributes: it looks for a relayed address of the wanted family, reporting every one it reads.  The
  state has 1 for an address that was found, -1 for one that could not be read, the last address and the world.
\<close>

definition relay_body ::
    "('w, 'c) lib \<Rightarrow> settings \<Rightarrow> connect_state \<Rightarrow> stun_buffer \<Rightarrow> nat \<Rightarrow> int \<times> ioa_addr \<times> 'w \<Rightarrow> (bool \<times> int \<times> ioa_addr \<times> 'w) option" where
  "relay_body L g st message p x = (case x of (found, a, w) \<Rightarrow> do {
     t \<leftarrow> stun_attr_get_type (buf message) (Some p);
     if t = uint STUN_ATTRIBUTE_XOR_RELAYED_ADDRESS then do {
       (r, a) \<leftarrow> stun_attr_get_addr (addr_tbl g) message (Some p) a None;
       if r < 0 then Some (True, -1, a, w)
       else do {
         w \<leftarrow> notify_ip L RELAY_IP a (mCB st) w;
         if \<not> addr_any (Some a) \<and> (sa_family a = AF_INET \<and> default_address_family st \<noteq> 2
            \<or> sa_family a = AF_INET6 \<and> default_address_family st = 2)
         then Some (True, 1, a, w) else Some (False, found, a, w) } }
     else Some (False, found, a, w) })"

definition relay_scan ::
    "('w, 'c) lib \<Rightarrow> settings \<Rightarrow> connect_state \<Rightarrow> stun_buffer \<Rightarrow> ioa_addr \<Rightarrow> 'w \<Rightarrow> (int \<times> ioa_addr \<times> 'w) option" where
  "relay_scan L g st message a w = do {
     sar \<leftarrow> stun_attr_get_first message;
     (_, x) \<leftarrow> attr_scan_st (buf message) (len message) (relay_body L g st message) (0, a, w) sar;
     Some x }"

text \<open>The integrity check that follows a nonce.\<close>

definition alloc_check ::
    "('w, 'c) lib \<Rightarrow> settings \<Rightarrow> app_ur_conn_info \<Rightarrow> stun_buffer \<Rightarrow> (int \<times> stun_buffer) option" where
  "alloc_check L g ci response = do {
     c \<leftarrow> rd8 (ci_nonce ci) 0;
     if c \<noteq> 0 then check_integrity L g ci response else Some (0, response) }"

definition alloc_success ::
    "('w, 'c) lib \<Rightarrow> settings \<Rightarrow> allocation \<Rightarrow> 'w \<Rightarrow> (alloc_verdict \<times> allocation \<times> 'w) option" where
  "alloc_success L g v w = do {
     (r, response) \<leftarrow> alloc_check L g (a_ci v) (a_response v);
     let v = v\<lparr>a_response := response\<rparr>;
     if r < 0 then Some (AReturn (-1), v, w)
     else do {
       (found, a, w) \<leftarrow> relay_scan L g (a_st v) response (a_relay v) w;
       let v = v\<lparr>a_relay := a\<rparr>;
       if found \<noteq> 1 then Some (AReturn (-1), v, w)
       else do {
         rt_sar \<leftarrow> stun_attr_get_first_by_type response STUN_ATTRIBUTE_RESERVATION_TOKEN;
         rtv \<leftarrow> stun_attr_get_reservation_token_value (buf response) rt_sar;
         (_, ci) \<leftarrow> read_mobility_ticket ((a_ci v)\<lparr>ci_relay_addr := a\<rparr>) response;
         Some (Finished, v\<lparr>a_st := (a_st v)\<lparr>current_reservation_token := rtv\<rparr>, a_ci := ci\<rparr>, w) } } }"

text \<open>The alternate server of an error 300, which is stored if the caller asked for it.\<close>

definition alternate_server :: "('w, 'c) lib \<Rightarrow> settings \<Rightarrow> stun_buffer \<Rightarrow> (mem \<times> u16) option \<Rightarrow> (mem \<times> u16) option option" where
  "alternate_server L g response alt = do {
     (r, a) \<leftarrow> stun_attr_get_first_addr (addr_tbl g) response STUN_ATTRIBUTE_ALTERNATE_SERVER (l_addr L) None;
     if r = -1 then Some alt
     else (case alt of None \<Rightarrow> Some None
       | Some (turn_addr, turn_port) \<Rightarrow> do {
           (_, t) \<leftarrow> addr_to_string_no_port (l_resolver L) (Some a) (Some turn_addr);
           t \<leftarrow> t;
           Some (Some (t, word_of_int (addr_get_port (Some a)))) }) }"

definition alloc_error ::
    "('w, 'c) lib \<Rightarrow> settings \<Rightarrow> int \<Rightarrow> allocation \<Rightarrow> 'w \<Rightarrow> (alloc_verdict \<times> allocation \<times> 'w) option" where
  "alloc_error L g err_code v w = do {
     (r, response) \<leftarrow> (if err_code = 300 then alloc_check L g (a_ci v) (a_response v) else Some (0, a_response v));
     let v = v\<lparr>a_response := response\<rparr>;
     if r < 0 then Some (AReturn (-1), v, w)
     else do {
       alt \<leftarrow> (if err_code = 300 then alternate_server L g response (a_alt v) else Some (a_alt v));
       let v = v\<lparr>a_alt := alt\<rparr>;
       if err_code \<noteq> 437
       then Some (AReturn (-1), v\<lparr>a_st := (a_st v)\<lparr>current_reservation_token := 0\<rparr>\<rparr>, w)
       else Some (Next, v\<lparr>a_reopen := True\<rparr>, os_sleep (l_os L) 1 w) } }"

text \<open>One round of \<open>while(!allocate_received)\<close>; \<open>None\<close> in the first component is another round.\<close>

definition alloc_round ::
    "('w, 'c) lib \<Rightarrow> settings \<Rightarrow> allocation \<Rightarrow> 'w \<Rightarrow> (alloc_verdict option \<times> allocation \<times> 'w) option" where
  "alloc_round L g v w = do {
     (n, ci, response, request, w) \<leftarrow> recv_buffer L g (a_ci v) (a_response v) True False None (Some (a_request v)) w;
     request \<leftarrow> request;
     let v = v\<lparr>a_ci := ci, a_request := request, a_response := response\<rparr>;
     if n > 0 then do {
       let response = response\<lparr>len := nat n\<rparr>;
       let v = v\<lparr>a_response := response\<rparr>;
       s \<leftarrow> stun_is_success_response response;
       if s then do { (x, v, w) \<leftarrow> alloc_success L g v w; Some (Some x, v, w) }
       else do {
         (chal, ci, err_code, err_msg) \<leftarrow> read_challenge L ci response;
         let v = v\<lparr>a_ci := ci\<rparr>;
         if chal then Some (Some Next, v, w)
         else do {
           (err, err_code, _) \<leftarrow> stun_is_error_response response (Some err_code) err_msg 129;
           if err then do { err_code \<leftarrow> err_code; (x, v, w) \<leftarrow> alloc_error L g err_code v w; Some (Some x, v, w) }
           else Some (None, v, w) } } }
     else Some (Some Next, v, w) }"

partial_function (option) alloc_rounds ::
    "('w, 'c) lib \<Rightarrow> settings \<Rightarrow> allocation \<Rightarrow> 'w \<Rightarrow> (alloc_verdict \<times> allocation \<times> 'w) option" where
  "alloc_rounds L g v w = do {
     (x, v, w) \<leftarrow> alloc_round L g v w;
     case x of Some x \<Rightarrow> Some (x, v, w) | None \<Rightarrow> alloc_rounds L g v w }"

subsection \<open>Up to 32 attempts\<close>

text \<open>After an error 437 the connection is made anew, unless it is over TCP.\<close>

definition alloc_reopen ::
    "('w, 'c) lib \<Rightarrow> settings \<Rightarrow> allocation \<Rightarrow> 'w \<Rightarrow> (alloc_verdict \<times> allocation \<times> 'w) option" where
  "alloc_reopen L g v w =
     (if a_reopen v \<and> \<not> use_tcp g then do {
        let ci = a_ci v;
        let w = os_close (l_os L) (ci_fd ci) w;
        (x, ci, w) \<leftarrow> clnet_connect L g (mCB (a_st v)) (word_of_int (addr_get_port (Some (ci_remote_addr ci)))) (rsaddr ci) (ifname ci)
          (lsaddr ci) (ci\<lparr>ci_fd := -1\<rparr>) w;
        Some (case x of Inl e \<Rightarrow> AExit e | Inr r \<Rightarrow> if r < 0 then AExit (-1) else Finished, v\<lparr>a_ci := ci, a_reopen := False\<rparr>, w) }
      else Some (Finished, v, w))"

definition alloc_cycle ::
    "('w, 'c) lib \<Rightarrow> settings \<Rightarrow> int \<Rightarrow> allocation \<Rightarrow> 'w \<Rightarrow> (alloc_verdict \<times> allocation \<times> 'w) option" where
  "alloc_cycle L g af v w = do {
     (x, v, w) \<leftarrow> alloc_reopen L g v w;
     if x \<noteq> Finished then Some (x, v, w)
     else do {
       (x, v, w) \<leftarrow> alloc_attempt L g af v w;
       if x \<noteq> Finished then Some (x, v, w) else alloc_rounds L g v w } }"

fun alloc_loop ::
    "('w, 'c) lib \<Rightarrow> settings \<Rightarrow> int \<Rightarrow> nat \<Rightarrow> allocation \<Rightarrow> 'w \<Rightarrow> (alloc_verdict \<times> allocation \<times> 'w) option" where
  "alloc_loop L g af 0 v w = Some (Next, v, w)"
| "alloc_loop L g af (Suc n) v w = do {
     (x, v, w) \<leftarrow> alloc_cycle L g af v w;
     if x = Next then alloc_loop L g af n v w else Some (x, v, w) }"

subsection \<open>The refresh\<close>

text \<open>
  With a mobility ticket the connection is given up, in one of several ways chosen at random, and made anew.  After
  \<open>SSL_free\<close> the pointer \<open>ssl\<close> is not reset, so that it is freed once more below.
\<close>

definition mobile_close :: "('w, 'c) lib \<Rightarrow> int \<Rightarrow> nat option \<Rightarrow> 'w \<Rightarrow> int \<times> nat option \<times> 'w" where
  "mobile_close L fd ssl w = (case l_random L w of (close_now, w) \<Rightarrow>
     if close_now mod 2 \<noteq> 0 then
       (case l_random L w of (close_socket, w) \<Rightarrow>
          if ssl \<noteq> None \<and> close_socket mod 2 = 0 then (-1, ssl, SSL_free L (the ssl) (SSL_shutdown L (the ssl) w))
          else if fd \<ge> 0 then (-1, None, os_close (l_os L) fd w)
          else (fd, ssl, w))
     else (fd, ssl, w))"

definition mobile_reopen ::
    "('w, 'c) lib \<Rightarrow> settings \<Rightarrow> nat option \<Rightarrow> app_ur_conn_info \<Rightarrow> 'w \<Rightarrow> (alloc_verdict \<times> app_ur_conn_info \<times> 'w) option" where
  "mobile_reopen L g cb ci w = do {
     c \<leftarrow> rd8 (s_mobile_id ci) 0;
     if c \<noteq> 0 then do {
       let (fd, ssl, w) = mobile_close L (ci_fd ci) (ci_ssl ci) w;
       (x, ci, w) \<leftarrow> clnet_connect L g cb (word_of_int (addr_get_port (Some (ci_remote_addr ci)))) (rsaddr ci) (ifname ci) (lsaddr ci)
         (ci\<lparr>ci_fd := -1, ci_ssl := None\<rparr>) w;
       case x of Inl e \<Rightarrow> Some (AExit e, ci, w)
       | Inr r \<Rightarrow>
           if r < 0 then Some (AExit (-1), ci, w)
           else Some (Finished, ci, case ssl of Some s \<Rightarrow> SSL_free L s (SSL_shutdown L s w)
             | None \<Rightarrow> if fd \<ge> 0 then os_close (l_os L) fd w else w) }
     else Some (Finished, ci, w) }"

definition refresh_request ::
    "('w, 'c) lib \<Rightarrow> settings \<Rightarrow> app_ur_conn_info \<Rightarrow> stun_buffer \<Rightarrow> 'w \<Rightarrow> (stun_buffer \<times> 'w) option" where
  "refresh_request L g ci message w = do {
     let (e, w) = l_entropy L w;
     message \<leftarrow> stun_init_request e STUN_METHOD_REFRESH message;
     (_, message) \<leftarrow> stun_attr_add message STUN_ATTRIBUTE_LIFETIME (Some (bytes32 (nswap32 777))) 4;
     c \<leftarrow> rd8 (s_mobile_id ci) 0;
     (_, message) \<leftarrow> (if c \<noteq> 0 then do {
         n \<leftarrow> c_strlen (s_mobile_id ci);
         stun_attr_add message STUN_ATTRIBUTE_MOBILITY_TICKET (Some (s_mobile_id ci)) (int n) }
       else Some (0, message));
     if dual_allocation g \<and> \<not> mobility g then
       (case urandom L w of (r, w) \<Rightarrow>
          let t = r mod 256 mod 3 in
          if t \<noteq> 0 then do {
            (_, message) \<leftarrow> stun_attr_add message STUN_ATTRIBUTE_REQUESTED_ADDRESS_FAMILY (Some [if t = 1 then 1 else 2, 0, 0, 0]) 4;
            Some (message, w) }
          else Some (message, w))
     else Some (message, w) }"

text \<open>With a ticket the request is sent twice.\<close>

definition refresh_attempt ::
    "('w, 'c) lib \<Rightarrow> settings \<Rightarrow> allocation \<Rightarrow> 'w \<Rightarrow> (alloc_verdict \<times> allocation \<times> 'w) option" where
  "refresh_attempt L g v w = do {
     (request, w) \<leftarrow> refresh_request L g (a_ci v) (a_request v) w;
     (r, ci, request, w) \<leftarrow> finish_request L g True (a_ci v) request w;
     if r < 0 then Some (AReturn (-1), v\<lparr>a_ci := ci, a_request := request\<rparr>, w)
     else do {
       (n, ci, request, w) \<leftarrow> send_buffer L g ci request False None w;
       if n > 0 then do {
         c \<leftarrow> rd8 (s_mobile_id ci) 0;
         (_, ci, request, w) \<leftarrow> (if c \<noteq> 0 then send_buffer L g ci request False None (l_usleep L 10000 w) else Some (n, ci, request, w));
         let v = v\<lparr>a_ci := ci, a_request := request\<rparr>;
         let (stop, w) = not_rare_event L g w;
         Some (if stop then AReturn 0 else Finished, v, w) }
       else Some (AExit 1, v\<lparr>a_ci := ci, a_request := request\<rparr>, w) } }"

text \<open>With a ticket two responses are read, and the second one counts.\<close>

definition refresh_recv ::
    "('w, 'c) lib \<Rightarrow> settings \<Rightarrow> allocation \<Rightarrow> 'w \<Rightarrow> (int \<times> allocation \<times> 'w) option" where
  "refresh_recv L g v w = do {
     (n, ci, response, request, w) \<leftarrow> recv_buffer L g (a_ci v) (a_response v) True False None (Some (a_request v)) w;
     c \<leftarrow> rd8 (s_mobile_id ci) 0;
     (n, ci, response, request, w) \<leftarrow> (if c \<noteq> 0 then recv_buffer L g ci response True False None request w
        else Some (n, ci, response, request, w));
     request \<leftarrow> request;
     Some (n, v\<lparr>a_ci := ci, a_request := request, a_response := response\<rparr>, w) }"

definition refresh_round ::
    "('w, 'c) lib \<Rightarrow> settings \<Rightarrow> allocation \<Rightarrow> 'w \<Rightarrow> (alloc_verdict option \<times> allocation \<times> 'w) option" where
  "refresh_round L g v w = do {
     (n, v, w) \<leftarrow> refresh_recv L g v w;
     if n > 0 then do {
       let response = (a_response v)\<lparr>len := nat n\<rparr>;
       let v = v\<lparr>a_response := response\<rparr>;
       s \<leftarrow> stun_is_success_response response;
       if s then do { (_, ci) \<leftarrow> read_mobility_ticket (a_ci v) response; Some (Some Finished, v\<lparr>a_ci := ci\<rparr>, w) }
       else do {
         (chal, ci, err_code, err_msg) \<leftarrow> read_challenge L (a_ci v) response;
         let v = v\<lparr>a_ci := ci\<rparr>;
         if chal then Some (Some Next, v, w)
         else do {
           (err, _, _) \<leftarrow> stun_is_error_response response (Some err_code) err_msg 129;
           Some (if err then Some (AReturn (-1)) else None, v, w) } } }
     else Some (Some (AExit (-1)), v, w) }"

partial_function (option) refresh_rounds ::
    "('w, 'c) lib \<Rightarrow> settings \<Rightarrow> allocation \<Rightarrow> 'w \<Rightarrow> (alloc_verdict \<times> allocation \<times> 'w) option" where
  "refresh_rounds L g v w = do {
     (x, v, w) \<leftarrow> refresh_round L g v w;
     case x of Some x \<Rightarrow> Some (x, v, w) | None \<Rightarrow> refresh_rounds L g v w }"

fun refresh_loop ::
    "('w, 'c) lib \<Rightarrow> settings \<Rightarrow> nat \<Rightarrow> allocation \<Rightarrow> 'w \<Rightarrow> (alloc_verdict \<times> allocation \<times> 'w) option" where
  "refresh_loop L g 0 v w = Some (AExit (-1), v, w)"
| "refresh_loop L g (Suc n) v w = do {
     (x, v, w) \<leftarrow> refresh_attempt L g v w;
     if x \<noteq> Finished then Some (x, v, w)
     else do {
       (x, v, w) \<leftarrow> refresh_rounds L g v w;
       if x = Next then refresh_loop L g n v w else Some (x, v, w) } }"

subsection \<open>The whole function\<close>

text \<open>What follows a finished allocation.\<close>

definition alloc_tail ::
    "('w, 'c) lib \<Rightarrow> settings \<Rightarrow> allocation \<Rightarrow> 'w \<Rightarrow> (alloc_verdict \<times> allocation \<times> 'w) option" where
  "alloc_tail L g v w = do {
     let v = v\<lparr>a_st := (a_st v)\<lparr>allocate_rtcp := \<not> allocate_rtcp (a_st v)\<rparr>\<rparr>;
     (x, ci, w) \<leftarrow> mobile_reopen L g (mCB (a_st v)) (a_ci v) w;
     let v = v\<lparr>a_ci := ci\<rparr>;
     if x \<noteq> Finished then Some (x, v, w) else refresh_loop L g 33 v w }"

definition alloc_all ::
    "('w, 'c) lib \<Rightarrow> settings \<Rightarrow> int \<Rightarrow> allocation \<Rightarrow> 'w \<Rightarrow> (alloc_verdict \<times> allocation \<times> 'w) option" where
  "alloc_all L g af v w = do {
     (x, v, w) \<leftarrow> alloc_loop L g af 32 v w;
     if x \<noteq> Finished \<and> x \<noteq> Next then Some (x, v, w)
     else (case rare_event L g w of (stop, w) \<Rightarrow>
       if stop then Some (AReturn 0, v, w)
       else if x \<noteq> Finished then Some (AExit (-1), v, w)
       else alloc_tail L g v w) }"

text \<open>\<open>Inl\<close> is an exit of the process, \<open>Inr\<close> a return; the relayed address and \<open>a_alt\<close> are out parameters.\<close>

definition clnet_allocate ::
    "('w, 'c) lib \<Rightarrow> settings \<Rightarrow> connect_state \<Rightarrow> app_ur_conn_info \<Rightarrow> ioa_addr \<Rightarrow> int \<Rightarrow> (mem \<times> u16) option \<Rightarrow> 'w
     \<Rightarrow> ((int + int) \<times> connect_state \<times> app_ur_conn_info \<times> ioa_addr \<times> (mem \<times> u16) option \<times> 'w) option" where
  "clnet_allocate L g st ci relay_addr af alt w = do {
     (x, v, w) \<leftarrow> alloc_all L g af \<lparr>a_ci = ci, a_st = st, a_relay = relay_addr, a_alt = alt, a_request = l_buffer L,
       a_response = l_buffer L, a_reopen = False\<rparr> w;
     Some (case x of AExit e \<Rightarrow> Inl e | AReturn r \<Rightarrow> Inr r | _ \<Rightarrow> Inr 0, a_st v, a_ci v, a_relay v, a_alt v, w) }"

subsection \<open>Answers\<close>

text \<open>A message with the method and the transaction identifier of a request, with which receiving it ended in the world \<open>w'\<close>.\<close>

definition answered :: "('w, 'c) lib \<Rightarrow> settings \<Rightarrow> stun_buffer \<Rightarrow> stun_buffer \<Rightarrow> 'w \<Rightarrow> bool" where
  "answered L g request resp w' \<longleftrightarrow> (\<exists>ci message w n ci' request' t m.
      recv_buffer L g ci message True False None (Some request) w = Some (n, ci', resp, request', w') \<and> 0 < n
      \<and> stun_tid_from_message request = Some t \<and> stun_get_method request = Some m
      \<and> stun_tid_from_message resp = Some t \<and> stun_get_method resp = Some m)"

lemma answered_granted: "answered L g request resp w' \<Longrightarrow> stun_is_success_response resp = Some True \<Longrightarrow> granted L g request w'"
  unfolding answered_def granted_def by blast

lemma ssl_recv_len:
  "ssl_recv L sync ssl n ci message rc0 w = Some (Inr rc, ci', message', w') \<Longrightarrow> 0 < rc \<Longrightarrow> rc0 \<le> 0 \<Longrightarrow> len message' = nat rc"
  by (induction n arbitrary: ci message rc0 w) (auto split: bind_splits if_splits)

lemma udp_recv_len: "udp_recv L sync fd message w = Some (Inr rc, message', w') \<Longrightarrow> 0 < rc \<Longrightarrow> len message' = nat rc"
  by (auto simp: udp_recv_def bind_eq_Some_conv split: if_splits)

lemma tcp_recv_len:
  assumes "tcp_recv L g sync atc fd message w = Some (Inr rc, message', w')" and "0 < rc"
  shows "len message' = nat rc"
proof -
  obtain n bs w1 where r: "sync_read L sync (l_peek L fd 65506) w = Some ((n, bs), w1)"
    using assms(1) by (auto simp: tcp_recv_def bind_eq_Some_conv)
  have "0 < n"
    using assms r by (auto simp: tcp_recv_def split: if_splits)
  then obtain m k where m: "wrn (buf message) 0 bs = Some m" and k: "(if atc = None then stun_get_message_len_str m (nat n) True (nat n)
        else (let mlen = (if \<not> sync then clmessage_length g else n);
                  mlen = (if mlen > clmessage_length g then clmessage_length g else mlen)
              in Some (mlen, unat (word_of_int mlen :: u64)))) = Some k"
    using assms(1) r unfolding tcp_recv_def by (simp add: bind_eq_Some_conv del: not_gr_zero) blast
  obtain mlen l where "k = (mlen, l)"
    by (cases k)
  then show ?thesis
    using assms \<open>0 < n\<close> unfolding tcp_recv_def r bind.bind_lunit prod.case m k
    by (auto simp: Let_def bind_eq_Some_conv split: if_splits)
qed

lemma recv_once_len: "recv_once L g sync atc fd ssl ci message w = Some (Inr rc, ci', message', w') \<Longrightarrow> 0 < rc \<Longrightarrow> len message' = nat rc"
  by (auto simp: recv_once_def dest: ssl_recv_len udp_recv_len tcp_recv_len split: bind_splits if_splits)

lemma recv_step_len:
  "recv_step L g sync dc atc fd ssl meth tid request ci message w = Some (Inl rc, ci', message', request', w') \<Longrightarrow> 0 < rc
   \<Longrightarrow> len message' = nat rc"
  by (auto simp: recv_step_def dest!: listen_loop_return recv_once_return split: bind_splits if_splits sum.splits)
     (erule (1) recv_once_len)+

lemma recv_buffer_len:
  fixes L :: "('w, 'c) lib"
  assumes "recv_buffer L g ci message sync dc atc request w = Some (rc, ci', message', request', w')" and "0 < rc"
  shows "message'\<lparr>len := nat rc\<rparr> = message'"
proof -
  define P where "P L g sync dc atc fd ssl meth tid request ci message w x \<longleftrightarrow> (0 < fst x \<longrightarrow> len (fst (snd (snd x))) = nat (fst x))"
    for L :: "('w, 'c) lib" and g :: settings and sync dc :: bool and atc :: "app_tcp_conn_info option" and fd :: int
      and ssl :: "nat option" and meth :: u16 and tid :: mem and request :: "stun_buffer option" and ci :: app_ur_conn_info
      and message :: stun_buffer and w :: 'w and x :: "int \<times> app_ur_conn_info \<times> stun_buffer \<times> stun_buffer option \<times> 'w"
  have "P L g sync dc atc fd ssl meth tid request ci message w x"
    if "recv_again L g sync dc atc fd ssl meth tid request ci message w = Some x"
    for L :: "('w, 'c) lib" and g sync dc atc fd ssl meth tid request ci message w x
    by (rule recv_again.raw_induct [where P = P, OF _ that])
       (auto simp: P_def split: bind_splits sum.splits dest: recv_step_len)
  then show ?thesis
    using assms by (fastforce simp: recv_buffer_def P_def Let_def split: bind_splits)
qed

lemma recv_answered:
  assumes "recv_buffer L g ci message True False None (Some request) w = Some (n, ci', resp, Some req, w')" and "0 < n"
    and "\<not> negative_protocol_test g"
  shows "answered L g request resp w' \<and> req = request \<and> resp\<lparr>len := nat n\<rparr> = resp \<and> core ci' = core ci"
  using recv_buffer_answer [OF assms(1,2)] assms recv_buffer_len [OF assms(1,2)] recv_buffer_core [OF assms(1)]
  unfolding answered_def by blast

subsection \<open>The relayed address\<close>

text \<open>The attributes of a message, as the library walks over them.\<close>

inductive attr_of :: "stun_buffer \<Rightarrow> nat \<Rightarrow> bool" for m where
  first: "stun_attr_get_first m = Some (Some p) \<Longrightarrow> attr_of m p"
| after: "attr_of m p \<Longrightarrow> stun_attr_get_next m (Some p) = Some (Some q) \<Longrightarrow> attr_of m q"

text \<open>An address of the wanted family in a relayed-address attribute of the message.\<close>

definition relayed :: "settings \<Rightarrow> connect_state \<Rightarrow> stun_buffer \<Rightarrow> ioa_addr \<Rightarrow> bool" where
  "relayed g st m a \<longleftrightarrow> (\<exists>p a0 r. attr_of m p \<and> stun_attr_get_type (buf m) (Some p) = Some (uint STUN_ATTRIBUTE_XOR_RELAYED_ADDRESS)
      \<and> stun_attr_get_addr (addr_tbl g) m (Some p) a0 None = Some (r, a) \<and> 0 \<le> r)
     \<and> \<not> addr_any (Some a) \<and> sa_family a = (if default_address_family st = 2 then AF_INET6 else AF_INET)"

lemma relay_body_found:
  "relay_body L g st m p (f, a, w) = Some (x, f', a', w') \<Longrightarrow> (x \<longrightarrow> f' = 1 \<longrightarrow> attr_of m p \<longrightarrow> relayed g st m a') \<and> (\<not> x \<longrightarrow> f' = f)"
  unfolding relayed_def by (fastforce simp: relay_body_def split: bind_splits if_splits)

lemma scan_found:
  "attr_scan_st (buf m) (len m) (relay_body L g st m) (f, a, w) sar = Some (x, 1, a', w') \<Longrightarrow> f \<noteq> 1
   \<Longrightarrow> (\<And>p. sar = Some p \<Longrightarrow> attr_of m p) \<Longrightarrow> relayed g st m a'"
proof (induction "buf m" "len m" "relay_body L g st m" "(f, a, w)" sar arbitrary: f a w rule: attr_scan_st.induct)
  case (2 p)
  obtain y f1 a1 w1 where b: "relay_body L g st m p (f, a, w) = Some (y, f1, a1, w1)"
    using "2.prems"(1) by (auto split: option.splits prod.splits)
  show ?case
  proof (cases y)
    case True
    then show ?thesis
      using "2.prems" b relay_body_found [OF b] by simp
  next
    case False
    then obtain q where q: "stun_attr_get_next_str (buf m) (len m) (Some p) = Some q"
      using "2.prems"(1) b by (auto split: option.splits)
    have run: "attr_scan_st (buf m) (len m) (relay_body L g st m) (f1, a1, w1) q = Some (x, 1, a', w')"
      using "2.prems"(1) b False q by simp
    show ?thesis
      by (rule "2.hyps" [OF b _ False q run])
         (use False "2.prems"(2,3) relay_body_found [OF b] q in \<open>auto simp: stun_attr_get_next_def intro: attr_of.after\<close>)
  qed
qed auto

lemma relay_scan_found: "relay_scan L g st m a w = Some (1, a', w') \<Longrightarrow> relayed g st m a'"
  by (auto simp: relay_scan_def split: bind_splits dest!: scan_found intro: attr_of.first)

subsection \<open>An allocation that is reported\<close>

text \<open>The answer to an ALLOCATE request: a success response that passes the check and has the address as its relayed address.\<close>

definition allocated :: "('w, 'c) lib \<Rightarrow> settings \<Rightarrow> connect_state \<Rightarrow> stun_buffer \<Rightarrow> ioa_addr \<Rightarrow> bool" where
  "allocated L g st request a \<longleftrightarrow> (\<exists>resp w ci r checked. answered L g request resp w \<and> stun_is_success_response resp = Some True
     \<and> alloc_check L g ci resp = Some (r, checked) \<and> 0 \<le> r \<and> relayed g st checked a)"

text \<open>
  The same, tied to the connection \<open>ci\<close> it is received on: if that has a nonce then, the response passes the integrity check with
  the credentials of this connection.
\<close>

definition allocates ::
    "('w, 'c) lib \<Rightarrow> settings \<Rightarrow> connect_state \<Rightarrow> stun_buffer \<Rightarrow> app_ur_conn_info \<Rightarrow> stun_buffer \<Rightarrow> 'w \<Rightarrow> ioa_addr \<Rightarrow> bool" where
  "allocates L g st request ci message w a \<longleftrightarrow> (\<exists>n ci' resp request' w' t m c r checked.
      recv_buffer L g ci message True False None (Some request) w = Some (n, ci', resp, request', w') \<and> 0 < n
      \<and> stun_is_success_response resp = Some True
      \<and> stun_tid_from_message request = Some t \<and> stun_get_method request = Some m
      \<and> stun_tid_from_message resp = Some t \<and> stun_get_method resp = Some m
      \<and> rd8 (ci_nonce ci') 0 = Some c
      \<and> (if c \<noteq> 0 then check_integrity L g ci' resp = Some (r, checked) \<and> 0 \<le> r else checked = resp)
      \<and> relayed g st checked a)"

lemma alloc_success_finished:
  assumes "alloc_success L g v w = Some (Finished, v', w')"
  shows "\<exists>r checked. alloc_check L g (a_ci v) (a_response v) = Some (r, checked) \<and> 0 \<le> r
    \<and> relayed g (a_st v) checked (ci_relay_addr (a_ci v'))"
proof -
  obtain r checked where c: "alloc_check L g (a_ci v) (a_response v) = Some (r, checked)" "0 \<le> r"
    using assms by (auto simp: alloc_success_def Let_def split: bind_splits if_splits)
  then obtain a w1 where s: "relay_scan L g (a_st v) checked (a_relay v) w = Some (1, a, w1)"
    using assms by (auto simp: alloc_success_def Let_def split: bind_splits if_splits)
  obtain y ci where "read_mobility_ticket ((a_ci v)\<lparr>ci_relay_addr := a\<rparr>) checked = Some (y, ci)" "a_ci v' = ci"
    using assms c s by (auto simp: alloc_success_def Let_def split: bind_splits if_splits)
  then have "ci_relay_addr (a_ci v') = a"
    using read_mobility_ticket_core [of "(a_ci v)\<lparr>ci_relay_addr := a\<rparr>"] by (auto simp: core_def)
  then show ?thesis
    using c relay_scan_found [OF s] by blast
qed

text \<open>The part of the state that decides which addresses are wanted and who is told of them is never changed.\<close>

definition fixed :: "connect_state \<Rightarrow> int \<times> ioa_addr \<times> nat option" where
  "fixed st = (default_address_family st, peer_addr st, mCB st)"

lemma allocates_fixed: "fixed st = fixed st' \<Longrightarrow> allocates L g st = allocates L g st'"
  by (intro ext) (simp add: allocates_def relayed_def fixed_def)

lemma allocates_allocated: "allocates L g st request ci message w a \<Longrightarrow> allocated L g st request a"
proof -
  assume "allocates L g st request ci message w a"
  then obtain n ci' resp request' w' t m c r checked where r:
    "recv_buffer L g ci message True False None (Some request) w = Some (n, ci', resp, request', w')" "0 < n"
    "stun_tid_from_message request = Some t" "stun_get_method request = Some m" "stun_tid_from_message resp = Some t"
    "stun_get_method resp = Some m" "stun_is_success_response resp = Some True" "rd8 (ci_nonce ci') 0 = Some c"
    "if c \<noteq> 0 then check_integrity L g ci' resp = Some (r, checked) \<and> 0 \<le> r else checked = resp" "relayed g st checked a"
    unfolding allocates_def by blast
  have "answered L g request resp w'"
    using r(1-6) unfolding answered_def by blast
  moreover have "alloc_check L g ci' resp = Some (if c \<noteq> 0 then r else 0, checked)" "0 \<le> (if c \<noteq> 0 then r else 0)"
    using r(8,9) by (auto simp: alloc_check_def split: if_splits)
  ultimately show ?thesis
    using r(7,10) unfolding allocated_def by blast
qed

lemma alloc_success_fixed: "alloc_success L g v w = Some (x, v', w') \<Longrightarrow> fixed (a_st v') = fixed (a_st v)"
  by (auto simp: alloc_success_def fixed_def Let_def split: bind_splits if_splits)

lemma alloc_error_next: "alloc_error L g e v w = Some (x, v', w') \<Longrightarrow> x \<noteq> Finished \<and> fixed (a_st v') = fixed (a_st v)"
  by (auto simp: alloc_error_def fixed_def Let_def split: bind_splits if_splits)

lemma alloc_round_finished:
  assumes "alloc_round L g v w = Some (x, v', w')" and "\<not> negative_protocol_test g"
  shows "(x = Some Finished \<longrightarrow> allocates L g (a_st v) (a_request v) (a_ci v) (a_response v) w (ci_relay_addr (a_ci v')))
    \<and> fixed (a_st v') = fixed (a_st v) \<and> (x = None \<longrightarrow> a_request v' = a_request v)"
proof -
  obtain n ci resp req w1 where r: "recv_buffer L g (a_ci v) (a_response v) True False None (Some (a_request v)) w
      = Some (n, ci, resp, Some req, w1)"
    using assms(1) by (auto simp: alloc_round_def split: bind_splits)
  show ?thesis
  proof (cases "0 < n")
    case False
    then show ?thesis
      using assms(1) r by (auto simp: alloc_round_def Let_def)
  next
    case True
    have a: "req = a_request v" "resp\<lparr>len := nat n\<rparr> = resp" "\<exists>t m. stun_tid_from_message (a_request v) = Some t
        \<and> stun_get_method (a_request v) = Some m \<and> stun_tid_from_message resp = Some t \<and> stun_get_method resp = Some m"
      using recv_answered [OF r True assms(2)] recv_buffer_answer [OF r True] by blast+
    let ?v = "v\<lparr>a_ci := ci, a_request := req, a_response := resp\<rparr>"
    obtain s where s: "stun_is_success_response resp = Some s"
      using assms(1) r True a(2) by (auto simp: alloc_round_def Let_def split: bind_splits)
    show ?thesis
    proof (cases s)
      case True
      then obtain y v1 w2 where y: "alloc_success L g ?v w1 = Some (y, v1, w2)" "x = Some y" "v' = v1"
        using assms(1) r \<open>0 < n\<close> a(2) s by (auto simp: alloc_round_def Let_def split: bind_splits)
      have "allocates L g (a_st v) (a_request v) (a_ci v) (a_response v) w (ci_relay_addr (a_ci v'))" if fin: "x = Some Finished"
      proof -
        obtain k checked where c: "alloc_check L g ci resp = Some (k, checked)" "0 \<le> k" "relayed g (a_st v) checked (ci_relay_addr (a_ci v'))"
          using alloc_success_finished [of L g ?v w1 v1 w2] y fin by auto
        then obtain c0 where "rd8 (ci_nonce ci) 0 = Some c0"
            "if c0 \<noteq> 0 then check_integrity L g ci resp = Some (k, checked) \<and> 0 \<le> k else checked = resp"
          by (auto simp: alloc_check_def split: bind_splits if_splits)
        then show ?thesis
          using r \<open>0 < n\<close> s [unfolded eqTrueI [OF True]] a(3) c(3) unfolding allocates_def by blast
      qed
      then show ?thesis
        using alloc_success_fixed [OF y(1)] y(2,3) by simp
    next
      case False
      then show ?thesis
        using assms(1) r \<open>0 < n\<close> a s
        by (auto simp: alloc_round_def Let_def dest!: alloc_error_next split: bind_splits if_splits)
    qed
  qed
qed

text \<open>
  The run as step relations: \<open>alloc_waits\<close> are the messages that are passed over while waiting for the answer, \<open>alloc_cycles\<close> the
  attempts that lead to a further one.
\<close>

inductive alloc_waits :: "('w, 'c) lib \<Rightarrow> settings \<Rightarrow> allocation \<Rightarrow> 'w \<Rightarrow> allocation \<Rightarrow> 'w \<Rightarrow> bool"
  for L :: "('w, 'c) lib" and g :: settings where
  here: "alloc_waits L g v w v w"
| another: "alloc_round L g v w = Some (None, v1, w1) \<Longrightarrow> alloc_waits L g v1 w1 v' w' \<Longrightarrow> alloc_waits L g v w v' w'"

inductive alloc_cycles :: "('w, 'c) lib \<Rightarrow> settings \<Rightarrow> int \<Rightarrow> allocation \<Rightarrow> 'w \<Rightarrow> allocation \<Rightarrow> 'w \<Rightarrow> bool"
  for L :: "('w, 'c) lib" and g :: settings and af :: int where
  none: "alloc_cycles L g af v w v w"
| again: "alloc_cycle L g af v w = Some (Next, v1, w1) \<Longrightarrow> alloc_cycles L g af v1 w1 v' w' \<Longrightarrow> alloc_cycles L g af v w v' w'"

lemma alloc_rounds_finished:
  fixes L :: "('w, 'c) lib"
  assumes "alloc_rounds L g v w = Some (x, v', w')" and "\<not> negative_protocol_test g"
  shows "(x = Finished \<longrightarrow> (\<exists>v1 w1. alloc_waits L g v w v1 w1
      \<and> allocates L g (a_st v) (a_request v) (a_ci v1) (a_response v1) w1 (ci_relay_addr (a_ci v')))) \<and> fixed (a_st v') = fixed (a_st v)"
proof -
  define P where "P L g v w z \<longleftrightarrow> (\<not> negative_protocol_test g \<longrightarrow> (fst z = Finished \<longrightarrow> (\<exists>v1 w1. alloc_waits L g v w v1 w1
      \<and> allocates L g (a_st v) (a_request v) (a_ci v1) (a_response v1) w1 (ci_relay_addr (a_ci (fst (snd z))))))
      \<and> fixed (a_st (fst (snd z))) = fixed (a_st v))"
    for L :: "('w, 'c) lib" and g :: settings and v :: allocation and w :: 'w and z :: "alloc_verdict \<times> allocation \<times> 'w"
  have "P L g v w (x, v', w')"
  proof (rule alloc_rounds.raw_induct [where P = P, OF _ assms(1)])
    fix f L g v w z
    assume IH: "\<And>L g v w z. f L g v w = Some z \<Longrightarrow> P L g v w z"
      and eq: "do { (x, v, w) \<leftarrow> alloc_round L g v w; case x of Some x \<Rightarrow> Some (x, v, w) | None \<Rightarrow> f L g v w } = Some z"
    then obtain y v1 w1 where s: "alloc_round L g v w = Some (y, v1, w1)"
      by (auto split: bind_splits)
    show "P L g v w z"
    proof (cases y)
      case None
      then have "f L g v1 w1 = Some z"
        using eq s by simp
      from IH [OF this] show ?thesis
        using alloc_round_finished [OF s] None allocates_fixed [of "a_st v1" "a_st v" L g] alloc_waits.another [OF s [unfolded None]]
        unfolding P_def by metis
    next
      case (Some u)
      then show ?thesis
        using eq s alloc_round_finished [OF s] alloc_waits.here [of L g v w] by (auto simp: P_def intro!: exI [of _ v] exI [of _ w])
    qed
  qed
  then show ?thesis
    using assms(2) by (simp add: P_def)
qed

text \<open>
  A run that obtains the address \<open>a\<close>: after the attempts that lead to a further one the connection is made anew if need be, a
  request is sent whole, messages are passed over, and the answer to that request is received with the address.
\<close>

definition alloc_obtained :: "('w, 'c) lib \<Rightarrow> settings \<Rightarrow> int \<Rightarrow> connect_state \<Rightarrow> allocation \<Rightarrow> 'w \<Rightarrow> ioa_addr \<Rightarrow> bool" where
  "alloc_obtained L g af st v w a \<longleftrightarrow> (\<exists>v1 w1 v2 w2 v3 w3 v4 w4. alloc_cycles L g af v w v1 w1
     \<and> alloc_reopen L g v1 w1 = Some (Finished, v2, w2)
     \<and> alloc_attempt L g af v2 w2 = Some (Finished, v3, w3)
     \<and> fixed (a_st v2) = fixed st
     \<and> alloc_waits L g v3 w3 v4 w4
     \<and> allocates L g st (a_request v3) (a_ci v4) (a_response v4) w4 a)"

text \<open>A request that was sent whole and answered with the address.\<close>

definition alloc_granted :: "('w, 'c) lib \<Rightarrow> settings \<Rightarrow> int \<Rightarrow> connect_state \<Rightarrow> ioa_addr \<Rightarrow> bool" where
  "alloc_granted L g af st a \<longleftrightarrow> (\<exists>v w v' w'. alloc_attempt L g af v w = Some (Finished, v', w')
     \<and> fixed (a_st v) = fixed st \<and> allocated L g st (a_request v') a)"

lemma obtained_granted: "alloc_obtained L g af st v w a \<Longrightarrow> alloc_granted L g af st a"
  unfolding alloc_obtained_def alloc_granted_def by (elim exE conjE) (intro exI conjI, assumption+, erule allocates_allocated)

lemma obtained_again:
  assumes "alloc_cycle L g af v w = Some (Next, v1, w1)" and "alloc_obtained L g af st v1 w1 a"
  shows "alloc_obtained L g af st v w a"
  using assms(2) alloc_cycles.again [OF assms(1)] unfolding alloc_obtained_def by blast

lemma obtained_fixed: "fixed st = fixed st' \<Longrightarrow> alloc_obtained L g af st v w a = alloc_obtained L g af st' v w a"
  by (simp add: alloc_obtained_def allocates_fixed [of st st'])

lemma alloc_attempt_st: "alloc_attempt L g af v w = Some (x, v', w') \<Longrightarrow> a_st v' = a_st v \<and> x \<noteq> Next"
  by (auto simp: alloc_attempt_def Let_def split: bind_splits if_splits prod.splits)

lemma alloc_reopen_st: "alloc_reopen L g v w = Some (x, v', w') \<Longrightarrow> a_st v' = a_st v \<and> x \<noteq> Next \<and> x \<noteq> AReturn r"
  by (auto simp: alloc_reopen_def Let_def split: bind_splits if_splits sum.splits)

lemma alloc_cycle_finished:
  assumes "alloc_cycle L g af v w = Some (x, v', w')" and "\<not> negative_protocol_test g"
  shows "(x = Finished \<longrightarrow> alloc_obtained L g af (a_st v) v w (ci_relay_addr (a_ci v'))) \<and> fixed (a_st v') = fixed (a_st v)"
proof -
  obtain y v1 w1 where r: "alloc_reopen L g v w = Some (y, v1, w1)"
    using assms(1) by (auto simp: alloc_cycle_def split: bind_splits)
  note st1 = alloc_reopen_st [OF r]
  show ?thesis
  proof (cases "y = Finished")
    case False
    then show ?thesis
      using assms(1) r st1 by (auto simp: alloc_cycle_def)
  next
    case True
    then obtain z v2 w2 where a: "alloc_attempt L g af v1 w1 = Some (z, v2, w2)"
      using assms(1) r by (auto simp: alloc_cycle_def split: bind_splits)
    note st2 = alloc_attempt_st [OF a]
    show ?thesis
    proof (cases "z = Finished")
      case False
      then show ?thesis
        using assms(1) r True a st1 st2 by (auto simp: alloc_cycle_def)
    next
      case True
      then have "alloc_rounds L g v2 w2 = Some (x, v', w')"
        using assms(1) r \<open>y = Finished\<close> a by (simp add: alloc_cycle_def)
      from alloc_rounds_finished [OF this assms(2)] show ?thesis
        using st1 st2 a r True \<open>y = Finished\<close> alloc_cycles.none [of L g af v w] unfolding alloc_obtained_def by metis
    qed
  qed
qed

lemma alloc_loop_finished:
  assumes "\<not> negative_protocol_test g"
  shows "alloc_loop L g af n v w = Some (x, v', w')
    \<Longrightarrow> (x = Finished \<longrightarrow> alloc_obtained L g af (a_st v) v w (ci_relay_addr (a_ci v'))) \<and> fixed (a_st v') = fixed (a_st v)"
proof (induction n arbitrary: v w)
  case (Suc n)
  obtain y v1 w1 where c: "alloc_cycle L g af v w = Some (y, v1, w1)"
    using Suc.prems by (auto split: bind_splits)
  show ?case
  proof (cases "y = Next")
    case True
    then have "alloc_loop L g af n v1 w1 = Some (x, v', w')"
      using Suc.prems c by simp
    from Suc.IH [OF this] show ?thesis
      using alloc_cycle_finished [OF c assms] obtained_fixed [of "a_st v1" "a_st v"] obtained_again [OF c [unfolded True]] by metis
  next
    case False
    then show ?thesis
      using Suc.prems c alloc_cycle_finished [OF c assms] by auto
  qed
qed simp

subsection \<open>The refresh that follows\<close>

lemma recv_buffer_same:
  fixes L :: "('w, 'c) lib"
  assumes "recv_buffer L g ci message sync dc atc request w = Some (rc, ci', message', request', w')" and "\<not> negative_protocol_test g"
  shows "request' = request"
proof -
  define P where "P L g sync dc atc fd ssl meth tid request ci message w x \<longleftrightarrow>
      (\<not> negative_protocol_test g \<longrightarrow> fst (snd (snd (snd x))) = request)"
    for L :: "('w, 'c) lib" and g :: settings and sync dc :: bool and atc :: "app_tcp_conn_info option" and fd :: int
      and ssl :: "nat option" and meth :: u16 and tid :: mem and request :: "stun_buffer option" and ci :: app_ur_conn_info
      and message :: stun_buffer and w :: 'w and x :: "int \<times> app_ur_conn_info \<times> stun_buffer \<times> stun_buffer option \<times> 'w"
  have "P L g sync dc atc fd ssl meth tid request ci message w x"
    if "recv_again L g sync dc atc fd ssl meth tid request ci message w = Some x"
    for L :: "('w, 'c) lib" and g sync dc atc fd ssl meth tid request ci message w x
    by (rule recv_again.raw_induct [where P = P, OF _ that])
       (fastforce simp: P_def split: bind_splits sum.splits dest: recv_step_same [rotated])
  then show ?thesis
    using assms by (fastforce simp: recv_buffer_def P_def Let_def split: bind_splits)
qed

lemma refresh_recv_answered:
  assumes "refresh_recv L g v w = Some (n, v', w')" and "\<not> negative_protocol_test g"
  shows "(0 < n \<longrightarrow> answered L g (a_request v) (a_response v') w' \<and> (a_response v')\<lparr>len := nat n\<rparr> = a_response v')
    \<and> a_request v' = a_request v \<and> core (a_ci v') = core (a_ci v)"
proof -
  obtain n1 ci resp req w1 where r: "recv_buffer L g (a_ci v) (a_response v) True False None (Some (a_request v)) w
      = Some (n1, ci, resp, req, w1)"
    using assms(1) by (auto simp: refresh_recv_def split: bind_splits)
  have req: "req = Some (a_request v)" and c1: "core ci = core (a_ci v)"
    using recv_buffer_same [OF r assms(2)] recv_buffer_core [OF r] by blast+
  obtain c where c: "rd8 (s_mobile_id ci) 0 = Some c"
    using assms(1) r by (auto simp: refresh_recv_def split: bind_splits)
  show ?thesis
  proof (cases "c = 0")
    case True
    then have "n = n1" "v' = v\<lparr>a_ci := ci, a_request := a_request v, a_response := resp\<rparr>" "w' = w1"
      using assms(1) r req c by (auto simp: refresh_recv_def)
    then show ?thesis
      using recv_answered [OF r [unfolded req] _ assms(2)] c1 by auto
  next
    case False
    then obtain ci2 resp2 req2 where r2: "recv_buffer L g ci resp True False None (Some (a_request v)) w1
        = Some (n, ci2, resp2, Some req2, w')" "v' = v\<lparr>a_ci := ci2, a_request := req2, a_response := resp2\<rparr>"
      using assms(1) r req c by (auto simp: refresh_recv_def split: bind_splits)
    then show ?thesis
      using recv_answered [OF r2(1) _ assms(2)] recv_buffer_same [OF r2(1) assms(2)] recv_buffer_core [OF r2(1)] c1 by auto
  qed
qed

lemma refresh_round_finished:
  assumes "refresh_round L g v w = Some (x, v', w')" and "\<not> negative_protocol_test g"
  shows "(x = Some Finished \<longrightarrow> granted L g (a_request v) w') \<and> core (a_ci v') = core (a_ci v) \<and> a_request v' = a_request v
    \<and> (\<forall>r. x = Some (AReturn r) \<longrightarrow> r = -1)"
proof -
  obtain n v1 w1 where r: "refresh_recv L g v w = Some (n, v1, w1)"
    using assms(1) by (auto simp: refresh_round_def split: bind_splits)
  note a = refresh_recv_answered [OF r assms(2)]
  show ?thesis
  proof (cases "0 < n")
    case False
    then show ?thesis
      using assms(1) r a by (auto simp: refresh_round_def)
  next
    case True
    then obtain s where s: "stun_is_success_response (a_response v1) = Some s"
      using assms(1) r a by (auto simp: refresh_round_def Let_def split: bind_splits)
    have "w' = w1" "x = Some Finished \<longrightarrow> s" "\<forall>r. x = Some (AReturn r) \<longrightarrow> r = -1"
        "core (a_ci v') = core (a_ci v1) \<and> a_request v' = a_request v1"
      using assms(1) r a True s
      by (auto simp: refresh_round_def Let_def dest!: read_mobility_ticket_core read_challenge_core split: bind_splits if_splits)
    then show ?thesis
      using a True s answered_granted [of L g "a_request v" "a_response v1" w1] by auto
  qed
qed

lemma refresh_rounds_finished:
  fixes L :: "('w, 'c) lib"
  assumes "refresh_rounds L g v w = Some (x, v', w')" and "\<not> negative_protocol_test g"
  shows "(x = Finished \<longrightarrow> granted L g (a_request v) w') \<and> core (a_ci v') = core (a_ci v) \<and> (\<forall>r. x = AReturn r \<longrightarrow> r = -1)"
proof -
  define P where "P L g v w z \<longleftrightarrow> (\<not> negative_protocol_test g \<longrightarrow> (fst z = Finished \<longrightarrow> granted L g (a_request v) (snd (snd z)))
      \<and> core (a_ci (fst (snd z))) = core (a_ci v) \<and> (\<forall>r. fst z = AReturn r \<longrightarrow> r = -1))"
    for L :: "('w, 'c) lib" and g :: settings and v :: allocation and w :: 'w and z :: "alloc_verdict \<times> allocation \<times> 'w"
  have "P L g v w (x, v', w')"
  proof (rule refresh_rounds.raw_induct [where P = P, OF _ assms(1)])
    fix f L g v w z
    assume IH: "\<And>L g v w z. f L g v w = Some z \<Longrightarrow> P L g v w z"
      and eq: "do { (x, v, w) \<leftarrow> refresh_round L g v w; case x of Some x \<Rightarrow> Some (x, v, w) | None \<Rightarrow> f L g v w } = Some z"
    then obtain y v1 w1 where s: "refresh_round L g v w = Some (y, v1, w1)"
      by (auto split: bind_splits)
    show "P L g v w z"
    proof (cases y)
      case None
      then have "f L g v1 w1 = Some z"
        using eq s by simp
      from IH [OF this] show ?thesis
        using refresh_round_finished [OF s] by (auto simp: P_def)
    next
      case (Some u)
      then show ?thesis
        using eq s refresh_round_finished [OF s] by (auto simp: P_def)
    qed
  qed
  then show ?thesis
    using assms(2) by (simp add: P_def)
qed

lemma refresh_attempt_core:
  "refresh_attempt L g v w = Some (x, v', w') \<Longrightarrow> core (a_ci v') = core (a_ci v) \<and> (\<not> dos g \<longrightarrow> (\<forall>r. x = AReturn r \<longrightarrow> r = -1)) \<and> x \<noteq> Next"
  by (auto simp: refresh_attempt_def not_rare_event_def Let_def dest!: finish_request_core send_buffer_core
      split: bind_splits if_splits prod.splits)

text \<open>A REFRESH request that was sent whole, and granted last of all.\<close>

definition refreshed :: "('w, 'c) lib \<Rightarrow> settings \<Rightarrow> 'w \<Rightarrow> bool" where
  "refreshed L g w' \<longleftrightarrow> (\<exists>v w v1 w1. refresh_attempt L g v w = Some (Finished, v1, w1) \<and> granted L g (a_request v1) w')"

lemma refresh_loop_finished:
  assumes "\<not> negative_protocol_test g" and "\<not> dos g"
  shows "refresh_loop L g n v w = Some (x, v', w') \<Longrightarrow> (x = Finished \<longrightarrow> refreshed L g w') \<and> core (a_ci v') = core (a_ci v)
    \<and> (\<forall>r. x = AReturn r \<longrightarrow> r = -1) \<and> x \<noteq> Next"
proof (induction n arbitrary: v w)
  case (Suc n)
  obtain y v1 w1 where a: "refresh_attempt L g v w = Some (y, v1, w1)"
    using Suc.prems by (auto split: bind_splits)
  note c1 = refresh_attempt_core [OF a]
  show ?case
  proof (cases "y = Finished")
    case False
    then show ?thesis
      using Suc.prems a c1 assms(2) by auto
  next
    case True
    then obtain z v2 w2 where r: "refresh_rounds L g v1 w1 = Some (z, v2, w2)"
      using Suc.prems a by (auto split: bind_splits)
    note c2 = refresh_rounds_finished [OF r assms(1)]
    show ?thesis
    proof (cases "z = Next")
      case True
      then have "refresh_loop L g n v2 w2 = Some (x, v', w')"
        using Suc.prems a \<open>y = Finished\<close> r by simp
      from Suc.IH [OF this] show ?thesis
        using c1 c2 by simp
    next
      case False
      then have "x = z" "v' = v2" "w' = w2"
        using Suc.prems a True r by auto
      then show ?thesis
        using c1 c2 a True False unfolding refreshed_def by auto
    qed
  qed
qed auto

lemma mobile_reopen_core:
  "mobile_reopen L g cb ci w = Some (x, ci', w') \<Longrightarrow> core ci' = core ci \<and> x \<noteq> Next \<and> x \<noteq> AReturn r"
  by (auto simp: mobile_reopen_def Let_def dest!: clnet_connect_core split: bind_splits if_splits sum.splits prod.splits)

lemma alloc_tail_finished:
  assumes "alloc_tail L g v w = Some (x, v', w')" and "\<not> negative_protocol_test g" and "\<not> dos g"
  shows "(x = Finished \<longrightarrow> refreshed L g w') \<and> core (a_ci v') = core (a_ci v) \<and> (\<forall>r. x = AReturn r \<longrightarrow> r = -1) \<and> x \<noteq> Next"
proof -
  let ?v = "v\<lparr>a_st := (a_st v)\<lparr>allocate_rtcp := \<not> allocate_rtcp (a_st v)\<rparr>\<rparr>"
  obtain y ci w1 where m: "mobile_reopen L g (mCB (a_st v)) (a_ci v) w = Some (y, ci, w1)"
    using assms(1) by (auto simp: alloc_tail_def Let_def split: bind_splits)
  note c = mobile_reopen_core [OF m]
  show ?thesis
  proof (cases "y = Finished")
    case True
    then have "refresh_loop L g 33 (?v\<lparr>a_ci := ci\<rparr>) w1 = Some (x, v', w')"
      using assms(1) m by (simp add: alloc_tail_def Let_def)
    from refresh_loop_finished [OF assms(2,3) this] show ?thesis
      using c by simp
  next
    case False
    then show ?thesis
      using assms(1) m c by (auto simp: alloc_tail_def Let_def)
  qed
qed

subsection \<open>Returns\<close>

text \<open>Without the tests for denial of service every early return is -1.\<close>

definition fair :: "settings \<Rightarrow> alloc_verdict \<Rightarrow> bool" where
  "fair g x \<longleftrightarrow> dos g \<or> (\<forall>r. x = AReturn r \<longrightarrow> r = -1)"

lemma fair_simps [simp]: "fair g Finished" "fair g Next" "fair g (AExit e)" "fair g (AReturn (-1))"
  by (simp_all add: fair_def)

lemma alloc_attempt_fair: "alloc_attempt L g af v w = Some (x, v', w') \<Longrightarrow> fair g x"
  by (auto simp: alloc_attempt_def not_rare_event_def fair_def Let_def split: bind_splits if_splits prod.splits)

lemma alloc_success_fair: "alloc_success L g v w = Some (x, v', w') \<Longrightarrow> fair g x"
  by (auto simp: alloc_success_def Let_def split: bind_splits if_splits)

lemma alloc_error_fair: "alloc_error L g e v w = Some (x, v', w') \<Longrightarrow> fair g x"
  by (auto simp: alloc_error_def Let_def split: bind_splits if_splits)

lemma alloc_round_fair: "alloc_round L g v w = Some (Some x, v', w') \<Longrightarrow> fair g x"
  by (auto simp: alloc_round_def Let_def dest!: alloc_success_fair alloc_error_fair split: bind_splits if_splits)

lemma alloc_rounds_fair:
  fixes L :: "('w, 'c) lib"
  assumes "alloc_rounds L g v w = Some (x, v', w')"
  shows "fair g x"
proof -
  define P where "P L g v w z \<longleftrightarrow> fair g (fst z)"
    for L :: "('w, 'c) lib" and g :: settings and v :: allocation and w :: 'w and z :: "alloc_verdict \<times> allocation \<times> 'w"
  have "P L g v w (x, v', w')"
    by (rule alloc_rounds.raw_induct [where P = P, OF _ assms]) (auto simp: P_def dest: alloc_round_fair split: bind_splits option.splits)
  then show ?thesis
    by (simp add: P_def)
qed

lemma alloc_reopen_fair: "alloc_reopen L g v w = Some (x, v', w') \<Longrightarrow> fair g x"
  by (auto simp: alloc_reopen_def Let_def split: bind_splits if_splits sum.splits)

lemma alloc_loop_fair: "alloc_loop L g af n v w = Some (x, v', w') \<Longrightarrow> fair g x"
  by (induction n arbitrary: v w)
     (auto simp: alloc_cycle_def dest!: alloc_attempt_fair alloc_rounds_fair alloc_reopen_fair split: bind_splits if_splits)

end
