(* ===== verification/Turn_Served.thy ===== *)
theory Turn_Served
  imports Turn_Allocate
begin

text \<open>
  The client with a server that answers: the ALLOCATE request that goes out, and an allocation that succeeds.
\<close>

subsection \<open>The request\<close>

definition alloc_attrs :: "settings \<Rightarrow> int \<Rightarrow> connect_state \<Rightarrow> int \<Rightarrow> (u16 \<times> mem) list" where
  "alloc_attrs g af st ep =
     allocate_request_attrs (if dos g then 259 else 777) (dual_allocation g \<or> af = 1) (dual_allocation g \<or> af = 2) (relay_transport g) (mobility g)
       (if \<not> no_rtcp g \<and> allocate_rtcp st then Some (bytes64 (nswap64 (current_reservation_token st))) else None) ep
     @ (if bps g \<noteq> 0 then [(STUN_ATTRIBUTE_NEW_BANDWIDTH, bytes32 (nswap32 (ucast (drop_bit 7 (bps g)))))] else [])
     @ (if dont_fragment g then [(STUN_ATTRIBUTE_DONT_FRAGMENT, [])] else [])"

text \<open>The even-port flag: never with TCP or a reservation, always for a first allocation with RTCP, at random otherwise.\<close>

definition even_port :: "settings \<Rightarrow> connect_state \<Rightarrow> int \<Rightarrow> bool" where
  "even_port g st ep \<longleftrightarrow> (if is_TCP_relay g \<or> \<not> no_rtcp g \<and> allocate_rtcp st then ep = -1
     else if \<not> no_rtcp g \<and> \<not> dual_allocation g then ep = 1 else ep = -1 \<or> ep = 0)"

lemma allocate_attrs_size: "msg_size (allocate_request_attrs lt af4 af6 tr mob rt ep) \<le> 100"
proof -
  have p: "pad4 (min (length r) 8) \<le> 11" for r :: mem
    using pad4_bound [of "min (length r) 8"] by simp
  show ?thesis
    by (cases rt) (auto simp: allocate_request_attrs_def msg_size_def pad4_small intro: order_trans [OF p])
qed

lemma attr_appended:
  assumes "stun_msg (buf b) (len b) mt ck t as" and "length (buf b) = 65507" and "len b < 50000" and "length v \<le> 100"
  shows "\<exists>b'. stun_attr_add b ty (Some v) (int (length v)) = Some (0, b') \<and> stun_msg (buf b') (len b') mt ck t (as @ [(ty, v)])
    \<and> length (buf b') = 65507 \<and> len b' \<le> len b + 110"
proof -
  have l: "len b = msg_size as"
    using stun_msg_size [OF assms(1)] .
  then have m: "msg_size (as @ [(ty, take (length v) v)]) \<le> len b + 110"
    using pad4_bound [of "length v"] assms(4) by (simp add: msg_size_snoc)
  have "built (stun_attr_add_str (buf b) (len b) ty (Some v) (int (length v))) 65507 mt ck t (as @ [(ty, take (length v) v)])"
    by (rule built_add [OF assms(1,2)]) (use m assms(3) in simp_all)
  then show ?thesis
    using m by (auto simp: built_def stun_attr_add_def store3_def)
qed

lemma attr_add_empty: "stun_attr_add b ty None 0 = stun_attr_add b ty (Some []) 0"
  by (simp add: stun_attr_add_def stun_attr_add_str_def Let_def cong: if_cong)

lemma alloc_request_message:
  assumes "length (buf request) = 65507"
  shows "\<exists>ep b t w'. alloc_request L g af st request w = Some (b, w') \<and> even_port g st ep
    \<and> stun_msg (buf b) (len b) (stun_make_request STUN_METHOD_ALLOCATE) STUN_MAGIC_COOKIE t (alloc_attrs g af st ep)
    \<and> length (buf b) = 65507 \<and> len b < 60000"
proof -
  define rt where "rt = (if \<not> no_rtcp g \<and> allocate_rtcp st then Some (bytes64 (nswap64 (current_reservation_token st))) else None)"
  define x where "x = (if is_TCP_relay g \<or> rt \<noteq> None then (-1, w)
        else if \<not> (\<not> no_rtcp g \<and> \<not> dual_allocation g) then (case urandom L w of (r, w) \<Rightarrow> (int (r mod 256 mod 2) - 1, w)) else (1, w))"
  obtain ep w1 where x: "x = (ep, w1)"
    by (cases x)
  have ep: "even_port g st ep"
    using x by (auto simp: x_def rt_def even_port_def split: if_splits prod.splits)
  obtain e w2 where e: "l_entropy L w1 = (e, w2)"
    by (cases "l_entropy L w1")
  let ?mt = "stun_make_request STUN_METHOD_ALLOCATE" and ?t = "turn_random_tid_size e"
  let ?lt = "if dos g then 259 else 777 :: u32" and ?a4 = "dual_allocation g \<or> af = 1" and ?a6 = "dual_allocation g \<or> af = 2"
  let ?as = "allocate_request_attrs ?lt ?a4 ?a6 (relay_transport g) (mobility g) rt ep"
  let ?as2 = "?as @ (if bps g \<noteq> 0 then [(STUN_ATTRIBUTE_NEW_BANDWIDTH, bytes32 (nswap32 (ucast (drop_bit 7 (bps g)))))] else [])"
  have "case rt of None \<Rightarrow> True | Some r \<Rightarrow> 8 \<le> length r"
    by (auto simp: rt_def bytes64_def)
  then have "built (stun_set_allocate_request_str e (buf request) ?lt ?a4 ?a6 (relay_transport g) (mobility g) rt ep) 65507 ?mt
      STUN_MAGIC_COOKIE ?t ?as"
    using allocate_request_built [of "buf request" rt e ?lt ?a4 ?a6 "relay_transport g" "mobility g" ep] assms by simp
  then obtain b1 where b1: "stun_set_allocate_request e request ?lt ?a4 ?a6 (relay_transport g) (mobility g) rt ep = Some (0, b1)"
    "stun_msg (buf b1) (len b1) ?mt STUN_MAGIC_COOKIE ?t ?as" "length (buf b1) = 65507" "len b1 = msg_size ?as"
    by (auto simp: built_def stun_set_allocate_request_def store3_def)
  then have l1: "len b1 \<le> 108"
    using allocate_attrs_size [of ?lt ?a4 ?a6 "relay_transport g" "mobility g" rt ep] by linarith
  obtain b2 where b2: "(if bps g \<noteq> 0 then store3 b1 (stun_attr_add_bandwidth_str (buf b1) (len b1) (bps g)) else Some (0, b1)) = Some (0, b2)"
    "stun_msg (buf b2) (len b2) ?mt STUN_MAGIC_COOKIE ?t ?as2" "length (buf b2) = 65507" "len b2 \<le> 218"
    using attr_appended [OF b1(2,3), of "bytes32 (nswap32 (ucast (drop_bit 7 (bps g))))" STUN_ATTRIBUTE_NEW_BANDWIDTH] b1 l1
    by (cases "bps g = 0") (auto simp: stun_attr_add_bandwidth_str_def stun_attr_add_def)
  obtain b3 where b3: "(if dont_fragment g then stun_attr_add b2 STUN_ATTRIBUTE_DONT_FRAGMENT None 0 else Some (0, b2)) = Some (0, b3)"
    "stun_msg (buf b3) (len b3) ?mt STUN_MAGIC_COOKIE ?t (?as2 @ (if dont_fragment g then [(STUN_ATTRIBUTE_DONT_FRAGMENT, [])] else []))"
    "length (buf b3) = 65507" "len b3 \<le> 328"
    using attr_appended [OF b2(2,3), of "[]" STUN_ATTRIBUTE_DONT_FRAGMENT] b2 by (cases "dont_fragment g") (auto simp: attr_add_empty)
  have "alloc_request L g af st request w = Some (b3, w2)"
    unfolding alloc_request_def Let_def rt_def [symmetric] x_def [symmetric] x prod.case e
    by (simp only: b1(1) b2(1) b3(1) bind.bind_lunit prod.case)
  moreover have "alloc_attrs g af st ep = ?as2 @ (if dont_fragment g then [(STUN_ATTRIBUTE_DONT_FRAGMENT, [])] else [])"
    by (simp only: alloc_attrs_def rt_def append_assoc)
  ultimately show ?thesis
    using ep b3(2-4) by fastforce
qed

lemma alloc_attempt_sends:
  assumes "credentials L g (a_ci v) u r n" and "rd8 (origin g) 0 = Some 0" and "length (buf (a_request v)) = 65507"
    and "sends_on L (ci_fd (a_ci v)) out" and "0 \<le> ci_fd (a_ci v)" and "ci_ssl (a_ci v) = None" and "\<not> negative_protocol_test g"
    and "\<not> dos g"
  shows "\<exists>x w0 req w' k ep t val f. alloc_attempt L g af v w = Some (x, v\<lparr>a_request := req\<rparr>, w')
    \<and> send_buffer L g (a_ci v) req False None w0 = Some (if k = len req then int k else -1, a_ci v, req, w')
    \<and> even_port g (a_st v) ep \<and> 0 < len req
    \<and> stun_is_request req = Some True \<and> stun_get_method req = Some STUN_METHOD_ALLOCATE \<and> stun_tid_from_message req = Some t
    \<and> attrs_of (buf req) (len req) = alloc_attrs g af (a_st v) ep @ auth_attrs u r n val @ [(STUN_ATTRIBUTE_FINGERPRINT, f)]
    \<and> stun_msg (buf req) (len req) (stun_make_request STUN_METHOD_ALLOCATE) STUN_MAGIC_COOKIE t
      (alloc_attrs g af (a_st v) ep @ auth_attrs u r n val @ [(STUN_ATTRIBUTE_FINGERPRINT, f)]) \<and> length (buf req) = 65507
    \<and> out w' = out w0 @ take k (buf req) \<and> x = (if k = len req then Finished else AExit 1)
    \<and> (accepts L (ci_fd (a_ci v)) \<longrightarrow> k = len req)"
proof -
  obtain ep b t w1 where b: "alloc_request L g af (a_st v) (a_request v) w = Some (b, w1)" "even_port g (a_st v) ep"
    "stun_msg (buf b) (len b) (stun_make_request STUN_METHOD_ALLOCATE) STUN_MAGIC_COOKIE t (alloc_attrs g af (a_st v) ep)"
    "length (buf b) = 65507" "len b < 60000"
    using alloc_request_message [OF assms(3), of L g af "a_st v" w] by blast
  have "STUN_METHOD_ALLOCATE AND 0x0FFF = STUN_METHOD_ALLOCATE"
    by simp
  from request_goes_out [OF assms(1,2,4-7) b(4,5,3) this, of w1] obtain req w' k val f where
    s: "finish_request L g True (a_ci v) b w1 = Some (0, a_ci v, req, w1)"
    "send_buffer L g (a_ci v) req False None w1 = Some (if k = len req then int k else -1, a_ci v, req, w')" "0 < len req"
    "out w' = out w1 @ take k (buf req) \<and> (accepts L (ci_fd (a_ci v)) \<longrightarrow> k = len req)" "stun_is_request req = Some True"
    "stun_get_method req = Some STUN_METHOD_ALLOCATE" "stun_tid_from_message req = Some t" "attrs_of (buf req) (len req)
      = alloc_attrs g af (a_st v) ep @ auth_attrs u r n val @ [(STUN_ATTRIBUTE_FINGERPRINT, f)]"
    "stun_msg (buf req) (len req) (stun_make_request STUN_METHOD_ALLOCATE) STUN_MAGIC_COOKIE t
      (alloc_attrs g af (a_st v) ep @ auth_attrs u r n val @ [(STUN_ATTRIBUTE_FINGERPRINT, f)])" "length (buf req) = 65507"
    by blast
  have "alloc_attempt L g af v w = Some (if k = len req then Finished else AExit 1, v\<lparr>a_request := req\<rparr>, w')"
    using assms(8) b(1) s(1-3) by (simp add: alloc_attempt_def not_rare_event_def)
  then show ?thesis
    using b(2) s by blast
qed

subsection \<open>A server that answers\<close>

text \<open>
  Over UDP, every request that was sent is answered at once by a success response with the attributes \<open>reply\<close>, a function of
  the method and the transaction identifier.
\<close>

definition serves :: "('w, 'c) lib \<Rightarrow> settings \<Rightarrow> int \<Rightarrow> (u16 \<Rightarrow> mem \<Rightarrow> (u16 \<times> mem) list) \<Rightarrow> bool" where
  "serves L g fd reply \<longleftrightarrow> (\<forall>ci b n w w' m t as. ci_fd ci = fd \<longrightarrow> ci_ssl ci = None
     \<longrightarrow> send_buffer L g ci b False None w = Some (n, ci, b, w') \<longrightarrow> 0 < n
     \<longrightarrow> stun_msg (buf b) (len b) (stun_make_request m) STUN_MAGIC_COOKIE t as \<longrightarrow>
       (\<exists>rc w1 resp w2. wait_fd L g fd 0 w' = Some (rc, w1) \<and> 0 < rc
          \<and> os_recv (l_os L) fd 65506 w1 = (int (length resp), resp, w2)
          \<and> stun_msg resp (length resp) (stun_make_success_response m) STUN_MAGIC_COOKIE t (reply m t)))"

lemma stun_msg_overlay: "stun_msg m (length m) mt ck t as \<Longrightarrow> stun_msg (m @ x) (length m) mt ck t as"
proof -
  assume "stun_msg m (length m) mt ck t as"
  then obtain r where "m = header mt (of_nat (length r)) ck t @ r" "length t = 12" "length m < 65507" "attrs_exact r" "parse_attrs r = as"
    by (auto simp: stun_msg_def)
  then show ?thesis
    unfolding stun_msg_def by (intro exI [of _ r] exI [of _ x]) simp
qed

lemma served:
  assumes "serves L g (ci_fd ci) reply" and "ci_ssl ci = None" and "0 \<le> ci_fd ci" and "\<not> use_tcp g" and "\<not> use_secure g"
    and "send_buffer L g ci req False None w = Some (n, ci, req, w')" and "0 < n" and "length (buf message) = 65507"
    and "stun_msg (buf req) (len req) (stun_make_request m) STUN_MAGIC_COOKIE t as" and "m AND 0x0FFF = m"
  shows "\<exists>resp w2. recv_buffer L g ci message True False None (Some req) w' = Some (int (len resp), ci, resp, Some req, w2)
    \<and> stun_msg (buf resp) (len resp) (stun_make_success_response m) STUN_MAGIC_COOKIE t (reply m t) \<and> length (buf resp) = 65507
    \<and> 0 < len resp \<and> stun_is_success_response resp = Some True"
proof -
  obtain rc w1 bs w2 where s: "wait_fd L g (ci_fd ci) 0 w' = Some (rc, w1)" "0 < rc"
    "os_recv (l_os L) (ci_fd ci) 65506 w1 = (int (length bs), bs, w2)"
    "stun_msg bs (length bs) (stun_make_success_response m) STUN_MAGIC_COOKIE t (reply m t)"
    using assms(1,2,6,7,9) unfolding serves_def by blast
  let ?r = "message\<lparr>buf := bs @ drop (length bs) (buf message), len := length bs\<rparr>"
  note l = stun_msg_len(3,4) [OF s(4)]
  have r: "stun_msg (buf ?r) (len ?r) (stun_make_success_response m) STUN_MAGIC_COOKIE t (reply m t)"
    using stun_msg_overlay [OF s(4)] by simp
  note v = stun_msg_view [OF r]
  have "retry (\<lambda>w. case os_recv (l_os L) (ci_fd ci) 65506 w of (n, bs, w) \<Rightarrow> ((n, bs), w))
      (\<lambda>(n, bs) w. n < 0 \<and> (os_errno (l_os L) w = EINTR \<or> os_errno (l_os L) w = EAGAIN \<and> True)) w1 = Some ((int (length bs), bs), w2)"
    by (rule retry_once) (simp_all add: s(3))
  then have o: "recv_once L g True None (ci_fd ci) None ci message w1 = Some (Inr (int (length bs)), ci, ?r, w2)"
    using assms(3-5,8) l by (simp add: recv_once_def udp_recv_def sync_read_def wrn_def)
  have q: "stun_tid_from_message req = Some t" "stun_get_method req = Some m"
    using stun_msg_view [OF assms(9)] assms(10) by (simp_all add: stun_tid_from_message_def stun_get_method_def type_method_make)
  have m: "recv_match m t ?r = Some True" and ok: "stun_is_success_response ?r = Some True"
    using v assms(10)
    by (simp_all add: recv_match_def stun_tid_from_message_def stun_get_method_def stun_is_success_response_def
        type_method_make class_make class_defs)
  have "listen_loop L g False None (ci_fd ci) 7 0 ci req w' = Some (Inr (), ci, req, w1)"
    using s(1,2) by (simp add: numeral_eq_Suc)
  then have "recv_step L g True False None (ci_fd ci) None m t (Some req) ci message w'
      = Some (Inl (int (length bs)), ci, ?r, Some req, w2)"
    using o m assms(3,4) l(1) by (simp add: recv_step_def)
  then have "recv_buffer L g ci message True False None (Some req) w' = Some (int (len ?r), ci, ?r, Some req, w2)"
    using q assms(2) by (simp add: recv_buffer_def recv_again.simps [of L])
  then show ?thesis
    using r ok l assms(8) by (intro exI [of _ ?r]) auto
qed

text \<open>Reading the parts of the response.\<close>

lemma token_value_safe:
  assumes "l \<le> length b" and "stun_attr_get_first_by_type_str b l ty = Some sar"
  shows "\<exists>x. stun_attr_get_reservation_token_value b sar = Some x"
proof (cases sar)
  case (Some p)
  have "p \<in> set (message_offsets b l)"
    using by_type_visited [OF assms(1)] assms(2) Some by blast
  then obtain n where "stun_attr_get_len b (Some p) = Some (int n)" "p + 4 + n \<le> length b"
    "stun_attr_get_value b (Some p) = Some (if n = 0 then None else Some (p + 4))"
    using visited [OF assms(1)] by metis
  then show ?thesis
    using Some by (auto simp: stun_attr_get_reservation_token_value_def rdn_def)
qed (simp add: stun_attr_get_reservation_token_value_def)

lemma notify_ip_returns: "inet_ok (l_resolver L) \<Longrightarrow> \<exists>w'. notify_ip L type a cb w = Some w'"
proof -
  assume "inet_ok (l_resolver L)"
  then have "length (ntop4 (l_resolver L) (sin_addr a)) \<le> 15"
    by (simp add: inet_ok_def)
  then show ?thesis
    by (simp add: notify_ip_def wrn_def)
qed

lemma relay_scan_first:
  assumes "stun_msg (buf m) (len m) mt ck t as" and "translatable (addr_tbl g) a" and "inet_ok (l_resolver L)" and "\<not> addr_any (Some a)"
    and "find (\<lambda>(ty, v). ty = STUN_ATTRIBUTE_XOR_RELAYED_ADDRESS) as = Some (addr_attr (addr_tbl g) t STUN_ATTRIBUTE_XOR_RELAYED_ADDRESS a)"
    and "sa_family a = (if default_address_family st = 2 then AF_INET6 else AF_INET)"
  shows "\<exists>c w'. relay_scan L g st m a0 w = Some (1, c, w') \<and> addr_eq (Some c) (Some a)"
proof -
  let ?ty = "STUN_ATTRIBUTE_XOR_RELAYED_ADDRESS"
  note len = stun_msg_len(2) [OF assms(1)]
  obtain q c where q: "stun_attr_get_first_by_type_str (buf m) (len m) ?ty = Some (Some q)"
      "stun_attr_get_type (buf m) (Some q) = Some (uint ?ty)"
    and get: "\<And>ca. stun_attr_get_addr_str (addr_tbl g) (buf m) (len m) (Some q) ca None = Some (0, c)" and eq: "addr_eq (Some c) (Some a)"
    using by_type_addr_found [OF assms(1,2,5)] by metis
  have fnd: "find (\<lambda>p. fst (attr_at (buf m) p) = ?ty) (message_offsets (buf m) (len m)) = Some q"
    using q(1) by (simp add: first_by_type_find [OF len])
  obtain w' where w': "notify_ip L RELAY_IP c (mCB st) w = Some w'"
    using notify_ip_returns [OF assms(3)] by blast
  have "sa_family c = sa_family a" "\<not> addr_any (Some c)"
    using eq assms(4) by (auto simp: addr_eq_def addr_any_def split: if_splits)
  then have last: "relay_body L g st m q (0, a0, w) = Some (True, 1, c, w')"
    using q(2) get w' assms(6) by (simp add: relay_body_def stun_attr_get_addr_def split: if_splits)
  have skip: "relay_body L g st m p x = Some (False, x)"
    if "p \<in> set (message_offsets (buf m) (len m))" and "fst (attr_at (buf m) p) \<noteq> ?ty" for p x
  proof -
    have "p + 4 \<le> length (buf m)"
      using message_offsets_in(2) [OF len that(1)] len by simp
    moreover have "uint ?ty \<noteq> uint (fst (attr_at (buf m) p))"
      using that(2) by (metis word_uint_eq_iff)
    ultimately show ?thesis
      by (cases x) (auto simp: relay_body_def get_type_Some)
  qed
  have "relay_scan L g st m a0 w = Some (1, c, w')"
    using scan_st_found [where body = "relay_body L g st m", OF assms(1) fnd skip last]
    by (auto simp: relay_scan_def stun_attr_get_first_def bind_eq_Some_conv)
  then show ?thesis
    using eq by blast
qed

subsection \<open>An allocation that succeeds\<close>

text \<open>A client that is ready for it: over UDP, without a nonce and a ticket yet, and with a system and a server that do their part.\<close>

definition ready :: "('w, 'c) lib \<Rightarrow> settings \<Rightarrow> app_ur_conn_info \<Rightarrow> ('w \<Rightarrow> mem) \<Rightarrow> (u16 \<Rightarrow> mem \<Rightarrow> (u16 \<times> mem) list) \<Rightarrow> bool" where
  "ready L g ci out reply \<longleftrightarrow> (\<exists>u r. credentials L g ci u r []) \<and> rd8 (origin g) 0 = Some 0 \<and> sends_on L (ci_fd ci) out
     \<and> accepts L (ci_fd ci) \<and> 0 \<le> ci_fd ci \<and> ci_ssl ci = None \<and> \<not> negative_protocol_test g \<and> \<not> dos g \<and> \<not> use_tcp g
     \<and> \<not> use_secure g \<and> rd8 (s_mobile_id ci) 0 = Some 0 \<and> inet_ok (l_resolver L) \<and> serves L g (ci_fd ci) reply
     \<and> (\<forall>m t. find (\<lambda>(ty, v). ty = STUN_ATTRIBUTE_MOBILITY_TICKET) (reply m t) = None)"

lemma empty_nonce: "credentials L g ci u r [] \<Longrightarrow> rd8 (ci_nonce ci) 0 = Some 0"
  by (auto simp: credentials_def rd8_def)

lemma ready_relay: "ready L g (ci\<lparr>ci_relay_addr := a\<rparr>) out reply = ready L g ci out reply"
  by (simp add: ready_def credentials_def)

lemma alloc_cycle_served:
  assumes "ready L g (a_ci v) out reply" and "\<not> a_reopen v" and "length (buf (a_request v)) = 65507" and "length (buf (a_response v)) = 65507"
    and "translatable (addr_tbl g) a" and "\<not> addr_any (Some a)"
    and "sa_family a = (if default_address_family (a_st v) = 2 then AF_INET6 else AF_INET)"
    and "\<And>t. find (\<lambda>(ty, v). ty = STUN_ATTRIBUTE_XOR_RELAYED_ADDRESS) (reply STUN_METHOD_ALLOCATE t)
      = Some (addr_attr (addr_tbl g) t STUN_ATTRIBUTE_XOR_RELAYED_ADDRESS a)"
  shows "\<exists>v' c w'. alloc_cycle L g af v w = Some (Finished, v', w') \<and> a_ci v' = (a_ci v)\<lparr>ci_relay_addr := c\<rparr> \<and> a_relay v' = c
    \<and> addr_eq (Some c) (Some a) \<and> length (buf (a_request v')) = 65507 \<and> length (buf (a_response v')) = 65507"
proof -
  have nn: "\<not> negative_protocol_test g" "\<not> dos g" "\<not> use_tcp g" "\<not> use_secure g" "rd8 (s_mobile_id (a_ci v)) 0 = Some 0"
    and fd: "0 \<le> ci_fd (a_ci v)" "ci_ssl (a_ci v) = None" "rd8 (origin g) 0 = Some 0"
    and io: "sends_on L (ci_fd (a_ci v)) out" "accepts L (ci_fd (a_ci v))" "serves L g (ci_fd (a_ci v)) reply" "inet_ok (l_resolver L)"
    and tick: "\<And>m t. find (\<lambda>(ty, v). ty = STUN_ATTRIBUTE_MOBILITY_TICKET) (reply m t) = None"
    using assms(1) unfolding ready_def by blast+
  obtain u r where cr: "credentials L g (a_ci v) u r []"
    using assms(1) unfolding ready_def by blast
  obtain x w0 req w1 k t as where a: "alloc_attempt L g af v w = Some (x, v\<lparr>a_request := req\<rparr>, w1)"
    "send_buffer L g (a_ci v) req False None w0 = Some (if k = len req then int k else -1, a_ci v, req, w1)" "0 < len req"
    "stun_msg (buf req) (len req) (stun_make_request STUN_METHOD_ALLOCATE) STUN_MAGIC_COOKIE t as" "length (buf req) = 65507"
    "x = (if k = len req then Finished else AExit 1)" "accepts L (ci_fd (a_ci v)) \<longrightarrow> k = len req"
    using alloc_attempt_sends [OF cr fd(3) assms(3) io(1) fd(1,2) nn(1,2), of af w] by blast
  then have att: "alloc_attempt L g af v w = Some (Finished, v\<lparr>a_request := req\<rparr>, w1)"
    "send_buffer L g (a_ci v) req False None w0 = Some (int (len req), a_ci v, req, w1)" "0 < len req"
    "stun_msg (buf req) (len req) (stun_make_request STUN_METHOD_ALLOCATE) STUN_MAGIC_COOKIE t as" "length (buf req) = 65507"
    using io(2) by simp_all
  have "0 < int (len req)" "STUN_METHOD_ALLOCATE AND 0x0FFF = STUN_METHOD_ALLOCATE"
    using att(3) by simp_all
  from served [OF io(3) fd(2,1) nn(3,4) att(2) this(1) assms(4) att(4) this(2)] obtain resp w2 where
    rv: "recv_buffer L g (a_ci v) (a_response v) True False None (Some req) w1 = Some (int (len resp), a_ci v, resp, Some req, w2)"
    "stun_msg (buf resp) (len resp) (stun_make_success_response STUN_METHOD_ALLOCATE) STUN_MAGIC_COOKIE t (reply STUN_METHOD_ALLOCATE t)"
    "length (buf resp) = 65507" "0 < len resp" "stun_is_success_response resp = Some True"
    by blast
  obtain c w3 where sc: "relay_scan L g (a_st v) resp (a_relay v) w2 = Some (1, c, w3)" "addr_eq (Some c) (Some a)"
    using relay_scan_first [OF rv(2) assms(5) io(4) assms(6,8,7)] by blast
  note len = stun_msg_len(2) [OF rv(2)]
  obtain sar where sar: "stun_attr_get_first_by_type_str (buf resp) (len resp) STUN_ATTRIBUTE_RESERVATION_TOKEN = Some sar"
    using by_type_safe [OF len] by (auto simp: safe_iff)
  obtain rtv where rtv: "stun_attr_get_reservation_token_value (buf resp) sar = Some rtv"
    using token_value_safe [OF len sar] by blast
  have "stun_attr_get_first_by_type_str (buf resp) (len resp) STUN_ATTRIBUTE_MOBILITY_TICKET = Some None"
    by (rule not_found_access [OF rv(2) tick])
  then have tk: "read_mobility_ticket ci resp = Some (0, ci)" for ci
    by (simp add: read_mobility_ticket_def stun_attr_get_first_by_type_def)
  let ?v1 = "v\<lparr>a_request := req, a_response := resp\<rparr>"
  let ?v2 = "v\<lparr>a_request := req, a_response := resp, a_relay := c, a_st := (a_st v)\<lparr>current_reservation_token := rtv\<rparr>,
    a_ci := (a_ci v)\<lparr>ci_relay_addr := c\<rparr>\<rparr>"
  have "alloc_success L g ?v1 w2 = Some (Finished, ?v2, w3)"
    using empty_nonce [OF cr] sc(1) sar rtv tk
    by (simp add: alloc_success_def alloc_check_def stun_attr_get_first_by_type_def)
  then have "alloc_round L g (v\<lparr>a_request := req\<rparr>) w1 = Some (Some Finished, ?v2, w3)"
    using rv(1,4,5) by (simp add: alloc_round_def)
  then have "alloc_rounds L g (v\<lparr>a_request := req\<rparr>) w1 = Some (Finished, ?v2, w3)"
    by (subst alloc_rounds.simps) simp
  then have "alloc_cycle L g af v w = Some (Finished, ?v2, w3)"
    using att(1) assms(2) by (simp add: alloc_cycle_def alloc_reopen_def)
  then show ?thesis
    using sc(2) rv(3) att(5) by (intro exI conjI) (assumption | simp)+
qed

lemma init_request_message:
  assumes "length (buf request) = 65507"
  shows "\<exists>b. stun_init_request e m request = Some b \<and> stun_msg (buf b) (len b) (stun_make_request m) STUN_MAGIC_COOKIE (turn_random_tid_size e) []
    \<and> length (buf b) = 65507 \<and> len b = 20"
proof -
  let ?b = "request\<lparr>buf := header (stun_make_request m) 0 STUN_MAGIC_COOKIE (turn_random_tid_size e) @ drop 20 (buf request), len := 20\<rparr>"
  have "stun_init_request e m request = Some ?b"
    using assms by (simp add: stun_init_request_def stun_init_command_def init_command_header make_fits store2_def)
  then show ?thesis
    using assms by (simp add: stun_msg_new)
qed

lemma refresh_request_message:
  assumes "length (buf request) = 65507" and "rd8 (s_mobile_id ci) 0 = Some 0"
  shows "\<exists>b t as w'. refresh_request L g ci request w = Some (b, w')
    \<and> stun_msg (buf b) (len b) (stun_make_request STUN_METHOD_REFRESH) STUN_MAGIC_COOKIE t
      ((STUN_ATTRIBUTE_LIFETIME, bytes32 (nswap32 777)) # as) \<and> length (buf b) = 65507 \<and> len b < 60000"
proof -
  obtain e w1 where e: "l_entropy L w = (e, w1)"
    by (cases "l_entropy L w")
  let ?mt = "stun_make_request STUN_METHOD_REFRESH" and ?t = "turn_random_tid_size e"
  obtain b where b: "stun_init_request e STUN_METHOD_REFRESH request = Some b" "stun_msg (buf b) (len b) ?mt STUN_MAGIC_COOKIE ?t []"
    "length (buf b) = 65507" "len b = 20"
    using init_request_message [OF assms(1)] by blast
  obtain b1 where b1: "stun_attr_add b STUN_ATTRIBUTE_LIFETIME (Some (bytes32 (nswap32 777))) 4 = Some (0, b1)"
    "stun_msg (buf b1) (len b1) ?mt STUN_MAGIC_COOKIE ?t [(STUN_ATTRIBUTE_LIFETIME, bytes32 (nswap32 777))]"
    "length (buf b1) = 65507" "len b1 \<le> 130"
    using attr_appended [OF b(2,3), of "bytes32 (nswap32 777)" STUN_ATTRIBUTE_LIFETIME] b(4) by auto
  have "\<exists>b2. stun_attr_add b1 STUN_ATTRIBUTE_REQUESTED_ADDRESS_FAMILY (Some [x, 0, 0, 0]) 4 = Some (0, b2)
      \<and> stun_msg (buf b2) (len b2) ?mt STUN_MAGIC_COOKIE ?t
        ((STUN_ATTRIBUTE_LIFETIME, bytes32 (nswap32 777)) # [(STUN_ATTRIBUTE_REQUESTED_ADDRESS_FAMILY, [x, 0, 0, 0])])
      \<and> length (buf b2) = 65507 \<and> len b2 < 60000" for x
    using attr_appended [OF b1(2,3), of "[x, 0, 0, 0]" STUN_ATTRIBUTE_REQUESTED_ADDRESS_FAMILY] b1(4) by fastforce
  then obtain b2 where b2: "\<And>x. stun_attr_add b1 STUN_ATTRIBUTE_REQUESTED_ADDRESS_FAMILY (Some [x, 0, 0, 0]) 4 = Some (0, b2 x)"
      "\<And>x. stun_msg (buf (b2 x)) (len (b2 x)) ?mt STUN_MAGIC_COOKIE ?t
        ((STUN_ATTRIBUTE_LIFETIME, bytes32 (nswap32 777)) # [(STUN_ATTRIBUTE_REQUESTED_ADDRESS_FAMILY, [x, 0, 0, 0])])"
      "\<And>x. length (buf (b2 x)) = 65507" "\<And>x. len (b2 x) < 60000"
    by metis
  obtain rnd w2 where u: "urandom L w1 = (rnd, w2)"
    by (cases "urandom L w1")
  let ?x = "if rnd mod 256 mod 3 = 1 then 1 else 2 :: u8"
  have r: "refresh_request L g ci request w = Some (if dual_allocation g \<and> \<not> mobility g then
      (if rnd mod 256 mod 3 \<noteq> 0 then b2 ?x else b1, w2) else (b1, w1))"
    using e b(1) b1(1) assms(2) u b2(1) by (simp add: refresh_request_def)
  show ?thesis
  proof (cases "dual_allocation g \<and> \<not> mobility g \<and> rnd mod 256 mod 3 \<noteq> 0")
    case True
    then have "refresh_request L g ci request w = Some (b2 ?x, w2)"
      using r by simp
    then show ?thesis
      using b2(2-4) [of ?x] by blast
  next
    case False
    then obtain w' where "refresh_request L g ci request w = Some (b1, w')"
      using r by (auto split: if_splits)
    then show ?thesis
      using b1(2-4) by fastforce
  qed
qed

lemma refresh_served:
  assumes "ready L g (a_ci v) out reply" and "length (buf (a_request v)) = 65507" and "length (buf (a_response v)) = 65507"
  shows "\<exists>v' w'. refresh_loop L g (Suc n) v w = Some (Finished, v', w') \<and> a_ci v' = a_ci v \<and> a_relay v' = a_relay v"
proof -
  have nn: "\<not> negative_protocol_test g" "\<not> dos g" "\<not> use_tcp g" "\<not> use_secure g" "rd8 (s_mobile_id (a_ci v)) 0 = Some 0"
    and fd: "0 \<le> ci_fd (a_ci v)" "ci_ssl (a_ci v) = None" "rd8 (origin g) 0 = Some 0"
    and io: "sends_on L (ci_fd (a_ci v)) out" "accepts L (ci_fd (a_ci v))" "serves L g (ci_fd (a_ci v)) reply" "inet_ok (l_resolver L)"
    and tick: "\<And>m t. find (\<lambda>(ty, v). ty = STUN_ATTRIBUTE_MOBILITY_TICKET) (reply m t) = None"
    using assms(1) unfolding ready_def by blast+
  obtain u r where cr: "credentials L g (a_ci v) u r []"
    using assms(1) unfolding ready_def by blast
  obtain b t as w1 where b: "refresh_request L g (a_ci v) (a_request v) w = Some (b, w1)"
    "stun_msg (buf b) (len b) (stun_make_request STUN_METHOD_REFRESH) STUN_MAGIC_COOKIE t as" "length (buf b) = 65507" "len b < 60000"
    using refresh_request_message [OF assms(2) nn(5), of L g w] by blast
  have m: "STUN_METHOD_REFRESH AND 0x0FFF = STUN_METHOD_REFRESH"
    by simp
  from request_goes_out [OF cr fd(3) io(1) fd(1,2) nn(1) b(3,4,2) m, of w1] io(2) obtain req w2 as where
    s: "finish_request L g True (a_ci v) b w1 = Some (0, a_ci v, req, w1)"
    "send_buffer L g (a_ci v) req False None w1 = Some (int (len req), a_ci v, req, w2)" "0 < len req"
    "stun_msg (buf req) (len req) (stun_make_request STUN_METHOD_REFRESH) STUN_MAGIC_COOKIE t as" "length (buf req) = 65507"
    by auto
  let ?v1 = "v\<lparr>a_request := req\<rparr>"
  have att: "refresh_attempt L g v w = Some (Finished, ?v1, w2)"
    using b(1) s(1-3) nn(2,5) by (simp add: refresh_attempt_def not_rare_event_def)
  have "0 < int (len req)"
    using s(3) by simp
  from served [OF io(3) fd(2,1) nn(3,4) s(2) this assms(3) s(4) m] obtain resp w3 where
    rv: "recv_buffer L g (a_ci v) (a_response v) True False None (Some req) w2 = Some (int (len resp), a_ci v, resp, Some req, w3)"
    "stun_msg (buf resp) (len resp) (stun_make_success_response STUN_METHOD_REFRESH) STUN_MAGIC_COOKIE t (reply STUN_METHOD_REFRESH t)"
    "0 < len resp" "stun_is_success_response resp = Some True"
    by blast
  have "stun_attr_get_first_by_type_str (buf resp) (len resp) STUN_ATTRIBUTE_MOBILITY_TICKET = Some None"
    by (rule not_found_access [OF rv(2) tick])
  then have "read_mobility_ticket (a_ci v) resp = Some (0, a_ci v)"
    by (simp add: read_mobility_ticket_def stun_attr_get_first_by_type_def)
  then have "refresh_round L g ?v1 w2 = Some (Some Finished, ?v1\<lparr>a_response := resp\<rparr>, w3)"
    using rv(1,3,4) nn(5) by (simp add: refresh_round_def refresh_recv_def)
  then have "refresh_rounds L g ?v1 w2 = Some (Finished, ?v1\<lparr>a_response := resp\<rparr>, w3)"
    by (subst refresh_rounds.simps) simp
  then show ?thesis
    using att by simp
qed

lemma allocation_runs:
  assumes "ready L g ci out reply" and "length (buf (l_buffer L)) = 65507" and "translatable (addr_tbl g) a" and "\<not> addr_any (Some a)"
    and "sa_family a = (if default_address_family st = 2 then AF_INET6 else AF_INET)"
    and "\<forall>t. find (\<lambda>(ty, v). ty = STUN_ATTRIBUTE_XOR_RELAYED_ADDRESS) (reply STUN_METHOD_ALLOCATE t)
      = Some (addr_attr (addr_tbl g) t STUN_ATTRIBUTE_XOR_RELAYED_ADDRESS a)"
  shows "\<exists>st' c alt' w'. clnet_allocate L g st ci relay_addr af alt w = Some (Inr 0, st', ci\<lparr>ci_relay_addr := c\<rparr>, c, alt', w')
    \<and> addr_eq (Some c) (Some a)"
proof -
  let ?v = "\<lparr>a_ci = ci, a_st = st, a_relay = relay_addr, a_alt = alt, a_request = l_buffer L, a_response = l_buffer L, a_reopen = False\<rparr>"
  have nn: "\<not> dos g" "rd8 (s_mobile_id ci) 0 = Some 0"
    using assms(1) unfolding ready_def by blast+
  obtain v1 c w1 where c: "alloc_cycle L g af ?v w = Some (Finished, v1, w1)" "a_ci v1 = ci\<lparr>ci_relay_addr := c\<rparr>" "a_relay v1 = c"
    "addr_eq (Some c) (Some a)" "length (buf (a_request v1)) = 65507" "length (buf (a_response v1)) = 65507"
    using alloc_cycle_served [of L g ?v out reply a af w] assms by auto
  let ?v1 = "v1\<lparr>a_st := (a_st v1)\<lparr>allocate_rtcp := \<not> allocate_rtcp (a_st v1)\<rparr>, a_ci := ci\<lparr>ci_relay_addr := c\<rparr>\<rparr>"
  have "alloc_loop L g af 32 ?v w = Some (Finished, v1, w1)"
    using c(1) by (simp add: numeral_eq_Suc)
  moreover have "mobile_reopen L g (mCB (a_st v1)) (a_ci v1) w1 = Some (Finished, a_ci v1, w1)"
    using nn(2) c(2) by (simp add: mobile_reopen_def)
  moreover obtain v2 w2 where "refresh_loop L g 33 ?v1 w1 = Some (Finished, v2, w2)" "a_ci v2 = ci\<lparr>ci_relay_addr := c\<rparr>" "a_relay v2 = c"
    using refresh_served [of L g ?v1 out reply 32 w1] assms(1) c(3,5,6) by (auto simp: ready_relay)
  ultimately have "clnet_allocate L g st ci relay_addr af alt w = Some (Inr 0, a_st v2, ci\<lparr>ci_relay_addr := c\<rparr>, c, a_alt v2, w2)"
    using nn(1) c(2,3) by (simp add: clnet_allocate_def alloc_all_def alloc_tail_def rare_event_def Let_def del: alloc_loop.simps refresh_loop.simps)
  then show ?thesis
    using c(4) by blast
qed

lemma allocation_obtained:
  assumes "clnet_allocate L g st ci relay_addr af alt w = Some (Inr 0, st', ci', relay_addr', alt', w')"
    and "\<not> negative_protocol_test g" and "\<not> dos g"
  shows "alloc_obtained L g af st \<lparr>a_ci = ci, a_st = st, a_relay = relay_addr, a_alt = alt, a_request = l_buffer L,
      a_response = l_buffer L, a_reopen = False\<rparr> w (ci_relay_addr ci') \<and> refreshed L g w'"
proof -
  let ?v = "\<lparr>a_ci = ci, a_st = st, a_relay = relay_addr, a_alt = alt, a_request = l_buffer L, a_response = l_buffer L, a_reopen = False\<rparr>"
  obtain x v1 w1 where l: "alloc_loop L g af 32 ?v w = Some (x, v1, w1)"
    using assms(1) by (auto simp: clnet_allocate_def alloc_all_def split: bind_splits)
  have "x = Finished"
    using assms l alloc_loop_fair [OF l] by (auto simp: clnet_allocate_def alloc_all_def fair_def rare_event_def split: if_splits alloc_verdict.splits)
  then obtain y v2 where t: "alloc_tail L g v1 w1 = Some (y, v2, w')" "a_ci v2 = ci'"
      "(case y of AExit e \<Rightarrow> Inl e | AReturn r \<Rightarrow> Inr r | _ \<Rightarrow> Inr 0) = Inr (0 :: int)"
    using assms(1,3) l by (auto simp: clnet_allocate_def alloc_all_def rare_event_def split: bind_splits)
  note f = alloc_tail_finished [OF t(1) assms(2,3)]
  have "y = Finished"
    using f t(3) by (cases y) auto
  then show ?thesis
    using f t(2) alloc_loop_finished [OF assms(2) l] \<open>x = Finished\<close> by (auto simp: core_def)
qed

lemma allocation_granted:
  assumes "clnet_allocate L g st ci relay_addr af alt w = Some (Inr 0, st', ci', relay_addr', alt', w')"
    and "\<not> negative_protocol_test g" and "\<not> dos g"
  shows "alloc_granted L g af st (ci_relay_addr ci') \<and> refreshed L g w'"
  using allocation_obtained [OF assms] by (auto dest: obtained_granted)

text \<open>C26: When \<open>clnet_allocate\<close> reports success, its run was this: after attempts that led to a further one it sent an ALLOCATE
  request whole, passed over some messages, and received a success response with the method and the transaction identifier of that
  request which, if the connection had a nonce at that moment, passed the integrity check with the connection's credentials; the
  relayed address that is stored in the connection is one of an attribute of that response, not empty and of the wanted family.
  After that a REFRESH request was sent and answered with success.\<close>

theorem allocation_confirmed:
  assumes "clnet_allocate L g st ci relay_addr af alt w = Some (Inr 0, st', ci', relay_addr', alt', w')"
    and "\<not> negative_protocol_test g" and "\<not> dos g"
  shows "(\<exists>v1 w1 v2 w2 v3 w3 v4 w4. alloc_cycles L g af \<lparr>a_ci = ci, a_st = st, a_relay = relay_addr, a_alt = alt, a_request = l_buffer L,
        a_response = l_buffer L, a_reopen = False\<rparr> w v1 w1
     \<and> alloc_reopen L g v1 w1 = Some (Finished, v2, w2)
     \<and> alloc_attempt L g af v2 w2 = Some (Finished, v3, w3)
     \<and> alloc_waits L g v3 w3 v4 w4
     \<and> allocates L g st (a_request v3) (a_ci v4) (a_response v4) w4 (ci_relay_addr ci'))
    \<and> refreshed L g w'"
  using allocation_obtained [OF assms] unfolding alloc_obtained_def by blast

text \<open>C25: With a server that grants requests, over UDP and before any authentication, \<open>clnet_allocate\<close> succeeds: it returns
  0, and the relayed address of the connection is the first one of the server's response, if it is of the wanted family.\<close>

theorem allocation_succeeds:
  assumes "ready L g ci out reply" and "length (buf (l_buffer L)) = 65507" and "translatable (addr_tbl g) a" and "\<not> addr_any (Some a)"
    and "sa_family a = (if default_address_family st = 2 then AF_INET6 else AF_INET)"
    and "\<forall>t. find (\<lambda>(ty, v). ty = STUN_ATTRIBUTE_XOR_RELAYED_ADDRESS) (reply STUN_METHOD_ALLOCATE t)
      = Some (addr_attr (addr_tbl g) t STUN_ATTRIBUTE_XOR_RELAYED_ADDRESS a)"
  shows "\<exists>st' c alt' w'. clnet_allocate L g st ci relay_addr af alt w = Some (Inr 0, st', ci\<lparr>ci_relay_addr := c\<rparr>, c, alt', w')
    \<and> addr_eq (Some c) (Some a)"
  by (rule allocation_runs [OF assms])

subsection \<open>A system for the witnesses\<close>

text \<open>
  The world is what was sent and the last message of it; the server answers that one with success and the relayed address \<open>a\<close>.
\<close>

definition server_answer :: "ioa_addr \<Rightarrow> mem \<Rightarrow> mem" where
  "server_answer a m = (let t = take 12 (drop 8 m) in
     header (stun_make_success_response (type_method (le16 (m ! 1) (m ! 0)))) 12 STUN_MAGIC_COOKIE t
       @ enc_attr STUN_ATTRIBUTE_XOR_RELAYED_ADDRESS (snd (addr_attr empty_map t STUN_ATTRIBUTE_XOR_RELAYED_ADDRESS a)) [])"

definition server_lib :: "ioa_addr \<Rightarrow> (mem \<times> mem, unit) lib" where
  "server_lib a = \<lparr>l_os = (sample_os zero_addr [])\<lparr>os_recv := \<lambda>fd n w. (32, server_answer a (snd w), w)\<rparr>,
     l_send = \<lambda>fd m w. (int (length m), fst w @ m, m), l_peek = \<lambda>fd n w. (0, [], w), l_select = \<lambda>fd sec usec w. (1, w),
     l_seconds = \<lambda>w. (0, w), l_random = \<lambda>w. (1, w), l_entropy = \<lambda>w. (sample_entropy, w),
     l_RAND_bytes = \<lambda>n w. (replicate n 5, w), l_turn_time = \<lambda>w. (0, w), l_usleep = \<lambda>n w. w, l_nonblock = \<lambda>fd w. (0, w),
     l_time = \<lambda>w. (1000, w), l_event = \<lambda>fd w. w, l_callback = \<lambda>cb t a p w. w, l_resolver = sample_resolver,
     SSL_new = \<lambda>ctx fd a w. (7, w), SSL_set_mtu = \<lambda>s n w. w, SSL_query_mtu = \<lambda>s w. 1300, SSL_connect = \<lambda>s w. (1, w),
     SSL_shutdown = \<lambda>s w. w, SSL_free = \<lambda>s w. w, SSL_CTX_setup = \<lambda>n c w. (True, w), SSL_get_shutdown = \<lambda>s w. False,
     SSL_write = \<lambda>s m w. (int (length m), fst w @ m, m), SSL_read = \<lambda>s n w. (0, [], w), SSL_get_error = \<lambda>s n w. 0,
     l_hmac = \<lambda>md k m. Some (replicate (md_size md) 0), l_digest = \<lambda>md m. replicate (md_size md) 0,
     l_malloc = \<lambda>n. replicate n 0, l_evp = plain_evp, l_junk = replicate 1024 9, l_buffer = blank_buffer, l_addr = zero_addr,
     l_otoken = sample_token, l_etoken = \<lparr>token = replicate 1024 0, token_size = 0\<rparr>\<rparr>"

lemma server_answers:
  assumes "stun_msg b l (stun_make_request m) STUN_MAGIC_COOKIE t as"
  shows "stun_msg (server_answer (sample4 3 80) (take l b)) 32 (stun_make_success_response m) STUN_MAGIC_COOKIE t
    [addr_attr empty_map t STUN_ATTRIBUTE_XOR_RELAYED_ADDRESS (sample4 3 80)]"
    and "length (server_answer (sample4 3 80) (take l b)) = 32"
proof -
  obtain r rest where b: "b = header (stun_make_request m) (of_nat (length r)) STUN_MAGIC_COOKIE t @ r @ rest" "l = 20 + length r"
    "length t = 12"
    using assms by (rule stun_msgE)
  let ?a = "addr_attr empty_map t STUN_ATTRIBUTE_XOR_RELAYED_ADDRESS (sample4 3 80)"
  have "take l b = header (stun_make_request m) (of_nat (length r)) STUN_MAGIC_COOKIE t @ r"
    using b by simp
  then have "le16 (take l b ! 1) (take l b ! 0) = stun_make_request m" "take 12 (drop 8 (take l b)) = t"
    using b(3) by (simp_all add: header_def byte_simps)
  moreover have "stun_make_success_response (m AND 0x0FFF) = stun_make_success_response m"
    by (simp add: stun_make_success_response_def stun_make_type_def Let_def and.assoc)
  ultimately have a: "server_answer (sample4 3 80) (take l b) = header (stun_make_success_response m) 12 STUN_MAGIC_COOKIE t
      @ enc_attr STUN_ATTRIBUTE_XOR_RELAYED_ADDRESS (snd ?a) []"
    by (simp add: server_answer_def type_method_make)
  have n: "length (snd ?a) = 8"
    by (simp add: addr_attr_def enc_addr_def sample4_def map_addr_from_private_to_public_def empty_map_def)
  show "length (server_answer (sample4 3 80) (take l b)) = 32"
    using n b(3) by (simp add: a)
  have "fst ?a = STUN_ATTRIBUTE_XOR_RELAYED_ADDRESS"
    by (simp add: addr_attr_def)
  then have "(STUN_ATTRIBUTE_XOR_RELAYED_ADDRESS, snd ?a) = ?a"
    by (metis prod.collapse)
  with enc_attr_exact [of "snd ?a" "[]" STUN_ATTRIBUTE_XOR_RELAYED_ADDRESS] n
  show "stun_msg (server_answer (sample4 3 80) (take l b)) 32 (stun_make_success_response m) STUN_MAGIC_COOKIE t [?a]"
    unfolding stun_msg_def a by (intro exI [of _ "enc_attr STUN_ATTRIBUTE_XOR_RELAYED_ADDRESS (snd ?a) []"] exI [of _ "[]"])
      (simp add: b(3) pad4_small)
qed

lemma server_send_loop:
  assumes "0 < l" and "l \<le> length m" and "l < 2 ^ 64"
  shows "send_loop (server_lib a) fd m 0 l w = Some (0, fst w @ take l m, take l m)"
proof -
  have "retry (l_send (server_lib a) fd (take l m)) (\<lambda>rc w. rc \<le> 0 \<and> (os_errno (l_os (server_lib a)) w = EINTR
      \<or> os_errno (l_os (server_lib a)) w = ENOBUFS \<or> os_errno (l_os (server_lib a)) w = EAGAIN)) w
      = Some (int l, fst w @ take l m, take l m)"
    using assms by (intro retry_once) (auto simp: server_lib_def)
  moreover have "send_loop (server_lib a) fd m l 0 w = Some (0, w)" for w
    by (subst send_loop.simps) simp
  ultimately show ?thesis
    using assms by (subst send_loop.simps) (simp add: rdn_def)
qed

lemma server_serves:
  assumes "0 \<le> fd" and "fd < 1024" and "\<not> negative_protocol_test g" and "\<not> dos g"
  shows "serves (server_lib (sample4 3 80)) g fd (\<lambda>m t. [addr_attr empty_map t STUN_ATTRIBUTE_XOR_RELAYED_ADDRESS (sample4 3 80)])"
  unfolding serves_def
proof (intro allI impI)
  fix ci :: app_ur_conn_info and b n w w' m t as
  let ?L = "server_lib (sample4 3 80)"
  assume ci: "ci_fd ci = fd" "ci_ssl ci = None" and s: "send_buffer ?L g ci b False None w = Some (n, ci, b, w')"
    and m: "stun_msg (buf b) (len b) (stun_make_request m) STUN_MAGIC_COOKIE t as"
  have "w' = (fst w @ take (len b) (buf b), take (len b) (buf b))"
    using s ci server_send_loop [of "len b" "buf b" "sample4 3 80" fd w] stun_msg_len(2-4) [OF m]
    assms by (simp add: send_buffer_def)
  then have "os_recv (l_os ?L) fd 65506 w' = (32, server_answer (sample4 3 80) (take (len b) (buf b)), w')"
    by (simp add: server_lib_def)
  moreover have "wait_loop ?L fd 0 0 0 0 w' = Some (1, w')"
    by (subst wait_loop.simps) (simp add: server_lib_def)
  then have "wait_fd ?L g fd 0 w' = Some (1, w')"
    using assms by (simp add: wait_fd_def server_lib_def)
  ultimately show "\<exists>rc w1 resp w2. wait_fd ?L g fd 0 w' = Some (rc, w1) \<and> 0 < rc
      \<and> os_recv (l_os ?L) fd 65506 w1 = (int (length resp), resp, w2)
      \<and> stun_msg resp (length resp) (stun_make_success_response m) STUN_MAGIC_COOKIE t [addr_attr empty_map t STUN_ATTRIBUTE_XOR_RELAYED_ADDRESS (sample4 3 80)]"
    using server_answers [OF m] by (intro exI conjI) (assumption | simp)+
qed

lemma server_ready:
  assumes "0 \<le> fd" and "fd < 1024"
  shows "ready (server_lib (sample4 3 80)) (sample_settings\<lparr>c2c := c\<rparr>) (sample_conn\<lparr>ci_fd := fd, ci_remote_addr := ra, ci_local_addr := la, lsaddr := lt, rsaddr := rt,
      ifname := ifn\<rparr>) fst (\<lambda>m t. [addr_attr empty_map t STUN_ATTRIBUTE_XOR_RELAYED_ADDRESS (sample4 3 80)])"
proof -
  let ?L = "server_lib (sample4 3 80)" and ?g = "sample_settings\<lparr>c2c := c\<rparr>"
  let ?c = "sample_conn\<lparr>ci_fd := fd, ci_remote_addr := ra, ci_local_addr := la, lsaddr := lt, rsaddr := rt, ifname := ifn\<rparr>"
  have "credentials ?L ?g ?c [117] [] []"
    using answering_credentials [of 0] by (simp add: credentials_def server_lib_def answering_lib_def sample_lib_def)
  moreover have "sends_on ?L fd fst" "accepts ?L fd"
    by (auto simp: sends_on_def accepts_def server_lib_def sample_os_def ends_def attempt_def)
  moreover have "inet_ok (l_resolver ?L)" "rd8 (s_mobile_id ?c) 0 = Some 0" "\<not> use_tcp ?g" "\<not> use_secure ?g"
    using sample_resolver_ok by (simp_all add: server_lib_def sample_conn_def sample_settings_def rd8_def)
  moreover have "find (\<lambda>(ty, v). ty = STUN_ATTRIBUTE_MOBILITY_TICKET) [addr_attr empty_map t STUN_ATTRIBUTE_XOR_RELAYED_ADDRESS (sample4 3 80)] = None" for t
    by (simp add: addr_attr_def)
  moreover have "serves ?L ?g fd (\<lambda>m t. [addr_attr empty_map t STUN_ATTRIBUTE_XOR_RELAYED_ADDRESS (sample4 3 80)])"
    using assms sample_basics by (intro server_serves) simp_all
  ultimately show ?thesis
    using sample_basics assms unfolding ready_def by auto
qed

lemma sample_ready: "ready (server_lib (sample4 3 80)) sample_settings sample_conn fst (\<lambda>m t. [addr_attr empty_map t STUN_ATTRIBUTE_XOR_RELAYED_ADDRESS (sample4 3 80)])"
  using server_ready [where fd = 5 and c = "c2c sample_settings" and ra = "ci_remote_addr sample_conn" and la = "ci_local_addr sample_conn"
      and lt = "lsaddr sample_conn" and rt = "rsaddr sample_conn" and ifn = "ifname sample_conn"]
  by (simp add: sample_settings_def sample_conn_def)

definition sample_state :: connect_state where
  "sample_state = \<lparr>allocate_rtcp = False, current_reservation_token = 0, default_address_family = 1, peer_addr = zero_addr, mCB = None\<rparr>"

lemma sample_allocation:
  "length (buf (l_buffer (server_lib (sample4 3 80)))) = 65507" "translatable (addr_tbl sample_settings) (sample4 3 80)"
  "\<not> addr_any (Some (sample4 3 80))" "sa_family (sample4 3 80) = (if default_address_family sample_state = 2 then AF_INET6 else AF_INET)"
  "\<forall>t. find (\<lambda>(ty, v). ty = STUN_ATTRIBUTE_XOR_RELAYED_ADDRESS) [addr_attr empty_map t STUN_ATTRIBUTE_XOR_RELAYED_ADDRESS (sample4 3 80)]
    = Some (addr_attr (addr_tbl sample_settings) t STUN_ATTRIBUTE_XOR_RELAYED_ADDRESS (sample4 3 80))"
  using sample_basics(2,3)
  by (simp_all add: server_lib_def sample_state_def sample_settings_def sample4_def addr_any_def addr_attr_def)

theorem allocation_succeeds_witness:
  "\<exists>st' c alt' w'. clnet_allocate (server_lib (sample4 3 80)) sample_settings sample_state sample_conn zero_addr 0 None ([], [])
      = Some (Inr 0, st', sample_conn\<lparr>ci_relay_addr := c\<rparr>, c, alt', w') \<and> addr_eq (Some c) (Some (sample4 3 80))"
  by (rule allocation_succeeds [OF sample_ready sample_allocation])

theorem allocation_confirmed_witness:
  "\<exists>st' ci' c alt' w'. clnet_allocate (server_lib (sample4 3 80)) sample_settings sample_state sample_conn zero_addr 0 None ([], [])
      = Some (Inr 0, st', ci', c, alt', w')
    \<and> (\<exists>request ci4 response4 w4. allocates (server_lib (sample4 3 80)) sample_settings sample_state request ci4 response4 w4 (ci_relay_addr ci'))
    \<and> refreshed (server_lib (sample4 3 80)) sample_settings w'"
proof -
  obtain st' c alt' w' where r: "clnet_allocate (server_lib (sample4 3 80)) sample_settings sample_state sample_conn zero_addr 0 None ([], [])
      = Some (Inr 0, st', sample_conn\<lparr>ci_relay_addr := c\<rparr>, c, alt', w')"
    using allocation_runs [OF sample_ready sample_allocation] by blast
  from this allocation_confirmed [OF this sample_basics(6,8)] show ?thesis
    by blast
qed

end
