(* ===== verification/Turn_Client.thy ===== *)
theory Turn_Client
  imports Turn_Served
begin

text \<open>
  The session of the TURN client: \<open>client_read\<close>, \<open>client_input_handler\<close>, \<open>start_client\<close>, \<open>start_c2c\<close>, \<open>start_p2p_client\<close> and
  \<open>bind_client\<close> of \<open>p2p/p2p_client.c\<close>, with \<open>start_connection\<close>, \<open>start_c2c_connection\<close> and \<open>bind_real\<close> of
  \<open>p2p/connect_manager.c\<close>.

  The record \<open>client\<close> has the variables of the two files: those of the connections, the array \<open>elems\<close>, of which only the first
  element is used (\<open>None\<close> is the null pointer, \<open>Some None\<close> an array that was not filled yet), and the block to send.
  A function that may call \<open>exit\<close> returns \<open>Inl\<close> of the status; memory for a session is taken to be there.
\<close>

subsection \<open>Reading a message\<close>

definition current_mstime :: u64 where
  "current_mstime = 0"

text \<open>A \<open>message_info\<close> is 16 bytes long and begins with the number of the message.\<close>

definition message_info :: "mem \<Rightarrow> nat \<Rightarrow> int option" where
  "message_info m p = do { _ \<leftarrow> rdn m p 16; n \<leftarrow> rd32 m p; Some (sint n) }"

text \<open>The connection identifier of a message for TCP relaying, 0 if there is none; an empty one is a null pointer.\<close>

definition connection_id :: "stun_buffer \<Rightarrow> u32 option" where
  "connection_id b = do {
     sar \<leftarrow> stun_attr_get_first b;
     r \<leftarrow> attr_scan (buf b) (len b) (\<lambda>p. do {
       t \<leftarrow> stun_attr_get_type (buf b) (Some p);
       if t = uint STUN_ATTRIBUTE_CONNECTION_ID then do {
         v \<leftarrow> stun_attr_get_value (buf b) (Some p);
         q \<leftarrow> v;
         c \<leftarrow> rd32 (buf b) q;
         Some (Some c) }
       else Some None }) sar;
     Some (case r of Some c \<Rightarrow> c | None \<Rightarrow> 0) }"

text \<open>
  The parts of \<open>client_read\<close> return \<open>Inl rc\<close> for \<open>return rc\<close>, and \<open>Inr\<close> of the number of the message, if it has one, and of
  the number of messages to go on and count it.
\<close>

definition read_tcp_data :: "settings \<Rightarrow> stun_buffer \<Rightarrow> (int option \<times> u64) option" where
  "read_tcp_data g b =
     (if int (len b) = clmessage_length g then do { n \<leftarrow> message_info (buf b) 0; Some (Some n, 1) }
      else if clmessage_length g = 0 then None
      else Some (None, word_of_int (sgn (clmessage_length g) * (int (len b) div \<bar>clmessage_length g\<bar>))))"

definition read_indication :: "settings \<Rightarrow> stun_buffer \<Rightarrow> int option option" where
  "read_indication g b = do {
     method \<leftarrow> stun_get_method b;
     if method = STUN_METHOD_CONNECTION_ATTEMPT \<and> is_TCP_relay g then do { _ \<leftarrow> connection_id b; Some None }
     else if method \<noteq> STUN_METHOD_DATA then Some None
     else do {
       sar \<leftarrow> stun_attr_get_first_by_type b STUN_ATTRIBUTE_DATA;
       if sar = None then Some None
       else do {
         rlen \<leftarrow> stun_attr_get_len (buf b) sar;
         if rlen \<noteq> clmessage_length g then Some None
         else do {
           data \<leftarrow> stun_attr_get_value (buf b) sar;
           p \<leftarrow> data;
           n \<leftarrow> message_info (buf b) p;
           Some (Some n) } } } }"

definition read_success :: "('w, 'c) lib \<Rightarrow> settings \<Rightarrow> int \<Rightarrow> app_ur_session \<Rightarrow> (int \<times> app_ur_session) option" where
  "read_success L g rc elem = do {
     (r, b) \<leftarrow> alloc_check L g (pinfo elem) (in_buffer elem);
     let elem = elem\<lparr>in_buffer := b\<rparr>;
     if r < 0 then Some (-1, elem)
     else do {
       method \<leftarrow> stun_get_method b;
       _ \<leftarrow> (if is_TCP_relay g \<and> method = STUN_METHOD_CONNECT then connection_id b else Some 0);
       Some (rc, elem) } }"

definition read_challenged ::
    "('w, 'c) lib \<Rightarrow> settings \<Rightarrow> int \<Rightarrow> app_ur_session \<Rightarrow> 'w \<Rightarrow> (int \<times> app_ur_session \<times> 'w) option" where
  "read_challenged L g rc elem w = do {
     method \<leftarrow> stun_get_method (in_buffer elem);
     if is_TCP_relay g \<and> method = STUN_METHOD_CONNECT then Some (rc, elem, w)
     else if method = STUN_METHOD_REFRESH then do {
       (_, elem, w) \<leftarrow> refresh_channel L g current_mstime elem method 600 w;
       Some (rc, elem, w) }
     else Some (rc, elem, w) }"

definition read_channel :: "settings \<Rightarrow> int \<Rightarrow> u16 \<Rightarrow> app_ur_session \<Rightarrow> (int + int option \<times> u64) option" where
  "read_channel g rc chnumber elem = (let b = in_buffer elem in
     if chnum elem \<noteq> chnumber then Some (Inl rc)
     else if len b \<ge> 4 then
       (if int (len b) - 4 < clmessage_length g then Some (Inl rc)
        else do {
          hi \<leftarrow> c_int (clmessage_length g + 3);
          if int (len b) - 4 > hi then Some (Inl rc)
          else do { n \<leftarrow> message_info (buf b) 4; Some (Inr (Some n, 1)) } })
     else Some (Inr (None, 1)))"

definition read_other ::
    "('w, 'c) lib \<Rightarrow> settings \<Rightarrow> int \<Rightarrow> app_ur_session \<Rightarrow> 'w \<Rightarrow> ((int + int option \<times> u64) \<times> app_ur_session \<times> 'w) option" where
  "read_other L g rc elem w = do {
     let b = in_buffer elem;
     (challenged, ci, _, _) \<leftarrow> read_challenge L (pinfo elem) b;
     let elem = elem\<lparr>pinfo := ci\<rparr>;
     if challenged then do { (r, elem, w) \<leftarrow> read_challenged L g rc elem w; Some (Inl r, elem, w) }
     else do {
       (err, _, _) \<leftarrow> stun_is_error_response b None None 0;
       if err then Some (Inl rc, elem, w)
       else do {
         (channel_message, b, chnumber) \<leftarrow> stun_is_channel_message (Some b) (Some 0) (use_tcp g);
         b \<leftarrow> b;
         chnumber \<leftarrow> chnumber;
         let elem = elem\<lparr>in_buffer := b\<rparr>;
         if channel_message then do { x \<leftarrow> read_channel g rc chnumber elem; Some (x, elem, w) }
         else Some (Inl rc, elem, w) } } }"

definition read_message ::
    "('w, 'c) lib \<Rightarrow> settings \<Rightarrow> int \<Rightarrow> bool \<Rightarrow> app_ur_session \<Rightarrow> 'w
     \<Rightarrow> ((int + int option \<times> u64) \<times> app_ur_session \<times> 'w) option" where
  "read_message L g rc is_tcp_data elem w =
     (if is_tcp_data then do { x \<leftarrow> read_tcp_data g (in_buffer elem); Some (Inr x, elem, w) }
      else do {
        indication \<leftarrow> stun_is_indication (Some (in_buffer elem));
        if indication then do {
          x \<leftarrow> read_indication g (in_buffer elem);
          Some (case x of None \<Rightarrow> Inl rc | Some n \<Rightarrow> Inr (Some n, 1), elem, w) }
        else do {
          success \<leftarrow> stun_is_success_response (in_buffer elem);
          if success then do { (r, elem) \<leftarrow> read_success L g rc elem; Some (Inl r, elem, w) }
          else read_other L g rc elem w } })"

definition count_message :: "int option \<times> u64 \<Rightarrow> app_ur_session \<Rightarrow> app_ur_session option" where
  "count_message x elem = (case x of (mi, buffers) \<Rightarrow> do {
     elem \<leftarrow> (case mi of None \<Rightarrow> Some elem
       | Some msgnum \<Rightarrow> do {
           e \<leftarrow> c_int (recvmsgnum elem + 1);
           Some (elem\<lparr>loss := if msgnum \<noteq> e then loss elem + 1 else loss elem, recvmsgnum := msgnum\<rparr>) });
     Some (elem\<lparr>rmsgnum := sint (ucast (word_of_int (rmsgnum elem) + buffers) :: u32), recvtimems := ucast current_mstime,
       wait_cycles := 0\<rparr>) })"

definition client_read ::
    "('w, 'c) lib \<Rightarrow> settings \<Rightarrow> app_ur_session \<Rightarrow> bool \<Rightarrow> app_tcp_conn_info option \<Rightarrow> 'w \<Rightarrow> (int \<times> app_ur_session \<times> 'w) option" where
  "client_read L g elem is_tcp_data atc w =
     (if ur_state elem \<noteq> UR_STATE_READY then Some (-1, elem, w)
      else do {
        (rc, ci, b, _, w) \<leftarrow> recv_buffer L g (pinfo elem) (in_buffer elem) False is_tcp_data atc None w;
        let elem = elem\<lparr>pinfo := ci, in_buffer := b\<rparr>;
        if rc > 0 then do {
          (x, elem, w) \<leftarrow> read_message L g rc is_tcp_data (elem\<lparr>in_buffer := b\<lparr>len := nat rc\<rparr>\<rparr>) w;
          case x of Inl r \<Rightarrow> Some (r, elem, w)
          | Inr x \<Rightarrow> do { elem \<leftarrow> count_message x elem; Some (rc, elem, w) } }
        else Some (if rc = 0 then 0 else -1, elem, w) })"

subsection \<open>The event handler\<close>

text \<open>The TCP data connection whose socket became readable.\<close>

definition data_connection :: "int \<Rightarrow> app_tcp_conn_info option list \<Rightarrow> app_tcp_conn_info option" where
  "data_connection fd conns = (case List.find (\<lambda>c. case c of None \<Rightarrow> False | Some c \<Rightarrow> fd = tcp_data_fd c \<and> tcp_data_bound c) conns
     of None \<Rightarrow> None | Some c \<Rightarrow> c)"

partial_function (option) read_loop ::
    "('w, 'c) lib \<Rightarrow> settings \<Rightarrow> int \<Rightarrow> app_ur_session \<Rightarrow> 'w \<Rightarrow> (app_ur_session \<times> 'w) option" where
  "read_loop L g fd elem w = do {
     let atc = data_connection fd (tcp_conn (pinfo elem));
     (rc, elem, w) \<leftarrow> client_read L g elem (atc \<noteq> None) atc w;
     if rc \<le> 0 then Some (elem, w) else read_loop L g fd elem w }"

definition client_input_handler ::
    "('w, 'c) lib \<Rightarrow> settings \<Rightarrow> int \<Rightarrow> bool \<Rightarrow> app_ur_session option \<Rightarrow> 'w \<Rightarrow> (app_ur_session option \<times> 'w) option" where
  "client_input_handler L g fd ev_read arg w = (case arg of None \<Rightarrow> Some (arg, w)
     | Some elem \<Rightarrow>
         if \<not> ev_read \<or> ur_state elem \<noteq> UR_STATE_READY then Some (arg, w)
         else do { (elem, w) \<leftarrow> read_loop L g fd elem w; Some (Some elem, w) })"

subsection \<open>Starting\<close>

record client =
  c_st :: connect_state
  elems :: "app_ur_session option option"
  buffer_to_send :: mem

definition set_notify_address_cb :: "nat option \<Rightarrow> client \<Rightarrow> client" where
  "set_notify_address_cb cb cl = cl\<lparr>c_st := set_local_addr_cb cb (c_st cl)\<rparr>"

text \<open>The session that \<open>bzero\<close> leaves.\<close>

definition zero_session :: app_ur_session where
  "zero_session = \<lparr>
     pinfo = \<lparr>ci_fd = 0, ci_ssl = None, broken = False, ci_nonce = replicate 128 0, ci_realm = replicate 128 0, ci_oauth = False,
       ci_server_name = replicate 1026 0, ci_key = replicate 64 0, key_set = False, cok = 0, is_peer = False,
       s_mobile_id = replicate 33 0, ci_peer_addr = zero_addr, ci_relay_addr = zero_addr, ci_local_addr = zero_addr,
       ci_remote_addr = zero_addr, lsaddr = replicate 129 0, rsaddr = replicate 129 0, ifname = replicate 129 0, tcp_conn = []\<rparr>,
     ur_state = UR_STATE_UNKNOWN, chnum = 0, wait_cycles = 0, in_buffer = blank_buffer, refresh_time = 0, rmsgnum = 0,
     recvmsgnum = 0, recvtimems = 0, loss = 0\<rparr>"

definition init_app_session :: "app_ur_session option \<Rightarrow> app_ur_session option" where
  "init_app_session ss = map_option (\<lambda>_. zero_session\<lparr>pinfo := (pinfo zero_session)\<lparr>ci_fd := -1\<rparr>\<rparr>) ss"

definition create_new_ss :: "app_ur_session \<Rightarrow> app_ur_session option" where
  "create_new_ss block = init_app_session (Some block)"

definition start_connection ::
    "('w, 'c) lib \<Rightarrow> settings \<Rightarrow> connect_state \<Rightarrow> u16 \<Rightarrow> mem \<Rightarrow> mem \<Rightarrow> mem \<Rightarrow> app_ur_conn_info \<Rightarrow> 'w
     \<Rightarrow> ((int + int) \<times> u16 \<times> connect_state \<times> app_ur_conn_info \<times> 'w) option" where
  "start_connection L g st remote_port remote_address0 ifn local_address ci w = do {
     remote_address \<leftarrow> STRCPY 1025 remote_address0;
     let chn = 0;
     (x, ci, w) \<leftarrow> clnet_connect L g (mCB st) remote_port remote_address ifn local_address ci w;
     case x of Inl e \<Rightarrow> Some (Inl e, chn, st, ci, w)
     | Inr r \<Rightarrow>
         if r < 0 then Some (Inr (-1), chn, st, ci, w)
         else do {
           let af = (if default_address_family st \<noteq> 0 then default_address_family st else get_allocate_address_family (peer_addr st));
           (x, st, ci, _, _, w) \<leftarrow> clnet_allocate L g st ci (l_addr L) af None w;
           case x of Inl e \<Rightarrow> Some (Inl e, chn, st, ci, w)
           | Inr r \<Rightarrow>
               if r < 0 then Some (Inr (-1), chn, st, ci, w)
               else (case rare_event L g w of (stop, w) \<Rightarrow>
                 if stop then Some (Inr 0, chn, st, ci, w)
                 else Some (Inr 0, chn, st, ci\<lparr>ci_peer_addr := peer_addr st\<rparr>, w)) } }"

text \<open>Both branches over \<open>no_rtcp\<close> make the same calls.\<close>

definition start_c2c_connection ::
    "('w, 'c) lib \<Rightarrow> settings \<Rightarrow> connect_state \<Rightarrow> u16 \<Rightarrow> mem \<Rightarrow> mem \<Rightarrow> mem \<Rightarrow> app_ur_conn_info \<Rightarrow> 'w
     \<Rightarrow> ((int + int) \<times> u16 \<times> connect_state \<times> app_ur_conn_info \<times> 'w) option" where
  "start_c2c_connection L g st remote_port remote_address0 ifn local_address ci w = do {
     let chn = 0;
     remote_address \<leftarrow> STRCPY 1025 remote_address0;
     (x, ci, w) \<leftarrow> clnet_connect L g (mCB st) remote_port remote_address ifn local_address ci w;
     case x of Inl e \<Rightarrow> Some (Inl e, chn, st, ci, w)
     | Inr r \<Rightarrow>
         if r < 0 then Some (Inr (-1), chn, st, ci, w)
         else do {
           (x, st, ci, _, _, w) \<leftarrow> clnet_allocate L g st ci (l_addr L) (default_address_family st) None w;
           case x of Inl e \<Rightarrow> Some (Inl e, chn, st, ci, w)
           | Inr r \<Rightarrow>
               if r < 0 then Some (Inr (-1), chn, st, ci, w)
               else (case rare_event L g w of (stop, w) \<Rightarrow> Some (Inr 0, chn, st, ci, w)) } }"

text \<open>What \<open>start_client\<close> and \<open>start_c2c\<close> do with a connection: watch its socket and make the session the first one.\<close>

definition enter_session :: "('w, 'c) lib \<Rightarrow> app_ur_session \<Rightarrow> app_ur_conn_info \<Rightarrow> u16 \<Rightarrow> 'w \<Rightarrow> app_ur_session \<times> 'w" where
  "enter_session L ss ci chn w = (case socket_set_nonblocking L (ci_fd ci) w of (_, w) \<Rightarrow>
     (ss\<lparr>pinfo := ci, ur_state := UR_STATE_READY, recvmsgnum := -1, chnum := chn\<rparr>, l_event L (ci_fd ci) w))"

definition start_client ::
    "('w, 'c) lib \<Rightarrow> settings \<Rightarrow> client \<Rightarrow> app_ur_session \<Rightarrow> mem \<Rightarrow> int \<Rightarrow> mem \<Rightarrow> mem \<Rightarrow> 'w \<Rightarrow> ((int + int) \<times> client \<times> 'w) option" where
  "start_client L g cl block remote_address port ifn local_address w = do {
     ss \<leftarrow> create_new_ss block;
     (x, chn, st, ci, w) \<leftarrow> start_connection L g (c_st cl) (word_of_int port) remote_address ifn local_address (pinfo ss) w;
     let cl = cl\<lparr>c_st := st\<rparr>;
     case x of Inl e \<Rightarrow> Some (Inl e, cl, w)
     | Inr r \<Rightarrow>
         if r < 0 then Some (Inr (-1), cl, w)
         else (case enter_session L ss ci chn w of (ss, w) \<Rightarrow> do {
           _ \<leftarrow> elems cl;
           (_, ss, w) \<leftarrow> refresh_channel L g current_mstime ss 0 600 w;
           Some (Inr 0, cl\<lparr>elems := Some (Some ss)\<rparr>, w) }) }"

definition start_c2c ::
    "('w, 'c) lib \<Rightarrow> settings \<Rightarrow> client \<Rightarrow> app_ur_session \<Rightarrow> mem \<Rightarrow> int \<Rightarrow> mem \<Rightarrow> mem \<Rightarrow> 'w \<Rightarrow> ((int + int) \<times> client \<times> 'w) option" where
  "start_c2c L g cl block remote_address port ifn local_address w = do {
     ss \<leftarrow> create_new_ss block;
     (x, chn, st, ci, w) \<leftarrow> start_c2c_connection L g (c_st cl) (word_of_int port) remote_address ifn local_address (pinfo ss) w;
     let cl = cl\<lparr>c_st := st\<rparr>;
     case x of Inl e \<Rightarrow> Some (Inl e, cl, w)
     | Inr _ \<Rightarrow> (case enter_session L ss ci chn w of (ss, w) \<Rightarrow> do {
         _ \<leftarrow> elems cl;
         Some (Inr 0, cl\<lparr>elems := Some (Some ss)\<rparr>, w) }) }"

text \<open>The number of clients, for which the array is allocated.\<close>

definition client_count :: "settings \<Rightarrow> nat" where
  "client_count g =
     (if c2c g then (if \<not> no_rtcp g then 4 else 2) else (if \<not> no_rtcp g then 2 else 1))"

fun start_clients ::
    "('w, 'c) lib \<Rightarrow> settings \<Rightarrow> app_ur_session \<Rightarrow> mem \<Rightarrow> int \<Rightarrow> mem \<Rightarrow> mem \<Rightarrow> nat \<Rightarrow> client \<Rightarrow> 'w \<Rightarrow> ((int + int) \<times> client \<times> 'w) option" where
  "start_clients L g block remote_address port ifn local_address 0 cl w = Some (Inr 0, cl, w)"
| "start_clients L g block remote_address port ifn local_address (Suc n) cl w = do {
     (x, cl, w) \<leftarrow> start_client L g cl block remote_address port ifn local_address (l_usleep L 234 w);
     case x of Inl e \<Rightarrow> Some (Inl e, cl, w)
     | Inr r \<Rightarrow> if r < 0 then Some (Inr r, cl, w)
         else start_clients L g block remote_address port ifn local_address n cl w }"

text \<open>The event base is made at the beginning and freed at the end, without a run of its loop; it is not part of the state.\<close>

definition start_p2p_client ::
    "('w, 'c) lib \<Rightarrow> settings \<Rightarrow> client \<Rightarrow> app_ur_session \<Rightarrow> mem \<Rightarrow> int \<Rightarrow> mem \<Rightarrow> mem \<Rightarrow> 'w \<Rightarrow> ((int + unit) \<times> client \<times> 'w) option" where
  "start_p2p_client L g cl block remote_address port ifn local_address w =
     (if clmessage_length g < 0 then None
      else do {
        m \<leftarrow> wrn (buffer_to_send cl) 0 (replicate (nat (clmessage_length g)) 7);
        let cl = cl\<lparr>elems := Some None, buffer_to_send := m\<rparr>;
        (x, cl, w) \<leftarrow> (if c2c g then start_c2c L g cl block remote_address port ifn local_address (l_usleep L 234 w)
          else if \<not> no_rtcp g then start_client L g cl block remote_address port ifn local_address (l_usleep L 234 w)
          else start_clients L g block remote_address port ifn local_address (client_count g) cl w);
        Some (case x of Inl e \<Rightarrow> (Inl e, cl, w)
          | Inr r \<Rightarrow> if r < 0 then (Inr (), cl\<lparr>elems := None\<rparr>, w) else (Inr (), cl, w)) })"

subsection \<open>Binding to a peer\<close>

text \<open>
  The requests for arbitrary addresses.  \<open>arb_bytes\<close> is the assignment to a byte of \<open>sin_addr\<close>, which lies over the flow
  information of an IPv6 address; of the two calls of \<open>random\<close> in it, the one for the left side is taken first.
\<close>

definition arb_bytes :: "('w, 'c) lib \<Rightarrow> ioa_addr \<Rightarrow> 'w \<Rightarrow> ioa_addr \<times> 'w" where
  "arb_bytes L a w = (case urandom L w of (i, w) \<Rightarrow> case urandom L w of (j, w) \<Rightarrow>
     let u = bytes32 (sin_addr a); u = u[i mod 65536 mod 4 := u ! (j mod 65536 mod 4) + 1] in
     (a\<lparr>sin_addr := le32 (u ! 0) (u ! 1) (u ! 2) (u ! 3)\<rparr>, w))"

definition arb_addr :: "('w, 'c) lib \<Rightarrow> string \<Rightarrow> 'w \<Rightarrow> (ioa_addr \<times> 'w) option" where
  "arb_addr L text w = (case urandom L w of (r, w) \<Rightarrow> do {
     (_, a) \<leftarrow> make_ioa_addr (l_resolver L) (Some (c_lit (if r mod 2 = 0 then ''2001::172'' else text))) 333 (Some (l_addr L));
     a \<leftarrow> a;
     Some (a, w) })"

fun arb_bindings ::
    "('w, 'c) lib \<Rightarrow> settings \<Rightarrow> nat \<Rightarrow> ioa_addr \<Rightarrow> app_ur_conn_info \<Rightarrow> 'w \<Rightarrow> (app_ur_conn_info \<times> 'w) option" where
  "arb_bindings L g 0 a ci w = Some (ci, w)"
| "arb_bindings L g (Suc n) a ci w = (case urandom L w of (r, w) \<Rightarrow>
     let port = int (r mod 65536); port = (if port < 1024 then port + 1024 else port) in
     case arb_bytes L (the (addr_set_port (Some a) port)) w of (a, w) \<Rightarrow> do {
       (_, _, ci, w) \<leftarrow> turn_channel_bind L g 0 ci a w;
       arb_bindings L g n a ci w })"

text \<open>All addresses but the first start from the first one, as it is after its own change.\<close>

fun arb_addrs :: "('w, 'c) lib \<Rightarrow> nat \<Rightarrow> ioa_addr list \<Rightarrow> ioa_addr \<Rightarrow> 'w \<Rightarrow> ioa_addr list \<times> 'w" where
  "arb_addrs L 0 as first w = (as, w)"
| "arb_addrs L (Suc n) as first w = (case urandom L w of (r, w) \<Rightarrow>
     case arb_bytes L (the (addr_set_port (Some (if as = [] then first else hd as)) (int (r mod 65536)))) w of (a, w) \<Rightarrow>
       arb_addrs L n (as @ [a]) first w)"

definition extra_bindings ::
    "('w, 'c) lib \<Rightarrow> settings \<Rightarrow> app_ur_conn_info \<Rightarrow> 'w \<Rightarrow> (app_ur_conn_info \<times> 'w) option" where
  "extra_bindings L g ci w =
     (if extra_requests g then do {
        (a, w) \<leftarrow> arb_addr L ''164.156.178.190'' w;
        let (r, w) = urandom L w;
        arb_bindings L g (r mod 65536 mod 25) a ci w }
      else Some (ci, w))"

definition extra_permissions ::
    "('w, 'c) lib \<Rightarrow> settings \<Rightarrow> app_ur_conn_info \<Rightarrow> 'w \<Rightarrow> ((int + unit) \<times> app_ur_conn_info \<times> 'w) option" where
  "extra_permissions L g ci w =
     (if extra_requests g then do {
        (a, w) \<leftarrow> arb_addr L ''64.56.78.90'' w;
        let (r, w) = urandom L w;
        let (as, w) = arb_addrs L (r mod 65536 mod 25) [] a w;
        (x, ci, w) \<leftarrow> turn_create_permission L g ci as w;
        Some (case x of Inl e \<Rightarrow> Inl e | Inr _ \<Rightarrow> Inr (), ci, w) }
      else Some (Inr (), ci, w))"

definition bind_channel ::
    "('w, 'c) lib \<Rightarrow> settings \<Rightarrow> ioa_addr \<Rightarrow> app_ur_conn_info \<Rightarrow> 'w \<Rightarrow> ((int + unit) \<times> app_ur_conn_info \<times> 'w) option" where
  "bind_channel L g peer ci w = do {
     (r, chn, ci, w) \<leftarrow> turn_channel_bind L g 0 ci peer w;
     let (stop, w) = (if r < 0 then (True, w) else rare_event L g w);
     if stop then Some (Inr (), ci, w)
     else do {
       (r, chn, ci, w) \<leftarrow> turn_channel_bind L g chn ci peer w;
       let (stop, w) = (if r < 0 then (True, w) else rare_event L g w);
       if stop then Some (Inr (), ci, w)
       else do {
         (ci, w) \<leftarrow> extra_bindings L g ci w;
         let (stop, w) = rare_event L g w;
         if stop then Some (Inr (), ci, w)
         else extra_permissions L g ci w } } }"

text \<open>The permission for the peer; \<open>True\<close> in the result says that the function is left.\<close>

definition permit_peer ::
    "('w, 'c) lib \<Rightarrow> settings \<Rightarrow> ioa_addr \<Rightarrow> app_ur_conn_info \<Rightarrow> 'w \<Rightarrow> ((int + bool) \<times> app_ur_conn_info \<times> 'w) option" where
  "permit_peer L g peer ci w = do {
     (x, ci, w) \<leftarrow> turn_create_permission L g ci [peer] w;
     Some (case x of Inl e \<Rightarrow> (Inl e, ci, w)
       | Inr r \<Rightarrow> if r < 0 then (Inr True, ci, w) else (case rare_event L g w of (stop, w) \<Rightarrow> (Inr stop, ci, w))) }"

definition bind_permission ::
    "('w, 'c) lib \<Rightarrow> settings \<Rightarrow> ioa_addr \<Rightarrow> app_ur_conn_info \<Rightarrow> 'w \<Rightarrow> ((int + unit) \<times> app_ur_conn_info \<times> 'w) option" where
  "bind_permission L g peer ci w = (case urandom L w of (r, w) \<Rightarrow> do {
     let before = (r mod 2 = 0);
     (x, ci, w) \<leftarrow> (if before then permit_peer L g peer ci w else Some (Inr False, ci, w));
     case x of Inl e \<Rightarrow> Some (Inl e, ci, w)
     | Inr stop \<Rightarrow> if stop then Some (Inr (), ci, w)
         else do {
           (x, ci, w) \<leftarrow> extra_permissions L g ci w;
           case x of Inl e \<Rightarrow> Some (Inl e, ci, w)
           | Inr _ \<Rightarrow>
               if before then Some (Inr (), ci, w)
               else do { (x, ci, w) \<leftarrow> permit_peer L g peer ci w; Some (case x of Inl e \<Rightarrow> Inl e | Inr _ \<Rightarrow> Inr (), ci, w) } } })"

definition bind_real ::
    "('w, 'c) lib \<Rightarrow> settings \<Rightarrow> connect_state \<Rightarrow> mem \<Rightarrow> int \<Rightarrow> app_ur_conn_info \<Rightarrow> 'w
     \<Rightarrow> ((int + unit) \<times> connect_state \<times> app_ur_conn_info \<times> 'w) option" where
  "bind_real L g st address port ci w = do {
     (ok, st) \<leftarrow> (if \<not> c2c g then do {
         (r, a) \<leftarrow> make_ioa_addr (l_resolver L) (Some address) port (Some (peer_addr st));
         a \<leftarrow> a;
         let st = st\<lparr>peer_addr := a\<rparr>;
         Some (if r < 0 then (False, st)
           else if sa_family a = AF_INET6 then (True, st\<lparr>default_address_family := 2\<rparr>)
           else if sa_family a = AF_INET then (True, st\<lparr>default_address_family := 1\<rparr>)
           else (True, st)) }
       else Some (True, st));
     if \<not> ok \<or> dos g then Some (Inr (), st, ci, w)
     else do {
       (x, ci, w) \<leftarrow> (if \<not> do_not_use_channel g then bind_channel L g (peer_addr st) ci w
         else bind_permission L g (peer_addr st) ci w);
       Some (x, st, ci, w) } }"

definition bind_client ::
    "('w, 'c) lib \<Rightarrow> settings \<Rightarrow> client \<Rightarrow> mem \<Rightarrow> int \<Rightarrow> 'w \<Rightarrow> ((int + unit) \<times> client \<times> 'w) option" where
  "bind_client L g cl address port w = do {
     es \<leftarrow> elems cl;
     ss \<leftarrow> es;
     (x, st, ci, w) \<leftarrow> bind_real L g (c_st cl) address port (pinfo ss) w;
     Some (x, cl\<lparr>c_st := st, elems := Some (Some (ss\<lparr>pinfo := ci\<rparr>))\<rparr>, w) }"

end
