(* ===== verification/Turn_Input.thy ===== *)
theory Turn_Input
  imports Turn_Client
begin

text \<open>
  What the session of the TURN client counts: an invariant of all states that a started client can reach, and the messages that
  the event handler takes from the socket.
\<close>

subsection \<open>What a connection keeps\<close>

lemma core_conns: "core ci' = core ci \<Longrightarrow> tcp_conn ci' = tcp_conn ci"
  by (simp add: core_def)

lemmas transport_conns = send_buffer_core [THEN core_conns] recv_buffer_core [THEN core_conns] finish_request_core [THEN core_conns]
  read_challenge_core [THEN core_conns] read_mobility_ticket_core [THEN core_conns] clnet_connect_core [THEN core_conns]

lemma alloc_attempt_conns: "alloc_attempt L g af v w = Some (x, v', w') \<Longrightarrow> tcp_conn (a_ci v') = tcp_conn (a_ci v)"
  by (auto simp: alloc_attempt_def Let_def dest!: transport_conns split: bind_splits if_splits prod.splits)

lemma alloc_success_conns: "alloc_success L g v w = Some (x, v', w') \<Longrightarrow> tcp_conn (a_ci v') = tcp_conn (a_ci v)"
  by (auto simp: alloc_success_def Let_def dest!: transport_conns split: bind_splits if_splits)

lemma alloc_error_conns: "alloc_error L g e v w = Some (x, v', w') \<Longrightarrow> tcp_conn (a_ci v') = tcp_conn (a_ci v)"
  by (auto simp: alloc_error_def Let_def split: bind_splits if_splits)

lemma alloc_round_conns: "alloc_round L g v w = Some (x, v', w') \<Longrightarrow> tcp_conn (a_ci v') = tcp_conn (a_ci v)"
  by (auto simp: alloc_round_def Let_def dest!: transport_conns alloc_success_conns alloc_error_conns split: bind_splits if_splits)

lemma alloc_rounds_conns:
  fixes L :: "('w, 'c) lib"
  assumes "alloc_rounds L g v w = Some (x, v', w')"
  shows "tcp_conn (a_ci v') = tcp_conn (a_ci v)"
proof -
  define P where "P L g v w z \<longleftrightarrow> tcp_conn (a_ci (fst (snd z))) = tcp_conn (a_ci v)"
    for L :: "('w, 'c) lib" and g :: settings and v :: allocation and w :: 'w and z :: "alloc_verdict \<times> allocation \<times> 'w"
  have "P L g v w (x, v', w')"
    by (rule alloc_rounds.raw_induct [where P = P, OF _ assms]) (fastforce simp: P_def dest: alloc_round_conns split: bind_splits option.splits)
  then show ?thesis
    by (simp add: P_def)
qed

lemma alloc_reopen_conns: "alloc_reopen L g v w = Some (x, v', w') \<Longrightarrow> tcp_conn (a_ci v') = tcp_conn (a_ci v)"
  by (auto simp: alloc_reopen_def Let_def dest!: transport_conns split: bind_splits if_splits sum.splits)

lemma alloc_cycle_conns: "alloc_cycle L g af v w = Some (x, v', w') \<Longrightarrow> tcp_conn (a_ci v') = tcp_conn (a_ci v)"
  by (auto simp: alloc_cycle_def dest!: alloc_attempt_conns alloc_rounds_conns alloc_reopen_conns split: bind_splits if_splits)

lemma alloc_loop_conns: "alloc_loop L g af n v w = Some (x, v', w') \<Longrightarrow> tcp_conn (a_ci v') = tcp_conn (a_ci v)"
proof (induction n arbitrary: v w)
  case (Suc n)
  then obtain y v1 w1 where c: "alloc_cycle L g af v w = Some (y, v1, w1)"
    by (auto split: bind_splits)
  show ?case
    using Suc.prems Suc.IH [of v1 w1] c alloc_cycle_conns [OF c] by (auto split: if_splits)
qed auto

lemma mobile_reopen_conns: "mobile_reopen L g cb ci w = Some (x, ci', w') \<Longrightarrow> tcp_conn ci' = tcp_conn ci"
  using mobile_reopen_core [of L g cb ci w x ci' w' 0] by (simp add: core_def)

lemma refresh_attempt_conns: "refresh_attempt L g v w = Some (x, v', w') \<Longrightarrow> tcp_conn (a_ci v') = tcp_conn (a_ci v)"
  by (auto simp: refresh_attempt_def Let_def dest!: transport_conns split: bind_splits if_splits prod.splits)

lemma refresh_round_conns: "refresh_round L g v w = Some (x, v', w') \<Longrightarrow> tcp_conn (a_ci v') = tcp_conn (a_ci v)"
  by (auto simp: refresh_round_def refresh_recv_def Let_def dest!: transport_conns split: bind_splits if_splits)

lemma refresh_rounds_conns:
  fixes L :: "('w, 'c) lib"
  assumes "refresh_rounds L g v w = Some (x, v', w')"
  shows "tcp_conn (a_ci v') = tcp_conn (a_ci v)"
proof -
  define P where "P L g v w z \<longleftrightarrow> tcp_conn (a_ci (fst (snd z))) = tcp_conn (a_ci v)"
    for L :: "('w, 'c) lib" and g :: settings and v :: allocation and w :: 'w and z :: "alloc_verdict \<times> allocation \<times> 'w"
  have "P L g v w (x, v', w')"
    by (rule refresh_rounds.raw_induct [where P = P, OF _ assms]) (fastforce simp: P_def dest: refresh_round_conns split: bind_splits option.splits)
  then show ?thesis
    by (simp add: P_def)
qed

lemma refresh_loop_conns: "refresh_loop L g n v w = Some (x, v', w') \<Longrightarrow> tcp_conn (a_ci v') = tcp_conn (a_ci v)"
  by (induction n arbitrary: v w) (auto dest!: refresh_attempt_conns refresh_rounds_conns split: bind_splits if_splits)

lemma clnet_allocate_conns:
  "clnet_allocate L g st ci relay af alt w = Some (x, st', ci', relay', alt', w') \<Longrightarrow> tcp_conn ci' = tcp_conn ci"
  by (auto simp: clnet_allocate_def alloc_all_def alloc_tail_def Let_def dest!: alloc_loop_conns mobile_reopen_conns refresh_loop_conns
      split: bind_splits if_splits prod.splits)

lemma start_connection_conns:
  "start_connection L g st port ra ifn la ci w = Some (x, chn, st', ci', w') \<Longrightarrow> chn = 0 \<and> tcp_conn ci' = tcp_conn ci"
  by (auto simp: start_connection_def Let_def dest!: transport_conns clnet_allocate_conns split: bind_splits if_splits sum.splits prod.splits)

lemma start_c2c_connection_conns:
  "start_c2c_connection L g st port ra ifn la ci w = Some (x, chn, st', ci', w') \<Longrightarrow> chn = 0 \<and> tcp_conn ci' = tcp_conn ci"
  by (auto simp: start_c2c_connection_def Let_def dest!: transport_conns clnet_allocate_conns split: bind_splits if_splits sum.splits prod.splits)

subsection \<open>Transactions\<close>

lemma response_step_core [core_keeps]:
  "response_step L g ci request response w = Some (v, ci', request', response', w') \<Longrightarrow> core ci' = core ci"
  by (auto simp: response_step_def Let_def dest!: recv_buffer_core read_challenge_core split: bind_splits if_splits)

lemma response_loop_core [core_keeps]:
  fixes L :: "('w, 'c) lib"
  assumes "response_loop L g ci request response w = Some (v, ci', request', response', w')"
  shows "core ci' = core ci"
proof -
  define P where "P L g ci request response w x \<longleftrightarrow> core (fst (snd x)) = core ci"
    for L :: "('w, 'c) lib" and g :: settings and ci :: app_ur_conn_info and request response :: stun_buffer and w :: 'w
      and x :: "verdict \<times> app_ur_conn_info \<times> stun_buffer \<times> stun_buffer \<times> 'w"
  have "P L g ci request response w (v, ci', request', response', w')"
    by (rule response_loop.raw_induct [where P = P, OF _ assms]) (fastforce simp: P_def dest: response_step_core split: bind_splits option.splits)
  then show ?thesis
    by (simp add: P_def)
qed

lemma transact_core:
  fixes L :: "('w, 'c) lib"
    and try_it :: "'s \<Rightarrow> app_ur_conn_info \<Rightarrow> stun_buffer \<Rightarrow> 'w \<Rightarrow> (('r + unit) \<times> 's \<times> app_ur_conn_info \<times> stun_buffer \<times> 'w) option"
  assumes "transact L g try_it s ci request response w = Some (x, s', ci', w')"
    and "\<And>s ci b w x s' ci' b' w'. try_it s ci b w = Some (x, s', ci', b', w') \<Longrightarrow> core ci' = core ci"
  shows "core ci' = core ci"
proof -
  define P where "P L g try_it s ci request response w z \<longleftrightarrow>
      ((\<forall>s ci b w x s' ci' b' w'. try_it s ci b w = Some (x, s', ci', b', w') \<longrightarrow> core ci' = core ci) \<longrightarrow> core (fst (snd (snd z))) = core ci)"
    for L :: "('w, 'c) lib" and g :: settings
      and try_it :: "'s \<Rightarrow> app_ur_conn_info \<Rightarrow> stun_buffer \<Rightarrow> 'w \<Rightarrow> (('r + unit) \<times> 's \<times> app_ur_conn_info \<times> stun_buffer \<times> 'w) option"
      and s :: 's and ci :: app_ur_conn_info and request response :: stun_buffer and w :: 'w
      and z :: "('r + verdict) \<times> 's \<times> app_ur_conn_info \<times> 'w"
  have "P L g try_it s ci request response w (x, s', ci', w')"
  proof (rule transact.raw_induct [where P = P, OF _ assms(1)])
    fix f L g try_it s ci request response w z
    assume IH: "\<And>L g try_it s ci request response w z. f L g try_it s ci request response w = Some z
        \<Longrightarrow> P L g try_it s ci request response w z"
      and eq: "do {
        (x, s, ci, request, w) \<leftarrow> try_it s ci request w;
        case x of Inl r \<Rightarrow> Some (Inl r, s, ci, w)
        | Inr _ \<Rightarrow> do {
            (v, ci, request, response, w) \<leftarrow> response_loop L g ci request response w;
            case v of Challenged \<Rightarrow> f L g try_it s ci request response w | _ \<Rightarrow> Some (Inr v, s, ci, w) } } = Some z"
    then obtain y s1 ci1 b1 w1 where t: "try_it s ci request w = Some (y, s1, ci1, b1, w1)"
      by (auto split: bind_splits)
    show "P L g try_it s ci request response w z"
    proof (cases y)
      case (Inl r)
      then show ?thesis
        using eq t unfolding P_def by fastforce
    next
      case (Inr u)
      then obtain v ci2 b2 r2 w2 where r: "response_loop L g ci1 b1 response w1 = Some (v, ci2, b2, r2, w2)"
        using eq t by (auto split: bind_splits)
      show ?thesis
      proof (cases "v = Challenged")
        case True
        then have "f L g try_it s1 ci2 b2 r2 w2 = Some z"
          using eq t Inr r by simp
        from IH [OF this] show ?thesis
          using t response_loop_core [OF r] unfolding P_def by metis
      next
        case False
        then have "z = (Inr v, s1, ci2, w2)"
          using eq t Inr r by (cases v) simp_all
        then show ?thesis
          using t response_loop_core [OF r] unfolding P_def by fastforce
      qed
    qed
  qed
  then show ?thesis
    using assms(2) unfolding P_def by (metis fst_conv snd_conv)
qed

lemma turn_channel_bind_core [core_keeps]:
  "turn_channel_bind L g chn ci peer w = Some (r, chn', ci', w') \<Longrightarrow> core ci' = core ci"
  by (auto simp: turn_channel_bind_def split: bind_splits elim!: transact_core)
     (auto simp: bind_attempt_def Let_def dest!: finish_request_core send_buffer_core split: bind_splits if_splits prod.splits)

lemma turn_create_permission_core [core_keeps]:
  "turn_create_permission L g ci peers w = Some (r, ci', w') \<Longrightarrow> core ci' = core ci"
  by (auto simp: turn_create_permission_def split: bind_splits if_splits elim!: transact_core)
     (auto simp: perm_attempt_def Let_def dest!: finish_request_core send_buffer_core split: bind_splits if_splits prod.splits)

lemma arb_bindings_core [core_keeps]: "arb_bindings L g n a ci w = Some (ci', w') \<Longrightarrow> core ci' = core ci"
  by (induction n arbitrary: a ci w) (auto simp: Let_def dest!: turn_channel_bind_core split: bind_splits prod.splits)

lemma extra_core [core_keeps]:
  "extra_bindings L g ci w = Some (ci', w') \<Longrightarrow> core ci' = core ci"
  "extra_permissions L g ci w = Some (x, ci', w') \<Longrightarrow> core ci' = core ci"
  by (auto simp: extra_bindings_def extra_permissions_def Let_def dest!: arb_bindings_core turn_create_permission_core
      split: bind_splits if_splits prod.splits)

lemma bind_channel_core [core_keeps]: "bind_channel L g peer ci w = Some (x, ci', w') \<Longrightarrow> core ci' = core ci"
  by (auto simp: bind_channel_def Let_def dest!: turn_channel_bind_core extra_core split: bind_splits if_splits prod.splits)

lemma permit_peer_core [core_keeps]: "permit_peer L g peer ci w = Some (x, ci', w') \<Longrightarrow> core ci' = core ci"
  by (auto simp: permit_peer_def dest!: turn_create_permission_core split: bind_splits if_splits sum.splits prod.splits)

lemma bind_permission_core [core_keeps]: "bind_permission L g peer ci w = Some (x, ci', w') \<Longrightarrow> core ci' = core ci"
  by (auto simp: bind_permission_def Let_def dest!: permit_peer_core extra_core split: bind_splits if_splits sum.splits prod.splits)

lemma bind_real_core [core_keeps]: "bind_real L g st address port ci w = Some (x, st', ci', w') \<Longrightarrow> core ci' = core ci"
  by (auto simp: bind_real_def Let_def dest!: bind_channel_core bind_permission_core split: bind_splits if_splits)

subsection \<open>What a session keeps\<close>

definition shape :: "app_ur_session \<Rightarrow> u16 \<times> UR_STATE \<times> app_tcp_conn_info option list" where
  "shape e = (chnum e, ur_state e, tcp_conn (pinfo e))"

definition counters :: "app_ur_session \<Rightarrow> int \<times> int \<times> u64" where
  "counters e = (rmsgnum e, recvmsgnum e, loss e)"

lemma shape_updates [simp]:
  "shape (e\<lparr>in_buffer := b\<rparr>) = shape e" "shape (e\<lparr>refresh_time := t\<rparr>) = shape e" "shape (e\<lparr>wait_cycles := n\<rparr>) = shape e"
  "shape (e\<lparr>rmsgnum := k\<rparr>) = shape e" "shape (e\<lparr>recvmsgnum := k\<rparr>) = shape e" "shape (e\<lparr>recvtimems := t\<rparr>) = shape e"
  "shape (e\<lparr>loss := l\<rparr>) = shape e" "tcp_conn ci = tcp_conn (pinfo e) \<Longrightarrow> shape (e\<lparr>pinfo := ci\<rparr>) = shape e"
  by (simp_all add: shape_def)

lemma counters_updates [simp]:
  "counters (e\<lparr>in_buffer := b\<rparr>) = counters e" "counters (e\<lparr>refresh_time := t\<rparr>) = counters e" "counters (e\<lparr>pinfo := ci\<rparr>) = counters e"
  "counters (e\<lparr>wait_cycles := n\<rparr>) = counters e" "counters (e\<lparr>recvtimems := t\<rparr>) = counters e"
  by (simp_all add: counters_def)

lemma refresh_parts_conns:
  "refresh_session L g ci lt b w = Some (r, ci', b', w') \<Longrightarrow> tcp_conn ci' = tcp_conn ci"
  "refresh_permission L g ci b w = Some (r, ci', b', w') \<Longrightarrow> tcp_conn ci' = tcp_conn ci"
  "refresh_binding L g ci chn b w = Some (r, ci', b', w') \<Longrightarrow> tcp_conn ci' = tcp_conn ci"
  by (auto simp: refresh_session_def refresh_permission_def refresh_binding_def Let_def dest!: transport_conns
      split: bind_splits if_splits prod.splits)

lemma refresh_channel_shape:
  "refresh_channel L g now e m lt w = Some (r, e', w') \<Longrightarrow> shape e' = shape e \<and> counters e' = counters e \<and> in_buffer e' = in_buffer e"
  by (auto simp: refresh_channel_def Let_def dest!: refresh_parts_conns split: bind_splits if_splits)

lemma read_success_shape: "read_success L g rc e = Some (r, e') \<Longrightarrow> shape e' = shape e \<and> counters e' = counters e"
  by (auto simp: read_success_def Let_def split: bind_splits if_splits)

lemma read_challenged_shape: "read_challenged L g rc e w = Some (r, e', w') \<Longrightarrow> shape e' = shape e \<and> counters e' = counters e"
  by (auto simp: read_challenged_def dest!: refresh_channel_shape split: bind_splits if_splits)

lemma challenge_shape:
  "read_challenge L (pinfo e) b = Some (x, ci, y, z) \<Longrightarrow> shape (e\<lparr>pinfo := ci\<rparr>) = shape e \<and> counters (e\<lparr>pinfo := ci\<rparr>) = counters e"
  by (auto dest: transport_conns)

lemma read_other_shape:
  assumes "read_other L g rc e w = Some (x, e', w')"
  shows "shape e' = shape e \<and> counters e' = counters e"
proof -
  obtain a ci y z where c: "read_challenge L (pinfo e) (in_buffer e) = Some (a, ci, y, z)"
    using assms by (auto simp: read_other_def Let_def split: bind_splits)
  then show ?thesis
    using assms challenge_shape [OF c] by (auto simp: read_other_def Let_def dest!: read_challenged_shape split: bind_splits if_splits)
qed

lemma read_message_shape: "read_message L g rc tcp e w = Some (x, e', w') \<Longrightarrow> shape e' = shape e \<and> counters e' = counters e"
  by (auto simp: read_message_def dest!: read_success_shape read_other_shape split: bind_splits if_splits)

lemma count_message_shape: "count_message x e = Some e' \<Longrightarrow> shape e' = shape e"
  by (auto simp: count_message_def split: bind_splits prod.splits option.splits)

lemma client_read_shape: "client_read L g e tcp atc w = Some (rc, e', w') \<Longrightarrow> shape e' = shape e"
  by (auto simp: client_read_def Let_def dest!: transport_conns read_message_shape count_message_shape split: bind_splits if_splits sum.splits)

lemma read_loop_shape:
  fixes L :: "('w, 'c) lib"
  assumes "read_loop L g fd e w = Some (e', w')"
  shows "shape e' = shape e"
proof -
  define P where "P L g fd e w z \<longleftrightarrow> shape (fst z) = shape e"
    for L :: "('w, 'c) lib" and g :: settings and fd :: int and e :: app_ur_session and w :: 'w and z :: "app_ur_session \<times> 'w"
  have "P L g fd e w (e', w')"
    by (rule read_loop.raw_induct [where P = P, OF _ assms])
       (fastforce simp: P_def Let_def dest: client_read_shape split: bind_splits if_splits)
  then show ?thesis
    by (simp add: P_def)
qed

subsection \<open>Reachable states\<close>

text \<open>
  The states of a client that was started: the application may bind it to peers, and the event loop may call the handler, with any
  system in between.
\<close>

inductive reachable :: "('w, 'c) lib \<Rightarrow> settings \<Rightarrow> client \<Rightarrow> bool" for L g where
  started: "start_p2p_client L g cl block ra port ifn la w = Some (Inr (), cl', w') \<Longrightarrow> elems cl' \<noteq> None \<Longrightarrow> reachable L g cl'"
| bound: "reachable L g cl \<Longrightarrow> bind_client L g cl address port w = Some (Inr (), cl', w') \<Longrightarrow> reachable L g cl'"
| handled: "reachable L g cl \<Longrightarrow> elems cl = Some arg \<Longrightarrow> client_input_handler L g fd ev arg w = Some (arg', w')
    \<Longrightarrow> reachable L g (cl\<lparr>elems := Some arg'\<rparr>)"

definition session_ok :: "client \<Rightarrow> bool" where
  "session_ok cl \<longleftrightarrow> (case elems cl of Some (Some e) \<Rightarrow> shape e = (0, UR_STATE_READY, []) | _ \<Rightarrow> False)"

lemma new_session:
  "create_new_ss block = Some ss \<Longrightarrow> tcp_conn (pinfo ss) = []"
  by (auto simp: create_new_ss_def init_app_session_def zero_session_def)

lemma start_client_ok:
  "start_client L g cl block ra port ifn la w = Some (Inr r, cl', w') \<Longrightarrow> \<not> r < 0 \<Longrightarrow> session_ok cl'"
  by (auto simp: start_client_def enter_session_def Let_def session_ok_def dest!: new_session start_connection_conns refresh_channel_shape
      split: bind_splits if_splits sum.splits prod.splits) (simp_all add: shape_def)

lemma start_c2c_ok:
  "start_c2c L g cl block ra port ifn la w = Some (Inr r, cl', w') \<Longrightarrow> session_ok cl'"
  by (auto simp: start_c2c_def enter_session_def Let_def session_ok_def dest!: new_session start_c2c_connection_conns
      split: bind_splits if_splits sum.splits prod.splits) (simp_all add: shape_def)

lemma start_p2p_ok:
  assumes "start_p2p_client L g cl block ra port ifn la w = Some (Inr (), cl', w')" and "elems cl' \<noteq> None"
  shows "session_ok cl'"
proof -
  have "client_count g = 1" if "\<not> c2c g" "no_rtcp g"
    using that by (simp add: client_count_def)
  then show ?thesis
    using assms unfolding start_p2p_client_def Let_def
    by (auto dest!: start_client_ok start_c2c_ok split: bind_splits if_splits sum.splits)
qed

lemma bind_client_ok: "session_ok cl \<Longrightarrow> bind_client L g cl address port w = Some (x, cl', w') \<Longrightarrow> session_ok cl'"
  by (auto simp: bind_client_def session_ok_def dest!: bind_real_core [THEN core_conns] split: bind_splits option.splits)

lemma handler_ok:
  "session_ok cl \<Longrightarrow> elems cl = Some arg \<Longrightarrow> client_input_handler L g fd ev arg w = Some (arg', w') \<Longrightarrow> session_ok (cl\<lparr>elems := Some arg'\<rparr>)"
  by (auto simp: client_input_handler_def session_ok_def dest!: read_loop_shape split: bind_splits if_splits option.splits)

lemma reachable_ok: "reachable L g cl \<Longrightarrow> session_ok cl"
  by (induction rule: reachable.induct) (blast intro: start_p2p_ok bind_client_ok handler_ok)+

subsection \<open>What is counted\<close>

text \<open>The data of a DATA indication, of the length that the client sends itself, and the number it begins with.\<close>

definition data_message :: "settings \<Rightarrow> stun_buffer \<Rightarrow> int \<Rightarrow> bool" where
  "data_message g b n \<longleftrightarrow> stun_is_indication (Some b) = Some True \<and> stun_get_method b = Some STUN_METHOD_DATA
     \<and> (\<exists>p. stun_attr_get_first_by_type b STUN_ATTRIBUTE_DATA = Some (Some p)
          \<and> stun_attr_get_len (buf b) (Some p) = Some (clmessage_length g) \<and> message_info (buf b) (p + 4) = Some n)"

lemma read_indication_data:
  assumes "read_indication g b = Some (Some n)" and "stun_is_indication (Some b) = Some True"
  shows "data_message g b n"
proof -
  obtain p q where p: "stun_attr_get_first_by_type b STUN_ATTRIBUTE_DATA = Some (Some p)"
    "stun_attr_get_len (buf b) (Some p) = Some (clmessage_length g)" "stun_attr_get_value (buf b) (Some p) = Some (Some q)"
    "message_info (buf b) q = Some n" "stun_get_method b = Some STUN_METHOD_DATA"
    using assms(1) by (auto simp: read_indication_def split: bind_splits if_splits)
  then have "q = p + 4"
    by (auto simp: stun_attr_get_value_def Let_def split: bind_splits if_splits)
  then show ?thesis
    using p assms(2) by (auto simp: data_message_def)
qed

lemma channel_number_valid:
  assumes "stun_is_channel_message (Some b) (Some x) pad = Some (True, b', Some chn)"
  shows "STUN_VALID_CHANNEL chn"
proof -
  obtain l where "stun_is_channel_message_str (buf b) (Some (len b)) (Some x) pad = Some (True, l, Some chn)"
    using assms by (auto simp: stun_is_channel_message_def split: bind_splits)
  then show ?thesis
    by (fastforce simp: stun_is_channel_message_str_def Let_def bind_eq_Some_conv split: if_splits)
qed

lemma read_channel_uncounted: "chnum e = 0 \<Longrightarrow> STUN_VALID_CHANNEL chn \<Longrightarrow> read_channel g rc chn e = Some (Inl rc)"
  by (cases "chn = 0") (simp_all add: read_channel_def STUN_VALID_CHANNEL_def)

lemma read_other_uncounted:
  assumes "read_other L g rc e w = Some (x, e', w')" and "chnum e = 0"
  shows "\<exists>r. x = Inl r"
proof -
  obtain a ci y z where c: "read_challenge L (pinfo e) (in_buffer e) = Some (a, ci, y, z)"
    using assms(1) by (auto simp: read_other_def Let_def split: bind_splits)
  have u: "read_channel g rc chn (e\<lparr>pinfo := ci, in_buffer := b\<rparr>) = Some (Inl rc)"
    if "stun_is_channel_message (Some (in_buffer e)) (Some 0) (use_tcp g) = Some (True, b', Some chn)" for b b' chn
    by (rule read_channel_uncounted [OF _ channel_number_valid [OF that]]) (simp add: assms(2))
  show ?thesis
    using assms(1) unfolding read_other_def Let_def c bind.bind_lunit prod.case
    by (auto simp: bind_eq_Some_conv u split: if_splits)
qed

lemma read_message_counted:
  assumes "read_message L g rc False e w = Some (Inr x, e', w')" and "chnum e = 0"
  shows "\<exists>n. x = (Some n, 1) \<and> e' = e \<and> data_message g (in_buffer e) n"
proof (cases "stun_is_indication (Some (in_buffer e)) = Some True")
  case True
  then obtain y where "read_indication g (in_buffer e) = Some y" "(case y of None \<Rightarrow> Inl rc | Some n \<Rightarrow> Inr (Some n, 1)) = Inr x" "e' = e"
    using assms(1) by (auto simp: read_message_def bind_eq_Some_conv)
  then show ?thesis
    using read_indication_data [OF _ True] by (cases y) auto
next
  case False
  then have "read_other L g rc e w = Some (Inr x, e', w')"
    using assms(1) by (auto simp: read_message_def bind_eq_Some_conv split: if_splits)
  from read_other_uncounted [OF this assms(2)] show ?thesis
    by simp
qed

lemma ucast_word_of_int: "ucast (word_of_int k :: u64) = (word_of_int k :: u32)"
  by transfer (simp add: take_bit_take_bit)

lemma client_read_counts:
  assumes "client_read L g e False None w = Some (rc, e', w')" and "chnum e = 0"
  shows "counters e' = counters e
    \<or> data_message g (in_buffer e') (recvmsgnum e') \<and> rmsgnum e' = sint (word_of_int (rmsgnum e) + 1 :: u32)
      \<and> loss e' = loss e + (if recvmsgnum e' = recvmsgnum e + 1 then 0 else 1)"
proof (cases "ur_state e = UR_STATE_READY")
  case True
  then obtain n ci b req w1 where r: "recv_buffer L g (pinfo e) (in_buffer e) False False None None w = Some (n, ci, b, req, w1)"
    using assms(1) by (auto simp: client_read_def split: bind_splits)
  let ?e = "e\<lparr>pinfo := ci, in_buffer := b\<lparr>len := nat n\<rparr>\<rparr>"
  show ?thesis
  proof (cases "0 < n")
    case pos: True
    then obtain x e1 w2 where m: "read_message L g n False ?e w1 = Some (x, e1, w2)"
      using assms(1) True r by (auto simp: client_read_def Let_def split: bind_splits)
    show ?thesis
    proof (cases x)
      case (Inl k)
      then show ?thesis
        using assms(1) True r pos m read_message_shape [OF m] by (simp add: client_read_def Let_def)
    next
      case (Inr y)
      have "chnum ?e = 0"
        using assms(2) by simp
      with read_message_counted [OF m [unfolded Inr]] obtain k where k: "y = (Some k, 1)" "e1 = ?e" "data_message g (b\<lparr>len := nat n\<rparr>) k"
        by auto
      have "ucast (word_of_int (rmsgnum e) + 1 :: u64) = (word_of_int (rmsgnum e) + 1 :: u32)"
        using ucast_word_of_int [of "rmsgnum e + 1"] by simp
      then show ?thesis
        using assms(1) True r pos m Inr k
        by (auto simp: client_read_def Let_def count_message_def c_int_def split: bind_splits if_splits)
    qed
  qed (use assms(1) True r in \<open>auto simp: client_read_def Let_def\<close>)
qed (use assms(1) in \<open>simp add: client_read_def\<close>)

text \<open>C33: In every state that a started client reaches, the session is ready and its channel number is still 0, so that only DATA
  indications with data of the expected length are counted: every ChannelData message is dropped, although \<open>bind_client\<close> may have
  bound a channel.\<close>

theorem only_data_counted:
  assumes "reachable L g cl"
  shows "\<exists>e. elems cl = Some (Some e) \<and> ur_state e = UR_STATE_READY \<and> chnum e = 0 \<and> data_connection fd (tcp_conn (pinfo e)) = None
    \<and> (\<forall>M rc e' w' w. client_read M g e False None w = Some (rc, e', w') \<longrightarrow> counters e' = counters e
        \<or> data_message g (in_buffer e') (recvmsgnum e') \<and> rmsgnum e' = sint (word_of_int (rmsgnum e) + 1 :: u32)
          \<and> loss e' = loss e + (if recvmsgnum e' = recvmsgnum e + 1 then 0 else 1))"
proof -
  obtain e where e: "elems cl = Some (Some e)" "shape e = (0, UR_STATE_READY, [])"
    using reachable_ok [OF assms] by (auto simp: session_ok_def split: option.splits)
  then have "chnum e = 0"
    by (simp add: shape_def)
  note c = client_read_counts [OF _ this]
  have "data_connection fd (tcp_conn (pinfo e)) = None"
    using e(2) by (simp add: shape_def data_connection_def)
  then show ?thesis
    using e by (intro exI [of _ e] conjI allI impI c) (simp_all add: shape_def)
qed

subsection \<open>A run of the handler\<close>

text \<open>A datagram that is a DATA indication with data of the expected length, which begins with the number \<open>n\<close>.\<close>

definition data_datagram :: "settings \<Rightarrow> mem \<Rightarrow> int \<Rightarrow> bool" where
  "data_datagram g bs n \<longleftrightarrow> (\<exists>ck t as v k. stun_msg bs (length bs) (stun_make_indication STUN_METHOD_DATA) ck t as
     \<and> find (\<lambda>(ty, v). ty = STUN_ATTRIBUTE_DATA) as = Some (STUN_ATTRIBUTE_DATA, v) \<and> int (length v) = clmessage_length g
     \<and> rd32 v 0 = Some k \<and> n = sint k)"

text \<open>Datagrams with the given numbers wait in the socket, and nothing after them.\<close>

fun delivers :: "('w, 'c) lib \<Rightarrow> settings \<Rightarrow> int \<Rightarrow> int list \<Rightarrow> 'w \<Rightarrow> 'w \<Rightarrow> bool" where
  "delivers L g fd [] w w' \<longleftrightarrow> (\<exists>n bs. os_recv (l_os L) fd 65506 w = (n, bs, w') \<and> n < 0 \<and> os_errno (l_os L) w' \<noteq> EINTR)"
| "delivers L g fd (n # ns) w w' \<longleftrightarrow> (\<exists>bs w1. os_recv (l_os L) fd 65506 w = (int (length bs), bs, w1) \<and> data_datagram g bs n
     \<and> delivers L g fd ns w1 w')"

text \<open>The numbers that do not follow their predecessor.\<close>

fun gaps :: "int \<Rightarrow> int list \<Rightarrow> nat" where
  "gaps k [] = 0"
| "gaps k (n # ns) = (if n = k + 1 then 0 else 1) + gaps n ns"

text \<open>A session over UDP that can read.\<close>

definition listening :: "settings \<Rightarrow> app_ur_session \<Rightarrow> bool" where
  "listening g e \<longleftrightarrow> \<not> use_tcp g \<and> \<not> use_secure g \<and> ur_state e = UR_STATE_READY \<and> 0 \<le> ci_fd (pinfo e) \<and> tcp_conn (pinfo e) = []
     \<and> length (buf (in_buffer e)) = 65507"

lemma udp_receives:
  assumes "os_recv (l_os L) (ci_fd ci) 65506 w = (n, bs, w1)" and "\<not> use_tcp g" and "\<not> use_secure g" and "0 \<le> ci_fd ci"
    and "0 \<le> n \<or> os_errno (l_os L) w1 \<noteq> EINTR"
  shows "recv_buffer L g ci b False False None None w = (if n < 0 then Some (-1, ci, b, None, w1)
    else do { m \<leftarrow> wrn (buf b) 0 bs; Some (n, ci, b\<lparr>buf := m, len := nat n\<rparr>, None, w1) })"
proof -
  have "sync_read L False (os_recv (l_os L) (ci_fd ci) 65506) w = Some ((n, bs), w1)"
    unfolding sync_read_def by (rule retry_once) (use assms in auto)
  then show ?thesis
    using assms(2-4) by (subst recv_buffer_def) (auto simp: recv_again.simps recv_step_def recv_once_def udp_recv_def split: bind_splits)
qed

lemma data_message_of_datagram:
  assumes "data_datagram g bs n" and "16 \<le> clmessage_length g" and "buf b = bs @ x" and "len b = length bs"
  shows "stun_is_indication (Some b) = Some True \<and> read_indication g b = Some (Some n) \<and> 20 \<le> length bs \<and> length bs < 65507"
proof -
  obtain ck t as v k where m: "stun_msg bs (length bs) (stun_make_indication STUN_METHOD_DATA) ck t as"
    and v: "find (\<lambda>(ty, v). ty = STUN_ATTRIBUTE_DATA) as = Some (STUN_ATTRIBUTE_DATA, v)" "int (length v) = clmessage_length g"
      "rd32 v 0 = Some k" "n = sint k"
    using assms(1) unfolding data_datagram_def by blast
  have b: "stun_msg (buf b) (len b) (stun_make_indication STUN_METHOD_DATA) ck t as"
    using stun_msg_overlay [OF m] assms(3,4) by simp
  obtain p where p: "stun_attr_get_first_by_type_str (buf b) (len b) STUN_ATTRIBUTE_DATA = Some (Some p)"
    "stun_attr_get_len (buf b) (Some p) = Some (int (length v))" "stun_attr_get_value (buf b) (Some p) = Some (if v = [] then None else Some (p + 4))"
    "take (length v) (drop (p + 4) (buf b)) = v" "p + 4 + length v \<le> length (buf b)"
    by (rule found_access [OF b v(1)])
  have l: "16 \<le> length v"
    using v(2) assms(2) by simp
  have nth: "buf b ! (p + 4 + i) = v ! i" if "i < length v" for i
    using that arg_cong [OF p(4), of "\<lambda>xs. xs ! i"] p(5) by simp
  have "0 < length v" "1 < length v" "2 < length v" "3 < length v" "p + 4 + 4 \<le> length (buf b)" "0 + 4 \<le> length v"
    using l p(5) by linarith+
  then have "rd32 (buf b) (p + 4) = rd32 v 0"
    using nth [of 0] nth [of 1] nth [of 2] nth [of 3] by (simp only: rd32_def add_0 add_0_right if_True)
  then have "rd32 (buf b) (p + 4) = Some k"
    using v(3) by simp
  then have "message_info (buf b) (p + 4) = Some n"
    using p(5) l v(4) by (simp add: message_info_def rdn_def)
  moreover have "stun_get_method b = Some STUN_METHOD_DATA" "stun_is_indication (Some b) = Some True"
    using stun_msg_view [OF b] stun_msg_len(3) [OF b]
    by (simp_all add: stun_get_method_def stun_is_indication_def is_channel_msg_def stun_get_msg_type_def type_method_make class_make
        class_defs make_fits)
  moreover have "v \<noteq> []"
    using l by auto
  ultimately show ?thesis
    using p(1-3) v(2) stun_msg_len(3,4) [OF m] by (simp add: read_indication_def stun_attr_get_first_by_type_def)
qed

lemma data_read:
  assumes "listening g e" and "16 \<le> clmessage_length g" and "- 1 \<le> recvmsgnum e" and "recvmsgnum e < 2 ^ 31 - 1"
    and "os_recv (l_os L) (ci_fd (pinfo e)) 65506 w = (int (length bs), bs, w1)" and "data_datagram g bs n"
  shows "\<exists>e'. client_read L g e False None w = Some (int (length bs), e', w1) \<and> 0 < length bs \<and> listening g e' \<and> pinfo e' = pinfo e
    \<and> counters e' = (sint (word_of_int (rmsgnum e) + 1 :: u32), n, loss e + (if n = recvmsgnum e + 1 then 0 else 1))"
proof -
  let ?b = "(in_buffer e)\<lparr>buf := bs @ drop (length bs) (buf (in_buffer e)), len := length bs\<rparr>"
  note d = data_message_of_datagram [OF assms(6,2), of ?b]
  have l: "length bs < 65507" "20 \<le> length bs" "bs \<noteq> []"
    using d by auto
  have r: "recv_buffer L g (pinfo e) (in_buffer e) False False None None w = Some (int (length bs), pinfo e, ?b, None, w1)"
    using udp_receives [OF assms(5)] assms(1) l by (simp add: listening_def wrn_def)
  let ?e = "e\<lparr>in_buffer := ?b\<rparr>"
  have m: "read_message L g (int (length bs)) False ?e w1 = Some (Inr (Some n, 1), ?e, w1)"
    using d by (simp add: read_message_def)
  have w: "ucast (word_of_int (rmsgnum e) + 1 :: u64) = (word_of_int (rmsgnum e) + 1 :: u32)"
    using ucast_word_of_int [of "rmsgnum e + 1"] by simp
  have c: "c_int (recvmsgnum e + 1) = Some (recvmsgnum e + 1)"
    using assms(3,4) by (simp add: c_int_def)
  let ?e' = "?e\<lparr>loss := if n \<noteq> recvmsgnum e + 1 then loss e + 1 else loss e, recvmsgnum := n,
    rmsgnum := sint (word_of_int (rmsgnum e) + 1 :: u32), recvtimems := ucast current_mstime, wait_cycles := 0\<rparr>"
  have same: "e\<lparr>pinfo := pinfo e, in_buffer := b\<rparr> = e\<lparr>in_buffer := b\<rparr>" for b
    by (cases e) simp
  have "client_read L g e False None w = Some (int (length bs), ?e', w1)"
    using assms(1) r m l w c by (simp add: client_read_def listening_def count_message_def same)
  moreover have "listening g ?e'"
    using assms(1) l by (simp add: listening_def)
  ultimately show ?thesis
    using l by (intro exI [of _ ?e']) (auto simp: counters_def)
qed

lemma nothing_to_read:
  assumes "listening g e" and "os_recv (l_os L) (ci_fd (pinfo e)) 65506 w = (n, bs, w1)" and "n < 0" and "os_errno (l_os L) w1 \<noteq> EINTR"
  shows "client_read L g e False None w = Some (-1, e, w1)"
proof -
  have same: "e\<lparr>pinfo := pinfo e, in_buffer := in_buffer e\<rparr> = e"
    by (cases e) simp
  have "recv_buffer L g (pinfo e) (in_buffer e) False False None None w = Some (-1, pinfo e, in_buffer e, None, w1)"
    using udp_receives [OF assms(2)] assms by (simp add: listening_def)
  then show ?thesis
    using assms(1) by (simp add: client_read_def listening_def same)
qed

lemma handler_reads:
  assumes "listening g e" and "16 \<le> clmessage_length g" and "delivers L g (ci_fd (pinfo e)) ns w w'"
    and "list_all (\<lambda>n. 0 \<le> n \<and> n < 2 ^ 31 - 1) ns" and "- 1 \<le> recvmsgnum e" and "recvmsgnum e < 2 ^ 31 - 1"
  shows "\<exists>e'. read_loop L g fd e w = Some (e', w') \<and> (word_of_int (rmsgnum e') :: u32) = word_of_int (rmsgnum e) + of_nat (length ns)
    \<and> recvmsgnum e' = last (recvmsgnum e # ns) \<and> loss e' = loss e + of_nat (gaps (recvmsgnum e) ns)"
  using assms
proof (induction ns arbitrary: e w)
  case Nil
  then obtain n bs where r: "os_recv (l_os L) (ci_fd (pinfo e)) 65506 w = (n, bs, w')" "n < 0" "os_errno (l_os L) w' \<noteq> EINTR"
    by auto
  have "data_connection fd (tcp_conn (pinfo e)) = None"
    using Nil(1) by (simp add: listening_def data_connection_def)
  then have "read_loop L g fd e w = Some (e, w')"
    using nothing_to_read [OF Nil(1) r] by (subst read_loop.simps) simp
  then show ?case
    by simp
next
  case (Cons n ns)
  then obtain bs w1 where r: "os_recv (l_os L) (ci_fd (pinfo e)) 65506 w = (int (length bs), bs, w1)" "data_datagram g bs n"
    "delivers L g (ci_fd (pinfo e)) ns w1 w'"
    by auto
  obtain e1 where e1: "client_read L g e False None w = Some (int (length bs), e1, w1)" "0 < length bs" "listening g e1" "pinfo e1 = pinfo e"
    "counters e1 = (sint (word_of_int (rmsgnum e) + 1 :: u32), n, loss e + (if n = recvmsgnum e + 1 then 0 else 1))"
    using data_read [OF Cons.prems(1,2,5,6) r(1,2)] by blast
  have "data_connection fd (tcp_conn (pinfo e)) = None"
    using Cons.prems(1) by (simp add: listening_def data_connection_def)
  then have step: "read_loop L g fd e w = read_loop L g fd e1 w1"
    using e1(1,2) by (subst read_loop.simps) simp
  have n: "recvmsgnum e1 = n" "rmsgnum e1 = sint (word_of_int (rmsgnum e) + 1 :: u32)"
    "loss e1 = loss e + (if n = recvmsgnum e + 1 then 0 else 1)"
    using e1(5) by (simp_all add: counters_def)
  have "\<exists>e'. read_loop L g fd e1 w1 = Some (e', w') \<and> (word_of_int (rmsgnum e') :: u32) = word_of_int (rmsgnum e1) + of_nat (length ns)
      \<and> recvmsgnum e' = last (recvmsgnum e1 # ns) \<and> loss e' = loss e1 + of_nat (gaps (recvmsgnum e1) ns)"
    by (rule Cons.IH) (use Cons.prems r(3) e1(3,4) n in auto)
  then show ?case
    using step n by (auto simp: ac_simps)
qed

text \<open>C34: When numbered DATA messages wait in the socket of a session over UDP, one call of the event handler reads them all and
  returns: the number of messages is added, the last number is kept, and the loss grows by the number of gaps.\<close>

theorem handler_counts_gaps:
  assumes "listening g e" and "16 \<le> clmessage_length g" and "delivers L g (ci_fd (pinfo e)) ns w w'"
    and "list_all (\<lambda>n. 0 \<le> n \<and> n < 2 ^ 31 - 1) ns" and "- 1 \<le> recvmsgnum e" and "recvmsgnum e < 2 ^ 31 - 1"
  shows "\<exists>e'. client_input_handler L g fd True (Some e) w = Some (Some e', w')
    \<and> (word_of_int (rmsgnum e') :: u32) = word_of_int (rmsgnum e) + of_nat (length ns)
    \<and> recvmsgnum e' = last (recvmsgnum e # ns) \<and> loss e' = loss e + of_nat (gaps (recvmsgnum e) ns)"
  using handler_reads [OF assms, of fd] assms(1) by (auto simp: client_input_handler_def listening_def)

text \<open>The number after the largest one overflows: the next message leaves the defined behaviour of C.\<close>

lemma largest_number_overflows: "recvmsgnum e = 2 ^ 31 - 1 \<Longrightarrow> count_message (Some n, k) e = None"
  by (simp add: count_message_def c_int_def)

subsection \<open>A connection that was started\<close>

lemma clnet_allocate_result:
  assumes "clnet_allocate L g st ci relay_addr af alt w = Some (Inr m, st', ci', relay_addr', alt', w')"
    and "\<not> negative_protocol_test g" and "\<not> dos g"
  shows "m = 0 \<or> m = -1"
proof -
  let ?v = "\<lparr>a_ci = ci, a_st = st, a_relay = relay_addr, a_alt = alt, a_request = l_buffer L, a_response = l_buffer L, a_reopen = False\<rparr>"
  obtain x v1 w1 where l: "alloc_loop L g af 32 ?v w = Some (x, v1, w1)"
    using assms(1) by (auto simp: clnet_allocate_def alloc_all_def split: bind_splits)
  have f: "\<forall>r. x = AReturn r \<longrightarrow> r = -1"
    using alloc_loop_fair [OF l] assms(3) by (simp add: fair_def)
  show ?thesis
  proof (cases "x = Finished")
    case True
    then obtain y v2 where t: "alloc_tail L g v1 w1 = Some (y, v2, w')" "(case y of AExit e \<Rightarrow> Inl e | AReturn r \<Rightarrow> Inr r | _ \<Rightarrow> Inr 0) = Inr m"
      using assms(1,3) l by (auto simp: clnet_allocate_def alloc_all_def rare_event_def split: bind_splits)
    then show ?thesis
      using alloc_tail_finished [OF t(1) assms(2,3)] by (cases y) auto
  next
    case False
    then show ?thesis
      using assms(1,3) l f by (cases x) (auto simp: clnet_allocate_def alloc_all_def rare_event_def)
  qed
qed

text \<open>C35: When \<open>start_connection\<close> reports success, the connection was made, an ALLOCATE request was granted with the relayed address
  that it has now, the allocation was refreshed, and the address of the peer is the one that was set last.\<close>

theorem connection_confirmed:
  assumes "start_connection L g st port ra ifn la ci w = Some (Inr r, chn, st', ci', w')" and "0 \<le> r"
    and "\<not> negative_protocol_test g" and "\<not> dos g"
  shows "(\<exists>ra1 ci1 w1. STRCPY 1025 ra = Some ra1 \<and> clnet_connect L g (mCB st) port ra1 ifn la ci w = Some (Inr 0, ci1, w1)
      \<and> connected L g port ra1 ifn la ci1)
    \<and> alloc_granted L g (if default_address_family st \<noteq> 0 then default_address_family st else get_allocate_address_family (peer_addr st)) st
        (ci_relay_addr ci')
    \<and> refreshed L g w' \<and> ci_peer_addr ci' = peer_addr st' \<and> chn = 0"
proof -
  let ?af = "if default_address_family st \<noteq> 0 then default_address_family st else get_allocate_address_family (peer_addr st)"
  obtain ra1 k ci1 w1 where c: "STRCPY 1025 ra = Some ra1" "clnet_connect L g (mCB st) port ra1 ifn la ci w = Some (Inr k, ci1, w1)" "0 \<le> k"
    using assms(1,2) by (auto simp: start_connection_def Let_def split: bind_splits sum.splits if_splits)
  have k: "k = 0" "connected L g port ra1 ifn la ci1"
    using connect_loop_connected [OF c(2) [unfolded clnet_connect_def]] c(3) by auto
  note eq = assms(1) [unfolded start_connection_def Let_def c(1) bind.bind_lunit c(2) prod.case sum.case]
  obtain m ci2 rl alt where a: "clnet_allocate L g st ci1 (l_addr L) ?af None w1 = Some (Inr m, st', ci2, rl, alt, w')" "0 \<le> m"
    and ci': "ci' = ci2\<lparr>ci_peer_addr := peer_addr st'\<rparr>" "chn = 0"
    using eq assms(2,4) c(3) by (auto simp: rare_event_def split: bind_splits sum.splits if_splits)
  have "m = 0"
    using clnet_allocate_result [OF a(1) assms(3,4)] a(2) by auto
  with a(1) have "alloc_granted L g ?af st (ci_relay_addr ci2) \<and> refreshed L g w'"
    by (intro allocation_granted [OF _ assms(3,4)]) simp
  then show ?thesis
    using c k ci' by simp
qed

subsection \<open>Witnesses\<close>

text \<open>A client on the system of theory \<open>Turn_Served\<close>, before it is started, and the connection it makes.\<close>

definition sample_client :: client where
  "sample_client = \<lparr>c_st = sample_state, elems = None, buffer_to_send = replicate 65536 0\<rparr>"

definition server_conn :: app_ur_conn_info where
  "server_conn = sample_conn\<lparr>ci_fd := 3, ci_remote_addr := zero_addr\<lparr>sa_family := AF_INET, sin_port := nswap16 3478\<rparr>, ci_local_addr := zero_addr,
     lsaddr := replicate 129 0, rsaddr := replicate 129 0, ifname := replicate 129 0\<rparr>"

lemma server_connects:
  assumes "ci = sample_conn\<lparr>ci_fd := k\<rparr>"
  shows "clnet_connect (server_lib a) (sample_settings\<lparr>c2c := c\<rparr>) None 3478 (replicate 1025 0) [0] [0] ci w = Some (Inr 0, server_conn, w)"
proof -
  let ?g = "sample_settings\<lparr>c2c := c\<rparr>"
  have "replicate 1025 0 = 0 # replicate 1024 (0 :: u8)"
    using replicate_Suc [of 1024 "0 :: u8"] by simp
  moreover have "l_os (server_lib a) = (sample_os zero_addr [])\<lparr>os_recv := \<lambda>fd n w. (32, server_answer a (snd w), w)\<rparr>"
    "l_resolver (server_lib a) = sample_resolver" "l_usleep (server_lib a) = (\<lambda>n w. w)"
    by (simp_all add: server_lib_def)
  note L = this
  have "\<not> use_tcp ?g" "\<not> use_sctp ?g" "\<not> use_secure ?g" "\<not> is_peer ci"
    using assms by (simp_all add: sample_settings_def sample_conn_def)
  from plain_connect [OF L this, of 3478 "replicate 1024 0" w] show ?thesis
    using assms by (simp add: calculation server_conn_def sample_conn_def)
qed

lemma server_allocates:
  "\<exists>st' rl alt' w'. clnet_allocate (server_lib (sample4 3 80)) (sample_settings\<lparr>c2c := c\<rparr>) sample_state server_conn zero_addr 1 None w
    = Some (Inr 0, st', server_conn\<lparr>ci_relay_addr := rl\<rparr>, rl, alt', w')"
proof -
  have r: "ready (server_lib (sample4 3 80)) (sample_settings\<lparr>c2c := c\<rparr>) server_conn fst
      (\<lambda>m t. [addr_attr empty_map t STUN_ATTRIBUTE_XOR_RELAYED_ADDRESS (sample4 3 80)])"
    unfolding server_conn_def by (rule server_ready) simp_all
  show ?thesis
    using allocation_runs [OF r, of "sample4 3 80" sample_state zero_addr 1 None w] sample_allocation by auto
qed

lemma STRCPY_server: "STRCPY 1025 [0] = Some (replicate 1025 0)"
  by (rule STRCPY_empty) simp

theorem connection_confirmed_witness:
  "\<exists>st' ci' w'. start_connection (server_lib (sample4 3 80)) sample_settings sample_state 3478 [0] [0] [0] sample_conn ([], [])
      = Some (Inr 0, 0, st', ci', w')
    \<and> alloc_granted (server_lib (sample4 3 80)) sample_settings 1 sample_state (ci_relay_addr ci')
    \<and> refreshed (server_lib (sample4 3 80)) sample_settings w'"
proof -
  let ?L = "server_lib (sample4 3 80)"
  have g: "sample_settings\<lparr>c2c := False\<rparr> = sample_settings" "sample_conn\<lparr>ci_fd := 5\<rparr> = sample_conn"
    by (simp_all add: sample_settings_def sample_conn_def)
  have c: "clnet_connect ?L sample_settings None 3478 (replicate 1025 0) [0] [0] sample_conn ([], []) = Some (Inr 0, server_conn, [], [])"
    using server_connects [of sample_conn 5 "sample4 3 80" False] g by simp
  obtain st' rl alt' w' where a: "clnet_allocate ?L sample_settings sample_state server_conn zero_addr 1 None ([], [])
      = Some (Inr 0, st', server_conn\<lparr>ci_relay_addr := rl\<rparr>, rl, alt', w')"
    using server_allocates [of False "([], [])"] g by auto
  have "mCB sample_state = None" "default_address_family sample_state = 1" "l_addr ?L = zero_addr" "\<not> dos sample_settings"
    by (simp_all add: sample_state_def server_lib_def sample_settings_def)
  then have "start_connection ?L sample_settings sample_state 3478 [0] [0] [0] sample_conn ([], [])
      = Some (Inr 0, 0, st', server_conn\<lparr>ci_relay_addr := rl, ci_peer_addr := peer_addr st'\<rparr>, w')"
    using a by (simp add: start_connection_def STRCPY_server c rare_event_def)
  from this connection_confirmed [OF this] show ?thesis
    using sample_basics(6,8) by (auto simp: sample_state_def)
qed

lemma sample_started:
  "\<exists>cl w'. start_p2p_client (server_lib (sample4 3 80)) (sample_settings\<lparr>c2c := True\<rparr>) sample_client zero_session [0] 3478 [0] [0] ([], [])
    = Some (Inr (), cl, w') \<and> elems cl \<noteq> None"
proof -
  let ?L = "server_lib (sample4 3 80)" and ?g = "sample_settings\<lparr>c2c := True\<rparr>"
  let ?ss = "zero_session\<lparr>pinfo := (pinfo zero_session)\<lparr>ci_fd := -1\<rparr>\<rparr>"
  have n: "create_new_ss zero_session = Some ?ss" "(pinfo zero_session)\<lparr>ci_fd := -1\<rparr> = sample_conn\<lparr>ci_fd := -1\<rparr>"
    by (simp_all add: create_new_ss_def init_app_session_def zero_session_def sample_conn_def)
  note c = server_connects [OF refl, where k = "-1" and a = "sample4 3 80" and c = True]
  obtain st' rl alt' w' where a: "clnet_allocate ?L ?g sample_state server_conn zero_addr 1 None ([], [])
      = Some (Inr 0, st', server_conn\<lparr>ci_relay_addr := rl\<rparr>, rl, alt', w')"
    using server_allocates by blast
  have s: "mCB sample_state = None" "default_address_family sample_state = 1" "l_addr ?L = zero_addr" "\<not> dos ?g"
    by (simp_all add: sample_state_def server_lib_def sample_settings_def)
  have x: "start_c2c_connection ?L ?g sample_state 3478 [0] [0] [0] (sample_conn\<lparr>ci_fd := -1\<rparr>) ([], [])
      = Some (Inr 0, 0, st', server_conn\<lparr>ci_relay_addr := rl\<rparr>, w')"
    using s a by (simp add: start_c2c_connection_def STRCPY_server c rare_event_def)
  have m: "clmessage_length ?g = 100" "l_usleep ?L 234 w = w" "c_st sample_client = sample_state" "c2c ?g"
    "length (buffer_to_send sample_client) = 65536" for w
    by (simp_all add: sample_settings_def server_lib_def sample_client_def)
  obtain b where b: "wrn (buffer_to_send sample_client) 0 (replicate 100 7) = Some b"
    using m(5) by (simp add: wrn_def)
  show ?thesis
    using x m b by (simp add: start_p2p_client_def start_c2c_def n enter_session_def split: prod.splits)
qed

theorem only_data_counted_witness:
  "\<exists>cl e. reachable (server_lib (sample4 3 80)) (sample_settings\<lparr>c2c := True\<rparr>) cl \<and> elems cl = Some (Some e) \<and> chnum e = 0
    \<and> ur_state e = UR_STATE_READY"
proof -
  obtain cl w' where s: "start_p2p_client (server_lib (sample4 3 80)) (sample_settings\<lparr>c2c := True\<rparr>) sample_client zero_session [0] 3478 [0] [0] ([], [])
    = Some (Inr (), cl, w')" "elems cl \<noteq> None"
    using sample_started by blast
  then have "reachable (server_lib (sample4 3 80)) (sample_settings\<lparr>c2c := True\<rparr>) cl"
    by (rule started)
  with only_data_counted [OF this, of 0] show ?thesis
    by fast
qed

text \<open>A socket with datagrams in it; the world is the list of their numbers.\<close>

definition numbered :: "u8 \<Rightarrow> mem" where
  "numbered c = header (stun_make_indication STUN_METHOD_DATA) 20 STUN_MAGIC_COOKIE (replicate 12 7)
     @ enc_attr STUN_ATTRIBUTE_DATA ([c, 0, 0, 0] @ replicate 12 0) []"

definition queue_lib :: "(mem, unit) lib" where
  "queue_lib = (sample_lib [])\<lparr>l_os := (sample_os zero_addr [])\<lparr>os_recv := \<lambda>fd n w. case w of [] \<Rightarrow> (-1, [], []) | c # w \<Rightarrow> (40, numbered c, w)\<rparr>\<rparr>"

definition sample_session :: app_ur_session where
  "sample_session = zero_session\<lparr>pinfo := sample_conn, ur_state := UR_STATE_READY, recvmsgnum := -1\<rparr>"

lemma numbered_datagram:
  "data_datagram (sample_settings\<lparr>clmessage_length := 16\<rparr>) (numbered c) (sint (le32 c 0 0 0))" "length (numbered c) = 40"
proof -
  let ?v = "[c, 0, 0, 0] @ replicate 12 (0 :: u8)"
  show l: "length (numbered c) = 40"
    by (simp add: numbered_def)
  have "stun_msg (numbered c) 40 (stun_make_indication STUN_METHOD_DATA) STUN_MAGIC_COOKIE (replicate 12 7) [(STUN_ATTRIBUTE_DATA, ?v)]"
    using enc_attr_exact [of ?v "[]" STUN_ATTRIBUTE_DATA] unfolding stun_msg_def numbered_def
    by (rule_tac exI [of _ "enc_attr STUN_ATTRIBUTE_DATA ?v []"], rule_tac exI [of _ "[]"]) (simp add: pad4_def)
  moreover have "rd32 ?v 0 = Some (le32 c 0 0 0)"
    by (simp add: rd32_def)
  ultimately show "data_datagram (sample_settings\<lparr>clmessage_length := 16\<rparr>) (numbered c) (sint (le32 c 0 0 0))"
    unfolding data_datagram_def l by (intro exI [of _ STUN_MAGIC_COOKIE] exI conjI) (assumption | simp)+
qed

theorem handler_counts_gaps_witness:
  "\<exists>e'. client_input_handler queue_lib (sample_settings\<lparr>clmessage_length := 16\<rparr>) 5 True (Some sample_session) [0, 1, 3] = Some (Some e', [])
    \<and> recvmsgnum e' = 3 \<and> loss e' = 1"
proof -
  let ?g = "sample_settings\<lparr>clmessage_length := 16\<rparr>"
  have v: "sint (le32 0 0 0 0) = 0" "sint (le32 1 0 0 0) = 1" "sint (le32 3 0 0 0) = 3"
    by code_simp+
  have e: "listening ?g sample_session" "recvmsgnum sample_session = -1" "loss sample_session = 0" "ci_fd (pinfo sample_session) = 5"
    by (simp_all add: listening_def sample_session_def sample_settings_def sample_conn_def zero_session_def blank_buffer_def)
  have "delivers queue_lib ?g 5 [0, 1, 3] [0, 1, 3] []"
    using numbered_datagram [of 0] numbered_datagram [of 1] numbered_datagram [of 3] unfolding v
    by (auto simp: queue_lib_def sample_os_def)
  then show ?thesis
    using handler_counts_gaps [OF e(1), of queue_lib "[0, 1, 3]" "[0, 1, 3]" "[]" 5] e by auto
qed

end
