(* ===== verification/Base64.thy ===== *)
theory Base64
  imports Oauth
begin

text \<open>
  The Base64 functions of \<open>common/apputils.c\<close> and the OAuth key record that is read from a data base, whose
  key material is Base64 text.

  \<open>malloc\<close> is a parameter that answers a block with arbitrary contents or \<open>None\<close> (the null pointer).  The static
  pointer \<open>decoding_table\<close> is an argument and a result.  \<open>char\<close> is unsigned on the ARM targets of the build, so
  a character is an index of the table as it is.  The unchecked allocation of the table itself is taken to succeed.
\<close>

subsection \<open>Encoding\<close>

definition encoding_table :: mem where
  "encoding_table = chars ''ABCDEFGHIJKLMNOPQRSTUVWXYZabcdefghijklmnopqrstuvwxyz0123456789+/''"

definition mod_table :: "nat list" where
  "mod_table = [0, 2, 1]"

text \<open>The four stores of a round, and the rounds.\<close>

definition enc64_store :: "mem \<Rightarrow> nat \<Rightarrow> u32 \<Rightarrow> mem option" where
  "enc64_store out j triple = do {
     out \<leftarrow> wr8 out j (encoding_table ! unat (drop_bit (3 * 6) triple AND 0x3F));
     out \<leftarrow> wr8 out (j + 1) (encoding_table ! unat (drop_bit (2 * 6) triple AND 0x3F));
     out \<leftarrow> wr8 out (j + 2) (encoding_table ! unat (drop_bit (1 * 6) triple AND 0x3F));
     wr8 out (j + 3) (encoding_table ! unat (drop_bit (0 * 6) triple AND 0x3F)) }"

function enc64_loop :: "mem \<Rightarrow> nat \<Rightarrow> nat \<Rightarrow> nat \<Rightarrow> mem \<Rightarrow> mem option" where
  "enc64_loop data input_length i j out = (if i < input_length then do {
     octet_a \<leftarrow> rd8 data i;
     let i = i + 1;
     octet_b \<leftarrow> (if i < input_length then rd8 data i else Some 0);
     let i = (if i < input_length then i + 1 else i);
     octet_c \<leftarrow> (if i < input_length then rd8 data i else Some 0);
     let i = (if i < input_length then i + 1 else i);
     let triple = (push_bit 16 (ucast octet_a) + push_bit 8 (ucast octet_b) + ucast octet_c :: u32);
     out \<leftarrow> enc64_store out j triple;
     enc64_loop data input_length i (j + 4) out }
   else Some out)"
  by pat_completeness auto
termination
  by (relation "measure (\<lambda>(data, n, i, j, out). n - i)") (auto simp: Let_def split: if_splits)

declare enc64_loop.simps [simp del]

text \<open>The loop that overwrites the last \<open>k - i\<close> characters with the padding sign.\<close>

fun pad64_loop :: "nat \<Rightarrow> nat \<Rightarrow> nat \<Rightarrow> mem \<Rightarrow> mem option" where
  "pad64_loop output_length i 0 out = Some out"
| "pad64_loop output_length i (Suc k) out =
     (if output_length < 1 + i then None
      else do { out \<leftarrow> wr8 out (output_length - 1 - i) 61; pad64_loop output_length (i + 1) k out })"

definition base64_encode :: "(nat \<Rightarrow> mem option) \<Rightarrow> mem \<Rightarrow> nat \<Rightarrow> (mem option \<times> nat) option" where
  "base64_encode malloc data input_length = do {
     let output_length = 4 * ((input_length + 2) div 3);
     case malloc (output_length + 1) of None \<Rightarrow> Some (None, output_length)
     | Some encoded_data \<Rightarrow> do {
         out \<leftarrow> enc64_loop data input_length 0 0 encoded_data;
         out \<leftarrow> pad64_loop output_length 0 (mod_table ! (input_length mod 3)) out;
         out \<leftarrow> wr8 out output_length 0;
         Some (Some out, output_length) } }"

subsection \<open>Decoding\<close>

definition build_base64_decoding_table :: mem where
  "build_base64_decoding_table =
     fold (\<lambda>i t. t[unat (encoding_table ! i) := of_nat i]) [0..<64] (replicate 256 0)"

definition sextet :: "mem \<Rightarrow> u8 \<Rightarrow> u32" where
  "sextet table c = (if c = 61 then 0 else ucast (table ! unat c))"

text \<open>A guarded store of a decoded byte, and the three of a round.\<close>

definition put64 :: "nat \<Rightarrow> u32 \<Rightarrow> nat \<times> mem \<Rightarrow> (nat \<times> mem) option" where
  "put64 output_length v s = (case s of (j, out) \<Rightarrow>
     if j < output_length then do { out \<leftarrow> wr8 out j (ucast (v AND 0xFF)); Some (j + 1, out) } else Some (j, out))"

definition dec64_store :: "nat \<Rightarrow> u32 \<Rightarrow> nat \<times> mem \<Rightarrow> (nat \<times> mem) option" where
  "dec64_store output_length triple s = do {
     s \<leftarrow> put64 output_length (drop_bit (2 * 8) triple) s;
     s \<leftarrow> put64 output_length (drop_bit (1 * 8) triple) s;
     put64 output_length (drop_bit (0 * 8) triple) s }"

function dec64_loop :: "mem \<Rightarrow> mem \<Rightarrow> int \<Rightarrow> nat \<Rightarrow> nat \<Rightarrow> nat \<Rightarrow> mem \<Rightarrow> mem option" where
  "dec64_loop table data n output_length i j out = (if int i < n then do {
     a \<leftarrow> rd8 data i;
     b \<leftarrow> rd8 data (i + 1);
     c \<leftarrow> rd8 data (i + 2);
     d \<leftarrow> rd8 data (i + 3);
     let triple = push_bit (3 * 6) (sextet table a) + push_bit (2 * 6) (sextet table b)
       + push_bit (1 * 6) (sextet table c) + push_bit (0 * 6) (sextet table d);
     (j, out) \<leftarrow> dec64_store output_length triple (j, out);
     dec64_loop table data n output_length (i + 4) j out }
   else Some out)"
  by pat_completeness auto
termination
  by (relation "measure (\<lambda>(table, data, n, ol, i, j, out). nat (n - int i))") auto

declare dec64_loop.simps [simp del]

text \<open>
  The result is the block or the null pointer, the caller's \<open>output_length\<close>, and the static table.  An empty input
  reads in front of the array.
\<close>

definition base64_decode ::
    "(nat \<Rightarrow> mem option) \<Rightarrow> mem option \<Rightarrow> mem \<Rightarrow> nat \<Rightarrow> nat \<Rightarrow> (mem option \<times> nat \<times> mem option) option" where
  "base64_decode malloc decoding_table data input_length output_length = do {
     let table = (case decoding_table of None \<Rightarrow> build_base64_decoding_table | Some t \<Rightarrow> t);
     if input_length mod 4 \<noteq> 0 then Some (None, output_length, Some table)
     else if input_length = 0 then None
     else do {
       e1 \<leftarrow> rd8 data (input_length - 1);
       e2 \<leftarrow> rd8 data (input_length - 2);
       let output_length = input_length div 4 * 3;
       let output_length = (if e1 = 61 then output_length - 1 else output_length);
       let output_length = (if e2 = 61 then output_length - 1 else output_length);
       case malloc output_length of None \<Rightarrow> Some (None, output_length, Some table)
       | Some decoded_data \<Rightarrow> do {
           out \<leftarrow> dec64_loop table data (sint (word_of_nat input_length :: u32)) output_length 0 0 decoded_data;
           Some (Some out, output_length, Some table) } } }"

subsection \<open>The raw key record\<close>

record oauth_key_data_raw =
  raw_kid :: mem
  raw_ikm_key :: mem
  raw_timestamp :: u64
  raw_lifetime :: u32
  raw_as_rs_alg :: mem
  raw_realm :: mem

definition zero_key_data :: oauth_key_data where
  "zero_key_data = \<lparr>kd_kid = replicate 129 0, kd_ikm_key = replicate 257 0, kd_ikm_key_size = 0, kd_timestamp = 0,
     kd_lifetime = 0, kd_as_rs_alg = replicate 65 0\<rparr>"

definition convert_oauth_key_data_raw ::
    "(nat \<Rightarrow> mem option) \<Rightarrow> mem option \<Rightarrow> oauth_key_data_raw option \<Rightarrow> oauth_key_data option
     \<Rightarrow> (oauth_key_data option \<times> mem option) option" where
  "convert_oauth_key_data_raw malloc decoding_table raw oakd = (case (raw, oakd) of
     (Some raw, Some _) \<Rightarrow> do {
       alg \<leftarrow> rdn (raw_as_rs_alg raw) 0 65;
       kid \<leftarrow> rdn (raw_kid raw) 0 129;
       let oakd = zero_key_data\<lparr>kd_timestamp := ucast (raw_timestamp raw), kd_lifetime := raw_lifetime raw,
         kd_as_rs_alg := alg, kd_kid := kid\<rparr>;
       c \<leftarrow> rd8 (raw_ikm_key raw) 0;
       if c \<noteq> 0 then do {
         n \<leftarrow> c_strlen (raw_ikm_key raw);
         (ikm_key, ikm_key_size, decoding_table) \<leftarrow> base64_decode malloc decoding_table (raw_ikm_key raw) n 0;
         case ikm_key of None \<Rightarrow> Some (Some oakd, decoding_table)
         | Some k \<Rightarrow> do {
             bs \<leftarrow> rdn k 0 ikm_key_size;
             m \<leftarrow> wrn (kd_ikm_key oakd) 0 bs;
             Some (Some (oakd\<lparr>kd_ikm_key := m, kd_ikm_key_size := ikm_key_size\<rparr>), decoding_table) } }
       else Some (Some oakd, decoding_table) }
   | _ \<Rightarrow> Some (oakd, decoding_table))"

subsection \<open>The text of a group\<close>

text \<open>The 24 bits of a group as a number, and its four characters.\<close>

definition group_val :: "u8 \<Rightarrow> u8 \<Rightarrow> u8 \<Rightarrow> nat" where
  "group_val a b c = 65536 * unat a + 256 * unat b + unat c"

definition enc_group :: "u8 \<Rightarrow> u8 \<Rightarrow> u8 \<Rightarrow> mem" where
  "enc_group a b c = map (\<lambda>k. encoding_table ! (group_val a b c div 64 ^ k mod 64)) [3, 2, 1, 0]"

fun enc64 :: "mem \<Rightarrow> mem" where
  "enc64 [] = []"
| "enc64 [a] = take 2 (enc_group a 0 0) @ [61, 61]"
| "enc64 [a, b] = take 3 (enc_group a b 0) @ [61]"
| "enc64 (a # b # c # r) = enc_group a b c @ enc64 r"

lemma group_val_less: "group_val a b c < 64 ^ 4"
  using unat_u8_less [of a] unat_u8_less [of b] unat_u8_less [of c] by (simp add: group_val_def)

lemma unat_triple: "unat (push_bit 16 (ucast a) + push_bit 8 (ucast b) + ucast c :: u32) = group_val a b c"
proof -
  have "(push_bit 16 (ucast a) + push_bit 8 (ucast b) + ucast c :: u32) = of_nat (group_val a b c)"
    by (simp add: push_bit_eq_mult group_val_def)
  then show ?thesis
    using group_val_less [of a b c] by (simp add: unat_of_nat)
qed

lemma unat_drop_mask6: "unat (drop_bit k (w :: u32) AND 0x3F) = unat w div 2 ^ k mod 64"
proof -
  have "drop_bit k w AND 0x3F = take_bit 6 (drop_bit k w)"
    by (simp only: take_bit_eq_mask) (simp add: mask_eq_exp_minus_1)
  moreover have "unat w mod 2 ^ LENGTH(32) = unat w"
    using unsigned_less [of w, where 'a = nat] by simp
  ultimately show ?thesis
    by (simp only: unsigned_take_bit_eq unsigned_drop_bit_eq take_bit_eq_mod [of "LENGTH(32)"])
       (simp add: take_bit_eq_mod drop_bit_eq_div)
qed

text \<open>The decoding table inverts the alphabet.\<close>

lemma length_fold_update: "length (fold (\<lambda>i t. t[f i := g i]) xs t) = length t"
  by (induction xs arbitrary: t) simp_all

lemma fold_update_other: "k \<notin> f ` set xs \<Longrightarrow> fold (\<lambda>i t. t[f i := g i]) xs t ! k = t ! k"
  by (induction xs arbitrary: t) simp_all

lemma fold_update_nth:
  "distinct (map f xs) \<Longrightarrow> x \<in> set xs \<Longrightarrow> \<forall>y\<in>set xs. f y < length t \<Longrightarrow> fold (\<lambda>i t. t[f i := g i]) xs t ! f x = g x"
  by (induction xs arbitrary: t) (auto simp: fold_update_other)

lemma length_encoding_table: "length encoding_table = 64"
  by (simp add: encoding_table_def chars_def)

lemma distinct_encoding_table: "distinct encoding_table"
  by (simp add: encoding_table_def chars_def)

lemma encoding_table_plain: "61 \<notin> set encoding_table" "0 \<notin> set encoding_table"
proof -
  have "list_all (\<lambda>c. c \<noteq> 61 \<and> c \<noteq> 0) encoding_table"
    by code_simp
  then show "61 \<notin> set encoding_table" "0 \<notin> set encoding_table"
    by (auto simp: list_all_iff)
qed

lemma encoding_table_at:
  assumes "v < 64"
  shows "encoding_table ! v \<noteq> 61" and "encoding_table ! v \<noteq> 0"
    and "build_base64_decoding_table ! unat (encoding_table ! v) = of_nat v"
proof -
  have "encoding_table ! v \<in> set encoding_table"
    using assms by (simp add: length_encoding_table)
  then show "encoding_table ! v \<noteq> 61" and "encoding_table ! v \<noteq> 0"
    using encoding_table_plain by auto
  have "distinct (map (\<lambda>i. unat (encoding_table ! i)) [0..<64])"
    using distinct_encoding_table
    by (auto simp: distinct_map inj_on_def word_unat_eq_iff [symmetric] nth_eq_iff_index_eq length_encoding_table)
  then show "build_base64_decoding_table ! unat (encoding_table ! v) = of_nat v"
    unfolding build_base64_decoding_table_def
    using assms fold_update_nth [of "\<lambda>i. unat (encoding_table ! i)" "[0..<64]" v "replicate 256 0" of_nat]
    by (simp add: unat_u8_less)
qed

subsection \<open>The encoder\<close>

lemma length_enc_group [simp]: "length (enc_group a b c) = 4"
  by (simp add: enc_group_def)

lemma add_group: "4 + 4 * (Suc (Suc n) div 3) = 4 * ((5 + n) div 3)"
proof -
  have "(5 + n) div 3 = (Suc (Suc n) + 3) div 3"
    by simp
  then show ?thesis
    by (simp only: div_add_self2) simp
qed

lemma length_enc64: "length (enc64 d) = 4 * ((length d + 2) div 3)"
  by (induction d rule: enc64.induct) (simp_all add: add_group)

text \<open>The characters of the loop, before the padding signs are put in.\<close>

fun enc64_plain :: "mem \<Rightarrow> mem" where
  "enc64_plain [] = []"
| "enc64_plain [a] = enc_group a 0 0"
| "enc64_plain [a, b] = enc_group a b 0"
| "enc64_plain (a # b # c # r) = enc_group a b c @ enc64_plain r"

lemma length_enc64_plain: "length (enc64_plain d) = 4 * ((length d + 2) div 3)"
  by (induction d rule: enc64_plain.induct) (simp_all add: add_group)

lemma four_more: "4 \<le> length q \<Longrightarrow> \<exists>g0 g1 g2 g3 r. q = g0 # g1 # g2 # g3 # r"
  by (auto simp: Suc_le_length_iff numeral_eq_Suc)

lemma enc64_store_eq:
  assumes "length p = j" and "4 \<le> length q"
  shows "enc64_store (p @ q) j (push_bit 16 (ucast a) + push_bit 8 (ucast b) + ucast c)
    = Some (p @ enc_group a b c @ drop 4 q)"
proof -
  obtain g0 g1 g2 g3 r where q: "q = g0 # g1 # g2 # g3 # r"
    using four_more [OF assms(2)] by blast
  have st: "wr8 (p @ g0 # r) j x = Some (p @ x # r)" "wr8 (p @ y # g1 # r) (Suc j) x = Some (p @ y # x # r)"
    "wr8 (p @ y # z # g2 # r) (Suc (Suc j)) x = Some (p @ y # z # x # r)"
    "wr8 (p @ y # z # w # g3 # r) (j + 3) x = Some (p @ y # z # w # x # r)" for x y z w r
    using assms(1) wr8_at [of p j g0 r x] wr8_at [of "p @ [y]" "j + 1" g1 r x] wr8_at [of "p @ [y, z]" "j + 2" g2 r x]
      wr8_at [of "p @ [y, z, w]" "j + 3" g3 r x] by simp_all
  show ?thesis
    unfolding q enc64_store_def unat_drop_mask6 unat_triple enc_group_def by (simp add: st)
qed

lemma enc64_loop_stop: "enc64_loop data n n j out = Some out"
  by (simp add: enc64_loop.simps)

lemma enc64_loop_eq:
  assumes "length p = j" and "length (enc64_plain d) \<le> length q"
  shows "enc64_loop (x @ d @ y) (length x + length d) (length x) j (p @ q)
    = Some (p @ enc64_plain d @ drop (length (enc64_plain d)) q)"
  using assms
proof (induction d arbitrary: x p j q rule: enc64_plain.induct)
  case 1
  then show ?case by (simp add: enc64_loop.simps)
next
  case (2 a)
  then show ?case
    by (subst enc64_loop.simps) (simp add: rd8_at Let_def enc64_store_eq enc64_loop_stop)
next
  case (3 a b)
  then show ?case
    using enc64_store_eq [of p j q a b 0] rd8_at [of "x @ [a]" "Suc (length x)" b y]
    by (subst enc64_loop.simps) (simp add: rd8_at Let_def enc64_loop_stop)
next
  case (4 a b c d)
  note IH = "4.IH" [of "p @ enc_group a b c" "j + 4" "drop 4 q" "x @ [a, b, c]"]
  show ?case
    using IH "4.prems" enc64_store_eq [of p j q a b c]
      rd8_at [of "x @ [a]" "Suc (length x)" b "c # d @ y"] rd8_at [of "x @ [a, b]" "Suc (Suc (length x))" c "d @ y"]
    by (subst enc64_loop.simps) (simp add: rd8_at Let_def drop_drop add.commute)
qed

lemma replicate_numeral_2: "replicate 2 x = [x, x]"
  by (simp add: numeral_eq_Suc)

lemma mod_table_le: "mod_table ! (length d mod 3) \<le> length (enc64_plain d)"
proof (cases d)
  case (Cons a r)
  have "length d mod 3 = 0 \<or> length d mod 3 = 1 \<or> length d mod 3 = 2"
    by linarith
  then have "mod_table ! (length d mod 3) \<le> 4"
    by (auto simp: mod_table_def)
  also have "4 \<le> length (enc64_plain d)"
    by (simp add: length_enc64_plain Cons)
  finally show ?thesis .
qed (simp add: mod_table_def)

lemma enc64_padding:
  "enc64 d = take (length (enc64_plain d) - mod_table ! (length d mod 3)) (enc64_plain d)
     @ replicate (mod_table ! (length d mod 3)) 61"
proof (induction d rule: enc64.induct)
  case (4 a b c d)
  then show ?case
    using mod_table_le [of d] by simp
qed (simp_all add: mod_table_def enc_group_def replicate_numeral_2)

lemma pad64_loop_eq:
  assumes "i + k \<le> length e"
  shows "pad64_loop (length e) i k (e @ r)
    = Some (take (length e - i - k) e @ replicate k 61 @ drop (length e - i) e @ r)"
  using assms
proof (induction k arbitrary: i e)
  case (Suc k)
  let ?e = "e[length e - 1 - i := 61]"
  have w: "wr8 (e @ r) (length e - 1 - i) 61 = Some (?e @ r)"
    using Suc.prems by (simp add: wr8_def wrn_def upd_conv_take_nth_drop)
  have "drop (length e - Suc i) ?e = 61 # drop (length e - i) e"
    using Suc.prems by (simp add: drop_update_swap Cons_nth_drop_Suc [symmetric] Suc_diff_Suc)
  moreover have "replicate k 61 @ 61 # drop (length e - i) e @ r = 61 # replicate k 61 @ drop (length e - i) e @ r"
    by (simp add: replicate_app_Cons_same)
  ultimately show ?case
    using Suc.IH [of "i + 1" ?e] Suc.prems w by simp
qed simp

text \<open>The encoder writes the text and its NUL, and nothing else is left of the block.\<close>

lemma base64_encode_eq:
  assumes "length d = n" and "malloc (length (enc64 d) + 1) = Some m" and "length m = length (enc64 d) + 1"
  shows "base64_encode malloc (d @ y) n = Some (Some (enc64 d @ [0]), length (enc64 d))"
proof -
  let ?e = "enc64_plain d" and ?k = "mod_table ! (length d mod 3)"
  have l: "length (enc64 d) = 4 * ((n + 2) div 3)" "length ?e = length (enc64 d)"
    using assms(1) by (simp_all add: length_enc64 length_enc64_plain)
  have "length (drop (length ?e) m) = 1"
    using assms(3) l(2) by simp
  then obtain z where z: "drop (length ?e) m = [z]"
    by (metis One_nat_def length_0_conv length_Suc_conv)
  have "enc64_loop (d @ y) n 0 0 m = Some (?e @ [z])"
    using enc64_loop_eq [of "[]" 0 d m "[]" y] assms(1,3) l(2) z by simp
  moreover have "pad64_loop (length ?e) 0 ?k (?e @ [z]) = Some (enc64 d @ [z])"
    using pad64_loop_eq [of 0 ?k ?e "[z]"] mod_table_le [of d] by (simp add: enc64_padding [of d])
  moreover have "wr8 (enc64 d @ [z]) (length (enc64 d)) 0 = Some (enc64 d @ [0])"
    by (simp add: wr8_at)
  ultimately show ?thesis
    using assms l by (simp add: base64_encode_def)
qed

subsection \<open>The decoder\<close>

lemma sextet_at:
  assumes "v < 64"
  shows "sextet build_base64_decoding_table (encoding_table ! v) = of_nat v"
proof -
  have "(ucast (of_nat v :: u8) :: u32) = of_nat v"
    using assms by (simp add: word_unat_eq_iff unsigned_ucast_eq unat_of_nat take_bit_eq_mod)
  then show ?thesis
    using encoding_table_at [OF assms] by (simp add: sextet_def)
qed

lemma group_digits:
  fixes g :: nat
  assumes "g < 64 ^ 4"
  shows "262144 * (g div 262144 mod 64) + 4096 * (g div 4096 mod 64) + 64 * (g div 64 mod 64) + g mod 64 = g"
proof -
  have "g div 4096 = g div 64 div 64" "g div 262144 = g div 4096 div 64"
    by (simp_all add: div_mult2_eq [symmetric])
  moreover have "g div 262144 mod 64 = g div 262144"
    using assms by (simp add: mod_less less_mult_imp_div_less)
  ultimately show ?thesis
    using mult_div_mod_eq [of 64 g] mult_div_mod_eq [of 64 "g div 64"] mult_div_mod_eq [of 64 "g div 4096"] by linarith
qed

lemma dec_triple:
  assumes "g < 64 ^ 4"
  shows "push_bit 18 (of_nat (g div 262144 mod 64)) + push_bit 12 (of_nat (g div 4096 mod 64))
    + push_bit 6 (of_nat (g div 64 mod 64)) + of_nat (g mod 64) = (of_nat g :: u32)"
proof -
  have "(of_nat g :: u32) = of_nat (262144 * (g div 262144 mod 64) + 4096 * (g div 4096 mod 64)
      + 64 * (g div 64 mod 64) + g mod 64)"
    by (simp only: group_digits [OF assms])
  then show ?thesis
    by (simp only: of_nat_add of_nat_mult of_nat_numeral push_bit_eq_mult) (simp add: mult.commute)
qed

lemma group_bytes:
  "group_val a b c div 65536 mod 256 = unat a" "group_val a b c div 256 mod 256 = unat b"
  "group_val a b c mod 256 = unat c"
proof -
  have l: "unat a < 256" "unat b < 256" "unat c < 256"
    by (rule unat_u8_less)+
  have g: "group_val a b c = unat c + 256 * (unat b + 256 * unat a)"
    by (simp add: group_val_def)
  have d: "group_val a b c div 256 = unat b + 256 * unat a"
    using l unfolding g by (simp add: div_mult_self2)
  have "group_val a b c div 65536 = group_val a b c div 256 div 256"
    by (simp add: div_mult2_eq [symmetric])
  also have "\<dots> = unat a"
    using l unfolding d by simp
  finally show "group_val a b c div 65536 mod 256 = unat a"
    using l by simp
  show "group_val a b c div 256 mod 256 = unat b"
    using l unfolding d by simp
  show "group_val a b c mod 256 = unat c"
    using l unfolding g by (simp only: mod_mult_self2) simp
qed

lemma byte_at:
  assumes "g < 2 ^ 32"
  shows "ucast (drop_bit k (of_nat g :: u32) AND 0xFF) = (of_nat (g div 2 ^ k mod 256) :: u8)"
proof -
  have "drop_bit k (of_nat g :: u32) AND 0xFF = take_bit 8 (drop_bit k (of_nat g))"
    by (simp only: take_bit_eq_mask) (simp add: mask_eq_exp_minus_1)
  moreover have "unat (take_bit 8 (drop_bit k (of_nat g :: u32))) = g div 2 ^ k mod 256"
    using assms by (simp only: unsigned_take_bit_eq unsigned_drop_bit_eq) (simp add: unat_of_nat take_bit_eq_mod drop_bit_eq_div)
  ultimately show ?thesis
    by (simp add: word_unat_eq_iff unsigned_ucast_eq unat_of_nat take_bit_eq_mod)
qed

lemma group_stores:
  "ucast (drop_bit (2 * 8) (of_nat (group_val a b c) :: u32) AND 0xFF) = a"
  "ucast (drop_bit (1 * 8) (of_nat (group_val a b c) :: u32) AND 0xFF) = b"
  "ucast (drop_bit (0 * 8) (of_nat (group_val a b c) :: u32) AND 0xFF) = c"
proof -
  have g: "group_val a b c < 2 ^ 32"
    using group_val_less [of a b c] by simp
  show "ucast (drop_bit (2 * 8) (of_nat (group_val a b c) :: u32) AND 0xFF) = a"
    "ucast (drop_bit (1 * 8) (of_nat (group_val a b c) :: u32) AND 0xFF) = b"
    "ucast (drop_bit (0 * 8) (of_nat (group_val a b c) :: u32) AND 0xFF) = c"
    unfolding byte_at [OF g] using group_bytes [of a b c] by simp_all
qed

lemma dec64_store_eq:
  assumes "length p = j" and "n = min 3 (ol - j)" and "n \<le> length q"
  shows "dec64_store ol (of_nat (group_val a b c)) (j, p @ q) = Some (j + n, p @ take n [a, b, c] @ drop n q)"
proof -
  consider "ol \<le> j" | "ol = Suc j" | "ol = Suc (Suc j)" | k where "ol = 3 + j + k"
    using le_Suc_ex [of "3 + j" ol] by force
  then show ?thesis
  proof cases
    case 1
    then show ?thesis
      using assms by (simp add: dec64_store_def put64_def)
  next
    case 2
    then obtain x r where q: "q = x # r"
      using assms by (cases q) auto
    show ?thesis
      using 2 assms group_stores [of a b c] by (simp add: q dec64_store_def put64_def wr8_at)
  next
    case 3
    then obtain x y r where q: "q = x # y # r"
      using assms by (cases q rule: remdups_adj.cases) auto
    show ?thesis
      using 3 assms group_stores [of a b c] wr8_at [of "p @ [a]" "Suc j" y r b]
      by (simp add: q dec64_store_def put64_def wr8_at)
  next
    case 4
    then obtain x y z r where q: "q = x # y # z # r"
      using assms by (auto simp: Suc_le_length_iff numeral_eq_Suc)
    show ?thesis
      using 4 assms group_stores [of a b c] wr8_at [of "p @ [a]" "Suc j" y "z # r" b]
        wr8_at [of "p @ [a, b]" "Suc (Suc j)" z r c]
      by (simp add: q dec64_store_def put64_def wr8_at)
  qed
qed

abbreviation group_triple :: "mem \<Rightarrow> u32" where
  "group_triple g \<equiv> push_bit (3 * 6) (sextet build_base64_decoding_table (g ! 0))
     + push_bit (2 * 6) (sextet build_base64_decoding_table (g ! 1))
     + push_bit (1 * 6) (sextet build_base64_decoding_table (g ! 2))
     + push_bit (0 * 6) (sextet build_base64_decoding_table (g ! 3))"

lemma dec_group: "group_triple (enc_group a b c) = of_nat (group_val a b c)"
  using dec_triple [OF group_val_less [of a b c]] by (simp add: enc_group_def sextet_at)

text \<open>A padding sign stands for a digit that is zero.\<close>

lemma dec_group2: "group_triple (take 3 (enc_group a b 0) @ [61]) = of_nat (group_val a b 0)"
proof -
  have "group_val a b 0 = 64 * (1024 * unat a + 4 * unat b)"
    by (simp add: group_val_def)
  then have "group_val a b 0 mod 64 = 0"
    by simp
  then show ?thesis
    using dec_triple [OF group_val_less [of a b 0]] by (simp add: enc_group_def sextet_at sextet_def [of _ 61])
qed

lemma dec_group1: "group_triple (take 2 (enc_group a 0 0) @ [61, 61]) = of_nat (group_val a 0 0)"
proof -
  have g: "group_val a 0 0 = 64 * (64 * (16 * unat a))"
    by (simp add: group_val_def)
  have "group_val a 0 0 mod 64 = 0" "group_val a 0 0 div 64 mod 64 = 0"
    unfolding g by simp_all
  then show ?thesis
    using dec_triple [OF group_val_less [of a 0 0]] by (simp add: enc_group_def sextet_at sextet_def [of _ 61])
qed

lemma dec64_step:
  assumes "length x = i" and "length g = 4" and "int i < n" and "dec64_store ol (group_triple g) (j, out) = Some (j', out')"
  shows "dec64_loop build_base64_decoding_table (x @ g @ y) n ol i j out
    = dec64_loop build_base64_decoding_table (x @ g @ y) n ol (i + 4) j' out'"
proof -
  obtain a b c d where g: "g = [a, b, c, d]"
    using four_more [of g] assms(2) by auto
  have "rd8 (x @ g @ y) i = Some a" "rd8 (x @ g @ y) (i + 1) = Some b" "rd8 (x @ g @ y) (i + 2) = Some c"
    "rd8 (x @ g @ y) (i + 3) = Some d"
    using assms(1) by (simp_all add: g rd8_def nth_append)
  then show ?thesis
    using assms(3,4) by (subst dec64_loop.simps) (simp add: g Let_def)
qed

lemma dec64_loop_stop: "n \<le> int i \<Longrightarrow> dec64_loop table data n ol i j out = Some out"
  by (simp add: dec64_loop.simps)

lemma dec64_loop_eq:
  assumes "length p = j" and "length d \<le> length q"
  shows "dec64_loop build_base64_decoding_table (x @ enc64 d @ y) (int (length x + length (enc64 d))) (j + length d)
    (length x) j (p @ q) = Some (p @ d @ drop (length d) q)"
  using assms
proof (induction d arbitrary: x p j q rule: enc64.induct)
  case 1
  then show ?case
    by (simp add: dec64_loop_stop)
next
  case (2 a)
  let ?g = "take 2 (enc_group a 0 0) @ [61, 61]"
  have "dec64_store (Suc j) (group_triple ?g) (j, p @ q) = Some (j + 1, p @ [a] @ drop 1 q)"
    unfolding dec_group1 using dec64_store_eq [of p j 1 "Suc j" q a 0 0] 2 by simp
  from dec64_step [OF refl _ _ this, of x "int (length x + 4)" y] show ?case
    by (simp add: dec64_loop_stop)
next
  case (3 a b)
  let ?g = "take 3 (enc_group a b 0) @ [61]"
  have "dec64_store (j + 2) (group_triple ?g) (j, p @ q) = Some (j + 2, p @ [a, b] @ drop (Suc (Suc 0)) q)"
    unfolding dec_group2 using dec64_store_eq [of p j 2 "j + 2" q a b 0] 3 by (simp add: numeral_2_eq_2)
  from dec64_step [OF refl _ _ this, of x "int (length x + 4)" y] show ?case
    by (simp add: dec64_loop_stop)
next
  case (4 a b c d)
  let ?g = "enc_group a b c" and ?ol = "j + length (a # b # c # d)"
  have "dec64_store ?ol (group_triple ?g) (j, p @ q) = Some (j + 3, p @ [a, b, c] @ drop 3 q)"
    unfolding dec_group using dec64_store_eq [of p j 3 ?ol q a b c] "4.prems" by simp
  from dec64_step [OF refl _ _ this, of x "int (length x + (4 + length (enc64 d)))" "enc64 d @ y"]
  moreover have "?ol = j + 3 + length d" "drop (length (a # b # c # d)) q = drop (length d + 3) q"
    by (simp_all add: eval_nat_numeral)
  ultimately show ?case
    using "4.IH" [of "p @ [a, b, c]" "j + 3" "drop 3 q" "x @ ?g"] "4.prems"
    by (simp add: add.assoc [symmetric] numeral_3_eq_3)
qed

text \<open>Padding signs at the end of the text give the length of the data away.\<close>

lemma tail_enc64:
  assumes "d \<noteq> []" and "0 < k" and "k \<le> 4"
  shows "enc64 (a # b # c # d) ! (length (enc64 (a # b # c # d)) - k) = enc64 d ! (length (enc64 d) - k)"
proof -
  have "4 \<le> length (enc64 d)"
    using assms(1) by (cases d) (auto simp: length_enc64)
  then have "\<not> 4 + length (enc64 d) - k < 4" "4 + length (enc64 d) - k - 4 = length (enc64 d) - k"
    using assms(2,3) by simp_all
  then show ?thesis
    by (simp add: nth_append)
qed

lemma last_enc64:
  "d \<noteq> [] \<Longrightarrow> (enc64 d ! (length (enc64 d) - 1) = 61 \<longleftrightarrow> length d mod 3 \<noteq> 0) \<and>
    (enc64 d ! (length (enc64 d) - 2) = 61 \<longleftrightarrow> length d mod 3 = 1)"
proof (induction d rule: enc64.induct)
  case (4 a b c d)
  have m: "length (a # b # c # d) mod 3 = length d mod 3"
    by simp
  show ?case
  proof (cases "d = []")
    case True
    then show ?thesis
      by (simp add: enc_group_def encoding_table_at)
  next
    case False
    have "enc64 (a # b # c # d) ! (length (enc64 (a # b # c # d)) - 1) = enc64 d ! (length (enc64 d) - 1)"
      "enc64 (a # b # c # d) ! (length (enc64 (a # b # c # d)) - 2) = enc64 d ! (length (enc64 d) - 2)"
      by (rule tail_enc64 [OF False]; simp)+
    then show ?thesis
      using "4.IH" [OF False] unfolding m by (simp only:)
  qed
qed (simp_all add: enc_group_def encoding_table_at)

lemma decoded_length:
  assumes "d \<noteq> []"
  shows "length (enc64 d) div 4 * 3 - (if length d mod 3 \<noteq> 0 then 1 else 0) - (if length d mod 3 = 1 then 1 else 0)
    = length d"
proof -
  have "length d mod 3 = 0 \<or> length d mod 3 = 1 \<or> length d mod 3 = 2"
    by linarith
  then obtain q r where d: "length d = r + q * 3" "r = 0 \<or> r = 1 \<or> r = 2"
    using mod_div_mult_eq [of "length d" 3] by metis
  have "length (enc64 d) div 4 = (r + 2 + q * 3) div 3"
    by (simp add: length_enc64 d)
  then show ?thesis
    using d by auto
qed

lemma base64_decode_eq:
  assumes "d \<noteq> []" and "length (enc64 d) < 2 ^ 31" and "table = None \<or> table = Some build_base64_decoding_table"
    and "malloc (length d) = Some m" and "length m = length d" and "n = length (enc64 d)"
  shows "base64_decode malloc table (enc64 d @ y) n ol = Some (Some d, length d, Some build_base64_decoding_table)"
proof -
  have t: "(case table of None \<Rightarrow> build_base64_decoding_table | Some t \<Rightarrow> t) = build_base64_decoding_table"
    using assms(3) by auto
  have n: "n mod 4 = 0" "4 \<le> n"
    using assms(1) by (simp_all add: assms(6) length_enc64, cases d) auto
  have r: "rd8 (enc64 d @ y) (n - 1) = Some (enc64 d ! (n - 1))" "rd8 (enc64 d @ y) (n - 2) = Some (enc64 d ! (n - 2))"
    using n by (auto simp: rd8_def nth_append assms(6))
  have s: "sint (word_of_nat n :: u32) = int n"
    using assms(2,6) by (simp add: signed_of_nat signed_take_bit_int_eq_self)
  have "dec64_loop build_base64_decoding_table (enc64 d @ y) (int n) (length d) 0 0 m = Some d"
    using dec64_loop_eq [of "[]" 0 d m "[]" y] assms(5,6) by simp
  then show ?thesis
    using assms n r s last_enc64 [OF assms(1)] decoded_length [OF assms(1)]
    by (auto simp: base64_decode_def t Let_def)
qed

lemma enc64_no_nul: "0 \<notin> set (enc64 d)"
proof -
  have g: "0 \<notin> set (enc_group a b c)" for a b c
    using encoding_table_at(2) [symmetric] by (auto simp: enc_group_def)
  show ?thesis
  proof (induction d rule: enc64.induct)
    case (2 a)
    then show ?case
      using g [of a 0 0] by (auto dest: in_set_takeD)
  next
    case (3 a b)
    then show ?case
      using g [of a b 0] by (auto dest: in_set_takeD)
  qed (simp_all add: g)
qed

subsection \<open>Properties\<close>

text \<open>What is relied on of the allocator: a block of the size asked for.\<close>

definition alloc_ok :: "(nat \<Rightarrow> mem option) \<Rightarrow> bool" where
  "alloc_ok malloc \<longleftrightarrow> (\<forall>n. \<exists>m. malloc n = Some m \<and> length m = n)"

lemma alloc_okD: "alloc_ok malloc \<Longrightarrow> \<exists>m. malloc n = Some m \<and> length m = n"
  by (simp add: alloc_ok_def)

text \<open>C22: Any non-empty data whose text fits an \<open>int\<close> index is encoded into a C string of four characters per three
  bytes, and decoding that string gives the data and its length back, whatever the fresh blocks contained and whether
  or not the decoding table was built before.\<close>

theorem base64_roundtrip:
  assumes "alloc_ok malloc" and "d \<noteq> []" and "length d + 2 < 3 * 2 ^ 29"
    and "table = None \<or> table = Some build_base64_decoding_table"
  shows "\<exists>e. base64_encode malloc d (length d) = Some (Some (e @ [0]), length e)
    \<and> length e = 4 * ((length d + 2) div 3) \<and> 0 \<notin> set e
    \<and> base64_decode malloc table (e @ [0]) (length e) ol = Some (Some d, length d, Some build_base64_decoding_table)"
proof (intro exI conjI)
  have "length (enc64 d) < 2 ^ 31"
    using assms(3) by (simp add: length_enc64)
  then show "base64_decode malloc table (enc64 d @ [0]) (length (enc64 d)) ol
      = Some (Some d, length d, Some build_base64_decoding_table)"
    using base64_decode_eq [OF assms(2) _ assms(4)] alloc_okD [OF assms(1), of "length d"] by blast
  show "base64_encode malloc d (length d) = Some (Some (enc64 d @ [0]), length (enc64 d))"
    using base64_encode_eq [of d "length d" malloc _ "[]"] alloc_okD [OF assms(1), of "length (enc64 d) + 1"] by auto
qed (simp_all add: length_enc64 enc64_no_nul)

theorem base64_roundtrip_witness:
  "\<exists>e. base64_encode (\<lambda>n. Some (replicate n 170)) (chars ''turn'') 4 = Some (Some (e @ [0]), length e) \<and> length e = 8
    \<and> base64_decode (\<lambda>n. Some (replicate n 170)) None (e @ [0]) 8 0
      = Some (Some (chars ''turn''), 4, Some build_base64_decoding_table)"
proof -
  have "alloc_ok (\<lambda>n. Some (replicate n 170))"
    by (simp add: alloc_ok_def)
  moreover have "length (chars ''turn'') = 4" "chars ''turn'' \<noteq> []"
    by (simp_all add: chars_def)
  ultimately show ?thesis
    using base64_roundtrip [of "\<lambda>n. Some (replicate n 170)" "chars ''turn''" None 0] by force
qed

text \<open>Converting a raw record whose key text is the encoding of \<open>k\<close>.\<close>

lemma convert_raw_eq:
  assumes "alloc_ok malloc" and "k \<noteq> []" and "raw_ikm_key raw = enc64 k @ 0 # y" and "length (raw_ikm_key raw) = 257"
    and "length (raw_kid raw) = 129" and "length (raw_as_rs_alg raw) = 65"
    and "table = None \<or> table = Some build_base64_decoding_table"
  shows "convert_oauth_key_data_raw malloc table (Some raw) (Some old) =
    Some (Some \<lparr>kd_kid = raw_kid raw, kd_ikm_key = k @ replicate (257 - length k) 0, kd_ikm_key_size = length k,
      kd_timestamp = ucast (raw_timestamp raw), kd_lifetime = raw_lifetime raw, kd_as_rs_alg = raw_as_rs_alg raw\<rparr>,
      Some build_base64_decoding_table)"
proof -
  have e: "length (enc64 k) \<le> 256" "length (enc64 k) < 2 ^ 31"
    using assms(3,4) by simp_all
  then have k: "length k \<le> 257"
    by (simp add: length_enc64)
  obtain m where m: "malloc (length k) = Some m" "length m = length k"
    using alloc_okD [OF assms(1)] by blast
  obtain h t where h: "enc64 k = h # t"
    using assms(2) length_enc64 [of k] by (cases "enc64 k"; cases k) auto
  then have "h \<noteq> 0"
    using enc64_no_nul [of k] by auto
  moreover have "c_strlen (raw_ikm_key raw) = Some (length (enc64 k))"
    unfolding assms(3) by (rule c_strlen_append [OF enc64_no_nul])
  moreover have "base64_decode malloc table (raw_ikm_key raw) (length (enc64 k)) 0
      = Some (Some k, length k, Some build_base64_decoding_table)"
    unfolding assms(3) using base64_decode_eq [OF assms(2) e(2) assms(7), of malloc] m by blast
  moreover have "rd8 (raw_ikm_key raw) 0 = Some h"
    by (simp add: assms(3) h rd8_def)
  ultimately show ?thesis
    using assms(5,6) k by (simp add: convert_oauth_key_data_raw_def rdn_def wrn_def zero_key_data_def)
qed

text \<open>From the data base to the cipher: a record with a key id, the name of a known algorithm and, as key text, what
  \<open>base64_encode\<close> wrote for the bytes \<open>k\<close>, is converted into key data and then into a key whose cipher key is the front of
  \<open>k\<close>, padded with zeros to the size of the cipher.\<close>

lemma raw_key_to_cipher_key:
  assumes "alloc_ok malloc" and "k \<noteq> []" and "base64_encode malloc k (length k) = Some (Some txt, n)"
    and "raw_ikm_key raw = txt @ y" and "length (raw_ikm_key raw) = 257"
    and "raw_kid raw = u @ 0 # x" and "length (raw_kid raw) = 129" and "u \<noteq> []" and "0 \<notin> set u"
    and "raw_as_rs_alg raw = v @ 0 # z" and "length (raw_as_rs_alg raw) = 65" and "0 \<notin> set v" and "alg_of v = Some a"
  shows "\<exists>d key. convert_oauth_key_data_raw malloc None (Some raw) (Some old) = Some (Some d, Some build_base64_decoding_table)
    \<and> convert_oauth_key_data now (Some d) (Some k0) None 0 = Some (0, Some key, None)
    \<and> k_as_rs_alg key = a \<and> k_as_rs_key_size key = calculate_enc_key_length a
    \<and> take (calculate_enc_key_length a) (k_as_rs_key key) = take (calculate_enc_key_length a) (k @ replicate 257 0)"
proof -
  have "txt = enc64 k @ [0]"
    using base64_encode_eq [of k "length k" malloc _ "[]"] alloc_okD [OF assms(1), of "length (enc64 k) + 1"] assms(3) by auto
  then have ik: "raw_ikm_key raw = enc64 k @ 0 # y"
    using assms(4) by simp
  let ?d = "\<lparr>kd_kid = raw_kid raw, kd_ikm_key = k @ replicate (257 - length k) 0, kd_ikm_key_size = length k,
    kd_timestamp = ucast (raw_timestamp raw), kd_lifetime = raw_lifetime raw, kd_as_rs_alg = raw_as_rs_alg raw\<rparr>"
  have "length (enc64 k) \<le> 256"
    using ik assms(5) by simp
  then have k: "length k \<le> 257"
    by (simp add: length_enc64)
  have "convert_oauth_key_data now (Some ?d) (Some k0) None 0 = Some (0, Some (the_key now ?d u a), None)"
    using convert_key_eq(3) [of u v ?d x z a now k0] assms(6-13) k by simp
  moreover have "calculate_enc_key_length a \<le> 32"
    by (simp add: calculate_enc_key_length_def)
  ultimately show ?thesis
    using convert_raw_eq [OF assms(1,2) ik assms(5,7,11), of None old] by (auto simp: the_key_def min_def)
qed

definition sample_raw_key :: oauth_key_data_raw where
  "sample_raw_key = \<lparr>raw_kid = chars ''north'' @ 0 # replicate 123 0, raw_ikm_key = enc64 [1, 2] @ 0 # replicate 252 0,
     raw_timestamp = 0, raw_lifetime = 0, raw_as_rs_alg = chars ''A128GCM'' @ 0 # replicate 57 0, raw_realm = replicate 128 0\<rparr>"

end
