(* ===== verification/Turn_Uclient.thy ===== *)
theory Turn_Uclient
  imports Turn_Input Base64
begin

text \<open>
  The calls that the application makes (\<open>p2p/uclient_manager.c\<close>): the setters, \<open>start_uclient\<close> and \<open>start_bind_client\<close>.
  The record \<open>uclient\<close> has the variables of the file, those used by other files as \<open>settings\<close>, and the state of the session.
  A C string argument is the memory at the pointer, \<open>None\<close> for the null pointer.  \<open>unsigned long\<close> has 64 bits.

  It is shown that the credentials for a shared secret are the expiry time with the user name and the Base64 text of
  its HMAC, and how a client is started over TLS: the contexts it adds to those of earlier starts, what follows if there is no
  room for them, and the settings it is started with.
\<close>

subsection \<open>State\<close>

record uclient =
  u_set :: settings
  u_cl :: client
  rest_api_separator :: u8
  peer_address :: mem
  peer_port :: int
  use_null_cipher :: bool
  cipher_suite :: mem
  ca_cert_file :: mem
  cert_file :: mem
  pkey_file :: mem
  g_auth_secret :: mem
  g_use_auth_secret_with_timestamp :: bool
  client_ifname :: mem
  m_local_addr :: mem

text \<open>The values before the first call; the address table and the keys are filled elsewhere.\<close>

definition initial_uclient :: "addr_map \<Rightarrow> oauth_key list \<Rightarrow> uclient" where
  "initial_uclient tbl okeys = \<lparr>
     u_set = \<lparr>use_tcp = False, use_secure = False, use_sctp = False, dos = False, negative_test = False,
       negative_protocol_test = False, relay_transport = 17, clmessage_length = 100, use_fingerprints = True, no_permissions = False,
       dual_allocation = False, mobility = False, no_rtcp = False, c2c = False, do_not_use_channel = False, extra_requests = False,
       dont_fragment = False, bps = 0, root_tls_ctx_num = 0, origin = replicate 128 0, s_oauth = False, shatype = SHATYPE_SHA1,
       okey_array = okeys, g_uname = replicate 513 0, g_upwd = replicate 257 0, addr_tbl = tbl\<rparr>,
     u_cl = \<lparr>c_st = \<lparr>allocate_rtcp = False, current_reservation_token = 0, default_address_family = 0, peer_addr = zero_addr, mCB = None\<rparr>,
       elems = None, buffer_to_send = replicate 65536 0\<rparr>,
     rest_api_separator = 58, peer_address = replicate 129 0, peer_port = 3480, use_null_cipher = False,
     cipher_suite = replicate 1025 0, ca_cert_file = replicate 1025 0, cert_file = replicate 1025 0, pkey_file = replicate 1025 0,
     g_auth_secret = replicate 1025 0, g_use_auth_secret_with_timestamp = False, client_ifname = replicate 1025 0,
     m_local_addr = replicate 256 0\<rparr>"

text \<open>\<open>strcpy\<close> onto the beginning of an array.\<close>

definition c_strcpy :: "mem \<Rightarrow> mem option \<Rightarrow> mem option" where
  "c_strcpy dst src = do { m \<leftarrow> src; s \<leftarrow> c_str m; wrn dst 0 (s @ [0]) }"

subsection \<open>Setters\<close>

definition set_peer_address :: "mem option \<Rightarrow> uclient \<Rightarrow> uclient option" where
  "set_peer_address a u = do { m \<leftarrow> c_strcpy (peer_address u) a; Some (u\<lparr>peer_address := m\<rparr>) }"

definition set_c2c :: "int \<Rightarrow> uclient \<Rightarrow> uclient" where
  "set_c2c n u = u\<lparr>u_set := (u_set u)\<lparr>c2c := n \<noteq> 0\<rparr>\<rparr>"

definition set_peer_port :: "int \<Rightarrow> uclient \<Rightarrow> uclient" where
  "set_peer_port port u = u\<lparr>peer_port := port\<rparr>"

definition set_use_null_cipher :: "int \<Rightarrow> uclient \<Rightarrow> uclient" where
  "set_use_null_cipher cipher u = u\<lparr>use_null_cipher := cipher \<noteq> 0\<rparr>"

definition set_cipher_suite :: "mem option \<Rightarrow> uclient \<Rightarrow> uclient option" where
  "set_cipher_suite suite u = do { m \<leftarrow> c_strcpy (replicate 1025 0) suite; Some (u\<lparr>cipher_suite := m\<rparr>) }"

definition set_local_addr :: "mem option \<Rightarrow> uclient \<Rightarrow> uclient" where
  "set_local_addr local_address u = u"

definition set_addr_cb :: "nat option \<Rightarrow> uclient \<Rightarrow> uclient" where
  "set_addr_cb cb u = u\<lparr>u_cl := set_notify_address_cb cb (u_cl u)\<rparr>"

subsection \<open>Credentials for a shared secret\<close>

text \<open>The text that \<open>snprintf\<close> leaves in an array of \<open>n\<close> bytes.\<close>

definition c_snprintf :: "nat \<Rightarrow> mem \<Rightarrow> mem" where
  "c_snprintf n s = take (n - 1) s @ [0]"

definition rest_username :: "('w, 'c) lib \<Rightarrow> uclient \<Rightarrow> 'w \<Rightarrow> (settings \<times> 'w) option" where
  "rest_username L u w = do {
     let g = u_set u;
     let exp_time = 3600 * 24;
     let (t, w) = l_time L w;
     c \<leftarrow> rd8 (g_uname g) 0;
     new_uname \<leftarrow> (if c \<noteq> 0 then do {
         s \<leftarrow> c_str (g_uname g);
         Some (c_snprintf 1025 (dec_string (unat (t + exp_time)) @ [rest_api_separator u] @ s)) }
       else Some (c_snprintf 1025 (dec_string (unat (t + exp_time)))));
     m \<leftarrow> STRCPY 513 new_uname;
     Some (g\<lparr>g_uname := m\<rparr>, w) }"

definition put_password :: "mem option \<Rightarrow> nat \<Rightarrow> settings \<Rightarrow> settings option" where
  "put_password pwd pwd_length g = (case pwd of None \<Rightarrow> Some g
     | Some pwd \<Rightarrow>
         if pwd_length > 0 then do {
           s \<leftarrow> rdn pwd 0 pwd_length;
           p \<leftarrow> wrn (g_upwd g) 0 s;
           p \<leftarrow> wr8 p pwd_length 0;
           Some (g\<lparr>g_upwd := p\<rparr>) }
         else Some g)"

text \<open>The array \<open>hmac\<close> has 128 bytes; what it holds behind the result is not read.\<close>

definition rest_password :: "('w, 'c) lib \<Rightarrow> mem \<Rightarrow> settings \<Rightarrow> settings option" where
  "rest_password L secret g = do {
     n \<leftarrow> c_strlen (g_uname g);
     k \<leftarrow> c_strlen secret;
     h \<leftarrow> stun_calculate_hmac (l_hmac L) (g_uname g) n secret k (shatype g);
     case h of None \<Rightarrow> Some g
     | Some m \<Rightarrow> do {
         hmac \<leftarrow> wrn (replicate 128 0) 0 m;
         (pwd, pwd_length) \<leftarrow> base64_encode (\<lambda>n. Some (l_malloc L n)) hmac (length m);
         put_password pwd pwd_length g } }"

definition rest_credentials :: "('w, 'c) lib \<Rightarrow> uclient \<Rightarrow> 'w \<Rightarrow> (settings \<times> 'w) option" where
  "rest_credentials L u w =
     (if g_use_auth_secret_with_timestamp u then do {
        (g, w) \<leftarrow> rest_username L u w;
        g \<leftarrow> rest_password L (g_auth_secret u) g;
        Some (g, w) }
      else Some (u_set u, w))"

subsection \<open>Settings that depend on others\<close>

definition tcp_relay_settings :: "settings \<Rightarrow> settings" where
  "tcp_relay_settings g =
     (if is_TCP_relay g then g\<lparr>dont_fragment := False, no_rtcp := True, c2c := True, use_tcp := True, do_not_use_channel := True\<rparr>
      else g)"

definition server_port :: "settings \<Rightarrow> int \<Rightarrow> int" where
  "server_port g port = (if port = 0 then (if use_secure g then 5349 else 3478) else port)"

definition message_length_settings :: "settings \<Rightarrow> settings" where
  "message_length_settings g =
     (let g = (if clmessage_length g < 16 then g\<lparr>clmessage_length := 16\<rparr> else g) in
      if clmessage_length g > 65507 - 100 then g\<lparr>clmessage_length := 65507 - 100\<rparr> else g)"

subsection \<open>TLS contexts\<close>

definition new_context :: "('w, 'c) lib \<Rightarrow> string \<Rightarrow> mem \<Rightarrow> settings \<times> 'w \<Rightarrow> (settings \<times> 'w) option" where
  "new_context L meth csuite s = (case s of (g, w) \<Rightarrow> let i = root_tls_ctx_num g in
     if i < 0 \<or> 32 \<le> i then None
     else case SSL_CTX_setup L (CTX_new meth) i w of (_, w) \<Rightarrow>
       case SSL_CTX_setup L (CTX_set_cipher_list csuite) i w of (_, w) \<Rightarrow> Some (g\<lparr>root_tls_ctx_num := i + 1\<rparr>, w))"

definition csuite :: "uclient \<Rightarrow> mem option" where
  "csuite u = (if use_null_cipher u then Some (c_lit ''eNULL'') else do {
     c \<leftarrow> rd8 (cipher_suite u) 0;
     Some (if c \<noteq> 0 then cipher_suite u else c_lit ''ALL'') })"

definition make_contexts :: "('w, 'c) lib \<Rightarrow> mem \<Rightarrow> settings \<Rightarrow> 'w \<Rightarrow> (settings \<times> 'w) option" where
  "make_contexts L suite g w =
     (if use_tcp g then do {
        s \<leftarrow> new_context L ''SSLv23_client_method'' suite (g, w);
        s \<leftarrow> new_context L ''TLSv1_client_method'' suite s;
        s \<leftarrow> new_context L ''TLSv1_1_client_method'' suite s;
        new_context L ''TLSv1_2_client_method'' suite s }
      else do {
        s \<leftarrow> new_context L ''DTLSv1_client_method'' suite (g, w);
        new_context L ''DTLSv1_2_client_method'' suite s })"

text \<open>One turn of the loop over the contexts, \<open>False\<close> if \<open>start_uclient\<close> returns in it.\<close>

definition prepare_context :: "('w, 'c) lib \<Rightarrow> uclient \<Rightarrow> bool \<Rightarrow> int \<Rightarrow> 'w \<Rightarrow> (bool \<times> 'w) option" where
  "prepare_context L u tcp i w = do {
     cert \<leftarrow> rd8 (cert_file u) 0;
     ca \<leftarrow> rd8 (ca_cert_file u) 0;
     let (ok, w) = (if cert \<noteq> 0 then SSL_CTX_setup L (CTX_use_certificate_chain_file (cert_file u)) i w else (True, w));
     if \<not> ok then Some (False, w)
     else do {
       let (ok, w) = SSL_CTX_setup L (CTX_use_PrivateKey_file (pkey_file u)) i w;
       if \<not> ok then Some (False, w)
       else do {
         let (ok, w) = (if cert \<noteq> 0 then SSL_CTX_setup L CTX_check_private_key i w else (True, w));
         if \<not> ok then Some (False, w)
         else do {
           let w = (if ca \<noteq> 0 then
               (case SSL_CTX_setup L (CTX_load_verify_locations (ca_cert_file u)) i w of (_, w) \<Rightarrow>
                snd (SSL_CTX_setup L (CTX_set_verify_depth 9) i (snd (SSL_CTX_setup L (CTX_set_verify True) i w))))
             else snd (SSL_CTX_setup L (CTX_set_verify False) i w));
           Some (True, if \<not> tcp then snd (SSL_CTX_setup L (CTX_set_read_ahead True) i w) else w) } } } }"

fun prepare_contexts :: "('w, 'c) lib \<Rightarrow> uclient \<Rightarrow> bool \<Rightarrow> nat list \<Rightarrow> 'w \<Rightarrow> (bool \<times> 'w) option" where
  "prepare_contexts L u tcp [] w = Some (True, w)"
| "prepare_contexts L u tcp (i # is) w = do {
     (ok, w) \<leftarrow> prepare_context L u tcp (int i) w;
     if ok then prepare_contexts L u tcp is w else Some (False, w) }"

definition secure_contexts :: "('w, 'c) lib \<Rightarrow> uclient \<Rightarrow> 'w \<Rightarrow> (bool \<times> uclient \<times> 'w) option" where
  "secure_contexts L u w =
     (if use_secure (u_set u) then do {
        suite \<leftarrow> csuite u;
        (g, w) \<leftarrow> make_contexts L suite (u_set u) w;
        let u = u\<lparr>u_set := g\<rparr>;
        (ok, w) \<leftarrow> prepare_contexts L u (use_tcp g) [0..<nat (root_tls_ctx_num g)] w;
        Some (ok, u, w) }
      else Some (True, u, w))"

subsection \<open>Starting and binding\<close>

definition start_uclient ::
    "('w, 'c) lib \<Rightarrow> app_ur_session \<Rightarrow> mem \<Rightarrow> int \<Rightarrow> mem option \<Rightarrow> mem option \<Rightarrow> uclient \<Rightarrow> 'w
     \<Rightarrow> ((int + unit) \<times> uclient \<times> 'w) option" where
  "start_uclient L block remote_address remote_port uname upwd u w = do {
     name \<leftarrow> c_strcpy (g_uname (u_set u)) uname;
     pwd \<leftarrow> c_strcpy (g_upwd (u_set u)) upwd;
     let g = (u_set u)\<lparr>g_uname := name, g_upwd := pwd\<rparr>;
     let u = u\<lparr>u_set := g, m_local_addr := replicate 256 0\<rparr>;
     let u = (if dual_allocation g then u\<lparr>u_set := g\<lparr>no_rtcp := True\<rparr>\<rparr> else u);
     (g, w) \<leftarrow> rest_credentials L u w;
     let g = tcp_relay_settings g;
     let port = server_port g remote_port;
     let u = u\<lparr>u_set := message_length_settings g\<rparr>;
     (ok, u, w) \<leftarrow> secure_contexts L u w;
     if \<not> ok then Some (Inr (), u, w)
     else do {
       (x, cl, w) \<leftarrow> start_p2p_client L (u_set u) (u_cl u) block remote_address port (client_ifname u) (m_local_addr u) w;
       Some (x, u\<lparr>u_cl := cl\<rparr>, w) } }"

definition start_uclient_default ::
    "('w, 'c) lib \<Rightarrow> app_ur_session \<Rightarrow> mem \<Rightarrow> int \<Rightarrow> uclient \<Rightarrow> 'w \<Rightarrow> ((int + unit) \<times> uclient \<times> 'w) option" where
  "start_uclient_default L block remote_address remote_port u w = start_uclient L block remote_address remote_port None None u w"

definition start_bind_client ::
    "('w, 'c) lib \<Rightarrow> mem \<Rightarrow> int \<Rightarrow> uclient \<Rightarrow> 'w \<Rightarrow> ((int + unit) \<times> uclient \<times> 'w) option" where
  "start_bind_client L address port u w = do {
     (x, cl, w) \<leftarrow> bind_client L (u_set u) (u_cl u) address port w;
     Some (x, u\<lparr>u_cl := cl\<rparr>, w) }"

subsection \<open>Sizes and bounds\<close>

lemma c_strcpy_eq:
  assumes "0 \<notin> set s" and "length s < length dst"
  shows "c_strcpy dst (Some (s @ 0 # x)) = Some (s @ 0 # drop (length s + 1) dst)"
  using assms by (simp add: c_strcpy_def wrn_def)

lemma c_strcpy_length: "c_strcpy dst src = Some m \<Longrightarrow> length m = length dst"
  by (auto simp: c_strcpy_def bind_eq_Some_conv dest: wrn_SomeD(2))

lemma c_strncpy_length: "c_strncpy n s = Some m \<Longrightarrow> length m = n"
  by (induction n s arbitrary: m rule: c_strncpy.induct) (auto split: if_splits)

lemma STRCPY_length: "STRCPY n s = Some m \<Longrightarrow> length m = n"
  by (auto simp: STRCPY_def bind_eq_Some_conv wr8_def dest: c_strncpy_length wrn_SomeD(2))

text \<open>What the steps of \<open>start_uclient\<close> may change of the settings.\<close>

definition same_sizes :: "settings \<Rightarrow> settings \<Rightarrow> bool" where
  "same_sizes g g' \<longleftrightarrow> length (g_uname g') = length (g_uname g) \<and> length (g_upwd g') = length (g_upwd g)
     \<and> root_tls_ctx_num g' = root_tls_ctx_num g"

lemma rest_username_sizes:
  assumes "rest_username L u w = Some (g, w')" and "length (g_uname (u_set u)) = 513"
  shows "same_sizes (u_set u) g"
  using assms by (auto simp: rest_username_def same_sizes_def bind_eq_Some_conv Let_def split: prod.splits dest: STRCPY_length)

lemma put_password_sizes: "put_password pwd n g = Some g' \<Longrightarrow> same_sizes g g'"
  by (cases pwd) (auto simp: put_password_def same_sizes_def bind_eq_Some_conv wr8_def split: if_split_asm dest!: wrn_SomeD(2))

lemma rest_password_sizes:
  assumes "rest_password L k g = Some g'"
  shows "same_sizes g g'"
proof -
  obtain h n m where "stun_calculate_hmac (l_hmac L) (g_uname g) n k m (shatype g) = Some h" and
    "(case h of None \<Rightarrow> Some g | Some m \<Rightarrow> do {
       hmac \<leftarrow> wrn (replicate 128 0) 0 m;
       (pwd, l) \<leftarrow> base64_encode (\<lambda>n. Some (l_malloc L n)) hmac (length m);
       put_password pwd l g }) = Some g'"
    using assms by (auto simp: rest_password_def bind_eq_Some_conv)
  then show ?thesis
    by (cases h) (auto simp: bind_eq_Some_conv same_sizes_def dest: put_password_sizes)
qed

lemma rest_credentials_sizes:
  assumes "rest_credentials L u w = Some (g, w')" and "length (g_uname (u_set u)) = 513"
  shows "same_sizes (u_set u) g"
  using assms by (auto simp: rest_credentials_def bind_eq_Some_conv same_sizes_def split: if_splits
    dest!: rest_username_sizes rest_password_sizes)

lemma tcp_relay_settings_simps [simp]:
  "g_uname (tcp_relay_settings g) = g_uname g" "g_upwd (tcp_relay_settings g) = g_upwd g"
  "root_tls_ctx_num (tcp_relay_settings g) = root_tls_ctx_num g" "relay_transport (tcp_relay_settings g) = relay_transport g"
  "use_secure (tcp_relay_settings g) = use_secure g"
  by (simp_all add: tcp_relay_settings_def)

lemma message_length_settings_simps [simp]:
  "g_uname (message_length_settings g) = g_uname g" "g_upwd (message_length_settings g) = g_upwd g"
  "root_tls_ctx_num (message_length_settings g) = root_tls_ctx_num g" "relay_transport (message_length_settings g) = relay_transport g"
  "use_secure (message_length_settings g) = use_secure g" "use_tcp (message_length_settings g) = use_tcp g"
  "c2c (message_length_settings g) = c2c g" "do_not_use_channel (message_length_settings g) = do_not_use_channel g"
  by (simp_all add: message_length_settings_def Let_def)

text \<open>The settings that a client is started with.\<close>

definition settled :: "settings \<Rightarrow> bool" where
  "settled g \<longleftrightarrow> 16 \<le> clmessage_length g \<and> clmessage_length g \<le> 65407 \<and> (is_TCP_relay g \<longrightarrow> use_tcp g \<and> do_not_use_channel g)"

lemma settled_settings: "settled (message_length_settings (tcp_relay_settings g))"
  by (simp add: settled_def is_TCP_relay_def) (simp add: message_length_settings_def Let_def tcp_relay_settings_def is_TCP_relay_def)

lemma new_context_Some:
  assumes "new_context L mth suite s = Some s'"
  shows "0 \<le> root_tls_ctx_num (fst s) \<and> root_tls_ctx_num (fst s') \<le> 32
    \<and> fst s' = (fst s)\<lparr>root_tls_ctx_num := root_tls_ctx_num (fst s) + 1\<rparr>"
  using assms by (auto simp: new_context_def Let_def split: prod.splits if_splits)

lemma make_contexts_Some:
  assumes "make_contexts L suite g w = Some (g', w')"
  shows "\<exists>n. 0 \<le> n \<and> n \<le> 32 \<and> g' = g\<lparr>root_tls_ctx_num := n\<rparr>"
proof (intro exI [of _ "root_tls_ctx_num g'"] conjI)
  show "0 \<le> root_tls_ctx_num g'" and "root_tls_ctx_num g' \<le> 32" and "g' = g\<lparr>root_tls_ctx_num := root_tls_ctx_num g'\<rparr>"
    using assms by (auto simp: make_contexts_def bind_eq_Some_conv split: if_splits dest!: new_context_Some)
qed

lemma secure_contexts_Some:
  assumes "secure_contexts L u w = Some (ok, u', w')" and "0 \<le> root_tls_ctx_num (u_set u)" and "root_tls_ctx_num (u_set u) \<le> 32"
  shows "\<exists>n. 0 \<le> n \<and> n \<le> 32 \<and> u' = u\<lparr>u_set := (u_set u)\<lparr>root_tls_ctx_num := n\<rparr>\<rparr>"
proof (cases "use_secure (u_set u)")
  case True
  then obtain suite g w1 where c: "make_contexts L suite (u_set u) w = Some (g, w1)" and "u' = u\<lparr>u_set := g\<rparr>"
    using assms(1) by (auto simp: secure_contexts_def bind_eq_Some_conv Let_def)
  then show ?thesis
    using make_contexts_Some [OF c] by auto
next
  case False
  then have "u' = u"
    using assms(1) by (simp add: secure_contexts_def)
  then show ?thesis
    using assms(2,3) by (intro exI [of _ "root_tls_ctx_num (u_set u)"]) simp
qed

lemma start_client_buffer:
  assumes "start_client L g cl blk A port ifn la w = Some (x, cl', w')"
  shows "buffer_to_send cl' = buffer_to_send cl"
proof -
  obtain ss y chn st ci w1 where "create_new_ss blk = Some ss"
    and "start_connection L g (c_st cl) (word_of_int port) A ifn la (pinfo ss) w = Some (y, chn, st, ci, w1)"
    using assms by (auto simp: start_client_def bind_eq_Some_conv)
  then show ?thesis
    using assms by (cases y) (auto simp: start_client_def bind_eq_Some_conv Let_def split: prod.split_asm if_split_asm)
qed

lemma start_c2c_buffer:
  assumes "start_c2c L g cl blk A port ifn la w = Some (x, cl', w')"
  shows "buffer_to_send cl' = buffer_to_send cl"
proof -
  obtain ss y chn st ci w1 where "create_new_ss blk = Some ss"
    and "start_c2c_connection L g (c_st cl) (word_of_int port) A ifn la (pinfo ss) w = Some (y, chn, st, ci, w1)"
    using assms by (auto simp: start_c2c_def bind_eq_Some_conv)
  then show ?thesis
    using assms by (cases y) (auto simp: start_c2c_def bind_eq_Some_conv Let_def split: prod.split_asm if_split_asm)
qed

lemma start_clients_buffer:
  "start_clients L g blk A port ifn la n cl w = Some (x, cl', w') \<Longrightarrow> buffer_to_send cl' = buffer_to_send cl"
proof (induction n arbitrary: cl w)
  case (Suc n)
  obtain y cl1 w1 where s: "start_client L g cl blk A port ifn la (l_usleep L 234 w) = Some (y, cl1, w1)"
    using Suc.prems by (auto simp: bind_eq_Some_conv)
  then show ?case
    using Suc start_client_buffer [OF s] by (cases y) (auto split: if_split_asm)
qed simp

lemma start_p2p_client_buffer:
  assumes "start_p2p_client L g cl blk A port ifn la w = Some (x, cl', w')"
  shows "length (buffer_to_send cl') = length (buffer_to_send cl)"
proof -
  obtain m where m: "wrn (buffer_to_send cl) 0 (replicate (nat (clmessage_length g)) 7) = Some m"
    using assms by (auto simp: start_p2p_client_def bind_eq_Some_conv split: if_split_asm)
  let ?cl = "cl\<lparr>elems := Some None, buffer_to_send := m\<rparr>"
  obtain y cl1 w1 where "(if c2c g then start_c2c L g ?cl blk A port ifn la (l_usleep L 234 w)
      else if \<not> no_rtcp g then start_client L g ?cl blk A port ifn la (l_usleep L 234 w)
      else start_clients L g blk A port ifn la (client_count g) ?cl w) = Some (y, cl1, w1)"
    and "(x, cl', w') = (case y of Inl e \<Rightarrow> (Inl e, cl1, w1)
      | Inr r \<Rightarrow> if r < 0 then (Inr (), cl1\<lparr>elems := None\<rparr>, w1) else (Inr (), cl1, w1))"
    using assms m by (auto simp: start_p2p_client_def bind_eq_Some_conv Let_def split: if_split_asm)
  then show ?thesis
    using wrn_SomeD(2) [OF m]
    by (cases y) (auto split: if_split_asm dest!: start_client_buffer start_c2c_buffer start_clients_buffer)
qed

subsection \<open>Sequences of calls\<close>

definition uclient_ok :: "uclient \<Rightarrow> bool" where
  "uclient_ok u \<longleftrightarrow> length (peer_address u) = 129 \<and> length (cipher_suite u) = 1025 \<and> length (m_local_addr u) = 256
     \<and> length (g_uname (u_set u)) = 513 \<and> length (g_upwd (u_set u)) = 257
     \<and> 0 \<le> root_tls_ctx_num (u_set u) \<and> root_tls_ctx_num (u_set u) \<le> 32
     \<and> length (buffer_to_send (u_cl u)) = 65536
     \<and> (elems (u_cl u) \<noteq> None \<longrightarrow> settled (u_set u))"

inductive call :: "('w, 'c) lib \<Rightarrow> uclient \<times> 'w \<Rightarrow> uclient \<times> 'w \<Rightarrow> bool" for L where
  peer_address: "set_peer_address a u = Some u' \<Longrightarrow> call L (u, w) (u', w)"
| peer_port: "call L (u, w) (set_peer_port port u, w)"
| c2c: "call L (u, w) (set_c2c n u, w)"
| null_cipher: "call L (u, w) (set_use_null_cipher n u, w)"
| cipher_suite: "set_cipher_suite s u = Some u' \<Longrightarrow> call L (u, w) (u', w)"
| local_addr: "call L (u, w) (set_local_addr a u, w)"
| addr_cb: "call L (u, w) (set_addr_cb cb u, w)"
| start: "start_uclient L block A port name pwd u w = Some (Inr (), u', w') \<Longrightarrow> call L (u, w) (u', w')"
| bind: "start_bind_client L a port u w = Some (Inr (), u', w') \<Longrightarrow> call L (u, w) (u', w')"
| world: "call L (u, w) (u, w')"

lemma start_uclient_ok:
  assumes "uclient_ok u" and "start_uclient L block A port name pwd u w = Some (x, u', w')"
  shows "uclient_ok u'"
proof -
  obtain n p where np: "c_strcpy (g_uname (u_set u)) name = Some n" "c_strcpy (g_upwd (u_set u)) pwd = Some p"
    using assms(2) by (auto simp: start_uclient_def bind_eq_Some_conv)
  define g1 where "g1 = (u_set u)\<lparr>g_uname := n, g_upwd := p\<rparr>"
  define u1 where "u1 = u\<lparr>u_set := g1, m_local_addr := replicate 256 0\<rparr>"
  define u2 where "u2 = (if dual_allocation g1 then u1\<lparr>u_set := g1\<lparr>no_rtcp := True\<rparr>\<rparr> else u1)"
  have l: "length (g_uname (u_set u2)) = 513" "length (g_upwd (u_set u2)) = 257"
    "root_tls_ctx_num (u_set u2) = root_tls_ctx_num (u_set u)"
    using np [THEN c_strcpy_length] assms(1) by (simp_all add: u2_def u1_def g1_def uclient_ok_def)
  obtain g3 w3 ok u4 w4 where r: "rest_credentials L u2 w = Some (g3, w3)"
    and c: "secure_contexts L (u2\<lparr>u_set := message_length_settings (tcp_relay_settings g3)\<rparr>) w3 = Some (ok, u4, w4)"
    and e: "u' = u4 \<or> (\<exists>port cl. start_p2p_client L (u_set u4) (u_cl u4) block A port (client_ifname u4) (m_local_addr u4) w4 = Some (x, cl, w')
      \<and> u' = u4\<lparr>u_cl := cl\<rparr>)"
    using assms(2) unfolding start_uclient_def np bind.bind_lunit Let_def g1_def [symmetric] u1_def [symmetric] u2_def [symmetric]
    by (elim bind_eq_Some_conv [THEN iffD1, THEN exE] conjE) (fastforce simp: bind_eq_Some_conv split: if_split_asm)
  have s: "same_sizes (u_set u2) g3"
    by (rule rest_credentials_sizes [OF r l(1)])
  obtain k where k: "0 \<le> k" "k \<le> 32"
    "u4 = u2\<lparr>u_set := (message_length_settings (tcp_relay_settings g3))\<lparr>root_tls_ctx_num := k\<rparr>\<rparr>"
    using secure_contexts_Some [OF c] s l(3) assms(1) by (auto simp: same_sizes_def uclient_ok_def)
  have "settled (u_set u4)"
    using settled_settings [of g3] by (simp add: k(3) settled_def is_TCP_relay_def)
  then have u4: "uclient_ok u4"
    using s l k assms(1) by (auto simp: uclient_ok_def same_sizes_def u2_def u1_def)
  then show ?thesis
    using e by (auto simp: uclient_ok_def dest: start_p2p_client_buffer)
      (use \<open>settled (u_set u4)\<close> in blast)
qed

lemma call_ok: "call L s s' \<Longrightarrow> uclient_ok (fst s) \<Longrightarrow> uclient_ok (fst s')"
proof (induction rule: call.induct)
  case (start block A port name pwd u w u' w')
  then show ?case by (auto intro: start_uclient_ok)
next
  case (bind a port u w u' w')
  then show ?case
    by (auto simp: start_bind_client_def bind_client_def uclient_ok_def bind_eq_Some_conv)
qed (auto simp: uclient_ok_def set_peer_address_def set_peer_port_def set_c2c_def set_use_null_cipher_def set_cipher_suite_def
  set_local_addr_def set_addr_cb_def set_notify_address_cb_def settled_def is_TCP_relay_def bind_eq_Some_conv dest: c_strcpy_length)

lemma initial_ok: "uclient_ok (initial_uclient tbl okeys)"
  by (simp add: uclient_ok_def initial_uclient_def)

text \<open>As long as no call writes behind an array, which is undefined, the sizes and the settings of a started client are kept.\<close>

lemma calls_keep_ok:
  assumes "(call L)\<^sup>*\<^sup>* (u, w) (u', w')" and "uclient_ok u"
  shows "uclient_ok u'"
  using assms by (induction rule: rtranclp_induct2) (auto dest: call_ok)

subsection \<open>The credentials\<close>

lemma STRCPY_short:
  assumes "0 \<notin> set s" and "length s < n"
  shows "STRCPY n (s @ 0 # x) = Some (s @ replicate (n - length s) 0)"
proof -
  obtain j where j: "n = length s + Suc j"
    using assms(2) less_iff_Suc_add by auto
  have "s @ replicate (Suc j) 0 = (s @ replicate j 0) @ [0::u8] @ []"
    by (simp add: replicate_append_same)
  then have "wr8 (s @ replicate (Suc j) 0) (length s + j) 0 = Some (s @ replicate (Suc j) 0)"
    using wrn_append [of "length s + j" "s @ replicate j 0" "[0]" "[0]" "[]"] by (simp add: wr8_def)
  then show ?thesis
    using assms by (simp add: STRCPY_def c_strncpy_short j)
qed

text \<open>The user name that expires a day after \<open>t\<close>.\<close>

definition rest_name :: "u8 \<Rightarrow> mem \<Rightarrow> u64 \<Rightarrow> mem" where
  "rest_name sep un t = dec_string (unat (t + 86400)) @ (if un = [] then [] else sep # un)"

lemma rest_name_no_nul: "0 \<notin> set un \<Longrightarrow> sep \<noteq> 0 \<Longrightarrow> 0 \<notin> set (rest_name sep un t)"
  using dec_string_digits [of "unat (t + 86400)"] by (auto simp: rest_name_def)

lemma rest_username_eq:
  assumes "g_uname (u_set u) = un @ 0 # x" and "0 \<notin> set un" and "rest_api_separator u \<noteq> 0"
    and "l_time L w = (t, w')" and "length (rest_name (rest_api_separator u) un t) \<le> 512"
  shows "rest_username L u w = Some ((u_set u)\<lparr>g_uname := rest_name (rest_api_separator u) un t
    @ replicate (513 - length (rest_name (rest_api_separator u) un t)) 0\<rparr>, w')"
proof -
  let ?n = "rest_name (rest_api_separator u) un t"
  have c: "c_snprintf 1025 ?n = ?n @ [0]"
    using assms(5) by (simp add: c_snprintf_def)
  have s: "STRCPY 513 (?n @ [0]) = Some (?n @ replicate (513 - length ?n) 0)"
    using STRCPY_short [OF rest_name_no_nul [OF assms(2,3)], where n=513 and x="[]"] assms(5) by simp
  show ?thesis
  proof (cases un)
    case Nil
    then show ?thesis
      using assms(1,4) c s by (simp add: rest_username_def rest_name_def rd8_def Let_def)
  next
    case (Cons a v)
    then have "c_str (a # v @ 0 # x) = Some (a # v)" and "a \<noteq> 0"
      using assms(2) c_str_append [of un x] by auto
    then show ?thesis
      using assms(1,4) c s Cons by (simp add: rest_username_def rest_name_def rd8_def Let_def)
  qed
qed

lemma rest_password_eq:
  assumes "g_uname g = n @ 0 # x" and "0 \<notin> set n" and "secret = k @ 0 # y" and "0 \<notin> set k"
    and "l_hmac L (hmac_md (shatype g)) k n = Some m" and "hmac_ok (l_hmac L)" and "malloc_ok (l_malloc L)"
    and "length (g_upwd g) = 257"
  shows "rest_password L secret g = Some (g\<lparr>g_upwd := enc64 m @ 0 # drop (length (enc64 m) + 1) (g_upwd g)\<rparr>)"
proof -
  have m: "20 \<le> length m" "length m \<le> 64"
    using assms(5,6) by (auto simp: hmac_ok_def hmac_md_def split: if_splits)
  then have e: "0 < length (enc64 m)" "length (enc64 m) \<le> 88"
    by (simp_all add: length_enc64)
  have b: "base64_encode (\<lambda>n. Some (l_malloc L n)) (m @ replicate (128 - length m) 0) (length m)
      = Some (Some (enc64 m @ [0]), length (enc64 m))"
    by (rule base64_encode_eq [OF refl refl]) (use assms(7) malloc_ok_def in blast)
  have p: "put_password (Some (enc64 m @ [0])) (length (enc64 m)) g
      = Some (g\<lparr>g_upwd := enc64 m @ 0 # drop (length (enc64 m) + 1) (g_upwd g)\<rparr>)"
    using e assms(8) by (simp add: put_password_def rdn_def wrn_def wr8_def)
  have h: "stun_calculate_hmac (l_hmac L) (g_uname g) (length n) secret (length k) (shatype g) = Some (Some m)"
    by (simp add: stun_calculate_hmac_def rdn_def assms(1,3,5))
  show ?thesis
    using m b p h assms(2,4) by (simp add: rest_password_def assms(1,3) c_strlen_append wrn_def)
qed

lemma rest_credentials_eq:
  assumes "g_use_auth_secret_with_timestamp u" and "g_uname (u_set u) = un @ 0 # x" and "0 \<notin> set un" and "rest_api_separator u \<noteq> 0"
    and "l_time L w = (t, w')" and "length (rest_name (rest_api_separator u) un t) \<le> 512"
    and "g_auth_secret u = k @ 0 # y" and "0 \<notin> set k"
    and "l_hmac L (hmac_md (shatype (u_set u))) k (rest_name (rest_api_separator u) un t) = Some m"
    and "hmac_ok (l_hmac L)" and "malloc_ok (l_malloc L)" and "length (g_upwd (u_set u)) = 257"
  shows "rest_credentials L u w = Some ((u_set u)\<lparr>g_uname := rest_name (rest_api_separator u) un t
      @ 0 # replicate (512 - length (rest_name (rest_api_separator u) un t)) 0,
    g_upwd := enc64 m @ 0 # drop (length (enc64 m) + 1) (g_upwd (u_set u))\<rparr>, w')"
proof -
  let ?n = "rest_name (rest_api_separator u) un t"
  let ?g = "(u_set u)\<lparr>g_uname := ?n @ 0 # replicate (512 - length ?n) 0\<rparr>"
  have "rest_username L u w = Some (?g, w')"
  proof -
    have "513 - length ?n = Suc (512 - length ?n)"
      using assms(6) by simp
    then show ?thesis
      using rest_username_eq [OF assms(2-6)] by simp
  qed
  moreover have "rest_password L (g_auth_secret u) ?g = Some (?g\<lparr>g_upwd := enc64 m @ 0 # drop (length (enc64 m) + 1) (g_upwd ?g)\<rparr>)"
    by (rule rest_password_eq [where n="?n" and k=k]) (use rest_name_no_nul [OF assms(3,4)] assms(7-12) in simp_all)
  ultimately show ?thesis
    by (simp add: rest_credentials_def assms(1))
qed

text \<open>C36: With a shared secret, a client that does not use TLS is started with the credentials of the REST interface: the
  user name is the time of expiry, a day ahead, followed by the separator and the name that was given, if there is one; the
  password, whatever was given, is the Base64 text of the HMAC of that name under the secret.  The other settings are put in order
  before: a message length within its bounds, TCP without channels if TCP is relayed, and the default port for port 0.\<close>

theorem shared_secret_credentials:
  assumes "g_use_auth_secret_with_timestamp u" and "\<not> use_secure (u_set u)" and "uclient_ok u"
    and "0 \<notin> set un" and "0 \<notin> set pw" and "length pw \<le> 256"
    and "rest_api_separator u \<noteq> 0" and "g_auth_secret u = k @ 0 # y" and "0 \<notin> set k"
    and "l_time L w = (t, w')" and "length (rest_name (rest_api_separator u) un t) \<le> 512"
    and "l_hmac L (hmac_md (shatype (u_set u))) k (rest_name (rest_api_separator u) un t) = Some m"
    and "hmac_ok (l_hmac L)" and "malloc_ok (l_malloc L)"
  shows "\<exists>g. start_uclient L block A port (Some (un @ 0 # x)) (Some (pw @ 0 # z)) u w = do {
        (r, cl, w) \<leftarrow> start_p2p_client L g (u_cl u) block A (if port = 0 then 3478 else port) (client_ifname u) (replicate 256 0) w';
        Some (r, u\<lparr>u_set := g, m_local_addr := replicate 256 0, u_cl := cl\<rparr>, w) }
    \<and> c_str (g_uname g) = Some (rest_name (rest_api_separator u) un t) \<and> c_str (g_upwd g) = Some (enc64 m)
    \<and> 16 \<le> clmessage_length g \<and> clmessage_length g \<le> 65407
    \<and> (relay_transport (u_set u) = 6 \<longrightarrow> use_tcp g \<and> c2c g \<and> do_not_use_channel g)"
proof -
  let ?n = "rest_name (rest_api_separator u) un t"
  have sizes: "length (g_uname (u_set u)) = 513" "length (g_upwd (u_set u)) = 257" "length un \<le> 512"
    using assms(3,11) by (auto simp: uclient_ok_def rest_name_def split: if_split_asm)
  define nm where "nm = un @ 0 # drop (length un + 1) (g_uname (u_set u))"
  define p where "p = pw @ 0 # drop (length pw + 1) (g_upwd (u_set u))"
  define g1 where "g1 = (u_set u)\<lparr>g_uname := nm, g_upwd := p\<rparr>"
  define u1 where "u1 = u\<lparr>u_set := g1, m_local_addr := replicate 256 0\<rparr>"
  define u2 where "u2 = (if dual_allocation g1 then u1\<lparr>u_set := g1\<lparr>no_rtcp := True\<rparr>\<rparr> else u1)"
  define g3 where "g3 = (u_set u2)\<lparr>g_uname := ?n @ 0 # replicate (512 - length ?n) 0, g_upwd := enc64 m @ 0 # drop (length (enc64 m) + 1) p\<rparr>"
  define g where "g = message_length_settings (tcp_relay_settings g3)"
  have np: "c_strcpy (g_uname (u_set u)) (Some (un @ 0 # x)) = Some nm" "c_strcpy (g_upwd (u_set u)) (Some (pw @ 0 # z)) = Some p"
    using sizes assms(4-6) by (simp_all add: c_strcpy_eq nm_def p_def)
  have u2: "g_uname (u_set u2) = nm" "g_upwd (u_set u2) = p" "length p = 257" "shatype (u_set u2) = shatype (u_set u)"
    "rest_api_separator u2 = rest_api_separator u" "g_auth_secret u2 = g_auth_secret u" "\<not> use_secure (u_set u2)"
    "g_use_auth_secret_with_timestamp u2" "relay_transport (u_set u2) = relay_transport (u_set u)"
    using assms(1,2,6) sizes by (simp_all add: u2_def u1_def g1_def p_def)
  have r: "rest_credentials L u2 w = Some (g3, w')"
    using rest_credentials_eq [of u2 un _ L w t w' k y m] assms(4,7-14) u2 by (simp add: nm_def g3_def)
  have c: "secure_contexts L (u2\<lparr>u_set := g\<rparr>) w' = Some (True, u2\<lparr>u_set := g\<rparr>, w')"
    using u2(7) by (simp add: secure_contexts_def g_def g3_def)
  have f: "u_cl u2 = u_cl u" "client_ifname u2 = client_ifname u" "m_local_addr u2 = replicate 256 0"
    "u2\<lparr>u_set := a, u_cl := cl\<rparr> = u\<lparr>u_set := a, m_local_addr := replicate 256 0, u_cl := cl\<rparr>" for a cl
    by (simp_all add: u2_def u1_def)
  have "start_uclient L block A port (Some (un @ 0 # x)) (Some (pw @ 0 # z)) u w = do {
      (r, cl, w) \<leftarrow> start_p2p_client L g (u_cl u) block A (if port = 0 then 3478 else port) (client_ifname u) (replicate 256 0) w';
      Some (r, u\<lparr>u_set := g, m_local_addr := replicate 256 0, u_cl := cl\<rparr>, w) }"
    unfolding start_uclient_def np bind.bind_lunit Let_def g1_def [symmetric] u1_def [symmetric] u2_def [symmetric] r prod.case g_def [symmetric] c
    using u2(7) by (simp add: f server_port_def g3_def)
  moreover have "c_str (g_uname g) = Some ?n" "c_str (g_upwd g) = Some (enc64 m)"
    using rest_name_no_nul [OF assms(4,7)] by (simp_all add: g_def g3_def enc64_no_nul)
  moreover have "relay_transport g = relay_transport (u_set u)" "relay_transport (u_set u) = 6 \<longrightarrow> c2c g"
    using u2(9) by (simp_all add: g_def g3_def tcp_relay_settings_def is_TCP_relay_def)
  ultimately show ?thesis
    using settled_settings [of g3] by (intro exI [of _ g]) (simp add: settled_def is_TCP_relay_def flip: g_def)
qed

definition secret_uclient :: uclient where
  "secret_uclient = (initial_uclient empty_map [])\<lparr>g_auth_secret := [107, 0], g_use_auth_secret_with_timestamp := True\<rparr>"

lemma sample_rest_name: "rest_name 58 [117] 1000 = [56, 55, 52, 48, 48, 58, 117]"
  by (simp add: rest_name_def dec_string.simps)

theorem shared_secret_credentials_witness:
  "\<exists>g. start_uclient (sample_lib []) zero_session [0] 0 (Some [117, 0]) (Some [0]) secret_uclient [] = do {
        (r, cl, w) \<leftarrow> start_p2p_client (sample_lib []) g (u_cl secret_uclient) zero_session [0] 3478 (client_ifname secret_uclient) (replicate 256 0) [];
        Some (r, secret_uclient\<lparr>u_set := g, m_local_addr := replicate 256 0, u_cl := cl\<rparr>, w) }
    \<and> c_str (g_uname g) = Some [56, 55, 52, 48, 48, 58, 117] \<and> c_str (g_upwd g) = Some (enc64 (replicate 20 0))"
proof -
  have "uclient_ok secret_uclient" "rest_api_separator secret_uclient = 58" "g_auth_secret secret_uclient = [107] @ 0 # []"
    "g_use_auth_secret_with_timestamp secret_uclient" "\<not> use_secure (u_set secret_uclient)"
    "shatype (u_set secret_uclient) = SHATYPE_SHA1"
    using initial_ok [of empty_map "[]"] by (simp_all add: secret_uclient_def uclient_ok_def) (simp_all add: initial_uclient_def)
  moreover have "hmac_ok (l_hmac (sample_lib []))" "malloc_ok (l_malloc (sample_lib []))" "l_time (sample_lib []) [] = (1000, [])"
    "l_hmac (sample_lib []) (hmac_md SHATYPE_SHA1) [107] n = Some (replicate 20 0)" for n
    by (simp_all add: sample_lib_def hmac_ok_def malloc_ok_def hmac_md_def)
  ultimately show ?thesis
    using shared_secret_credentials [of secret_uclient "[117]" "[]" "[107]" "[]" "sample_lib []" "[]" 1000 "[]" "replicate 20 0" zero_session "[0]" 0 "[]" "[]"]
    by (auto simp: sample_rest_name)
qed

subsection \<open>Calls that cannot succeed\<close>

text \<open>The null pointers that \<open>start_uclient_default\<close> passes are given to \<open>strcpy\<close>.\<close>

lemma default_start_fails: "start_uclient_default L block A port u w = None"
  by (simp add: start_uclient_default_def start_uclient_def c_strcpy_def)

subsection \<open>Starting over TLS\<close>

lemma new_context_eq:
  "new_context L mth suite (g, w) = (if root_tls_ctx_num g < 0 \<or> 32 \<le> root_tls_ctx_num g then None
     else Some (g\<lparr>root_tls_ctx_num := root_tls_ctx_num g + 1\<rparr>, snd (SSL_CTX_setup L (CTX_set_cipher_list suite) (root_tls_ctx_num g)
       (snd (SSL_CTX_setup L (CTX_new mth) (root_tls_ctx_num g) w)))))"
  by (simp add: new_context_def Let_def split: prod.split)

text \<open>The contexts are put behind those of earlier starts, which are never released.\<close>

lemma make_contexts_room:
  assumes "0 \<le> root_tls_ctx_num g"
  shows "if root_tls_ctx_num g + (if use_tcp g then 4 else 2) \<le> 32
    then \<exists>w'. make_contexts L suite g w = Some (g\<lparr>root_tls_ctx_num := root_tls_ctx_num g + (if use_tcp g then 4 else 2)\<rparr>, w')
    else make_contexts L suite g w = None"
  using assms by (cases "use_tcp g") (auto simp: make_contexts_def new_context_eq)

text \<open>C37: A client that uses TLS, without a shared secret, is started like this, if its name and password fit their arrays.
  Contexts, four over TCP and two over UDP, are put into the array \<open>root_tls_ctx\<close> behind those of earlier starts, which are never
  released.  As long as the array of 32 has room for them, all contexts in it are configured, those of earlier starts too; if that
  fails the start returns without a client, otherwise the client is started, on port 5349 for port 0.  Without room, as in the
  17th start over UDP, the start writes behind the array.  The other settings are put in order before: the name and the password
  that were given, a message length within its bounds, and TCP without channels if TCP is relayed.\<close>

theorem secure_start_contexts:
  assumes "use_secure (u_set u)" and "\<not> g_use_auth_secret_with_timestamp u" and "uclient_ok u" and "csuite u = Some suite"
    and "0 \<notin> set un" and "0 \<notin> set pw" and "length un \<le> 512" and "length pw \<le> 256"
  shows "\<exists>g. let n = root_tls_ctx_num (u_set u); k = (if use_tcp g then 4 else 2); h = g\<lparr>root_tls_ctx_num := n + k\<rparr>;
      v = u\<lparr>u_set := h, m_local_addr := replicate 256 0\<rparr> in
    (if n + k \<le> 32 then \<exists>w2. make_contexts L suite g w = Some (h, w2)
       \<and> start_uclient L block A port (Some (un @ 0 # x)) (Some (pw @ 0 # z)) u w = do {
           (ok, w3) \<leftarrow> prepare_contexts L v (use_tcp g) [0..<nat (n + k)] w2;
           if \<not> ok then Some (Inr (), v, w3)
           else do {
             (r, cl, w) \<leftarrow> start_p2p_client L h (u_cl u) block A (if port = 0 then 5349 else port) (client_ifname u) (replicate 256 0) w3;
             Some (r, v\<lparr>u_cl := cl\<rparr>, w) } }
     else start_uclient L block A port (Some (un @ 0 # x)) (Some (pw @ 0 # z)) u w = None)
    \<and> c_str (g_uname g) = Some un \<and> c_str (g_upwd g) = Some pw
    \<and> 16 \<le> clmessage_length g \<and> clmessage_length g \<le> 65407
    \<and> (relay_transport (u_set u) = 6 \<longrightarrow> use_tcp g \<and> c2c g \<and> do_not_use_channel g)
    \<and> (relay_transport (u_set u) \<noteq> 6 \<longrightarrow> use_tcp g = use_tcp (u_set u))"
proof -
  have sizes: "length (g_uname (u_set u)) = 513" "length (g_upwd (u_set u)) = 257" "0 \<le> root_tls_ctx_num (u_set u)"
    using assms(3) by (auto simp: uclient_ok_def)
  define nm where "nm = un @ 0 # drop (length un + 1) (g_uname (u_set u))"
  define p where "p = pw @ 0 # drop (length pw + 1) (g_upwd (u_set u))"
  define g1 where "g1 = (u_set u)\<lparr>g_uname := nm, g_upwd := p\<rparr>"
  define u1 where "u1 = u\<lparr>u_set := g1, m_local_addr := replicate 256 0\<rparr>"
  define u2 where "u2 = (if dual_allocation g1 then u1\<lparr>u_set := g1\<lparr>no_rtcp := True\<rparr>\<rparr> else u1)"
  define g where "g = message_length_settings (tcp_relay_settings (u_set u2))"
  have np: "c_strcpy (g_uname (u_set u)) (Some (un @ 0 # x)) = Some nm" "c_strcpy (g_upwd (u_set u)) (Some (pw @ 0 # z)) = Some p"
    using sizes assms(5-8) by (simp_all add: c_strcpy_eq nm_def p_def)
  have u2: "g_uname (u_set u2) = nm" "g_upwd (u_set u2) = p" "use_secure (u_set u2)" "root_tls_ctx_num (u_set u2) = root_tls_ctx_num (u_set u)"
    "\<not> g_use_auth_secret_with_timestamp u2" "relay_transport (u_set u2) = relay_transport (u_set u)" "use_tcp (u_set u2) = use_tcp (u_set u)"
    using assms(1,2) by (simp_all add: u2_def u1_def g1_def)
  have r: "rest_credentials L u2 w = Some (u_set u2, w)"
    using u2(5) by (simp add: rest_credentials_def)
  have f: "u_cl u2 = u_cl u" "client_ifname u2 = client_ifname u" "m_local_addr u2 = replicate 256 0"
    "u2\<lparr>u_set := a\<rparr> = u\<lparr>u_set := a, m_local_addr := replicate 256 0\<rparr>" "csuite (u2\<lparr>u_set := a\<rparr>) = csuite u" for a
    by (simp_all add: u2_def u1_def csuite_def cong: if_cong)
  have gs: "use_secure g" "root_tls_ctx_num g = root_tls_ctx_num (u_set u)" "server_port (tcp_relay_settings (u_set u2)) port = (if port = 0 then 5349 else port)"
    using u2 by (simp_all add: g_def server_port_def)
  define k :: int where "k = (if use_tcp g then 4 else 2)"
  define h where "h = g\<lparr>root_tls_ctx_num := root_tls_ctx_num (u_set u) + k\<rparr>"
  have start: "start_uclient L block A port (Some (un @ 0 # x)) (Some (pw @ 0 # z)) u w = do {
      (ok, v, w) \<leftarrow> secure_contexts L (u2\<lparr>u_set := g\<rparr>) w;
      if \<not> ok then Some (Inr (), v, w)
      else do {
        (r, cl, w) \<leftarrow> start_p2p_client L (u_set v) (u_cl v) block A (if port = 0 then 5349 else port) (client_ifname v) (m_local_addr v) w;
        Some (r, v\<lparr>u_cl := cl\<rparr>, w) } }"
    unfolding start_uclient_def np bind.bind_lunit Let_def g1_def [symmetric] u1_def [symmetric] u2_def [symmetric] r prod.case g_def [symmetric] gs(3) ..
  have hs: "use_tcp h = use_tcp g" "root_tls_ctx_num h = root_tls_ctx_num (u_set u) + k"
    by (simp_all add: h_def)
  have comm: "u\<lparr>m_local_addr := a, u_set := b\<rparr> = u\<lparr>u_set := b, m_local_addr := a\<rparr>" for a b
    by simp
  have sc: "secure_contexts L (u2\<lparr>u_set := g\<rparr>) w = do {
      (h, w2) \<leftarrow> make_contexts L suite g w;
      (ok, w3) \<leftarrow> prepare_contexts L (u\<lparr>u_set := h, m_local_addr := replicate 256 0\<rparr>) (use_tcp h) [0..<nat (root_tls_ctx_num h)] w2;
      Some (ok, u\<lparr>u_set := h, m_local_addr := replicate 256 0\<rparr>, w3) }"
    using gs(1) f(5) [of g] assms(4) by (simp add: secure_contexts_def f(4) Let_def comm)
  note room = make_contexts_room [of g L suite w, unfolded gs(2), folded k_def h_def, OF sizes(3)]
  have "if root_tls_ctx_num (u_set u) + k \<le> 32 then \<exists>w2. make_contexts L suite g w = Some (h, w2)
      \<and> start_uclient L block A port (Some (un @ 0 # x)) (Some (pw @ 0 # z)) u w = do {
          (ok, w3) \<leftarrow> prepare_contexts L (u\<lparr>u_set := h, m_local_addr := replicate 256 0\<rparr>) (use_tcp g) [0..<nat (root_tls_ctx_num (u_set u) + k)] w2;
          if \<not> ok then Some (Inr (), u\<lparr>u_set := h, m_local_addr := replicate 256 0\<rparr>, w3)
          else do {
            (r, cl, w) \<leftarrow> start_p2p_client L h (u_cl u) block A (if port = 0 then 5349 else port) (client_ifname u) (replicate 256 0) w3;
            Some (r, u\<lparr>u_set := h, m_local_addr := replicate 256 0, u_cl := cl\<rparr>, w) } }
    else start_uclient L block A port (Some (un @ 0 # x)) (Some (pw @ 0 # z)) u w = None"
  proof (cases "root_tls_ctx_num (u_set u) + k \<le> 32")
    case True
    then obtain w2 where w2: "make_contexts L suite g w = Some (h, w2)"
      using room by (auto simp: h_def)
    then have "secure_contexts L (u2\<lparr>u_set := g\<rparr>) w = do {
        (ok, w3) \<leftarrow> prepare_contexts L (u\<lparr>u_set := h, m_local_addr := replicate 256 0\<rparr>) (use_tcp g) [0..<nat (root_tls_ctx_num (u_set u) + k)] w2;
        Some (ok, u\<lparr>u_set := h, m_local_addr := replicate 256 0\<rparr>, w3) }"
      using hs by (simp add: sc)
    then show ?thesis
      using True w2 start
      by (cases "prepare_contexts L (u\<lparr>u_set := h, m_local_addr := replicate 256 0\<rparr>) (use_tcp g) [0..<nat (root_tls_ctx_num (u_set u) + k)] w2")
         (auto split: prod.splits)
  next
    case False
    then have "make_contexts L suite g w = None"
      using room by simp
    then show ?thesis
      using False start by (simp add: sc)
  qed
  moreover have "c_str (g_uname g) = Some un" "c_str (g_upwd g) = Some pw"
    using assms(5,6) u2 by (simp_all add: g_def nm_def p_def c_str_append)
  moreover have "relay_transport g = relay_transport (u_set u)" "relay_transport (u_set u) = 6 \<longrightarrow> c2c g"
    "relay_transport (u_set u) \<noteq> 6 \<longrightarrow> use_tcp g = use_tcp (u_set u)"
    using u2(6,7) by (simp_all add: g_def tcp_relay_settings_def is_TCP_relay_def)
  ultimately show ?thesis
    using settled_settings [of "u_set u2", folded g_def]
    unfolding Let_def by (intro exI [of _ g], unfold k_def [symmetric] h_def [symmetric]) (simp add: settled_def is_TCP_relay_def)
qed

subsection \<open>A run\<close>

text \<open>A start over DTLS that stops for want of a private key, with two contexts made.\<close>

definition keyless_lib :: "(mem, unit) lib" where
  "keyless_lib = (sample_lib [])\<lparr>SSL_CTX_setup := \<lambda>c i w. (case c of CTX_use_PrivateKey_file f \<Rightarrow> False | _ \<Rightarrow> True, w)\<rparr>"

definition secure_uclient :: uclient where
  "secure_uclient = (initial_uclient empty_map [])\<lparr>u_set := (u_set (initial_uclient empty_map []))\<lparr>use_secure := True\<rparr>\<rparr>"

lemma secure_ok: "uclient_ok secure_uclient"
  using initial_ok [of empty_map "[]"] by (simp add: secure_uclient_def uclient_ok_def settled_def is_TCP_relay_def)

lemma keyless_setup: "SSL_CTX_setup keyless_lib c i w = (case c of CTX_use_PrivateKey_file f \<Rightarrow> False | _ \<Rightarrow> True, w)"
  by (simp add: keyless_lib_def)

lemma keyless_context: "new_context keyless_lib mth suite s = Some s' \<Longrightarrow> snd s' = snd s"
  by (cases s) (auto simp: new_context_eq keyless_setup split: if_split_asm)

lemma keyless_contexts: "make_contexts keyless_lib suite g w = Some (g', w') \<Longrightarrow> w' = w"
  by (auto simp: make_contexts_def bind_eq_Some_conv dest!: keyless_context split: if_split_asm)

theorem secure_start_contexts_witness:
  "\<exists>u'. start_uclient keyless_lib zero_session [0] 0 (Some [117, 0]) (Some [112, 0]) secure_uclient [] = Some (Inr (), u', [])
    \<and> root_tls_ctx_num (u_set u') = 2 \<and> c_str (g_uname (u_set u')) = Some [117]"
proof -
  have i: "[0..<2] = [0::nat, 1]"
    by (simp add: upt_rec numeral_2_eq_2)
  have c: "use_secure (u_set secure_uclient)" "\<not> g_use_auth_secret_with_timestamp secure_uclient" "csuite secure_uclient = Some (c_lit ''ALL'')"
    "root_tls_ctx_num (u_set secure_uclient) = 0" "relay_transport (u_set secure_uclient) = 17" "\<not> use_tcp (u_set secure_uclient)"
    by (simp_all add: secure_uclient_def initial_uclient_def csuite_def rd8_def)
  let ?v = "\<lambda>g. secure_uclient\<lparr>u_set := g\<lparr>root_tls_ctx_num := 2\<rparr>, m_local_addr := replicate 256 0\<rparr>"
  obtain g where g: "\<not> use_tcp g" "c_str (g_uname g) = Some [117]" and r: "\<exists>w2. make_contexts keyless_lib (c_lit ''ALL'') g [] = Some (g\<lparr>root_tls_ctx_num := 2\<rparr>, w2)
    \<and> start_uclient keyless_lib zero_session [0] 0 (Some ([117] @ 0 # [])) (Some ([112] @ 0 # [])) secure_uclient [] = do {
      (ok, w3) \<leftarrow> prepare_contexts keyless_lib (?v g) (use_tcp g) [0..<nat 2] w2;
      if \<not> ok then Some (Inr (), ?v g, w3)
      else do {
        (r, cl, w) \<leftarrow> start_p2p_client keyless_lib (g\<lparr>root_tls_ctx_num := 2\<rparr>) (u_cl secure_uclient) zero_session [0] (if 0 = (0 :: int) then 5349 else 0)
          (client_ifname secure_uclient) (replicate 256 0) w3;
        Some (r, (?v g)\<lparr>u_cl := cl\<rparr>, w) } }"
  proof -
    obtain g where g: "use_tcp g = False" "c_str (g_uname g) = Some [117]" and all: "let n = root_tls_ctx_num (u_set secure_uclient); k = (if use_tcp g then 4 else 2); h = g\<lparr>root_tls_ctx_num := n + k\<rparr>;
        v = secure_uclient\<lparr>u_set := h, m_local_addr := replicate 256 0\<rparr> in
      (if n + k \<le> 32 then \<exists>w2. make_contexts keyless_lib (c_lit ''ALL'') g [] = Some (h, w2)
         \<and> start_uclient keyless_lib zero_session [0] 0 (Some ([117] @ 0 # [])) (Some ([112] @ 0 # [])) secure_uclient [] = do {
             (ok, w3) \<leftarrow> prepare_contexts keyless_lib v (use_tcp g) [0..<nat (n + k)] w2;
             if \<not> ok then Some (Inr (), v, w3)
             else do {
               (r, cl, w) \<leftarrow> start_p2p_client keyless_lib h (u_cl secure_uclient) zero_session [0] (if 0 = (0 :: int) then 5349 else 0) (client_ifname secure_uclient) (replicate 256 0) w3;
               Some (r, v\<lparr>u_cl := cl\<rparr>, w) } }
       else start_uclient keyless_lib zero_session [0] 0 (Some ([117] @ 0 # [])) (Some ([112] @ 0 # [])) secure_uclient [] = None)"
      using secure_start_contexts [OF c(1,2) secure_ok c(3), of "[117]" "[112]" keyless_lib "[]" zero_session "[0]" 0 "[]" "[]"] c(5,6)
      unfolding Let_def by auto
    have n: "root_tls_ctx_num (u_set secure_uclient) + (if use_tcp g then 4 else 2) = 2"
      using g(1) c(4) by simp
    show thesis
      using that [of g] g all unfolding Let_def n by simp
  qed
  obtain w2 where m: "make_contexts keyless_lib (c_lit ''ALL'') g [] = Some (g\<lparr>root_tls_ctx_num := 2\<rparr>, w2)"
    and s: "start_uclient keyless_lib zero_session [0] 0 (Some ([117] @ 0 # [])) (Some ([112] @ 0 # [])) secure_uclient [] = do {
      (ok, w3) \<leftarrow> prepare_contexts keyless_lib (?v g) (use_tcp g) [0..<nat 2] w2;
      if \<not> ok then Some (Inr (), ?v g, w3)
      else do {
        (r, cl, w) \<leftarrow> start_p2p_client keyless_lib (g\<lparr>root_tls_ctx_num := 2\<rparr>) (u_cl secure_uclient) zero_session [0] (if 0 = (0 :: int) then 5349 else 0)
          (client_ifname secure_uclient) (replicate 256 0) w3;
        Some (r, (?v g)\<lparr>u_cl := cl\<rparr>, w) } }"
    using r by (elim exE conjE)
  have "w2 = []"
    by (rule keyless_contexts [OF m])
  moreover have "prepare_contexts keyless_lib (secure_uclient\<lparr>u_set := a, m_local_addr := b\<rparr>) t [0..<2] [] = Some (False, [])" for a b t
    by (simp add: i prepare_context_def secure_uclient_def initial_uclient_def rd8_def keyless_setup)
  ultimately show ?thesis
    using s g(2) by simp
qed

end
