(* ===== verification/Stun_Client.thy ===== *)
theory Stun_Client
  imports Sockets Stun_Buffer Recv_Safety
begin

text \<open>
  The STUN client of the application: \<open>stunclient/stun_manager.c\<close>.

  The record \<open>stun_manager\<close> holds the file's variables; a callback is an optional handle, and the calls made to
  callbacks are logged in \<open>notified\<close>: the handle, the type, the text array and the port.  \<open>err\<close> leaves the
  process, which is the outcome \<open>Exited\<close>.  Sockets are reached through the record \<open>os\<close> of theory \<open>Sockets\<close>, name
  resolution through \<open>resolver\<close>, random bytes through \<open>entropy\<close>.  \<open>None\<close> stands for an access outside an array
  or a call that is repeated forever.  Log lines are left out, except that one of them increments \<open>counter\<close>.
\<close>

datatype 'a outcome = Returned 'a | Exited int

record stun_manager =
  reflexive_cb :: "nat option"
  other_cb :: "nat option"
  response_origin_cb :: "nat option"
  local_addr :: mem
  forceRfc5780 :: int
  udp_fd :: int
  real_local_addr :: ioa_addr
  counter :: int
  notified :: "(nat \<times> int \<times> mem \<times> int) list"

abbreviation (input) REFLEXIVE_IP :: int where "REFLEXIVE_IP \<equiv> 3"
abbreviation (input) REMOTE_IP :: int where "REMOTE_IP \<equiv> 4"
abbreviation (input) OTHER_IP :: int where "OTHER_IP \<equiv> 5"

definition notify_address :: "resolver \<Rightarrow> int \<Rightarrow> ioa_addr \<Rightarrow> nat option \<Rightarrow> stun_manager \<Rightarrow> stun_manager option" where
  "notify_address R type addr cb sm = do {
     addrbuf \<leftarrow> wrn (replicate 46 0) 0 (ntop4 R (sin_addr addr) @ [0]);
     let port = uint (nswap16 (sin_port addr));
     case cb of None \<Rightarrow> Some sm
     | Some f \<Rightarrow> Some (sm\<lparr>notified := notified sm @ [(f, type, addrbuf, port)]\<rparr>) }"

lemma fd_addr_swap: "sm\<lparr>udp_fd := fd, real_local_addr := a\<rparr> = sm\<lparr>real_local_addr := a, udp_fd := fd\<rparr>"
  by (cases sm) simp

subsection \<open>One exchange\<close>

text \<open>The sockets: the one in use, opened and bound if there is none, and a second one on the response port.\<close>

definition first_socket :: "'w os \<Rightarrow> ioa_addr \<Rightarrow> stun_manager \<Rightarrow> 'w \<Rightarrow> (unit outcome \<times> stun_manager \<times> 'w) option" where
  "first_socket S remote sm w =
     (if udp_fd sm < 0 then do {
        let (fd, w) = os_socket S (sa_family remote) SOCK_DGRAM 0 w;
        let sm = sm\<lparr>udp_fd := fd\<rparr>;
        if fd < 0 then Some (Exited (-1), sm, w)
        else if \<not> addr_any (Some (real_local_addr sm)) then do {
          (r, w) \<leftarrow> addr_bind S fd (Some (real_local_addr sm)) 0 UDP_SOCKET w;
          Some (if r < 0 then Exited (-1) else Returned (), sm, w) }
        else Some (Returned (), sm, w) }
      else Some (Returned (), sm, w))"

definition second_socket ::
    "'w os \<Rightarrow> ioa_addr \<Rightarrow> int \<Rightarrow> stun_manager \<Rightarrow> 'w \<Rightarrow> (int outcome \<times> stun_manager \<times> 'w) option" where
  "second_socket S remote response_port sm w =
     (if response_port \<ge> 0 then do {
        let (fd, w) = os_socket S (sa_family remote) SOCK_DGRAM 0 w;
        if fd < 0 then Some (Exited (-1), sm, w)
        else do {
          a \<leftarrow> addr_set_port (Some (real_local_addr sm)) response_port;
          let sm = sm\<lparr>real_local_addr := a\<rparr>;
          (r, w) \<leftarrow> addr_bind S fd (Some a) 0 UDP_SOCKET w;
          Some (if r < 0 then Exited (-1) else Returned fd, sm, w) } }
      else Some (Returned (-1), sm, w))"

text \<open>The request.  The results of the attribute functions are not looked at.\<close>

definition client_request :: "entropy \<Rightarrow> stun_buffer \<Rightarrow> int \<Rightarrow> bool \<Rightarrow> bool \<Rightarrow> bool \<Rightarrow> stun_buffer option" where
  "client_request e b response_port change_ip change_port padding = do {
     b \<leftarrow> stun_prepare_binding_request e b;
     (_, b) \<leftarrow> (if response_port \<ge> 0
        then store3 b (stun_attr_add_response_port_str (buf b) (len b) (word_of_int response_port)) else Some (0, b));
     (_, b) \<leftarrow> (if change_ip \<or> change_port
        then store3 b (stun_attr_add_change_request_str (buf b) (len b) change_ip change_port) else Some (0, b));
     (_, b) \<leftarrow> (if padding then store3 b (stun_attr_add_padding_str (buf b) (len b) 1500) else Some (0, b));
     Some b }"

definition client_send :: "'w os \<Rightarrow> int \<Rightarrow> stun_buffer \<Rightarrow> ioa_addr \<Rightarrow> 'w \<Rightarrow> (int \<times> 'w) option" where
  "client_send S fd b remote w = do {
     m \<leftarrow> rdn (buf b) 0 (len b);
     retry (os_sendto S fd m remote)
       (\<lambda>n w. n < 0 \<and> (os_errno S w = EINTR \<or> os_errno S w = ENOBUFS \<or> os_errno S w = EAGAIN)) w }"

text \<open>
  Receiving into the array of the request.  The C length is stored as a \<open>size_t\<close>: an error leaves the largest one.
\<close>

definition client_recv :: "'w os \<Rightarrow> int \<Rightarrow> stun_buffer \<Rightarrow> 'w \<Rightarrow> (stun_buffer \<times> 'w) option" where
  "client_recv S fd b w = do {
     ((n, bs), w) \<leftarrow> retry (\<lambda>w. case os_recv S fd 65507 w of (n, bs, w) \<Rightarrow> ((n, bs), w))
       (\<lambda>(n, bs) w. n < 0 \<and> (os_errno S w = EINTR \<or> os_errno S w = EAGAIN)) w;
     m \<leftarrow> (if n > 0 then wrn (buf b) 0 bs else Some (buf b));
     Some (b\<lparr>buf := m, len := unat (word_of_int n :: u64)\<rparr>, w) }"

text \<open>What is made of the datagram: the flag \<open>rfc5780\<close> and the notifications.\<close>

definition report_other ::
    "resolver \<Rightarrow> addr_map \<Rightarrow> stun_buffer \<Rightarrow> ioa_addr \<Rightarrow> bool \<Rightarrow> stun_manager \<Rightarrow> (bool \<times> stun_manager) option" where
  "report_other R tbl b junk rfc5780 sm = do {
     sar \<leftarrow> stun_attr_get_first_by_type_str (buf b) (len b) STUN_ATTRIBUTE_OTHER_ADDRESS;
     if sar \<noteq> None then do {
       cnt \<leftarrow> c_int (counter sm + 1);
       let sm = sm\<lparr>counter := cnt\<rparr>;
       (_, other) \<leftarrow> stun_attr_get_addr_str tbl (buf b) (len b) sar junk None;
       sar \<leftarrow> stun_attr_get_first_by_type_str (buf b) (len b) STUN_ATTRIBUTE_RESPONSE_ORIGIN;
       sm \<leftarrow> (if sar \<noteq> None then do {
          (_, origin) \<leftarrow> stun_attr_get_addr_str tbl (buf b) (len b) sar junk None;
          notify_address R REMOTE_IP origin (response_origin_cb sm) sm }
        else Some sm);
       sm \<leftarrow> notify_address R OTHER_IP other (other_cb sm) sm;
       Some (True, sm) }
     else Some (rfc5780, sm) }"

definition client_response ::
    "resolver \<Rightarrow> addr_map \<Rightarrow> stun_buffer \<Rightarrow> ioa_addr \<Rightarrow> ioa_addr \<Rightarrow> bool \<Rightarrow> stun_manager \<Rightarrow> (bool \<times> stun_manager) option" where
  "client_response R tbl b junk remote rfc5780 sm = do {
     c \<leftarrow> stun_is_command_message (Some b);
     if c then do {
       r \<leftarrow> stun_is_response b;
       if r then do {
         s \<leftarrow> stun_is_success_response b;
         if s then do {
           br \<leftarrow> stun_is_binding_response b;
           if br then do {
             (g, reflexive) \<leftarrow> stun_attr_get_first_addr tbl b STUN_ATTRIBUTE_XOR_MAPPED_ADDRESS zero_addr None;
             if g \<ge> 0 then do {
               (rfc5780, sm) \<leftarrow> report_other R tbl b junk rfc5780 sm;
               sm \<leftarrow> notify_address R REFLEXIVE_IP reflexive (reflexive_cb sm) sm;
               sm \<leftarrow> notify_address R 4 (real_local_addr sm) (reflexive_cb sm) sm;
               sm \<leftarrow> notify_address R 5 remote (reflexive_cb sm) sm;
               Some (rfc5780, sm) }
             else Some (rfc5780, sm) }
           else Some (rfc5780, sm) }
         else do {
           _ \<leftarrow> stun_is_error_response b (Some 0) (Some (replicate 1025 0)) 1025;
           Some (rfc5780, sm) } }
       else Some (rfc5780, sm) }
     else Some (rfc5780, sm) }"

text \<open>
  \<open>b0\<close> and \<open>junk\<close> are what the uninitialised buffer and addresses of the stack frame hold.  The outcome comes with
  the two variables of the caller, \<open>port\<close> and \<open>rfc5780\<close>.
\<close>

definition run_stunclient ::
    "'w os \<Rightarrow> resolver \<Rightarrow> entropy \<Rightarrow> addr_map \<Rightarrow> stun_buffer \<Rightarrow> ioa_addr \<Rightarrow> mem \<Rightarrow> int \<Rightarrow> int \<Rightarrow> bool \<Rightarrow> int \<Rightarrow> bool \<Rightarrow> bool \<Rightarrow> bool
     \<Rightarrow> stun_manager \<Rightarrow> 'w \<Rightarrow> (int outcome \<times> int \<times> bool \<times> stun_manager \<times> 'w) option" where
  "run_stunclient S R e tbl b0 junk rip rport port rfc5780 response_port change_ip change_port padding sm w = do {
     (r, ra) \<leftarrow> make_ioa_addr R (Some rip) rport (Some zero_addr);
     remote \<leftarrow> ra;
     if r < 0 then Some (Exited (-1), port, rfc5780, sm, w)
     else do {
       (o1, sm, w) \<leftarrow> first_socket S remote sm w;
       case o1 of Exited st \<Rightarrow> Some (Exited st, port, rfc5780, sm, w)
       | Returned _ \<Rightarrow> do {
           (o2, sm, w) \<leftarrow> second_socket S remote response_port sm w;
           case o2 of Exited st \<Rightarrow> Some (Exited st, port, rfc5780, sm, w)
           | Returned new_udp_fd \<Rightarrow> do {
               b \<leftarrow> client_request e b0 response_port change_ip change_port padding;
               (n, w) \<leftarrow> client_send S (udp_fd sm) b remote w;
               if n < 0 then Some (Returned (-1), port, rfc5780, sm, w)
               else do {
                 let (g, a, w) = addr_get_from_sock S junk (udp_fd sm) (Some (real_local_addr sm)) w;
                 a \<leftarrow> a;
                 let sm = sm\<lparr>real_local_addr := a\<rparr>;
                 let port = (if g < 0 then port else addr_get_port (Some a));
                 let (sm, w) = (if new_udp_fd \<ge> 0 then (sm\<lparr>udp_fd := new_udp_fd\<rparr>, os_close S (udp_fd sm) w) else (sm, w));
                 (b, w) \<leftarrow> client_recv S (udp_fd sm) b w;
                 (rfc5780, sm) \<leftarrow> client_response R tbl b junk remote rfc5780 sm;
                 Some (Returned 0, port, rfc5780, sm, w) } } } } }"

subsection \<open>The entry points\<close>

text \<open>The further probes when the server supports RFC 5780.\<close>

definition further_probes ::
    "'w os \<Rightarrow> resolver \<Rightarrow> entropy \<Rightarrow> entropy \<Rightarrow> addr_map \<Rightarrow> stun_buffer \<Rightarrow> ioa_addr \<Rightarrow> mem \<Rightarrow> int \<Rightarrow> int \<Rightarrow> bool
     \<Rightarrow> stun_manager \<Rightarrow> 'w \<Rightarrow> (unit outcome \<times> stun_manager \<times> 'w) option" where
  "further_probes S R e2 e3 tbl b0 junk rip rport local_port rfc5780 sm w =
     (if rfc5780 \<or> forceRfc5780 sm \<noteq> 0 then do {
        p \<leftarrow> c_int (local_port + 1);
        (x, local_port, rfc5780, sm, w) \<leftarrow>
          run_stunclient S R e2 tbl b0 junk rip rport local_port rfc5780 p True True False sm w;
        case x of Exited st \<Rightarrow> Some (Exited st, sm, w)
        | Returned _ \<Rightarrow> do {
            (x, local_port, rfc5780, sm, w) \<leftarrow>
              run_stunclient S R e3 tbl b0 junk rip rport local_port rfc5780 (-1) True True True sm w;
            Some (case x of Exited st \<Rightarrow> Exited st | Returned _ \<Rightarrow> Returned (), sm, w) } }
      else Some (Returned (), sm, w))"

definition run_stun ::
    "'w os \<Rightarrow> resolver \<Rightarrow> entropy \<Rightarrow> entropy \<Rightarrow> entropy \<Rightarrow> addr_map \<Rightarrow> stun_buffer \<Rightarrow> ioa_addr \<Rightarrow> mem \<Rightarrow> int
     \<Rightarrow> stun_manager \<Rightarrow> 'w \<Rightarrow> (unit outcome \<times> stun_manager \<times> 'w) option" where
  "run_stun S R e1 e2 e3 tbl b0 junk rip rport sm w = do {
     c \<leftarrow> rd8 (local_addr sm) 0;
     (r, la) \<leftarrow> (if c \<noteq> 0 then make_ioa_addr R (Some (local_addr sm)) 0 (Some zero_addr) else Some (0, Some zero_addr));
     la \<leftarrow> la;
     let sm = sm\<lparr>real_local_addr := la\<rparr>;
     if r < 0 then Some (Exited (-1), sm, w)
     else do {
       (x, local_port, rfc5780, sm, w) \<leftarrow>
         run_stunclient S R e1 tbl b0 junk rip rport (-1) False (-1) False False False sm w;
       case x of Exited st \<Rightarrow> Some (Exited st, sm, w)
       | Returned _ \<Rightarrow> do {
           (x, sm, w) \<leftarrow> further_probes S R e2 e3 tbl b0 junk rip rport local_port rfc5780 sm w;
           case x of Exited st \<Rightarrow> Some (Exited st, sm, w)
           | Returned _ \<Rightarrow> Some (Returned (), sm\<lparr>udp_fd := -1\<rparr>, os_close S (udp_fd sm) w) } } }"

definition init_stun ::
    "'w os \<Rightarrow> resolver \<Rightarrow> entropy \<Rightarrow> entropy \<Rightarrow> entropy \<Rightarrow> addr_map \<Rightarrow> stun_buffer \<Rightarrow> ioa_addr \<Rightarrow> mem \<Rightarrow> int
     \<Rightarrow> stun_manager \<Rightarrow> 'w \<Rightarrow> (unit outcome \<times> stun_manager \<times> 'w) option" where
  "init_stun S R e1 e2 e3 tbl b0 junk remote_address port sm w = do {
     (x, local_port, rfc5780, sm, w) \<leftarrow>
       run_stunclient S R e1 tbl b0 junk remote_address port (-1) False (-1) False False False sm w;
     case x of Exited st \<Rightarrow> Some (Exited st, sm, w)
     | Returned _ \<Rightarrow> further_probes S R e2 e3 tbl b0 junk remote_address port local_port rfc5780 sm w }"

definition set_forceRfc5780 :: "int \<Rightarrow> stun_manager \<Rightarrow> stun_manager" where
  "set_forceRfc5780 rfc5780 sm = sm\<lparr>forceRfc5780 := rfc5780\<rparr>"

text \<open>\<open>strcpy\<close> into the array of 256 characters, which was set to zero.\<close>

definition set_local_address :: "mem \<Rightarrow> stun_manager \<Rightarrow> stun_manager option" where
  "set_local_address local_address sm = do {
     s \<leftarrow> c_str local_address;
     m \<leftarrow> wrn (replicate 256 0) 0 (s @ [0]);
     Some (sm\<lparr>local_addr := m\<rparr>) }"

definition set_reflexive_cb :: "nat option \<Rightarrow> stun_manager \<Rightarrow> stun_manager" where
  "set_reflexive_cb cb sm = sm\<lparr>reflexive_cb := cb\<rparr>"

definition set_other_cb :: "nat option \<Rightarrow> stun_manager \<Rightarrow> stun_manager" where
  "set_other_cb cb sm = sm\<lparr>other_cb := cb\<rparr>"

definition set_response_origin_cb :: "nat option \<Rightarrow> stun_manager \<Rightarrow> stun_manager" where
  "set_response_origin_cb cb sm = sm\<lparr>response_origin_cb := cb\<rparr>"

subsection \<open>The request\<close>

definition probe_attrs :: "int \<Rightarrow> bool \<Rightarrow> bool \<Rightarrow> bool \<Rightarrow> (u16 \<times> mem) list" where
  "probe_attrs response_port change_ip change_port padding =
     (if response_port \<ge> 0
      then [(STUN_ATTRIBUTE_RESPONSE_PORT, bytes16 (nswap16 (word_of_int response_port)) @ [0, 0])] else [])
     @ (if change_ip \<or> change_port
        then [(STUN_ATTRIBUTE_CHANGE_REQUEST, [0, 0, 0, (if change_ip then 4 else 0) + (if change_port then 2 else 0)])] else [])
     @ (if padding then [(STUN_ATTRIBUTE_PADDING, replicate 1500 0)] else [])"

text \<open>The buffer holds the message with these attributes.\<close>

definition holds :: "stun_buffer \<Rightarrow> u16 \<Rightarrow> mem \<Rightarrow> (u16 \<times> mem) list \<Rightarrow> bool" where
  "holds b mt t as \<longleftrightarrow> length (buf b) = 65507 \<and> stun_msg (buf b) (len b) mt STUN_MAGIC_COOKIE t as"

lemma holds_size: "holds b mt t as \<Longrightarrow> len b = msg_size as"
  by (auto simp: holds_def dest: stun_msg_size)

lemma store_holds:
  assumes "holds b mt t as" and "n \<le> length v" and "msg_size (as @ [(ty, take n v)]) < 65507"
  shows "\<exists>b'. store3 b (stun_attr_add_str (buf b) (len b) ty (Some v) (int n)) = Some (0, b')
    \<and> holds b' mt t (as @ [(ty, take n v)])"
proof -
  have "built (stun_attr_add_str (buf b) (len b) ty (Some v) (int n)) 65507 mt STUN_MAGIC_COOKIE t (as @ [(ty, take n v)])"
    using built_add [of "buf b" "len b" mt STUN_MAGIC_COOKIE t as 65507 n v ty] assms by (simp add: holds_def)
  then show ?thesis
    by (auto simp: built_def store3_def holds_def)
qed

lemma pad4_1500: "pad4 1500 = 1500"
  by (simp add: pad4_def)

lemma client_request_holds:
  assumes "length (buf b0) = 65507"
  shows "\<exists>b. client_request e b0 response_port change_ip change_port padding = Some b
    \<and> holds b (stun_make_request STUN_METHOD_BINDING) (turn_random_tid_size e)
        (probe_attrs response_port change_ip change_port padding)"
proof -
  let ?mt = "stun_make_request STUN_METHOD_BINDING" and ?t = "turn_random_tid_size e"
  let ?v1 = "bytes16 (nswap16 (word_of_int response_port)) @ [0, 0]"
  let ?v2 = "[0, 0, 0, (if change_ip then 4 else 0) + (if change_port then 2 else 0) :: u8]"
  let ?as1 = "if response_port \<ge> 0 then [(STUN_ATTRIBUTE_RESPONSE_PORT, ?v1)] else []"
  let ?as2 = "?as1 @ (if change_ip \<or> change_port then [(STUN_ATTRIBUTE_CHANGE_REQUEST, ?v2)] else [])"
  let ?as3 = "?as2 @ (if padding then [(STUN_ATTRIBUTE_PADDING, replicate 1500 0)] else [])"
  have "stun_msg (header ?mt 0 STUN_MAGIC_COOKIE ?t @ drop 20 (buf b0)) 20 ?mt STUN_MAGIC_COOKIE ?t []"
    by (rule stun_msg_new) simp
  then obtain b where b: "stun_prepare_binding_request e b0 = Some b" "holds b ?mt ?t []"
    using assms
    by (simp add: stun_prepare_binding_request_def stun_set_binding_request_str_def init_header store2_def holds_def)
  have s1: "msg_size ?as1 \<le> 28" and s2: "msg_size ?as2 \<le> 36" and s3: "msg_size ?as3 \<le> 1540"
    by (simp_all add: msg_size_def pad4_small pad4_1500)
  obtain b1 r1 where b1: "(if response_port \<ge> 0
      then store3 b (stun_attr_add_response_port_str (buf b) (len b) (word_of_int response_port)) else Some (0, b))
      = Some (r1, b1)" "holds b1 ?mt ?t ?as1"
    using store_holds [OF b(2), of 4 ?v1 STUN_ATTRIBUTE_RESPONSE_PORT] b(2) s1
    by (cases "response_port \<ge> 0") (auto simp: stun_attr_add_response_port_str_def)
  obtain b2 r2 where b2: "(if change_ip \<or> change_port
      then store3 b1 (stun_attr_add_change_request_str (buf b1) (len b1) change_ip change_port) else Some (0, b1))
      = Some (r2, b2)" "holds b2 ?mt ?t ?as2"
    using store_holds [OF b1(2), of 4 ?v2 STUN_ATTRIBUTE_CHANGE_REQUEST] b1(2) s2
    by (cases change_ip; cases change_port) (auto simp: stun_attr_add_change_request_str_def Let_def)
  obtain b3 r3 where b3: "(if padding then store3 b2 (stun_attr_add_padding_str (buf b2) (len b2) 1500) else Some (0, b2))
      = Some (r3, b3)" "holds b3 ?mt ?t ?as3"
    using store_holds [OF b2(2), of 1500 "replicate 65535 0" STUN_ATTRIBUTE_PADDING] b2(2) s3
    by (cases padding) (auto simp: stun_attr_add_padding_str_def)
  have "client_request e b0 response_port change_ip change_port padding = Some b3"
    unfolding client_request_def b(1) bind.bind_lunit b1(1) prod.case b2(1) b3(1) ..
  then show ?thesis
    using b3(2) by (auto simp: probe_attrs_def)
qed

subsection \<open>The response\<close>

definition note_of :: "resolver \<Rightarrow> nat option \<Rightarrow> int \<Rightarrow> ioa_addr \<Rightarrow> (nat \<times> int \<times> mem \<times> int) list" where
  "note_of R cb type a = (case cb of None \<Rightarrow> []
   | Some f \<Rightarrow> [(f, type, ntop4 R (sin_addr a) @ replicate (46 - length (ntop4 R (sin_addr a))) 0, uint (nswap16 (sin_port a)))])"

lemma notify_eq:
  assumes "inet_ok R"
  shows "notify_address R type a cb sm = Some (sm\<lparr>notified := notified sm @ note_of R cb type a\<rparr>)"
proof -
  let ?t = "ntop4 R (sin_addr a)"
  have "length ?t \<le> 15"
    using assms by (simp add: inet_ok_def)
  then have "wrn (replicate 46 0) 0 (?t @ [0]) = Some (?t @ replicate (46 - length ?t) 0)"
    by (simp add: wrn_def Suc_diff_Suc replicate_Suc [symmetric] del: replicate_Suc)
  then show ?thesis
    by (cases cb) (simp_all add: notify_address_def note_of_def)
qed

text \<open>The first attribute of the type is the IPv4 address \<open>x\<close>, or there is none.\<close>

definition carries :: "addr_map \<Rightarrow> mem \<Rightarrow> (u16 \<times> mem) list \<Rightarrow> u16 \<Rightarrow> ioa_addr option \<Rightarrow> bool" where
  "carries tbl t as ty x \<longleftrightarrow> (case x of None \<Rightarrow> find (\<lambda>(t, v). t = ty) as = None
   | Some a \<Rightarrow> find (\<lambda>(t, v). t = ty) as = Some (addr_attr tbl t ty a) \<and> translatable tbl a \<and> sa_family a = AF_INET)"

text \<open>The notifications a response leads to.\<close>

definition response_notes ::
    "resolver \<Rightarrow> stun_manager \<Rightarrow> ioa_addr option \<Rightarrow> ioa_addr option \<Rightarrow> ioa_addr \<Rightarrow> ioa_addr \<Rightarrow> (nat \<times> int \<times> mem \<times> int) list" where
  "response_notes R sm origin other reflexive remote =
     (case other of None \<Rightarrow> []
      | Some o1 \<Rightarrow> (case origin of None \<Rightarrow> [] | Some g \<Rightarrow> note_of R (response_origin_cb sm) 4 g) @ note_of R (other_cb sm) 5 o1)
     @ note_of R (reflexive_cb sm) 3 reflexive @ note_of R (reflexive_cb sm) 4 (real_local_addr sm)
     @ note_of R (reflexive_cb sm) 5 remote"

lemma note_cong: "addr_eq (Some c) (Some a) \<Longrightarrow> sa_family a = AF_INET \<Longrightarrow> note_of R cb ty c = note_of R cb ty a"
  by (auto simp: note_of_def addr_eq_def split: option.splits if_splits)

lemma report_other_eq:
  assumes "stun_msg (buf b) (len b) mt ck t as" and "inet_ok R" and "- (2 ^ 31) \<le> counter sm" and "counter sm + 1 < 2 ^ 31"
    and "carries tbl t as STUN_ATTRIBUTE_OTHER_ADDRESS other" and "carries tbl t as STUN_ATTRIBUTE_RESPONSE_ORIGIN origin"
  shows "\<exists>sm'. report_other R tbl b junk rfc5780 sm = Some (rfc5780 \<or> other \<noteq> None, sm')
    \<and> sm' = sm\<lparr>counter := counter sm', notified := notified sm @ (case other of None \<Rightarrow> []
      | Some o1 \<Rightarrow> (case origin of None \<Rightarrow> [] | Some g \<Rightarrow> note_of R (response_origin_cb sm) 4 g) @ note_of R (other_cb sm) 5 o1)\<rparr>"
proof (cases other)
  case None
  then have "stun_attr_get_first_by_type_str (buf b) (len b) STUN_ATTRIBUTE_OTHER_ADDRESS = Some None"
    using assms(5) not_found_access [OF assms(1)] by (simp add: carries_def)
  then show ?thesis
    using None by (simp add: report_other_def)
next
  case (Some a)
  then have a: "find (\<lambda>(t, v). t = STUN_ATTRIBUTE_OTHER_ADDRESS) as = Some (addr_attr tbl t STUN_ATTRIBUTE_OTHER_ADDRESS a)"
    "translatable tbl a" "sa_family a = AF_INET"
    using assms(5) by (simp_all add: carries_def)
  obtain q c where q: "stun_attr_get_first_by_type_str (buf b) (len b) STUN_ATTRIBUTE_OTHER_ADDRESS = Some (Some q)"
    "stun_attr_get_addr_str tbl (buf b) (len b) (Some q) junk None = Some (0, c)" "addr_eq (Some c) (Some a)"
    using by_type_addr_found [OF assms(1) a(2,1)] by metis
  have cnt: "c_int (counter sm + 1) = Some (counter sm + 1)"
    using assms(3,4) by simp
  note nc = note_cong [OF q(3) a(3)]
  show ?thesis
  proof (cases origin)
    case None
    then have "stun_attr_get_first_by_type_str (buf b) (len b) STUN_ATTRIBUTE_RESPONSE_ORIGIN = Some None"
      using assms(6) not_found_access [OF assms(1)] by (simp add: carries_def)
    then show ?thesis
      using q cnt nc None Some by (simp add: report_other_def notify_eq [OF assms(2)])
  next
    case (Some g)
    then have g: "find (\<lambda>(t, v). t = STUN_ATTRIBUTE_RESPONSE_ORIGIN) as = Some (addr_attr tbl t STUN_ATTRIBUTE_RESPONSE_ORIGIN g)"
      "translatable tbl g" "sa_family g = AF_INET"
      using assms(6) by (simp_all add: carries_def)
    obtain q2 d where d: "stun_attr_get_first_by_type_str (buf b) (len b) STUN_ATTRIBUTE_RESPONSE_ORIGIN = Some (Some q2)"
      "stun_attr_get_addr_str tbl (buf b) (len b) (Some q2) junk None = Some (0, d)" "addr_eq (Some d) (Some g)"
      using by_type_addr_found [OF assms(1) g(2,1)] by metis
    show ?thesis
      using q d cnt nc note_cong [OF d(3) g(3)] Some \<open>other = Some a\<close> by (simp add: report_other_def notify_eq [OF assms(2)])
  qed
qed

lemma client_response_eq:
  assumes "stun_msg (buf b) (len b) (stun_make_success_response STUN_METHOD_BINDING) STUN_MAGIC_COOKIE t as" and "inet_ok R"
    and "- (2 ^ 31) \<le> counter sm" and "counter sm + 1 < 2 ^ 31"
    and "carries tbl t as STUN_ATTRIBUTE_XOR_MAPPED_ADDRESS (Some a)"
    and "carries tbl t as STUN_ATTRIBUTE_OTHER_ADDRESS other" and "carries tbl t as STUN_ATTRIBUTE_RESPONSE_ORIGIN origin"
  shows "\<exists>sm'. client_response R tbl b junk remote rfc5780 sm = Some (rfc5780 \<or> other \<noteq> None, sm')
    \<and> notified sm' = notified sm @ response_notes R sm origin other a remote \<and> udp_fd sm' = udp_fd sm
    \<and> real_local_addr sm' = real_local_addr sm"
proof -
  let ?mt = "stun_make_success_response STUN_METHOD_BINDING"
  have a: "find (\<lambda>(t, v). t = STUN_ATTRIBUTE_XOR_MAPPED_ADDRESS) as = Some (addr_attr tbl t STUN_ATTRIBUTE_XOR_MAPPED_ADDRESS a)"
    "translatable tbl a" "sa_family a = AF_INET"
    using assms(5) by (simp_all add: carries_def)
  have "STUN_ATTRIBUTE_XOR_MAPPED_ADDRESS \<in> set addr_attr_types"
    by (simp add: addr_attr_types_def)
  then obtain c where c: "stun_attr_get_first_addr_str tbl (buf b) (len b) STUN_ATTRIBUTE_XOR_MAPPED_ADDRESS zero_addr None
      = Some (0, c)" "addr_eq (Some c) (Some a)"
    using first_addr_found [OF assms(1) a(2) _ a(1)] by metis
  obtain sm1 where sm1: "report_other R tbl b junk rfc5780 sm = Some (rfc5780 \<or> other \<noteq> None, sm1)"
    "sm1 = sm\<lparr>counter := counter sm1, notified := notified sm @ (case other of None \<Rightarrow> []
      | Some o1 \<Rightarrow> (case origin of None \<Rightarrow> [] | Some g \<Rightarrow> note_of R (response_origin_cb sm) 4 g) @ note_of R (other_cb sm) 5 o1)\<rparr>"
    using report_other_eq [OF assms(1,2,3,4,6,7)] by blast
  have keep: "reflexive_cb sm1 = reflexive_cb sm" "real_local_addr sm1 = real_local_addr sm" "udp_fd sm1 = udp_fd sm"
    by (subst sm1(2), simp)+
  have n1: "notified sm1 = notified sm @ (case other of None \<Rightarrow> []
      | Some o1 \<Rightarrow> (case origin of None \<Rightarrow> [] | Some g \<Rightarrow> note_of R (response_origin_cb sm) 4 g) @ note_of R (other_cb sm) 5 o1)"
    by (subst sm1(2)) simp
  have "0 < len b"
    using stun_msg_len(3) [OF assms(1)] by simp
  moreover note v = stun_msg_view [OF assms(1)]
  moreover have "stun_is_response_str (buf b) (len b) = Some True"
    using v(3,4) by (simp add: stun_is_response_str_def make_fits class_defs class_make)
  ultimately show ?thesis
    using c(1) sm1(1) keep n1 note_cong [OF c(2) a(3)]
    by (simp add: client_response_def stun_is_command_message_def stun_is_response_def stun_is_success_response_def
        stun_is_binding_response_def stun_is_binding_response_str_def stun_attr_get_first_addr_def
        type_method_make class_make class_defs notify_eq [OF assms(2)] response_notes_def)
qed

subsection \<open>A network that answers\<close>

text \<open>
  Every call succeeds, the local address is \<open>la\<close>, and what is received is the datagram \<open>bs\<close>.
\<close>

definition answers :: "'w os \<Rightarrow> ioa_addr \<Rightarrow> mem \<Rightarrow> bool" where
  "answers S la bs \<longleftrightarrow> (\<forall>f ty p w. 0 \<le> fst (os_socket S f ty p w)) \<and> (\<forall>fd a w. 0 \<le> fst (os_bind S fd a w))
     \<and> (\<forall>fd m a w. 0 \<le> fst (os_sendto S fd m a w)) \<and> (\<forall>fd l a w. \<exists>w'. os_getsockname S fd l a w = (0, la, w'))
     \<and> (\<forall>fd w. \<exists>w'. os_recv S fd 65507 w = (int (length bs), bs, w'))"

lemma bind_answers:
  assumes "answers S la bs" and "inet_addr a" and "0 \<le> fd"
  shows "\<exists>r w'. addr_bind S fd (Some a) n st w = Some (r, w') \<and> 0 \<le> r"
proof -
  have ok: "\<exists>r w'. retry (os_bind S fd a) (\<lambda>r w. r < 0 \<and> os_errno S w = EINTR) w1 = Some (r, w') \<and> 0 \<le> r" for w1
  proof -
    obtain r w' where "os_bind S fd a w1 = (r, w')" "0 \<le> r"
      using assms(1) unfolding answers_def by (metis fst_conv surj_pair)
    then show ?thesis
      using retry_once [of "os_bind S fd a" w1 r w'] by auto
  qed
  show ?thesis
    using assms(2,3) ok by (auto simp: addr_bind_def inet_addr_def Let_def split: prod.splits)
qed

lemma first_socket_answers:
  assumes "answers S la bs"
  shows "\<exists>fd w'. first_socket S remote sm w = Some (Returned (), sm\<lparr>udp_fd := fd\<rparr>, w') \<and> 0 \<le> fd"
proof (cases "udp_fd sm < 0")
  case True
  obtain fd w1 where fd: "os_socket S (sa_family remote) SOCK_DGRAM 0 w = (fd, w1)" "0 \<le> fd"
    using assms unfolding answers_def by (metis fst_conv surj_pair)
  show ?thesis
  proof (cases "addr_any (Some (real_local_addr sm))")
    case any: True
    then show ?thesis
      using True fd by (intro exI [of _ fd]) (simp add: first_socket_def)
  next
    case False
    then have "inet_addr (real_local_addr sm)"
      by (auto simp: addr_any_def inet_addr_def split: if_splits)
    then obtain r w2 where "addr_bind S fd (Some (real_local_addr sm)) 0 UDP_SOCKET w1 = Some (r, w2)" "0 \<le> r"
      using bind_answers [OF assms _ fd(2)] by blast
    then show ?thesis
      using True False fd by (intro exI [of _ fd]) (simp add: first_socket_def)
  qed
next
  case False
  then show ?thesis
    by (intro exI [of _ "udp_fd sm"]) (simp add: first_socket_def)
qed

lemma second_socket_answers:
  assumes "answers S la bs" and "response_port < 0 \<or> inet_addr (real_local_addr sm)"
  shows "\<exists>fd a w'. second_socket S remote response_port sm w = Some (Returned fd, sm\<lparr>real_local_addr := a\<rparr>, w')
    \<and> (0 \<le> fd \<longleftrightarrow> 0 \<le> response_port)"
proof (cases "response_port < 0")
  case True
  then show ?thesis
    by (intro exI [of _ "-1"] exI [of _ "real_local_addr sm"]) (simp add: second_socket_def)
next
  case False
  obtain fd w1 where fd: "os_socket S (sa_family remote) SOCK_DGRAM 0 w = (fd, w1)" "0 \<le> fd"
    using assms(1) unfolding answers_def by (metis fst_conv surj_pair)
  obtain a where a: "addr_set_port (Some (real_local_addr sm)) response_port = Some a" "inet_addr a"
    using assms(2) False by (auto simp: addr_set_port_def inet_addr_def)
  obtain r w2 where "addr_bind S fd (Some a) 0 UDP_SOCKET w1 = Some (r, w2)" "0 \<le> r"
    using bind_answers [OF assms(1) a(2) fd(2)] by blast
  then show ?thesis
    using False fd a by (auto simp: second_socket_def)
qed

lemma send_answers:
  assumes "answers S la bs" and "len b \<le> length (buf b)"
  shows "\<exists>n w'. client_send S fd b remote w = Some (n, w') \<and> 0 \<le> n"
proof -
  obtain n w' where "os_sendto S fd (take (len b) (buf b)) remote w = (n, w')" "0 \<le> n"
    using assms(1) unfolding answers_def by (metis fst_conv surj_pair)
  then show ?thesis
    using assms(2) by (auto simp: client_send_def rdn_def retry_once)
qed

lemma recv_answers:
  assumes "answers S la bs" and "0 < length bs" and "length bs \<le> length (buf b)" and "length bs \<le> 65507"
  shows "\<exists>w'. client_recv S fd b w = Some (b\<lparr>buf := bs @ drop (length bs) (buf b), len := length bs\<rparr>, w')"
proof -
  obtain w' where "os_recv S fd 65507 w = (int (length bs), bs, w')"
    using assms(1) unfolding answers_def by blast
  moreover have "unat (word_of_int (int (length bs)) :: u64) = length bs"
    using assms(4) by (simp add: unat_of_nat)
  ultimately show ?thesis
    using assms(2,3) by (auto simp: client_recv_def retry_once wrn_def)
qed

lemma stun_msg_front:
  assumes "stun_msg bs (length bs) mt ck t as"
  shows "stun_msg (bs @ x) (length bs) mt ck t as"
proof -
  obtain r rest where "bs = header mt (of_nat (length r)) ck t @ r @ rest" "length bs = 20 + length r" "length t = 12"
      "length r < 65487" "attrs_exact r" "parse_attrs r = as" "unat (of_nat (length r) :: u16) = length r"
    using stun_msgE [OF assms] by metis
  then show ?thesis
    unfolding stun_msg_def by (intro exI [of _ r] exI [of _ x]) auto
qed

subsection \<open>Arbitrary datagrams\<close>

lemma report_other_safe:
  assumes "inet_ok R" and "20 \<le> length (buf b)" and "len b \<le> length (buf b)"
    and "- (2 ^ 31) \<le> counter sm" and "counter sm + 1 < 2 ^ 31"
  shows "safe (report_other R tbl b junk rfc5780 sm)"
proof -
  have addr: "\<exists>r c. stun_attr_get_addr_str tbl (buf b) (len b) (Some p) junk None = Some (r, c)"
    if "stun_attr_get_first_by_type_str (buf b) (len b) ty = Some (Some p)" for p ty
    using get_addr_safe [OF assms(2,3) by_type_visited [OF assms(3) that]] unfolding safe_iff by (metis surj_pair)
  obtain oth org where f: "stun_attr_get_first_by_type_str (buf b) (len b) STUN_ATTRIBUTE_OTHER_ADDRESS = Some oth"
    "stun_attr_get_first_by_type_str (buf b) (len b) STUN_ATTRIBUTE_RESPONSE_ORIGIN = Some org"
    using by_type_safe [OF assms(3)] unfolding safe_iff by metis
  have cnt: "c_int (counter sm + 1) = Some (counter sm + 1)"
    using assms(4,5) by simp
  show ?thesis
  proof (cases oth)
    case None
    then show ?thesis
      using f by (simp add: report_other_def safe_def)
  next
    case (Some p)
    then obtain r c where a: "stun_attr_get_addr_str tbl (buf b) (len b) (Some p) junk None = Some (r, c)"
      using addr f(1) by blast
    show ?thesis
    proof (cases org)
      case None
      then show ?thesis
        using f Some a cnt by (simp add: report_other_def notify_eq [OF assms(1)] safe_def)
    next
      case (Some p')
      then obtain r' c' where "stun_attr_get_addr_str tbl (buf b) (len b) (Some p') junk None = Some (r', c')"
        using addr f(2) by blast
      then show ?thesis
        using f \<open>oth = Some p\<close> Some a cnt by (simp add: report_other_def notify_eq [OF assms(1)] safe_def)
    qed
  qed
qed

lemma client_response_safe:
  assumes "inet_ok R" and "length (buf b) = 65507" and "len b \<le> 65507"
    and "- (2 ^ 31) \<le> counter sm" and "counter sm + 1 < 2 ^ 31"
  shows "safe (client_response R tbl b junk remote rfc5780 sm)"
proof -
  have l: "20 \<le> length (buf b)" "len b \<le> length (buf b)"
    using assms(2,3) by simp_all
  obtain c where c: "stun_is_command_message (Some b) = Some c"
    using command_safe [OF l(1), of "len b"] by (cases "len b = 0") (auto simp: stun_is_command_message_def safe_iff)
  obtain r s br where h: "stun_is_response b = Some r" "stun_is_success_response b = Some s"
    "stun_is_binding_response b = Some br"
    using class_safe [OF l(2)] binding_response_safe [OF l]
    by (auto simp: stun_is_response_def stun_is_success_response_def stun_is_binding_response_def safe_iff)
  obtain g a where g: "stun_attr_get_first_addr tbl b STUN_ATTRIBUTE_XOR_MAPPED_ADDRESS zero_addr None = Some (g, a)"
    using first_addr_safe [OF l] unfolding stun_attr_get_first_addr_def safe_iff by (metis surj_pair)
  obtain f sm1 where f: "report_other R tbl b junk rfc5780 sm = Some (f, sm1)"
    using report_other_safe [OF assms(1) l assms(4,5)] unfolding safe_iff by (metis surj_pair)
  have "safe (stun_is_error_response b (Some 0) (Some (replicate 1025 0)) 1025)"
    unfolding stun_is_error_response_def by (rule error_response_safe [OF l(2)]) auto
  then obtain x where "stun_is_error_response b (Some 0) (Some (replicate 1025 0)) 1025 = Some x"
    by (auto simp: safe_iff)
  then show ?thesis
    using c h g f by (auto simp: client_response_def notify_eq [OF assms(1)] safe_def)
qed

lemma client_response_counter:
  assumes "client_response R tbl b junk remote rfc5780 sm = Some (f, sm')"
  shows "counter sm \<le> counter sm' \<and> counter sm' \<le> counter sm + 1"
proof -
  have n: "counter y = counter x" if "notify_address R ty a cb x = Some y" for ty a cb x y
    using that by (auto simp: notify_address_def Let_def split: bind_splits option.splits)
  have r: "counter x \<le> counter y \<and> counter y \<le> counter x + 1" if "report_other R tbl b junk g x = Some (h, y)" for g h x y
    using that by (auto simp: report_other_def Let_def c_int_def dest!: n split: bind_splits if_splits)
  show ?thesis
    using assms by (auto simp: client_response_def dest!: n r split: bind_splits if_splits)
qed

lemma client_response_huge:
  assumes "length (buf b) = 65507" and "2 ^ 20 \<le> len b"
  shows "client_response R tbl b junk remote rfc5780 sm = Some (rfc5780, sm)"
proof -
  have "unat x + 20 \<noteq> len b" for x :: u16
    using unsigned_less [where 'a = nat, of x] assms(2) by simp
  moreover obtain c where "stun_is_command_message_str (buf b) (len b) = Some c"
    using command_safe [of "buf b" "len b"] assms(1) by (auto simp: safe_iff)
  ultimately have "stun_is_command_message_str (buf b) (len b) = Some False"
    by (auto simp: stun_is_command_message_str_def Let_def split: if_splits bind_splits)
  then show ?thesis
    using assms(2) by (simp add: client_response_def stun_is_command_message_def)
qed

text \<open>
  A system in which the calls that are repeated end, whatever they return, and \<open>recv\<close> delivers what fits or fails.
\<close>

definition responsive :: "'w os \<Rightarrow> bool" where
  "responsive S \<longleftrightarrow> (\<forall>fd a. ends (os_bind S fd a) (\<lambda>r w. r < 0 \<and> os_errno S w = EINTR))
     \<and> (\<forall>fd m a. ends (os_sendto S fd m a)
          (\<lambda>n w. n < 0 \<and> (os_errno S w = EINTR \<or> os_errno S w = ENOBUFS \<or> os_errno S w = EAGAIN)))
     \<and> (\<forall>fd. ends (\<lambda>w. case os_recv S fd 65507 w of (n, bs, w) \<Rightarrow> ((n, bs), w))
          (\<lambda>(n, bs) w. n < 0 \<and> (os_errno S w = EINTR \<or> os_errno S w = EAGAIN)))
     \<and> (\<forall>fd w n bs w'. os_recv S fd 65507 w = (n, bs, w') \<longrightarrow> n = -1 \<or> n = int (length bs) \<and> length bs \<le> 65507)"

lemma responsiveD:
  assumes "responsive S"
  shows "ends (os_bind S fd a) (\<lambda>r w. r < 0 \<and> os_errno S w = EINTR)"
    and "ends (os_sendto S fd m a)
          (\<lambda>n w. n < 0 \<and> (os_errno S w = EINTR \<or> os_errno S w = ENOBUFS \<or> os_errno S w = EAGAIN))"
    and "ends (\<lambda>w. case os_recv S fd 65507 w of (n, bs, w) \<Rightarrow> ((n, bs), w))
          (\<lambda>(n, bs) w. n < 0 \<and> (os_errno S w = EINTR \<or> os_errno S w = EAGAIN))"
    and "os_recv S fd 65507 w = (n, bs, w') \<Longrightarrow> n = -1 \<or> n = int (length bs) \<and> length bs \<le> 65507"
  using assms unfolding responsive_def by blast+

lemma bind_ends:
  assumes "ends (os_bind S fd a) (\<lambda>r w. r < 0 \<and> os_errno S w = EINTR)"
  shows "\<exists>r w'. addr_bind S fd (Some a) n st w = Some (r, w')"
proof -
  have "\<exists>r w'. retry (os_bind S fd a) (\<lambda>r w. r < 0 \<and> os_errno S w = EINTR) w1 = Some (r, w')" for w1
    using ends_retry [OF assms, of w1] by blast
  then show ?thesis
    by (simp add: addr_bind_def split: prod.split)
qed

lemmas bind_responsive = bind_ends [OF responsiveD(1)]

lemma first_socket_responsive:
  assumes "responsive S"
  shows "\<exists>x sm' w'. first_socket S remote sm w = Some (x, sm', w') \<and> counter sm' = counter sm"
proof -
  obtain fd w1 where fd: "os_socket S (sa_family remote) SOCK_DGRAM 0 w = (fd, w1)"
    by fastforce
  obtain r w2 where "addr_bind S fd (Some (real_local_addr sm)) 0 UDP_SOCKET w1 = Some (r, w2)"
    using bind_responsive [OF assms] by blast
  then show ?thesis
    using fd by (auto simp: first_socket_def Let_def)
qed

lemma second_socket_responsive:
  assumes "responsive S"
  shows "\<exists>x sm' w'. second_socket S remote response_port sm w = Some (x, sm', w') \<and> counter sm' = counter sm"
proof -
  obtain fd w1 where fd: "os_socket S (sa_family remote) SOCK_DGRAM 0 w = (fd, w1)"
    by fastforce
  obtain a where a: "addr_set_port (Some (real_local_addr sm)) response_port = Some a"
    unfolding addr_set_port_def option.case by metis
  obtain r w2 where "addr_bind S fd (Some a) 0 UDP_SOCKET w1 = Some (r, w2)"
    using bind_responsive [OF assms] by blast
  then show ?thesis
    using fd a by (auto simp: second_socket_def Let_def)
qed

lemma send_ends:
  assumes "\<And>m. ends (os_sendto S fd m remote)
      (\<lambda>n w. n < 0 \<and> (os_errno S w = EINTR \<or> os_errno S w = ENOBUFS \<or> os_errno S w = EAGAIN))" and "len b \<le> length (buf b)"
  shows "\<exists>n w'. client_send S fd b remote w = Some (n, w')"
  using assms(2) ends_retry [OF assms(1), of "take (len b) (buf b)" w]
  by (auto simp: client_send_def rdn_def)

lemmas send_responsive = send_ends [OF responsiveD(2)]

text \<open>After receiving, the length is within the array, or it is the \<open>size_t\<close> of -1.\<close>

lemma recv_responsive:
  assumes "responsive S" and "length (buf b) = 65507"
  shows "\<exists>b' w'. client_recv S fd b w = Some (b', w') \<and> length (buf b') = 65507 \<and> (len b' \<le> 65507 \<or> len b' = 2 ^ 64 - 1)"
proof -
  obtain n bs w' w1 where r: "retry (\<lambda>w. case os_recv S fd 65507 w of (n, bs, w) \<Rightarrow> ((n, bs), w))
       (\<lambda>(n, bs) w. n < 0 \<and> (os_errno S w = EINTR \<or> os_errno S w = EAGAIN)) w = Some ((n, bs), w')"
      "(case os_recv S fd 65507 w1 of (n, bs, w) \<Rightarrow> ((n, bs), w)) = ((n, bs), w')"
    using ends_retry [OF responsiveD(3) [OF assms(1)], of fd w] by (auto simp: split_paired_Ex)
  then have "os_recv S fd 65507 w1 = (n, bs, w')"
    by (auto split: prod.splits)
  then consider "n = -1" | "n = int (length bs)" "length bs \<le> 65507"
    using responsiveD(4) [OF assms(1)] by blast
  then show ?thesis
  proof cases
    case 1
    then show ?thesis
      using r(1) assms(2) by (simp add: client_recv_def unsigned_minus_1_eq_mask mask_eq_exp_minus_1)
  next
    case 2
    then have "unat (word_of_int n :: u64) = length bs"
      by (simp add: unat_of_nat)
    then show ?thesis
      using r(1) assms(2) 2 by (auto simp: client_recv_def wrn_def)
  qed
qed

lemma get_from_sock_addr: "\<exists>g la w'. addr_get_from_sock S junk fd (Some a) w = (g, Some la, w')"
proof -
  obtain r x w1 where "os_getsockname S fd (get_ioa_addr_len (junk\<lparr>sa_family := AF_INET6\<rparr>)) (junk\<lparr>sa_family := AF_INET6\<rparr>) w = (r, x, w1)"
    by (metis surj_pair)
  moreover obtain r' x' w2 where
    "os_getsockname S fd (get_ioa_addr_len (x\<lparr>sa_family := AF_INET\<rparr>)) (x\<lparr>sa_family := AF_INET\<rparr>) w1 = (r', x', w2)"
    by (metis surj_pair)
  ultimately show ?thesis
    by (simp add: addr_get_from_sock_def addr_cpy_def Let_def)
qed

text \<open>Whatever the system and the network do, the exchange returns, and the counter advances at most once.\<close>

lemma run_stunclient_responsive:
  assumes "responsive S" and "inet_ok R" and "length (buf b0) = 65507"
    and "make_ioa_addr R (Some rip) rport (Some zero_addr) = Some (r, Some remote)"
    and "- (2 ^ 31) \<le> counter sm" and "counter sm + 1 < 2 ^ 31"
  shows "\<exists>x port' f sm' w'. run_stunclient S R e tbl b0 junk rip rport port rfc5780 response_port change_ip change_port padding sm w
      = Some (x, port', f, sm', w')
    \<and> (port' = port \<or> 0 \<le> port' \<and> port' < 2 ^ 16) \<and> counter sm \<le> counter sm' \<and> counter sm' \<le> counter sm + 1"
proof -
  obtain x1 sm1 w1 where s1: "first_socket S remote sm w = Some (x1, sm1, w1)" "counter sm1 = counter sm"
    using first_socket_responsive [OF assms(1)] by blast
  obtain x2 sm2 w2 where s2: "second_socket S remote response_port sm1 w1 = Some (x2, sm2, w2)" "counter sm2 = counter sm"
    using second_socket_responsive [OF assms(1)] s1(2) by metis
  obtain b where b: "client_request e b0 response_port change_ip change_port padding = Some b" "length (buf b) = 65507"
      "len b \<le> length (buf b)"
    using client_request_holds [OF assms(3)] stun_msg_len(2) unfolding holds_def by metis
  obtain n w3 where s3: "client_send S (udp_fd sm2) b remote w2 = Some (n, w3)"
    using send_responsive [OF assms(1) b(3)] by blast
  obtain g la w4 where s4: "addr_get_from_sock S junk (udp_fd sm2) (Some (real_local_addr sm2)) w3 = (g, Some la, w4)"
    using get_from_sock_addr by metis
  have rest: "\<exists>f sm' w'. do {
       (b, w) \<leftarrow> client_recv S (udp_fd y) b w5;
       (f, z) \<leftarrow> client_response R tbl b junk remote rfc5780 y;
       Some (Returned 0, p, f, z, w) } = Some (Returned 0, p, f, sm', w') \<and> counter sm \<le> counter sm' \<and> counter sm' \<le> counter sm + 1"
    if y: "counter y = counter sm" for y w5 and p :: int
  proof -
    obtain b' w6 where b': "client_recv S (udp_fd y) b w5 = Some (b', w6)" "length (buf b') = 65507"
        "len b' \<le> 65507 \<or> len b' = 2 ^ 64 - 1"
      using recv_responsive [OF assms(1) b(2)] by blast
    have "safe (client_response R tbl b' junk remote rfc5780 y)"
      using client_response_safe [OF assms(2) b'(2)] client_response_huge [OF b'(2)] b'(3) assms(5,6) y
      by (auto simp: safe_Some)
    then obtain f z where "client_response R tbl b' junk remote rfc5780 y = Some (f, z)"
      unfolding safe_iff by (metis surj_pair)
    then show ?thesis
      using b'(1) client_response_counter [of R tbl b' junk remote rfc5780 y f z] y by simp
  qed
  have p: "0 \<le> addr_get_port (Some la) \<and> addr_get_port (Some la) < 2 ^ 16"
    using uint_lt2p [of "nswap16 (sin_port la)"] by (simp add: addr_get_port_def)
  show ?thesis
  proof (cases "r < 0")
    case True
    then show ?thesis
      by (simp add: run_stunclient_def assms(4))
  next
    case r: False
    show ?thesis
    proof (cases x1)
      case (Exited st)
      then show ?thesis
        using r s1 by (simp add: run_stunclient_def assms(4))
    next
      case x1: (Returned u)
      show ?thesis
      proof (cases x2)
        case (Exited st)
        then show ?thesis
          using r s1 s2 x1 by (simp add: run_stunclient_def assms(4))
      next
        case (Returned fd)
        define y where "y = (if fd \<ge> 0 then sm2\<lparr>real_local_addr := la, udp_fd := fd\<rparr> else sm2\<lparr>real_local_addr := la\<rparr>)"
        define w5 where "w5 = (if fd \<ge> 0 then os_close S (udp_fd sm2) w4 else w4)"
        have "counter y = counter sm"
          using s2(2) by (simp add: y_def)
        from rest [OF this, of w5 "if g < 0 then port else addr_get_port (Some la)"]
        obtain f sm' w' where f: "do {
             (b, w) \<leftarrow> client_recv S (udp_fd y) b w5;
             (f, z) \<leftarrow> client_response R tbl b junk remote rfc5780 y;
             Some (Returned 0 :: int outcome, if g < 0 then port else addr_get_port (Some la), f, z, w) }
           = Some (Returned 0, if g < 0 then port else addr_get_port (Some la), f, sm', w')"
           "counter sm \<le> counter sm'" "counter sm' \<le> counter sm + 1"
          by (elim exE conjE)
        have "run_stunclient S R e tbl b0 junk rip rport port rfc5780 response_port change_ip change_port padding sm w
            = (if n < 0 then Some (Returned (-1), port, rfc5780, sm2, w3)
               else Some (Returned 0, if g < 0 then port else addr_get_port (Some la), f, sm', w'))"
          using r s1(1) s2(1) x1 Returned b(1) s3 s4 f(1) unfolding y_def w5_def
          by (cases "fd \<ge> 0") (simp_all add: run_stunclient_def assms(4) split del: if_split cong: if_cong)
        then show ?thesis
          using f(2,3) s2(2) p by simp
      qed
    qed
  qed
qed

subsection \<open>Properties\<close>

text \<open>The probe the client sends: whatever the options, it is a well-formed BINDING request with a fresh
  transaction identifier that carries exactly the attributes asked for: RESPONSE-PORT with the port in network order,
  CHANGE-REQUEST with the bits for address and port, 1500 bytes of PADDING.\<close>

lemma client_probe_correct:
  assumes "length (buf b0) = 65507"
  shows "\<exists>b. client_request e b0 response_port change_ip change_port padding = Some b
    \<and> stun_is_command_message (Some b) = Some True \<and> stun_is_request b = Some True
    \<and> stun_get_method b = Some STUN_METHOD_BINDING \<and> stun_tid_from_message b = Some (turn_random_tid_size e)
    \<and> attrs_of (buf b) (len b) = probe_attrs response_port change_ip change_port padding \<and> len b \<le> 1540"
proof -
  let ?as = "probe_attrs response_port change_ip change_port padding"
  obtain b where b: "client_request e b0 response_port change_ip change_port padding = Some b"
    "holds b (stun_make_request STUN_METHOD_BINDING) (turn_random_tid_size e) ?as"
    using client_request_holds [OF assms] by blast
  have m: "stun_msg (buf b) (len b) (stun_make_request STUN_METHOD_BINDING) STUN_MAGIC_COOKIE (turn_random_tid_size e) ?as"
    using b(2) by (simp add: holds_def)
  have "msg_size ?as \<le> 1540"
    by (simp add: msg_size_def probe_attrs_def pad4_small pad4_1500)
  then show ?thesis
    using b(1) holds_size [OF b(2)] stun_msg_view [OF m] stun_msg_attrs [OF m] stun_msg_len(3) [OF m]
    by (simp add: stun_is_command_message_def stun_is_request_def stun_get_method_def stun_tid_from_message_def
        type_method_make class_make class_defs)
qed

definition sample_buffer :: stun_buffer where
  "sample_buffer = \<lparr>channel = replicate 4 0, buf = replicate 65507 9, len = 0, offset = 0, coffset = 0\<rparr>"

text \<open>C20: One exchange of the client with a network whose calls succeed and that delivers a BINDING success response with
  IPv4 addresses: the client returns 0, sets the caller's port to that of the local socket and its RFC 5780 flag if there is
  an OTHER-ADDRESS, and calls back, in this order, the response origin and the other address if the response has them, then
  the reflexive, the local and the remote address.  The transaction identifier \<open>t\<close> of the response is arbitrary: the client
  does not compare it with the one it sent.\<close>

theorem stun_client_reports:
  assumes "answers S la bs" and "inet_ok R" and "length (buf b0) = 65507"
    and "make_ioa_addr R (Some rip) rport (Some zero_addr) = Some (0, Some remote)"
    and "stun_msg bs (length bs) (stun_make_success_response STUN_METHOD_BINDING) STUN_MAGIC_COOKIE t as"
    and "carries tbl t as STUN_ATTRIBUTE_XOR_MAPPED_ADDRESS (Some a)"
    and "carries tbl t as STUN_ATTRIBUTE_OTHER_ADDRESS other" and "carries tbl t as STUN_ATTRIBUTE_RESPONSE_ORIGIN origin"
    and "response_port < 0 \<or> inet_addr (real_local_addr sm)" and "- (2 ^ 31) \<le> counter sm" and "counter sm + 1 < 2 ^ 31"
  shows "\<exists>sm' w'. run_stunclient S R e tbl b0 junk rip rport port rfc5780 response_port change_ip change_port padding sm w
      = Some (Returned 0, addr_get_port (Some la), rfc5780 \<or> other \<noteq> None, sm', w')
    \<and> notified sm' = notified sm @ response_notes R (sm\<lparr>real_local_addr := la\<rparr>) origin other a remote"
proof -
  obtain fd w1 where s1: "first_socket S remote sm w = Some (Returned (), sm\<lparr>udp_fd := fd\<rparr>, w1)" "0 \<le> fd"
    using first_socket_answers [OF assms(1)] by blast
  obtain nfd la1 w2 where s2: "second_socket S remote response_port (sm\<lparr>udp_fd := fd\<rparr>) w1
      = Some (Returned nfd, sm\<lparr>udp_fd := fd, real_local_addr := la1\<rparr>, w2)" "0 \<le> nfd \<longleftrightarrow> 0 \<le> response_port"
    using second_socket_answers [OF assms(1), of response_port "sm\<lparr>udp_fd := fd\<rparr>" remote w1] assms(9) by auto
  obtain b where b: "client_request e b0 response_port change_ip change_port padding = Some b" "length (buf b) = 65507"
      "len b \<le> length (buf b)"
    using client_request_holds [OF assms(3)] stun_msg_len(2) unfolding holds_def by metis
  obtain n w3 where s3: "client_send S fd b remote w2 = Some (n, w3)" "0 \<le> n"
    using send_answers [OF assms(1) b(3)] by blast
  let ?sm = "sm\<lparr>real_local_addr := la, udp_fd := (if nfd \<ge> 0 then nfd else fd)\<rparr>"
  obtain w4 where s4: "addr_get_from_sock S junk fd (Some la1) w3 = (0, Some la, w4)"
  proof -
    obtain w4 where "os_getsockname S fd (get_ioa_addr_len (junk\<lparr>sa_family := AF_INET6\<rparr>)) (junk\<lparr>sa_family := AF_INET6\<rparr>) w3
        = (0, la, w4)"
      using assms(1) unfolding answers_def by blast
    then show ?thesis
      using that s1(2) by (simp add: addr_get_from_sock_def addr_cpy_def)
  qed
  have bs: "0 < length bs" "length bs \<le> 65507"
    using stun_msg_len(3,4) [OF assms(5)] by linarith+
  let ?b = "b\<lparr>buf := bs @ drop (length bs) (buf b), len := length bs\<rparr>"
  obtain w5 where s5: "client_recv S (udp_fd ?sm) b (if nfd \<ge> 0 then os_close S fd w4 else w4) = Some (?b, w5)"
    using recv_answers [OF assms(1) bs(1) _ bs(2), of b "udp_fd ?sm"] bs(2) b(2) by metis
  obtain sm' where s6: "client_response R tbl ?b junk remote rfc5780 ?sm = Some (rfc5780 \<or> other \<noteq> None, sm')"
      "notified sm' = notified ?sm @ response_notes R ?sm origin other a remote"
    using client_response_eq [of ?b t as R ?sm tbl a other origin junk remote rfc5780] stun_msg_front [OF assms(5)]
      assms(2,6,7,8,10,11) by auto
  have "response_notes R ?sm origin other a remote = response_notes R (sm\<lparr>real_local_addr := la\<rparr>) origin other a remote"
    by (cases other; cases origin) (simp_all add: response_notes_def)
  moreover have "run_stunclient S R e tbl b0 junk rip rport port rfc5780 response_port change_ip change_port padding sm w
      = Some (Returned 0, addr_get_port (Some la), rfc5780 \<or> other \<noteq> None, sm', w5)"
    using assms(4) s1 s2 b(1) s3 s4 s5 s6(1) unfolding run_stunclient_def
    by (cases "nfd \<ge> 0") (simp_all add: fd_addr_swap)
  ultimately show ?thesis
    using s6(2) by simp
qed

text \<open>
  The datagram of the witnesses is the response to another client's request (its transaction identifier is all sevens), with
  an XOR-MAPPED-ADDRESS and an OTHER-ADDRESS.
\<close>

definition sample_answer :: mem where
  "sample_answer = [1, 1, 0, 24, 0x21, 0x12, 0xA4, 0x42] @ replicate 12 7
     @ [0, 0x20, 0, 8, 0, 1, 0x2B, 0x98, 0x25, 0x12, 0xA4, 0x42] @ [0x80, 0x2C, 0, 8, 0, 1, 0x0D, 0x97, 9, 0, 0, 0]"

definition sample_manager :: stun_manager where
  "sample_manager = \<lparr>reflexive_cb = Some 1, other_cb = Some 2, response_origin_cb = None, local_addr = replicate 256 0,
     forceRfc5780 = 0, udp_fd = -1, real_local_addr = zero_addr, counter = 0, notified = []\<rparr>"

lemma sample_answer_msg:
  "stun_msg sample_answer (length sample_answer) (stun_make_success_response STUN_METHOD_BINDING) STUN_MAGIC_COOKIE (replicate 12 7)
     [addr_attr empty_map (replicate 12 7) STUN_ATTRIBUTE_XOR_MAPPED_ADDRESS (sample4 4 0x8A0A),
      addr_attr empty_map (replicate 12 7) STUN_ATTRIBUTE_OTHER_ADDRESS (sample4 9 0x970D)]"
proof -
  let ?r = "drop 20 sample_answer"
  have "sample_answer = header (stun_make_success_response STUN_METHOD_BINDING) (of_nat (length ?r)) STUN_MAGIC_COOKIE (replicate 12 7) @ ?r"
    by code_simp
  moreover have "attrs_exact ?r"
    by code_simp
  moreover have "parse_attrs ?r = 
     [addr_attr empty_map (replicate 12 7) STUN_ATTRIBUTE_XOR_MAPPED_ADDRESS (sample4 4 0x8A0A),
      addr_attr empty_map (replicate 12 7) STUN_ATTRIBUTE_OTHER_ADDRESS (sample4 9 0x970D)]"
    by code_simp
  moreover have "length ?r = 24" "length sample_answer = 44"
    by code_simp+
  ultimately show ?thesis
    unfolding stun_msg_def by (intro exI [of _ ?r] exI [of _ "[]"]) simp
qed

lemma sample_rip: "make_ioa_addr sample_resolver (Some [53, 0]) 3478 (Some zero_addr) = Some (0, Some (sample4 5 (nswap16 3478)))"
  by code_simp

theorem stun_client_reports_witness:
  "\<exists>sm' w'. run_stunclient (sample_os (sample4 8 0x0B00) sample_answer) sample_resolver sample_entropy empty_map sample_buffer
      zero_addr [53, 0] 3478 (-1) False (-1) False False False sample_manager ()
      = Some (Returned 0, 11, True, sm', w')
    \<and> map (\<lambda>(cb, ty, m, p). (cb, ty, c_str m, p)) (notified sm')
      = [(2, 5, Some (dec_string 9), 3479), (1, 3, Some (dec_string 4), 2698), (1, 4, Some (dec_string 8), 11),
         (1, 5, Some (dec_string 5), 3478)]"
proof -
  let ?a = "sample4 4 0x8A0A" and ?o = "sample4 9 0x970D" and ?la = "sample4 8 0x0B00"
  have ans: "answers (sample_os ?la sample_answer) ?la sample_answer"
    by (simp add: answers_def sample_os_def)
  have car: "carries empty_map (replicate 12 7) [addr_attr empty_map (replicate 12 7) STUN_ATTRIBUTE_XOR_MAPPED_ADDRESS ?a,
        addr_attr empty_map (replicate 12 7) STUN_ATTRIBUTE_OTHER_ADDRESS ?o] ty x"
    if "(ty, x) \<in> {(STUN_ATTRIBUTE_XOR_MAPPED_ADDRESS, Some ?a), (STUN_ATTRIBUTE_OTHER_ADDRESS, Some ?o),
      (STUN_ATTRIBUTE_RESPONSE_ORIGIN, None)}" for ty x
    using that sample4_translatable by (auto simp: carries_def addr_attr_def) (simp_all add: sample4_def)
  have port: "addr_get_port (Some ?la) = 11"
    by code_simp
  have calls: "map (\<lambda>(cb, ty, m, p). (cb, ty, c_str m, p))
      (response_notes sample_resolver (sample_manager\<lparr>real_local_addr := ?la\<rparr>) None (Some ?o) ?a (sample4 5 (nswap16 3478)))
    = [(2, 5, Some (dec_string 9), 3479), (1, 3, Some (dec_string 4), 2698), (1, 4, Some (dec_string 8), 11),
         (1, 5, Some (dec_string 5), 3478)]"
    by code_simp
  show ?thesis
    using stun_client_reports [where other = "Some ?o" and origin = None and a = ?a, OF ans sample_resolver_ok _ sample_rip
        sample_answer_msg car car car, where ?b0.0 = sample_buffer and response_port = "-1" and sm = sample_manager
        and e = sample_entropy and junk = zero_addr and port = "-1" and ?rfc5780.0 = False and change_ip = False
        and change_port = False and padding = False and w = "()"] calls port
    by (auto simp: sample_buffer_def sample_manager_def)
qed

text \<open>C21: Whatever the system and the server do (calls that fail, datagrams of any content), the client's run of up to three
  exchanges returns, if no call is repeated forever, which holds for \<open>recv\<close> only if it does not time out each time, since the client
  repeats it then: no byte outside the buffers is read or written.\<close>

theorem init_stun_returns:
  assumes "responsive S" and "inet_ok R" and "length (buf b0) = 65507"
    and "make_ioa_addr R (Some rip) rport (Some zero_addr) = Some (r, Some remote)"
    and "- (2 ^ 31) \<le> counter sm" and "counter sm + 3 < 2 ^ 31"
  shows "\<exists>x sm' w'. init_stun S R e1 e2 e3 tbl b0 junk rip rport sm w = Some (x, sm', w')"
proof -
  note run = run_stunclient_responsive [OF assms(1,2,3,4)]
  obtain x1 p1 f1 sm1 w1 where r1: "run_stunclient S R e1 tbl b0 junk rip rport (-1) False (-1) False False False sm w
      = Some (x1, p1, f1, sm1, w1)" "-1 \<le> p1" "p1 < 2 ^ 16" "counter sm \<le> counter sm1" "counter sm1 \<le> counter sm + 1"
    using run [of sm e1 tbl junk "-1" False "-1" False False False w] assms(5,6) by force
  have p: "c_int (p1 + 1) = Some (p1 + 1)"
    using r1(2,3) by simp
  obtain x2 p2 f2 sm2 w2 where r2: "run_stunclient S R e2 tbl b0 junk rip rport p1 f1 (p1 + 1) True True False sm1 w1
      = Some (x2, p2, f2, sm2, w2)" "counter sm1 \<le> counter sm2" "counter sm2 \<le> counter sm1 + 1"
    using run [of sm1 e2 tbl junk p1 f1 "p1 + 1" True True False w1] assms(5,6) r1(4,5) by force
  obtain x3 p3 f3 sm3 w3 where r3: "run_stunclient S R e3 tbl b0 junk rip rport p2 f2 (-1) True True True sm2 w2
      = Some (x3, p3, f3, sm3, w3)"
    using run [of sm2 e3 tbl junk p2 f2 "-1" True True True w2] assms(5,6) r1(4,5) r2(2,3) by force
  have "\<exists>x sm' w'. further_probes S R e2 e3 tbl b0 junk rip rport p1 f1 sm1 w1 = Some (x, sm', w')"
    using p r2(1) r3 by (cases x2) (simp_all add: further_probes_def)
  then show ?thesis
    using r1(1) by (cases x1) (auto simp: init_stun_def)
qed

theorem init_stun_returns_witness:
  "\<exists>x sm' w'. init_stun (sample_os zero_addr (replicate 65507 255)) sample_resolver sample_entropy sample_entropy sample_entropy
     empty_map sample_buffer zero_addr [53, 0] 3478 (sample_manager\<lparr>forceRfc5780 := 1\<rparr>) () = Some (x, sm', w')"
proof -
  have "ends (\<lambda>w :: unit. (r :: 'a, w)) again" if "\<not> again r ()" for r again
    using that by (simp add: ends_def attempt_def)
  then have "responsive (sample_os zero_addr (replicate 65507 255))"
    unfolding responsive_def by (simp add: sample_os_def) (simp add: ends_def attempt_def)
  then show ?thesis
    using init_stun_returns [OF _ sample_resolver_ok _ sample_rip,
        of "sample_os zero_addr (replicate 65507 255)" sample_buffer "sample_manager\<lparr>forceRfc5780 := 1\<rparr>"
          sample_entropy sample_entropy sample_entropy empty_map zero_addr "()"]
    by (simp add: sample_buffer_def sample_manager_def)
qed

subsection \<open>What the callbacks are told\<close>

text \<open>
  A notification looks at the IPv4 fields only, whatever the family: for an IPv6 address the text is that of its flow
  information, and two IPv6 addresses that differ in every byte of the address give the same one.
\<close>

lemma notify_ignores_ipv6_address:
  assumes "sin_addr a = sin_addr c" and "sin_port a = sin_port c"
  shows "notify_address R type a cb sm = notify_address R type c cb sm"
  using assms by (simp add: notify_address_def)

text \<open>The copy of the local address stays inside its array exactly for a text of at most 255 characters.\<close>

lemma set_local_address_exact:
  assumes "0 \<notin> set t"
  shows "set_local_address (t @ 0 # x) sm = (if length t < 256
    then Some (sm\<lparr>local_addr := t @ replicate (256 - length t) 0\<rparr>) else None)"
proof (cases "length t < 256")
  case True
  then have "wrn (replicate 256 0) 0 (t @ [0]) = Some (t @ replicate (256 - length t) 0)"
    by (simp add: wrn_def Suc_diff_Suc replicate_Suc [symmetric] del: replicate_Suc)
  then show ?thesis
    using True assms by (simp add: set_local_address_def)
next
  case False
  then show ?thesis
    using assms by (simp add: set_local_address_def wrn_def)
qed

end
