(* ===== verification/Nat_Discovery.thy ===== *)
theory Nat_Discovery
  imports Stun_Client Turn_Connect
begin

text \<open>
  The discovery of NAT behaviour (RFC 5780): the C part of \<open>natdiscovery/natdiscovery.c\<close>.

  The record \<open>discovery\<close> has the variables of the file and those of \<open>main\<close> that are passed by reference; the texts
  given to \<open>discoveryresult\<close> are logged in \<open>decisions\<close>, other printing is left out.  The record \<open>nd_env\<close> has what lies outside: the system calls, the
  resolver, a source of random bytes, the address table, and what uninitialised buffers and addresses hold.  \<open>err\<close> and \<open>exit\<close> are the
  outcome \<open>Exited\<close>.
\<close>

subsection \<open>State\<close>

record 'w nd_env =
  n_os :: "'w os"
  n_resolver :: resolver
  n_random :: "'w \<Rightarrow> entropy \<times> 'w"
  n_tbl :: addr_map
  n_buffer :: stun_buffer
  n_junk :: ioa_addr

record discovery =
  d_fd :: int
  d_fd2 :: int
  d_counter :: int
  d_local :: ioa_addr
  d_remote :: ioa_addr
  d_reflexive :: ioa_addr
  d_other :: ioa_addr
  d_local_port :: int
  d_rfc5780 :: bool
  decisions :: "string list"

type_synonym ('w, 'a) run = "('a outcome \<times> discovery \<times> 'w) option"

text \<open>Going on unless the process was left.\<close>

definition and_then :: "('w, 'a) run \<Rightarrow> ('a \<Rightarrow> discovery \<Rightarrow> 'w \<Rightarrow> ('w, 'b) run) \<Rightarrow> ('w, 'b) run" where
  "and_then r f = do { (x, s, w) \<leftarrow> r; case x of Exited e \<Rightarrow> Some (Exited e, s, w) | Returned a \<Rightarrow> f a s w }"

subsection \<open>One exchange\<close>

text \<open>A socket, the second one if \<open>second\<close>; it is always the first one that is compared with 0.\<close>

definition init_socket :: "'w nd_env \<Rightarrow> bool \<Rightarrow> int \<Rightarrow> discovery \<Rightarrow> 'w \<Rightarrow> ('w, unit) run" where
  "init_socket E second port s w = do {
     let (fd, w) = os_socket (n_os E) (sa_family (d_remote s)) SOCK_DGRAM 0 w;
     let s = (if second then s\<lparr>d_fd2 := fd\<rparr> else s\<lparr>d_fd := fd\<rparr>);
     if d_fd s < 0 then Some (Exited (-1), s, w)
     else do {
       la \<leftarrow> (if port \<ge> 0 then addr_set_port (Some (d_local s)) port else Some (d_local s));
       let s = s\<lparr>d_local := la\<rparr>;
       if \<not> addr_any (Some la) then do {
         (r, w) \<leftarrow> addr_bind (n_os E) fd (Some la) 0 UDP_SOCKET w;
         Some (if r < 0 then Exited (-1) else Returned (), s, w) }
       else Some (Returned (), s, w) } }"

definition stunclient_send ::
    "'w nd_env \<Rightarrow> stun_buffer \<Rightarrow> int \<Rightarrow> bool \<Rightarrow> bool \<Rightarrow> bool \<Rightarrow> int \<Rightarrow> discovery \<Rightarrow> 'w \<Rightarrow> ('w, stun_buffer) run" where
  "stunclient_send E b fd change_ip change_port padding response_port s w = do {
     let (e, w) = n_random E w;
     b \<leftarrow> client_request e b response_port change_ip change_port padding;
     (n, w) \<leftarrow> client_send (n_os E) fd b (d_remote s) w;
     if n < 0 then Some (Exited (-1), s, w)
     else do {
       let (g, a, w) = addr_get_from_sock (n_os E) (n_junk E) fd (Some (d_local s)) w;
       a \<leftarrow> a;
       Some (Returned b, if g < 0 then s\<lparr>d_local := a\<rparr> else s\<lparr>d_local := a, d_local_port := addr_get_port (Some a)\<rparr>, w) } }"

text \<open>The loop around \<open>recv\<close>; an error is stored as the largest length.\<close>

definition receive_loop :: "'w os \<Rightarrow> int \<Rightarrow> stun_buffer \<Rightarrow> 'w \<Rightarrow> (stun_buffer \<times> 'w) option" where
  "receive_loop S fd b w = do {
     ((n, bs), w) \<leftarrow> retry (\<lambda>w. case os_recv S fd 65507 w of (n, bs, w) \<Rightarrow> ((n, bs), w)) (\<lambda>(n, bs) w. n < 0 \<and> os_errno S w = EINTR) w;
     m \<leftarrow> (if n > 0 then wrn (buf b) 0 bs else Some (buf b));
     Some (b\<lparr>buf := m, len := unat (word_of_int n :: u64)\<rparr>, w) }"

text \<open>The attributes of RFC 5780 in a response.\<close>

definition receive_other :: "'w nd_env \<Rightarrow> stun_buffer \<Rightarrow> discovery \<Rightarrow> discovery option" where
  "receive_other E b s = do {
     sar \<leftarrow> stun_attr_get_first_by_type_str (buf b) (len b) STUN_ATTRIBUTE_OTHER_ADDRESS;
     if sar \<noteq> None then do {
       c \<leftarrow> c_int (d_counter s + 1);
       _ \<leftarrow> stun_attr_get_first_addr (n_tbl E) b STUN_ATTRIBUTE_MAPPED_ADDRESS zero_addr None;
       (_, other) \<leftarrow> stun_attr_get_addr_str (n_tbl E) (buf b) (len b) sar (d_other s) None;
       sar \<leftarrow> stun_attr_get_first_by_type_str (buf b) (len b) STUN_ATTRIBUTE_RESPONSE_ORIGIN;
       _ \<leftarrow> (if sar \<noteq> None then stun_attr_get_addr_str (n_tbl E) (buf b) (len b) sar (n_junk E) None else Some (0, zero_addr));
       Some (s\<lparr>d_rfc5780 := True, d_counter := c, d_other := other\<rparr>) }
     else Some s }"

definition receive_response :: "'w nd_env \<Rightarrow> stun_buffer \<Rightarrow> discovery \<Rightarrow> (int \<times> discovery) option" where
  "receive_response E b s = do {
     c \<leftarrow> stun_is_command_message (Some b);
     if \<not> c then Some (1, s)
     else do {
       r \<leftarrow> stun_is_response b;
       if r then do {
         ok \<leftarrow> stun_is_success_response b;
         if ok then do {
           br \<leftarrow> stun_is_binding_response b;
           if br then do {
             (g, reflexive) \<leftarrow> stun_attr_get_first_addr (n_tbl E) b STUN_ATTRIBUTE_XOR_MAPPED_ADDRESS zero_addr None;
             let s = s\<lparr>d_reflexive := reflexive\<rparr>;
             s \<leftarrow> (if g \<ge> 0 then receive_other E b s else Some s);
             Some (0, s) }
           else Some (0, s) }
         else do {
           _ \<leftarrow> stun_is_error_response b (Some 0) (Some (replicate 1025 0)) 1025;
           Some (0, s) } }
       else do {
         q \<leftarrow> stun_is_request b;
         Some (if q then 0 else 1, s) } } }"

definition stunclient_receive :: "'w nd_env \<Rightarrow> stun_buffer \<Rightarrow> int \<Rightarrow> discovery \<Rightarrow> 'w \<Rightarrow> ('w, int \<times> stun_buffer) run" where
  "stunclient_receive E b fd s w = do {
     let (_, w) = os_setsockopt (n_os E) fd (SO_RCVTIMEO 3) w;
     (b, w) \<leftarrow> receive_loop (n_os E) fd b w;
     (r, s) \<leftarrow> receive_response E b s;
     Some (Returned (r, b), s, w) }"

subsection \<open>The tests\<close>

definition nd_run_stunclient :: "'w nd_env \<Rightarrow> bool \<Rightarrow> bool \<Rightarrow> bool \<Rightarrow> discovery \<Rightarrow> 'w \<Rightarrow> ('w, int) run" where
  "nd_run_stunclient E change_ip change_port padding s w =
     and_then (init_socket E False (d_local_port s) s w) (\<lambda>_ s w.
     and_then (stunclient_send E (n_buffer E) (d_fd s) change_ip change_port padding (-1) s w) (\<lambda>b s w.
     and_then (stunclient_receive E b (d_fd s) s w) (\<lambda>(r, b) s w.
       Some (Returned r, s, os_close (n_os E) (d_fd s) w))))"

definition run_stunclient_hairpinning :: "'w nd_env \<Rightarrow> bool \<Rightarrow> bool \<Rightarrow> bool \<Rightarrow> discovery \<Rightarrow> 'w \<Rightarrow> ('w, int) run" where
  "run_stunclient_hairpinning E change_ip change_port padding s w =
     and_then (init_socket E False (d_local_port s) s w) (\<lambda>_ s w.
     and_then (stunclient_send E (n_buffer E) (d_fd s) change_ip change_port padding (-1) s w) (\<lambda>b s w.
     and_then (stunclient_receive E b (d_fd s) s w) (\<lambda>(r, b) s w.
     let s = s\<lparr>d_remote := d_reflexive s, d_local := the (addr_set_port (Some (d_local s)) 0)\<rparr> in
     and_then (init_socket E True 0 s w) (\<lambda>_ s w.
     and_then (stunclient_send E (n_buffer E) (d_fd2 s) change_ip change_port padding (-1) s w) (\<lambda>b2 s w.
     and_then (stunclient_receive E b (d_fd s) s w) (\<lambda>(r, b) s w.
     and_then (if r \<noteq> 0 then stunclient_receive E b2 (d_fd2 s) s w else Some (Returned (r, b2), s, w)) (\<lambda>(r, b2) s w.
       Some (Returned r, s, os_close (n_os E) (d_fd2 s) (os_close (n_os E) (d_fd s) w)))))))))"

definition run_stunclient_lifetime :: "'w nd_env \<Rightarrow> int \<Rightarrow> bool \<Rightarrow> bool \<Rightarrow> bool \<Rightarrow> discovery \<Rightarrow> 'w \<Rightarrow> ('w, int) run" where
  "run_stunclient_lifetime E timer change_ip change_port padding s w =
     and_then (init_socket E False (d_local_port s) s w) (\<lambda>_ s w.
     and_then (stunclient_send E (n_buffer E) (d_fd s) change_ip change_port padding (-1) s w) (\<lambda>b s w.
     and_then (stunclient_receive E b (d_fd s) s w) (\<lambda>(r, b) s w.
     let s = s\<lparr>d_local := the (addr_set_port (Some (d_local s)) 0)\<rparr>; w = os_sleep (n_os E) timer w in
     and_then (init_socket E True 0 s w) (\<lambda>_ s w.
     and_then (stunclient_send E (n_buffer E) (d_fd2 s) change_ip change_port padding (addr_get_port (Some (d_reflexive s))) s w) (\<lambda>b2 s w.
     and_then (stunclient_receive E b (d_fd s) s w) (\<lambda>(r, b) s w.
       Some (Returned r, s, os_close (n_os E) (d_fd2 s) (os_close (n_os E) (d_fd s) w))))))))"

subsection \<open>The main function\<close>

text \<open>\<open>init\<close>; the variable \<open>first\<close> of \<open>main\<close> says whether no test was made before.\<close>

definition nd_init :: "'w nd_env \<Rightarrow> bool \<Rightarrow> int \<Rightarrow> mem \<Rightarrow> mem \<Rightarrow> discovery \<Rightarrow> 'w \<Rightarrow> ('w, unit) run" where
  "nd_init E first port local_addr_string remote_param s w = do {
     c \<leftarrow> rd8 local_addr_string 0;
     (r, la) \<leftarrow> (if c \<noteq> 0 then make_ioa_addr (n_resolver E) (Some local_addr_string) 0 (Some zero_addr) else Some (0, Some zero_addr));
     la \<leftarrow> la;
     let s = s\<lparr>d_local := la\<rparr>;
     if r < 0 then Some (Exited (-1), s, w)
     else do {
       let s = s\<lparr>d_local_port := if first then d_local_port s else -1, d_rfc5780 := False\<rparr>;
       (r, ra) \<leftarrow> make_ioa_addr (n_resolver E) (Some remote_param) port (Some (d_remote s));
       ra \<leftarrow> ra;
       let s = s\<lparr>d_remote := ra\<rparr>;
       Some (if r < 0 then Exited (-1) else Returned (), s, w) } }"

definition discoveryresult :: "string \<Rightarrow> discovery \<Rightarrow> discovery" where
  "discoveryresult decision s = s\<lparr>decisions := decisions s @ [decision]\<rparr>"

definition no_nat :: "discovery \<Rightarrow> discovery" where
  "no_nat s = (if addr_eq (Some (d_local s)) (Some (d_reflexive s)) then discoveryresult ''No NAT! (Endpoint Independent Mapping)'' s else s)"

record nd_options =
  remote_port :: int
  local_addr_string :: mem
  local2_addr_string :: mem
  o_mapping :: bool
  o_filtering :: bool
  o_lifetime :: bool
  o_timer :: int
  o_collision :: bool
  o_padding :: bool
  o_hairpinning :: bool
  o_local_port :: int

text \<open>The further tests of the mapping: the other address with the port in use, then the other address of that response.\<close>

definition mapping_tests :: "'w nd_env \<Rightarrow> nd_options \<Rightarrow> discovery \<Rightarrow> 'w \<Rightarrow> ('w, unit) run" where
  "mapping_tests E opts s w =
     (if d_rfc5780 s \<and> \<not> addr_any (Some (d_other s)) then
        let tmp = d_reflexive s; s = s\<lparr>d_remote := the (addr_set_port (Some (d_other s)) (remote_port opts))\<rparr> in
        and_then (nd_run_stunclient E False False (o_padding opts) s w) (\<lambda>_ s w.
          if addr_eq (Some tmp) (Some (d_reflexive s)) then
            Some (Returned (), discoveryresult ''NAT with Endpoint Independent Mapping!'' s, w)
          else
            let tmp = d_reflexive s; s = s\<lparr>d_remote := d_other s\<rparr> in
            and_then (nd_run_stunclient E False False (o_padding opts) s w) (\<lambda>_ s w.
              Some (Returned (), discoveryresult (if addr_eq (Some tmp) (Some (d_reflexive s))
                then ''NAT with Address Dependent Mapping!'' else ''NAT with Address and Port Dependent Mapping!'') s, w)))
      else Some (Returned (), s, w))"

definition mapping_discovery :: "'w nd_env \<Rightarrow> nd_options \<Rightarrow> mem \<Rightarrow> bool \<Rightarrow> discovery \<Rightarrow> 'w \<Rightarrow> ('w, unit) run" where
  "mapping_discovery E opts remote_param first s w =
     and_then (nd_init E first (remote_port opts) (local_addr_string opts) remote_param s w) (\<lambda>_ s w.
     and_then (nd_run_stunclient E False False (o_padding opts) s w) (\<lambda>_ s w. mapping_tests E opts (no_nat s) w))"

definition filtering_tests :: "'w nd_env \<Rightarrow> nd_options \<Rightarrow> discovery \<Rightarrow> 'w \<Rightarrow> ('w, unit) run" where
  "filtering_tests E opts s w =
     (if d_rfc5780 s \<and> \<not> addr_any (Some (d_other s)) then
        and_then (nd_run_stunclient E True True (o_padding opts) s w) (\<lambda>res s w.
          if res = 0 then Some (Returned (), discoveryresult ''NAT with Endpoint Independent Filtering!'' s, w)
          else and_then (nd_run_stunclient E False True (o_padding opts) s w) (\<lambda>res s w.
            Some (Returned (), discoveryresult (if res = 0
              then ''NAT with Address Dependent Filtering!'' else ''NAT with Address and Port Dependent Filtering!'') s, w)))
      else Some (Returned (), s, w))"

definition filtering_discovery :: "'w nd_env \<Rightarrow> nd_options \<Rightarrow> mem \<Rightarrow> bool \<Rightarrow> discovery \<Rightarrow> 'w \<Rightarrow> ('w, unit) run" where
  "filtering_discovery E opts remote_param first s w =
     and_then (nd_init E first (remote_port opts) (local_addr_string opts) remote_param s w) (\<lambda>_ s w.
     and_then (nd_run_stunclient E False False (o_padding opts) s w) (\<lambda>_ s w. filtering_tests E opts (no_nat s) w))"

text \<open>The second exchange is made from \<open>local2_addr\<close>, with the port of the first; the first address is not used after it.\<close>

definition collision_discovery :: "'w nd_env \<Rightarrow> nd_options \<Rightarrow> mem \<Rightarrow> bool \<Rightarrow> discovery \<Rightarrow> 'w \<Rightarrow> ('w, unit) run" where
  "collision_discovery E opts remote_param first s w =
     and_then (nd_init E first (remote_port opts) (local_addr_string opts) remote_param s w) (\<lambda>_ s w. do {
     c \<leftarrow> rd8 (local2_addr_string opts) 0;
     (r, la2) \<leftarrow> (if c \<noteq> 0 then make_ioa_addr (n_resolver E) (Some (local2_addr_string opts)) 0 (Some zero_addr) else Some (0, Some zero_addr));
     la2 \<leftarrow> la2;
     if r < 0 then Some (Exited (-1), s, w)
     else and_then (nd_run_stunclient E False False (o_padding opts) s w) (\<lambda>_ s w.
       let s = s\<lparr>d_local := the (addr_set_port (Some la2) (addr_get_port (Some (d_local s))))\<rparr> in
       and_then (nd_run_stunclient E False False (o_padding opts) s w) (\<lambda>_ s w. Some (Returned (), s, w))) })"

definition lifetime_discovery :: "'w nd_env \<Rightarrow> nd_options \<Rightarrow> mem \<Rightarrow> bool \<Rightarrow> discovery \<Rightarrow> 'w \<Rightarrow> ('w, unit) run" where
  "lifetime_discovery E opts remote_param first s w =
     and_then (nd_init E first (remote_port opts) (local_addr_string opts) remote_param s w) (\<lambda>_ s w.
     and_then (run_stunclient_lifetime E (o_timer opts) False False (o_padding opts) s w) (\<lambda>_ s w. Some (Returned (), s, w)))"

definition hairpinning_discovery :: "'w nd_env \<Rightarrow> nd_options \<Rightarrow> mem \<Rightarrow> bool \<Rightarrow> discovery \<Rightarrow> 'w \<Rightarrow> ('w, unit) run" where
  "hairpinning_discovery E opts remote_param first s w =
     and_then (nd_init E first (remote_port opts) (local_addr_string opts) remote_param s w) (\<lambda>_ s w.
     and_then (run_stunclient_hairpinning E False False (o_padding opts) s w) (\<lambda>_ s w. Some (Returned (), s, w)))"

text \<open>The options, as \<open>getopt\<close> returns them one by one; \<open>None\<close> inside is an option that is left to the default case.\<close>

definition initial_options :: nd_options where
  "initial_options = \<lparr>remote_port = 3478, local_addr_string = replicate 256 0, local2_addr_string = replicate 256 0, o_mapping = False,
     o_filtering = False, o_lifetime = False, o_timer = -1, o_collision = False, o_padding = False, o_hairpinning = False, o_local_port = -1\<rparr>"

definition parse_option :: "char \<times> mem \<Rightarrow> nd_options \<Rightarrow> nd_options option option" where
  "parse_option x opts = (case x of (c, optarg) \<Rightarrow>
     if c = CHR ''m'' then Some (Some (opts\<lparr>o_mapping := True\<rparr>))
     else if c = CHR ''f'' then Some (Some (opts\<lparr>o_filtering := True\<rparr>))
     else if c = CHR ''t'' then Some (Some (opts\<lparr>o_lifetime := True\<rparr>))
     else if c = CHR ''c'' then Some (Some (opts\<lparr>o_collision := True\<rparr>))
     else if c = CHR ''H'' then Some (Some (opts\<lparr>o_hairpinning := True\<rparr>))
     else if c = CHR ''P'' then Some (Some (opts\<lparr>o_padding := True\<rparr>))
     else if c = CHR ''p'' then do { n \<leftarrow> c_atoi optarg; Some (Some (opts\<lparr>remote_port := n\<rparr>)) }
     else if c = CHR ''L'' then do { m \<leftarrow> STRCPY 256 optarg; Some (Some (opts\<lparr>local_addr_string := m\<rparr>)) }
     else if c = CHR ''l'' then do { n \<leftarrow> c_atoi optarg; Some (Some (opts\<lparr>o_local_port := n\<rparr>)) }
     else if c = CHR ''A'' then do { m \<leftarrow> STRCPY 256 optarg; Some (Some (opts\<lparr>local2_addr_string := m\<rparr>)) }
     else if c = CHR ''T'' then do { n \<leftarrow> c_atoi optarg; Some (Some (opts\<lparr>o_timer := n\<rparr>)) }
     else Some None)"

fun parse_options :: "(char \<times> mem) list \<Rightarrow> nd_options \<Rightarrow> nd_options option option" where
  "parse_options [] opts = Some (Some opts)"
| "parse_options (x # xs) opts = do {
     r \<leftarrow> parse_option x opts;
     case r of None \<Rightarrow> Some None | Some opts \<Rightarrow> parse_options xs opts }"

definition run_tests :: "'w nd_env \<Rightarrow> nd_options \<Rightarrow> mem \<Rightarrow> discovery \<Rightarrow> 'w \<Rightarrow> ('w, unit) run" where
  "run_tests E opts remote_param s w =
     and_then (if o_lifetime opts then lifetime_discovery E opts remote_param True s w else Some (Returned (), s, w)) (\<lambda>_ s w.
     let first = (\<not> o_lifetime opts) in
     and_then (if o_hairpinning opts then hairpinning_discovery E opts remote_param first s w else Some (Returned (), s, w)) (\<lambda>_ s w.
     let first = (first \<and> \<not> o_hairpinning opts) in
     and_then (if o_mapping opts then mapping_discovery E opts remote_param first s w else Some (Returned (), s, w)) (\<lambda>_ s w.
     let first = (first \<and> \<not> o_mapping opts) in
     and_then (if o_filtering opts then filtering_discovery E opts remote_param first s w else Some (Returned (), s, w)) (\<lambda>_ s w.
     let first = (first \<and> \<not> o_filtering opts) in
     and_then (if o_collision opts then collision_discovery E opts remote_param first s w else Some (Returned (), s, w)) (\<lambda>_ s w.
       Some (Returned (), s, w))))))"

text \<open>\<open>args\<close> is what \<open>getopt\<close> leaves, the address of the server first.\<close>

definition nd_main :: "'w nd_env \<Rightarrow> (char \<times> mem) list \<Rightarrow> mem list \<Rightarrow> 'w \<Rightarrow> ('w, int) run" where
  "nd_main E optlist args w = do {
     let s = \<lparr>d_fd = -1, d_fd2 = -1, d_counter = 0, d_local = n_junk E, d_remote = zero_addr, d_reflexive = zero_addr, d_other = zero_addr,
       d_local_port = -1, d_rfc5780 = False, decisions = []\<rparr>;
     r \<leftarrow> parse_options optlist initial_options;
     case r of None \<Rightarrow> Some (Exited 1, s, w)
     | Some opts \<Rightarrow> do {
         l1 \<leftarrow> rd8 (local_addr_string opts) 0;
         l2 \<leftarrow> rd8 (local2_addr_string opts) 0;
         let s = s\<lparr>d_local_port := o_local_port opts\<rparr>;
         case args of [] \<Rightarrow> Some (Exited (-1), s, w)
         | remote_param # _ \<Rightarrow>
             if o_collision opts \<and> l2 = 0 then Some (Exited (-1), s, w)
             else if o_lifetime opts \<and> o_timer opts = -1 then Some (Exited (-1), s, w)
             else if o_local_port opts \<ge> 0 \<and> l1 = 0 then Some (Exited (-1), s, w)
             else and_then (run_tests E opts remote_param s w) (\<lambda>_ s w.
               Some (Returned 0, s, os_close (n_os E) (d_fd2 s) (os_close (n_os E) (d_fd s) w))) } }"

end
