(* ===== verification/Nat_Behaviour.thy ===== *)
theory Nat_Behaviour
  imports Nat_Discovery
begin

text \<open>
  What the tool of theory \<open>Nat_Discovery\<close> concludes.  A world with a NAT between the tool and a server is described by the mapping that
  the NAT gives to a destination, by the other address that the server announces, and by the responses that the NAT lets in; the
  theorems say which behaviour is reported in it.  For arbitrary systems and networks it is shown that the tool returns.
\<close>

subsection \<open>A network with a NAT\<close>

text \<open>The bits of CHANGE-REQUEST in a request.\<close>

definition change_flags :: "mem \<Rightarrow> bool \<times> bool" where
  "change_flags m = (case find (\<lambda>(t, v). t = STUN_ATTRIBUTE_CHANGE_REQUEST) (attrs_of m (length m)) of None \<Rightarrow> (False, False)
     | Some (_, v) \<Rightarrow> (bit (v ! 3) 2, bit (v ! 3) 1))"

text \<open>
  \<open>sent\<close> reads off the world the destination and the bytes of the last datagram sent.  System calls succeed, and the local
  address is \<open>la\<close>.  To a request to \<open>a\<close> the server responds with the address \<open>M a\<close> that the NAT maps the local one to, and with its
  other address \<open>Oth a\<close>; the response is let in if \<open>F\<close> holds of the changes of address and port that
  were asked for, else the wait times out.
\<close>

definition nat_network ::
    "'w nd_env \<Rightarrow> ('w \<Rightarrow> ioa_addr \<times> mem) \<Rightarrow> ioa_addr \<Rightarrow> (ioa_addr \<Rightarrow> ioa_addr) \<Rightarrow> (ioa_addr \<Rightarrow> ioa_addr) \<Rightarrow> (bool \<times> bool \<Rightarrow> bool) \<Rightarrow> bool" where
  "nat_network E sent la M Oth F \<longleftrightarrow> length (buf (n_buffer E)) = 65507
     \<and> (\<forall>f ty p w. 0 \<le> fst (os_socket (n_os E) f ty p w)) \<and> (\<forall>fd a w. 0 \<le> fst (os_bind (n_os E) fd a w))
     \<and> (\<forall>fd m a w. \<exists>n w'. os_sendto (n_os E) fd m a w = (n, w') \<and> 0 \<le> n \<and> sent w' = (a, m))
     \<and> (\<forall>fd l a w. \<exists>w'. os_getsockname (n_os E) fd l a w = (0, la, w') \<and> sent w' = sent w)
     \<and> (\<forall>fd opt w. sent (snd (os_setsockopt (n_os E) fd opt w)) = sent w)
     \<and> (\<forall>fd w. if F (change_flags (snd (sent w)))
          then \<exists>bs t as w'. os_recv (n_os E) fd 65507 w = (int (length bs), bs, w')
            \<and> stun_msg bs (length bs) (stun_make_success_response STUN_METHOD_BINDING) STUN_MAGIC_COOKIE t as
            \<and> carries (n_tbl E) t as STUN_ATTRIBUTE_XOR_MAPPED_ADDRESS (Some (M (fst (sent w))))
            \<and> carries (n_tbl E) t as STUN_ATTRIBUTE_OTHER_ADDRESS (Some (Oth (fst (sent w))))
          else \<exists>bs w'. os_recv (n_os E) fd 65507 w = (-1, bs, w') \<and> os_errno (n_os E) w' = EAGAIN)"

lemma network_calls:
  assumes "nat_network E sent la M Oth F"
  shows "length (buf (n_buffer E)) = 65507" and "0 \<le> fst (os_socket (n_os E) f ty p w)" and "0 \<le> fst (os_bind (n_os E) fd a w)"
    and "\<exists>n w'. os_sendto (n_os E) fd m a w = (n, w') \<and> 0 \<le> n \<and> sent w' = (a, m)"
    and "\<exists>w'. os_getsockname (n_os E) fd l a w = (0, la, w') \<and> sent w' = sent w"
    and "sent (snd (os_setsockopt (n_os E) fd opt w)) = sent w"
    and "F (change_flags (snd (sent w))) \<Longrightarrow> \<exists>bs t as w'. os_recv (n_os E) fd 65507 w = (int (length bs), bs, w')
      \<and> stun_msg bs (length bs) (stun_make_success_response STUN_METHOD_BINDING) STUN_MAGIC_COOKIE t as
      \<and> carries (n_tbl E) t as STUN_ATTRIBUTE_XOR_MAPPED_ADDRESS (Some (M (fst (sent w))))
      \<and> carries (n_tbl E) t as STUN_ATTRIBUTE_OTHER_ADDRESS (Some (Oth (fst (sent w))))"
    and "\<not> F (change_flags (snd (sent w))) \<Longrightarrow> \<exists>bs w'. os_recv (n_os E) fd 65507 w = (-1, bs, w') \<and> os_errno (n_os E) w' = EAGAIN"
  using assms unfolding nat_network_def by (blast, blast, blast, blast, blast, blast, metis, metis)

lemma init_socket_network:
  assumes "nat_network E sent la M Oth F"
  shows "\<exists>fd a w'. init_socket E False port s w = Some (Returned (), s\<lparr>d_fd := fd, d_local := a\<rparr>, w') \<and> 0 \<le> fd"
proof -
  obtain fd w1 where fd: "os_socket (n_os E) (sa_family (d_remote s)) SOCK_DGRAM 0 w = (fd, w1)" "0 \<le> fd"
    using network_calls(2) [OF assms] by (metis fst_conv surj_pair)
  obtain a where a: "(if port \<ge> 0 then addr_set_port (Some (d_local s)) port else Some (d_local s)) = Some a"
    unfolding addr_set_port_def option.case by metis
  have b: "\<exists>r w'. addr_bind (n_os E) fd (Some a) 0 UDP_SOCKET w1 = Some (r, w') \<and> 0 \<le> r" if "\<not> addr_any (Some a)"
  proof -
    have "\<exists>r w'. retry (os_bind (n_os E) fd a) (\<lambda>r w. r < 0 \<and> os_errno (n_os E) w = EINTR) w2 = Some (r, w') \<and> 0 \<le> r" for w2
      using network_calls(3) [OF assms, of fd a w2] retry_once [of "os_bind (n_os E) fd a" w2]
      by (cases "os_bind (n_os E) fd a w2") auto
    then show ?thesis
      using that fd(2) by (auto simp: addr_bind_def addr_any_def Let_def split: prod.splits if_splits)
  qed
  have "\<exists>w'. init_socket E False port s w = Some (Returned (), s\<lparr>d_fd := fd, d_local := a\<rparr>, w')"
  proof (cases "addr_any (Some a)")
    case True
    then show ?thesis
      using fd by (simp add: init_socket_def Let_def a split del: if_split cong: if_cong)
  next
    case False
    then obtain r w' where "addr_bind (n_os E) fd (Some a) 0 UDP_SOCKET w1 = Some (r, w')" "0 \<le> r"
      using b by blast
    then show ?thesis
      using fd False by (simp add: init_socket_def Let_def a split del: if_split cong: if_cong)
  qed
  then show ?thesis
    using fd(2) by blast
qed

lemma change_flags_request:
  assumes "holds b (stun_make_request STUN_METHOD_BINDING) t (probe_attrs (-1) change_ip change_port padding)"
  shows "change_flags (take (len b) (buf b)) = (change_ip, change_port)"
proof -
  let ?as = "probe_attrs (-1) change_ip change_port padding"
  have "stun_msg (buf b) (len b) (stun_make_request STUN_METHOD_BINDING) STUN_MAGIC_COOKIE t ?as"
    using assms by (simp add: holds_def)
  then obtain r rest where "buf b = header (stun_make_request STUN_METHOD_BINDING) (of_nat (length r)) STUN_MAGIC_COOKIE t @ r @ rest"
      "len b = 20 + length r" "length t = 12" "len b < 65507" "attrs_exact r" "parse_attrs r = ?as"
    by (auto simp: stun_msg_def)
  then have "stun_msg (take (len b) (buf b)) (len b) (stun_make_request STUN_METHOD_BINDING) STUN_MAGIC_COOKIE t ?as"
    unfolding stun_msg_def by (intro exI [of _ r] exI [of _ "[]"]) simp
  from stun_msg_attrs [OF this] stun_msg_len(2) [OF this]
  have "attrs_of (take (len b) (buf b)) (length (take (len b) (buf b))) = ?as"
    by (simp add: min_def split: if_splits)
  then show ?thesis
    by (cases change_ip; cases change_port) (simp_all add: change_flags_def probe_attrs_def bit_simps)
qed

lemma send_network:
  assumes "nat_network E sent la M Oth F" and "0 \<le> fd"
  shows "\<exists>b w'. stunclient_send E (n_buffer E) fd change_ip change_port padding (-1) s w
      = Some (Returned b, s\<lparr>d_local := la, d_local_port := addr_get_port (Some la)\<rparr>, w')
    \<and> length (buf b) = 65507 \<and> fst (sent w') = d_remote s \<and> change_flags (snd (sent w')) = (change_ip, change_port)"
proof -
  obtain e w1 where e: "n_random E w = (e, w1)"
    by fastforce
  obtain b where b: "client_request e (n_buffer E) (-1) change_ip change_port padding = Some b"
    "holds b (stun_make_request STUN_METHOD_BINDING) (turn_random_tid_size e) (probe_attrs (-1) change_ip change_port padding)"
    using client_request_holds [OF network_calls(1) [OF assms(1)]] by blast
  have l: "length (buf b) = 65507" "len b \<le> length (buf b)"
    using b(2) stun_msg_len(2) unfolding holds_def by (blast, metis)
  obtain n w2 where n: "os_sendto (n_os E) fd (take (len b) (buf b)) (d_remote s) w1 = (n, w2)" "0 \<le> n"
    "sent w2 = (d_remote s, take (len b) (buf b))"
    using network_calls(4) [OF assms(1)] by blast
  obtain w3 where "os_getsockname (n_os E) fd (get_ioa_addr_len (n_junk E\<lparr>sa_family := AF_INET6\<rparr>)) (n_junk E\<lparr>sa_family := AF_INET6\<rparr>) w2
      = (0, la, w3)" "sent w3 = sent w2"
    using network_calls(5) [OF assms(1)] by blast
  moreover have "client_send (n_os E) fd b (d_remote s) w1 = Some (n, w2)"
    using n(1,2) l(2) by (simp add: client_send_def rdn_def retry_once)
  ultimately show ?thesis
    using e b(1) n assms(2) l(1) change_flags_request [OF b(2)]
    by (auto simp: stunclient_send_def addr_get_from_sock_def addr_cpy_def)
qed

lemma receive_other_network:
  assumes "stun_msg (buf b) (len b) mt ck t as" and "- (2 ^ 31) \<le> d_counter s" and "d_counter s + 1 < 2 ^ 31"
    and "carries (n_tbl E) t as STUN_ATTRIBUTE_OTHER_ADDRESS (Some a)"
  shows "\<exists>c. receive_other E b s = Some (s\<lparr>d_rfc5780 := True, d_counter := d_counter s + 1, d_other := c\<rparr>) \<and> addr_eq (Some c) (Some a)"
proof -
  have l: "20 \<le> length (buf b)" "len b \<le> length (buf b)"
    using stun_msg_len(2,3) [OF assms(1)] by auto
  have a: "find (\<lambda>(t, v). t = STUN_ATTRIBUTE_OTHER_ADDRESS) as = Some (addr_attr (n_tbl E) t STUN_ATTRIBUTE_OTHER_ADDRESS a)"
    "translatable (n_tbl E) a"
    using assms(4) by (simp_all add: carries_def)
  obtain q c where q: "stun_attr_get_first_by_type_str (buf b) (len b) STUN_ATTRIBUTE_OTHER_ADDRESS = Some (Some q)"
    "stun_attr_get_addr_str (n_tbl E) (buf b) (len b) (Some q) (d_other s) None = Some (0, c)" "addr_eq (Some c) (Some a)"
    using by_type_addr_found [OF assms(1) a(2,1)] by metis
  obtain m where m: "stun_attr_get_first_addr (n_tbl E) b STUN_ATTRIBUTE_MAPPED_ADDRESS zero_addr None = Some m"
    using first_addr_safe [OF l] unfolding stun_attr_get_first_addr_def safe_iff by blast
  obtain g where g: "stun_attr_get_first_by_type_str (buf b) (len b) STUN_ATTRIBUTE_RESPONSE_ORIGIN = Some g"
    using by_type_safe [OF l(2)] unfolding safe_iff by blast
  obtain x where x: "(if g \<noteq> None then stun_attr_get_addr_str (n_tbl E) (buf b) (len b) g (n_junk E) None else Some (0, zero_addr)) = Some x"
    using get_addr_safe [OF l by_type_visited [OF l(2)]] g unfolding safe_iff by (cases g) force+
  have "c_int (d_counter s + 1) = Some (d_counter s + 1)"
    using assms(2,3) by simp
  then show ?thesis
    using q m g x unfolding receive_other_def by (intro exI [of _ c]) (simp del: not_None_eq)
qed

lemma receive_response_network:
  assumes "stun_msg (buf b) (len b) (stun_make_success_response STUN_METHOD_BINDING) STUN_MAGIC_COOKIE t as"
    and "- (2 ^ 31) \<le> d_counter s" and "d_counter s + 1 < 2 ^ 31"
    and "carries (n_tbl E) t as STUN_ATTRIBUTE_XOR_MAPPED_ADDRESS (Some a)"
    and "carries (n_tbl E) t as STUN_ATTRIBUTE_OTHER_ADDRESS (Some a')"
  shows "\<exists>c c'. receive_response E b s
      = Some (0, s\<lparr>d_reflexive := c, d_rfc5780 := True, d_counter := d_counter s + 1, d_other := c'\<rparr>)
    \<and> addr_eq (Some c) (Some a) \<and> addr_eq (Some c') (Some a')"
proof -
  have "STUN_ATTRIBUTE_XOR_MAPPED_ADDRESS \<in> set addr_attr_types"
    by (simp add: addr_attr_types_def)
  moreover have "find (\<lambda>(t, v). t = STUN_ATTRIBUTE_XOR_MAPPED_ADDRESS) as = Some (addr_attr (n_tbl E) t STUN_ATTRIBUTE_XOR_MAPPED_ADDRESS a)"
    "translatable (n_tbl E) a"
    using assms(4) by (simp_all add: carries_def)
  ultimately obtain c where c: "stun_attr_get_first_addr_str (n_tbl E) (buf b) (len b) STUN_ATTRIBUTE_XOR_MAPPED_ADDRESS zero_addr None
      = Some (0, c)" "addr_eq (Some c) (Some a)"
    using first_addr_found [OF assms(1)] by metis
  obtain c' where c': "receive_other E b (s\<lparr>d_reflexive := c\<rparr>)
      = Some (s\<lparr>d_reflexive := c, d_rfc5780 := True, d_counter := d_counter s + 1, d_other := c'\<rparr>)" "addr_eq (Some c') (Some a')"
    using receive_other_network [OF assms(1) _ _ assms(5), of "s\<lparr>d_reflexive := c\<rparr>"] assms(2,3) by auto
  have "0 < len b"
    using stun_msg_len(3) [OF assms(1)] by simp
  moreover note v = stun_msg_view [OF assms(1)]
  moreover have "stun_is_response_str (buf b) (len b) = Some True"
    using v(3,4) by (simp add: stun_is_response_str_def make_fits class_defs class_make)
  ultimately have "receive_response E b s
      = Some (0, s\<lparr>d_reflexive := c, d_rfc5780 := True, d_counter := d_counter s + 1, d_other := c'\<rparr>)"
    using c(1) c'(1)
    by (simp add: receive_response_def stun_is_command_message_def stun_is_response_def stun_is_success_response_def
        stun_is_binding_response_def stun_is_binding_response_str_def stun_attr_get_first_addr_def
        type_method_make class_make class_defs)
  then show ?thesis
    using c(2) c'(2) by blast
qed

lemma receive_timeout:
  assumes "length (buf b) = 65507" and "len b = 2 ^ 64 - 1"
  shows "receive_response E b s = Some (1, s)"
proof -
  have "unat x + 20 \<noteq> len b" for x :: u16
    using unsigned_less [where 'a = nat, of x] assms(2) by simp
  moreover obtain c where "stun_is_command_message_str (buf b) (len b) = Some c"
    using command_safe [of "buf b" "len b"] assms(1) by (auto simp: safe_iff)
  ultimately have "stun_is_command_message_str (buf b) (len b) = Some False"
    by (auto simp: stun_is_command_message_str_def Let_def split: if_splits bind_splits)
  then show ?thesis
    using assms(2) by (simp add: receive_response_def stun_is_command_message_def)
qed

text \<open>What an exchange does to the state: the answer is recorded, or nothing is.\<close>

lemma receive_network:
  assumes "nat_network E sent la M Oth F" and "length (buf b) = 65507" and "- (2 ^ 31) \<le> d_counter s" and "d_counter s + 1 < 2 ^ 31"
  shows "F (change_flags (snd (sent w))) \<Longrightarrow> \<exists>b' c c' w'. stunclient_receive E b fd s w
      = Some (Returned (0, b'), s\<lparr>d_reflexive := c, d_rfc5780 := True, d_counter := d_counter s + 1, d_other := c'\<rparr>, w')
    \<and> addr_eq (Some c) (Some (M (fst (sent w)))) \<and> addr_eq (Some c') (Some (Oth (fst (sent w))))" (is "_ \<Longrightarrow> ?in")
    and "\<not> F (change_flags (snd (sent w))) \<Longrightarrow> \<exists>b' w'. stunclient_receive E b fd s w = Some (Returned (1, b'), s, w')" (is "_ \<Longrightarrow> ?out")
proof -
  obtain x w1 where w1: "os_setsockopt (n_os E) fd (SO_RCVTIMEO 3) w = (x, w1)" "sent w1 = sent w"
    using network_calls(6) [OF assms(1)] by (metis snd_conv surj_pair)
  show ?in if F: "F (change_flags (snd (sent w)))"
  proof -
    obtain bs t as w2 where r: "os_recv (n_os E) fd 65507 w1 = (int (length bs), bs, w2)"
      "stun_msg bs (length bs) (stun_make_success_response STUN_METHOD_BINDING) STUN_MAGIC_COOKIE t as"
      "carries (n_tbl E) t as STUN_ATTRIBUTE_XOR_MAPPED_ADDRESS (Some (M (fst (sent w))))"
      "carries (n_tbl E) t as STUN_ATTRIBUTE_OTHER_ADDRESS (Some (Oth (fst (sent w))))"
      using network_calls(7) [OF assms(1), of w1 fd] F w1(2) by auto
    have l: "0 < length bs" "length bs \<le> 65507"
      using stun_msg_len(3,4) [OF r(2)] by linarith+
    let ?b = "b\<lparr>buf := bs @ drop (length bs) (buf b), len := length bs\<rparr>"
    have "unat (word_of_int (int (length bs)) :: u64) = length bs"
      using l(2) by (simp add: unat_of_nat)
    then have "receive_loop (n_os E) fd b w1 = Some (?b, w2)"
      using r(1) l assms(2) by (simp add: receive_loop_def retry_once wrn_def)
    moreover obtain c c' where "receive_response E ?b s
        = Some (0, s\<lparr>d_reflexive := c, d_rfc5780 := True, d_counter := d_counter s + 1, d_other := c'\<rparr>)"
      "addr_eq (Some c) (Some (M (fst (sent w))))" "addr_eq (Some c') (Some (Oth (fst (sent w))))"
    proof -
      have "stun_msg (buf ?b) (len ?b) (stun_make_success_response STUN_METHOD_BINDING) STUN_MAGIC_COOKIE t as"
        using stun_msg_front [OF r(2)] by simp
      from receive_response_network [OF this assms(3,4) r(3,4)] that show thesis
        by blast
    qed
    ultimately show ?thesis
      using w1(1) by (auto simp: stunclient_receive_def)
  qed
  show ?out if F: "\<not> F (change_flags (snd (sent w)))"
  proof -
    obtain bs w2 where r: "os_recv (n_os E) fd 65507 w1 = (-1, bs, w2)" "os_errno (n_os E) w2 = EAGAIN"
      using network_calls(8) [OF assms(1), of w1 fd] F w1(2) by auto
    then have "receive_loop (n_os E) fd b w1 = Some (b\<lparr>len := 2 ^ 64 - 1\<rparr>, w2)"
      by (simp add: receive_loop_def retry_once unsigned_minus_1_eq_mask mask_eq_exp_minus_1)
    then show ?thesis
      using w1(1) receive_timeout [of "b\<lparr>len := 2 ^ 64 - 1\<rparr>" E s] assms(2) by (simp add: stunclient_receive_def)
  qed
qed

lemma run_network:
  assumes "nat_network E sent la M Oth F" and "- (2 ^ 31) \<le> d_counter s" and "d_counter s + 1 < 2 ^ 31"
  shows "F (change_ip, change_port) \<Longrightarrow> \<exists>fd c c' w'. nd_run_stunclient E change_ip change_port padding s w
      = Some (Returned 0, s\<lparr>d_fd := fd, d_local := la, d_local_port := addr_get_port (Some la), d_reflexive := c, d_rfc5780 := True,
          d_counter := d_counter s + 1, d_other := c'\<rparr>, w')
    \<and> addr_eq (Some c) (Some (M (d_remote s))) \<and> addr_eq (Some c') (Some (Oth (d_remote s)))" (is "_ \<Longrightarrow> ?in")
    and "\<not> F (change_ip, change_port) \<Longrightarrow> \<exists>fd w'. nd_run_stunclient E change_ip change_port padding s w
      = Some (Returned 1, s\<lparr>d_fd := fd, d_local := la, d_local_port := addr_get_port (Some la)\<rparr>, w')" (is "_ \<Longrightarrow> ?out")
proof -
  obtain fd a w1 where i: "init_socket E False (d_local_port s) s w = Some (Returned (), s\<lparr>d_fd := fd, d_local := a\<rparr>, w1)" "0 \<le> fd"
    using init_socket_network [OF assms(1)] by blast
  let ?s = "s\<lparr>d_fd := fd, d_local := la, d_local_port := addr_get_port (Some la)\<rparr>"
  obtain b w2 where b: "stunclient_send E (n_buffer E) fd change_ip change_port padding (-1) (s\<lparr>d_fd := fd, d_local := a\<rparr>) w1
      = Some (Returned b, ?s, w2)"
    "length (buf b) = 65507" "fst (sent w2) = d_remote s" "change_flags (snd (sent w2)) = (change_ip, change_port)"
    using send_network [OF assms(1) i(2), of change_ip change_port padding "s\<lparr>d_fd := fd, d_local := a\<rparr>" w1] by auto
  have c: "- (2 ^ 31) \<le> d_counter ?s" "d_counter ?s + 1 < 2 ^ 31"
    using assms(2,3) by simp_all
  note r = receive_network [OF assms(1) b(2) c, of w2 fd]
  have run: "nd_run_stunclient E change_ip change_port padding s w = Some (Returned x, s', os_close (n_os E) (d_fd s') w')"
    if "stunclient_receive E b fd ?s w2 = Some (Returned (x, b'), s', w')" for x b' s' w'
    using that i(1) b(1) by (simp add: nd_run_stunclient_def and_then_def)
  show ?in if F: "F (change_ip, change_port)"
  proof -
    obtain b' c c' w' where "stunclient_receive E b fd ?s w2
        = Some (Returned (0, b'), ?s\<lparr>d_reflexive := c, d_rfc5780 := True, d_counter := d_counter s + 1, d_other := c'\<rparr>, w')"
      "addr_eq (Some c) (Some (M (d_remote s)))" "addr_eq (Some c') (Some (Oth (d_remote s)))"
      using r(1) F b(3,4) by auto
    then show ?thesis
      using run by blast
  qed
  show ?out if "\<not> F (change_ip, change_port)"
    using r(2) [unfolded b(4), OF that] run by blast
qed

lemma addr_eq_refl: "inet_addr a \<Longrightarrow> addr_eq (Some a) (Some a)"
  by (auto simp: addr_eq_def inet_addr_def)

lemma addr_eq_sym: "addr_eq (Some a) (Some b) \<Longrightarrow> addr_eq (Some b) (Some a)"
  by (auto simp: addr_eq_def split: if_splits)

lemma addr_eq_trans: "addr_eq (Some a) (Some b) \<Longrightarrow> addr_eq (Some b) (Some c) \<Longrightarrow> addr_eq (Some a) (Some c)"
  by (auto simp: addr_eq_def split: if_splits)

lemma addr_eq_cong:
  assumes "addr_eq (Some a) (Some a')" and "addr_eq (Some b) (Some b')"
  shows "addr_eq (Some a) (Some b) \<longleftrightarrow> addr_eq (Some a') (Some b')"
  using assms by (meson addr_eq_sym addr_eq_trans)

text \<open>Mapping and other address depend on the destination, not on how its address is stored.\<close>

definition of_address :: "(ioa_addr \<Rightarrow> ioa_addr) \<Rightarrow> bool" where
  "of_address M \<longleftrightarrow> (\<forall>a b. addr_eq (Some a) (Some b) \<longrightarrow> addr_eq (Some (M a)) (Some (M b)))"

text \<open>The start of a test without a local address.\<close>

lemma nd_init_eq:
  assumes "rd8 lstr 0 = Some 0" and "make_ioa_addr (n_resolver E) (Some param) port (Some (d_remote s)) = Some (0, Some P)"
  shows "nd_init E first port lstr param s w = Some (Returned (), s\<lparr>d_local := zero_addr,
    d_local_port := if first then d_local_port s else -1, d_rfc5780 := False, d_remote := P\<rparr>, w)"
  using assms by (simp add: nd_init_def Let_def)

abbreviation (input) NO_NAT :: string where "NO_NAT \<equiv> ''No NAT! (Endpoint Independent Mapping)''"

text \<open>
  The discovery of filtering, with the first response let in: what the tool concludes follows from the responses that the NAT
  lets in.
\<close>

lemma first_exchange:
  assumes "nat_network E sent la M Oth F" and "F (False, False)" and "- (2 ^ 31) \<le> d_counter s" and "d_counter s + 1 < 2 ^ 31"
  shows "\<exists>s' w'. nd_run_stunclient E False False padding s w = Some (Returned 0, s', w')
    \<and> d_rfc5780 s' \<and> d_counter s' = d_counter s + 1 \<and> d_remote s' = d_remote s \<and> decisions s' = decisions s
    \<and> addr_eq (Some (d_reflexive s')) (Some (M (d_remote s))) \<and> addr_eq (Some (d_other s')) (Some (Oth (d_remote s)))
    \<and> d_local s' = la"
  using run_network(1) [OF assms(1,3,4) assms(2), of padding w] by force

lemma no_nat_decisions:
  assumes "addr_eq (Some (d_reflexive s)) (Some m)" and "d_local s = la"
  shows "no_nat s = s\<lparr>decisions := decisions s @ (if addr_eq (Some la) (Some m) then [NO_NAT] else [])\<rparr>"
  using assms by (auto simp: no_nat_def discoveryresult_def dest: addr_eq_trans addr_eq_sym)

lemma not_any_eq: "addr_eq (Some c) (Some a) \<Longrightarrow> addr_any (Some c) \<longleftrightarrow> addr_any (Some a)"
  by (auto simp: addr_eq_def addr_any_def split: if_splits)

lemma tests_begin:
  assumes "nat_network E sent la M Oth F" and "F (False, False)" and "- (2 ^ 31) \<le> d_counter s" and "d_counter s + 3 < 2 ^ 31"
    and "rd8 (local_addr_string opts) 0 = Some 0"
    and "make_ioa_addr (n_resolver E) (Some param) (remote_port opts) (Some (d_remote s)) = Some (0, Some P)"
  obtains s' w' where "mapping_discovery E opts param first s w = mapping_tests E opts s' w'"
    and "filtering_discovery E opts param first s w = filtering_tests E opts s' w'"
    and "d_rfc5780 s'" and "d_counter s' = d_counter s + 1" and "d_remote s' = P"
    and "decisions s' = decisions s @ (if addr_eq (Some la) (Some (M P)) then [NO_NAT] else [])"
    and "addr_eq (Some (d_reflexive s')) (Some (M P))" and "addr_eq (Some (d_other s')) (Some (Oth P))"
proof -
  let ?s = "s\<lparr>d_local := zero_addr, d_local_port := if first then d_local_port s else -1, d_rfc5780 := False, d_remote := P\<rparr>"
  have i: "nd_init E first (remote_port opts) (local_addr_string opts) param s w = Some (Returned (), ?s, w)"
    by (rule nd_init_eq [OF assms(5,6)])
  obtain s' w' where r: "nd_run_stunclient E False False (o_padding opts) ?s w = Some (Returned 0, s', w')"
    "d_rfc5780 s'" "d_counter s' = d_counter ?s + 1" "d_remote s' = d_remote ?s" "decisions s' = decisions ?s"
    "addr_eq (Some (d_reflexive s')) (Some (M (d_remote ?s)))" "addr_eq (Some (d_other s')) (Some (Oth (d_remote ?s)))" "d_local s' = la"
    using first_exchange [OF assms(1,2), of ?s "o_padding opts" w] assms(3,4) by auto
  note n = no_nat_decisions [OF r(6,8)]
  show thesis
    by (rule that [of "no_nat s'" w']) (use i r n in \<open>simp_all add: mapping_discovery_def filtering_discovery_def and_then_def\<close>)
qed

text \<open>C39: The discovery of filtering behaviour, when the first response comes in and announces another address: one decision is made, and
  it follows from the responses that the NAT lets in.  Filtering is called endpoint-independent if the response from the other
  address and port comes in, else address-dependent if the one from the other port comes in, else
  address- and port-dependent.\<close>

theorem filtering_discovered:
  assumes "nat_network E sent la M Oth F" and "F (False, False)" and "- (2 ^ 31) \<le> d_counter s" and "d_counter s + 3 < 2 ^ 31"
    and "rd8 (local_addr_string opts) 0 = Some 0"
    and "make_ioa_addr (n_resolver E) (Some param) (remote_port opts) (Some (d_remote s)) = Some (0, Some P)"
    and "\<not> addr_any (Some (Oth P))"
  shows "\<exists>s' w'. filtering_discovery E opts param first s w = Some (Returned (), s', w')
    \<and> decisions s' = decisions s @ (if addr_eq (Some la) (Some (M P)) then [''No NAT! (Endpoint Independent Mapping)''] else [])
      @ [if F (True, True) then ''NAT with Endpoint Independent Filtering!''
         else if F (False, True) then ''NAT with Address Dependent Filtering!''
         else ''NAT with Address and Port Dependent Filtering!'']"
proof -
  obtain s1 w1 where s1: "filtering_discovery E opts param first s w = filtering_tests E opts s1 w1"
    "d_rfc5780 s1" "d_counter s1 = d_counter s + 1"
    "decisions s1 = decisions s @ (if addr_eq (Some la) (Some (M P)) then [NO_NAT] else [])" "addr_eq (Some (d_other s1)) (Some (Oth P))"
    using tests_begin [OF assms(1-6), of first w] by metis
  have a: "\<not> addr_any (Some (d_other s1))" and c: "- (2 ^ 31) \<le> d_counter s1" "d_counter s1 + 1 < 2 ^ 31"
    using assms(3,4,7) s1(3,5) not_any_eq by auto
  note r1 = run_network [OF assms(1) c, of True True "o_padding opts" w1]
  show ?thesis
  proof (cases "F (True, True)")
    case True
    then show ?thesis
      using r1(1) s1 a by (auto simp: filtering_tests_def and_then_def discoveryresult_def)
  next
    case False
    then obtain fd w2 where r2: "nd_run_stunclient E True True (o_padding opts) s1 w1
        = Some (Returned 1, s1\<lparr>d_fd := fd, d_local := la, d_local_port := addr_get_port (Some la)\<rparr>, w2)"
      using r1(2) by blast
    let ?s = "s1\<lparr>d_fd := fd, d_local := la, d_local_port := addr_get_port (Some la)\<rparr>"
    obtain x s3 w3 where "nd_run_stunclient E False True (o_padding opts) ?s w2 = Some (Returned x, s3, w3)" "decisions s3 = decisions s1"
      "x = (if F (False, True) then 0 else 1)"
      using run_network [OF assms(1), of ?s False True "o_padding opts" w2] c by (cases "F (False, True)") force+
    then show ?thesis
      using False r2 s1 a by (auto simp: filtering_tests_def and_then_def discoveryresult_def)
  qed
qed

subsection \<open>The behaviours of RFC 4787\<close>

text \<open>The mappings of a NAT: the same for all destinations, for those of one address, or for those of one address and port.\<close>

definition endpoint_independent :: "(ioa_addr \<Rightarrow> ioa_addr) \<Rightarrow> bool" where
  "endpoint_independent M \<longleftrightarrow> (\<forall>a b. addr_eq (Some (M a)) (Some (M b)))"

definition address_dependent :: "(ioa_addr \<Rightarrow> ioa_addr) \<Rightarrow> bool" where
  "address_dependent M \<longleftrightarrow> (\<forall>a b. sa_family a = AF_INET \<longrightarrow> sa_family b = AF_INET \<longrightarrow>
     (addr_eq (Some (M a)) (Some (M b)) \<longleftrightarrow> sin_addr a = sin_addr b))"

definition address_port_dependent :: "(ioa_addr \<Rightarrow> ioa_addr) \<Rightarrow> bool" where
  "address_port_dependent M \<longleftrightarrow> (\<forall>a b. sa_family a = AF_INET \<longrightarrow> sa_family b = AF_INET \<longrightarrow>
     (addr_eq (Some (M a)) (Some (M b)) \<longleftrightarrow> sin_addr a = sin_addr b \<and> sin_port a = sin_port b))"

text \<open>
  A server of RFC 5780 with the IPv4 address \<open>P\<close> and the other one \<open>A\<close>: at each of its four pairs of address and port, the other
  address announced is the pair in which both differ.
\<close>

definition rfc5780_server :: "(ioa_addr \<Rightarrow> ioa_addr) \<Rightarrow> ioa_addr \<Rightarrow> ioa_addr \<Rightarrow> bool" where
  "rfc5780_server Oth P A \<longleftrightarrow> sa_family P = AF_INET \<and> sa_family A = AF_INET \<and> sin_addr P \<noteq> sin_addr A \<and> \<not> addr_any (Some A)
     \<and> of_address Oth \<and> addr_eq (Some (Oth P)) (Some A)
     \<and> addr_eq (Some (Oth (A\<lparr>sin_port := sin_port P\<rparr>))) (Some (P\<lparr>sin_port := sin_port A\<rparr>))"

lemma set_port_eq:
  assumes "addr_eq (Some c) (Some A)" and "sa_family A = AF_INET" and "q = nswap16 (word_of_int port)"
  shows "addr_eq (Some (the (addr_set_port (Some c) port))) (Some (A\<lparr>sin_port := q\<rparr>))"
  using assms by (auto simp: addr_eq_def addr_set_port_def split: if_splits)

lemma mapping_decision:
  assumes net: "nat_network E sent la M Oth F" and F: "F (False, False)"
    and c: "- (2 ^ 31) \<le> d_counter s" "d_counter s + 2 < 2 ^ 31"
    and M: "of_address M" and srv: "rfc5780_server Oth P A" and port: "sin_port P = nswap16 (word_of_int (remote_port opts))"
    and s: "d_rfc5780 s" "addr_eq (Some (d_reflexive s)) (Some (M P))" "addr_eq (Some (d_other s)) (Some (Oth P))"
  shows "\<exists>s' w'. mapping_tests E opts s w = Some (Returned (), s', w') \<and> decisions s' = decisions s
    @ [if addr_eq (Some (M P)) (Some (M (A\<lparr>sin_port := sin_port P\<rparr>))) then ''NAT with Endpoint Independent Mapping!''
       else if addr_eq (Some (M (A\<lparr>sin_port := sin_port P\<rparr>))) (Some (M (P\<lparr>sin_port := sin_port A\<rparr>)))
       then ''NAT with Address Dependent Mapping!'' else ''NAT with Address and Port Dependent Mapping!'']"
proof -
  let ?A = "A\<lparr>sin_port := sin_port P\<rparr>" and ?P = "P\<lparr>sin_port := sin_port A\<rparr>"
  have oA: "addr_eq (Some (d_other s)) (Some A)" and Oth: "of_address Oth" "addr_eq (Some (Oth ?A)) (Some ?P)" "sa_family A = AF_INET"
    using s(3) srv addr_eq_trans by (auto simp: rfc5780_server_def)
  have any: "\<not> addr_any (Some (d_other s))"
    using not_any_eq [OF oA] srv by (simp add: rfc5780_server_def)
  let ?s1 = "s\<lparr>d_remote := the (addr_set_port (Some (d_other s)) (remote_port opts))\<rparr>"
  have r1: "addr_eq (Some (d_remote ?s1)) (Some ?A)"
    using set_port_eq [OF oA Oth(3) port] by simp
  obtain s2 w2 where s2: "nd_run_stunclient E False False (o_padding opts) ?s1 w = Some (Returned 0, s2, w2)"
    "d_counter s2 = d_counter s + 1" "decisions s2 = decisions s"
    "addr_eq (Some (d_reflexive s2)) (Some (M (d_remote ?s1)))" "addr_eq (Some (d_other s2)) (Some (Oth (d_remote ?s1)))"
    using first_exchange [OF net F, of ?s1 "o_padding opts" w] c by auto
  have e2: "addr_eq (Some (d_reflexive s2)) (Some (M ?A))" "addr_eq (Some (d_other s2)) (Some ?P)"
    using s2(4,5) r1 M Oth(1,2) unfolding of_address_def by (meson addr_eq_trans)+
  note first = addr_eq_cong [OF s(2) e2(1)]
  show ?thesis
  proof (cases "addr_eq (Some (M P)) (Some (M ?A))")
    case True
    then show ?thesis
      using s(1) any s2(1,3) first by (simp add: mapping_tests_def and_then_def discoveryresult_def)
  next
    case False
    let ?s2 = "s2\<lparr>d_remote := d_other s2\<rparr>"
    obtain s3 w3 where s3: "nd_run_stunclient E False False (o_padding opts) ?s2 w2 = Some (Returned 0, s3, w3)"
      "decisions s3 = decisions s" "addr_eq (Some (d_reflexive s3)) (Some (M (d_other s2)))"
      using first_exchange [OF net F, of ?s2 "o_padding opts" w2] c s2(2,3) by auto
    have "addr_eq (Some (d_reflexive s3)) (Some (M ?P))"
      using s3(3) e2(2) M unfolding of_address_def by (meson addr_eq_trans)
    note second = addr_eq_cong [OF e2(1) this]
    show ?thesis
      using s(1) any s2(1,3) s3(1,2) False first second by (simp add: mapping_tests_def and_then_def discoveryresult_def)
  qed
qed

text \<open>C38: The discovery of mapping behaviour with a server of RFC 5780: one decision is made.  It compares the mapping for the
  server with that for the other address and the same port, and then the latter with that for the first address and the other port, because
  the response to the second request announces the first address again.  A NAT with endpoint-independent mapping is
  recognised, but one with address-dependent mapping is reported as address- and port-dependent.\<close>

theorem mapping_discovered:
  assumes "nat_network E sent la M Oth F" and "F (False, False)" and "- (2 ^ 31) \<le> d_counter s" and "d_counter s + 3 < 2 ^ 31"
    and "rd8 (local_addr_string opts) 0 = Some 0"
    and "make_ioa_addr (n_resolver E) (Some param) (remote_port opts) (Some (d_remote s)) = Some (0, Some P)"
    and "of_address M" and "rfc5780_server Oth P A" and "sin_port P = nswap16 (word_of_int (remote_port opts))"
  shows "\<exists>s' w' decision. mapping_discovery E opts param first s w = Some (Returned (), s', w')
    \<and> decisions s' = decisions s @ (if addr_eq (Some la) (Some (M P)) then [''No NAT! (Endpoint Independent Mapping)''] else []) @ [decision]
    \<and> decision = (if addr_eq (Some (M P)) (Some (M (A\<lparr>sin_port := sin_port P\<rparr>))) then ''NAT with Endpoint Independent Mapping!''
       else if addr_eq (Some (M (A\<lparr>sin_port := sin_port P\<rparr>))) (Some (M (P\<lparr>sin_port := sin_port A\<rparr>)))
       then ''NAT with Address Dependent Mapping!'' else ''NAT with Address and Port Dependent Mapping!'')
    \<and> (endpoint_independent M \<longrightarrow> decision = ''NAT with Endpoint Independent Mapping!'')
    \<and> (address_dependent M \<or> address_port_dependent M \<longrightarrow> decision = ''NAT with Address and Port Dependent Mapping!'')"
proof -
  obtain s1 w1 where s1: "mapping_discovery E opts param first s w = mapping_tests E opts s1 w1"
    "d_rfc5780 s1" "d_counter s1 = d_counter s + 1"
    "decisions s1 = decisions s @ (if addr_eq (Some la) (Some (M P)) then [NO_NAT] else [])"
    "addr_eq (Some (d_reflexive s1)) (Some (M P))" "addr_eq (Some (d_other s1)) (Some (Oth P))"
    using tests_begin [OF assms(1-6), of first w] by metis
  have "- (2 ^ 31) \<le> d_counter s1" "d_counter s1 + 2 < 2 ^ 31"
    using assms(3,4) s1(3) by simp_all
  from mapping_decision [OF assms(1,2) this assms(7-9) s1(2,5,6)] obtain s2 w2 where
    "mapping_tests E opts s1 w1 = Some (Returned (), s2, w2)" and "decisions s2 = decisions s1
    @ [if addr_eq (Some (M P)) (Some (M (A\<lparr>sin_port := sin_port P\<rparr>))) then ''NAT with Endpoint Independent Mapping!''
       else if addr_eq (Some (M (A\<lparr>sin_port := sin_port P\<rparr>))) (Some (M (P\<lparr>sin_port := sin_port A\<rparr>)))
       then ''NAT with Address Dependent Mapping!'' else ''NAT with Address and Port Dependent Mapping!'']"
    by metis
  moreover have "sa_family P = AF_INET" "sa_family A = AF_INET" "sin_addr P \<noteq> sin_addr A"
    using assms(8) by (simp_all add: rfc5780_server_def)
  ultimately show ?thesis
    using s1(1,4) by (auto simp: endpoint_independent_def address_dependent_def address_port_dependent_def)
qed

subsection \<open>Arbitrary networks\<close>

text \<open>A part that returns, with a result in \<open>Q\<close> unless the process is left, and counts at most \<open>k\<close> responses.\<close>

definition returns :: "('a \<Rightarrow> bool) \<Rightarrow> int \<Rightarrow> discovery \<Rightarrow> ('w, 'a) run \<Rightarrow> bool" where
  "returns Q k s r \<longleftrightarrow> (\<exists>x s' w'. r = Some (x, s', w') \<and> d_counter s \<le> d_counter s' \<and> d_counter s' \<le> d_counter s + k
     \<and> (case x of Returned a \<Rightarrow> Q a | Exited _ \<Rightarrow> True))"

lemma returns_then:
  assumes "returns Q j s r" and "\<And>a s' w'. Q a \<Longrightarrow> d_counter s \<le> d_counter s' \<Longrightarrow> d_counter s' \<le> d_counter s + j \<Longrightarrow> returns Q' k s' (f a s' w')"
    and "0 \<le> k"
  shows "returns Q' (j + k) s (and_then r f)"
proof -
  obtain x s' w' where x: "r = Some (x, s', w')" "d_counter s \<le> d_counter s'" "d_counter s' \<le> d_counter s + j"
    "case x of Returned a \<Rightarrow> Q a | Exited _ \<Rightarrow> True"
    using assms(1) by (auto simp: returns_def)
  show ?thesis
  proof (cases x)
    case (Returned a)
    then have "returns Q' k s' (f a s' w')"
      using assms(2) x by simp
    then show ?thesis
      using x Returned by (auto simp: returns_def and_then_def)
  next
    case (Exited e)
    then show ?thesis
      using x assms(3) by (simp add: returns_def and_then_def)
  qed
qed

lemma returns_Some: "d_counter s' = d_counter s \<Longrightarrow> Q a \<Longrightarrow> 0 \<le> k \<Longrightarrow> returns Q k s (Some (Returned a, s', w))"
  by (simp add: returns_def)

lemma returns_mono: "returns Q j s r \<Longrightarrow> j \<le> k \<Longrightarrow> returns Q k s r"
  by (fastforce simp: returns_def)

lemma returns_from: "returns Q k s' r \<Longrightarrow> d_counter s' = d_counter s \<Longrightarrow> returns Q k s r"
  by (simp add: returns_def)

text \<open>
  A system in which no call is repeated forever: \<open>bind\<close> and \<open>recv\<close> are repeated when a signal interrupts them, \<open>sendto\<close> also when there
  is no room.  A \<open>recv\<close> that times out, with EAGAIN, may do so each time.  \<open>recv\<close> delivers what fits or fails.
\<close>

definition timely :: "'w os \<Rightarrow> bool" where
  "timely S \<longleftrightarrow> (\<forall>fd a. ends (os_bind S fd a) (\<lambda>r w. r < 0 \<and> os_errno S w = EINTR))
     \<and> (\<forall>fd m a. ends (os_sendto S fd m a)
          (\<lambda>n w. n < 0 \<and> (os_errno S w = EINTR \<or> os_errno S w = ENOBUFS \<or> os_errno S w = EAGAIN)))
     \<and> (\<forall>fd. ends (\<lambda>w. case os_recv S fd 65507 w of (n, bs, w) \<Rightarrow> ((n, bs), w)) (\<lambda>(n, bs) w. n < 0 \<and> os_errno S w = EINTR))
     \<and> (\<forall>fd w n bs w'. os_recv S fd 65507 w = (n, bs, w') \<longrightarrow> n = -1 \<or> n = int (length bs) \<and> length bs \<le> 65507)"

lemma timelyD:
  assumes "timely S"
  shows "ends (os_bind S fd a) (\<lambda>r w. r < 0 \<and> os_errno S w = EINTR)"
    and "ends (os_sendto S fd m a)
          (\<lambda>n w. n < 0 \<and> (os_errno S w = EINTR \<or> os_errno S w = ENOBUFS \<or> os_errno S w = EAGAIN))"
    and "ends (\<lambda>w. case os_recv S fd 65507 w of (n, bs, w) \<Rightarrow> ((n, bs), w)) (\<lambda>(n, bs) w. n < 0 \<and> os_errno S w = EINTR)"
    and "os_recv S fd 65507 w = (n, bs, w') \<Longrightarrow> n = -1 \<or> n = int (length bs) \<and> length bs \<le> 65507"
  using assms unfolding timely_def by blast+

lemma init_socket_returns:
  assumes "timely (n_os E)"
  shows "returns (\<lambda>_. True) 0 s (init_socket E second port s w)"
proof -
  obtain fd w1 where fd: "os_socket (n_os E) (sa_family (d_remote s)) SOCK_DGRAM 0 w = (fd, w1)"
    by fastforce
  let ?s = "if second then s\<lparr>d_fd2 := fd\<rparr> else s\<lparr>d_fd := fd\<rparr>"
  obtain a where a: "(if port \<ge> 0 then addr_set_port (Some (d_local ?s)) port else Some (d_local ?s)) = Some a"
    unfolding addr_set_port_def option.case by metis
  obtain r w2 where "addr_bind (n_os E) fd (Some a) 0 UDP_SOCKET w1 = Some (r, w2)"
    using bind_ends [OF timelyD(1) [OF assms]] by blast
  then show ?thesis
    using fd a unfolding init_socket_def Let_def by (simp add: returns_def split del: if_split cong: if_cong) (simp split: outcome.splits)
qed

lemma send_returns:
  assumes "timely (n_os E)" and "length (buf b) = 65507"
  shows "returns (\<lambda>b. length (buf b) = 65507) 0 s (stunclient_send E b fd change_ip change_port padding response_port s w)"
proof -
  obtain e w1 where e: "n_random E w = (e, w1)"
    by fastforce
  obtain b' where b: "client_request e b response_port change_ip change_port padding = Some b'" "length (buf b') = 65507"
      "len b' \<le> length (buf b')"
    using client_request_holds [OF assms(2)] stun_msg_len(2) unfolding holds_def by metis
  obtain n w2 where n: "client_send (n_os E) fd b' (d_remote s) w1 = Some (n, w2)"
    using send_ends [OF timelyD(2) [OF assms(1)] b(3)] by blast
  obtain g la w3 where "addr_get_from_sock (n_os E) (n_junk E) fd (Some (d_local s)) w2 = (g, Some la, w3)"
    using get_from_sock_addr by metis
  then show ?thesis
    using e b(1,2) n by (simp add: stunclient_send_def returns_def)
qed

lemma receive_other_safe:
  assumes "20 \<le> length (buf b)" and "len b \<le> length (buf b)" and "- (2 ^ 31) \<le> d_counter s" and "d_counter s + 1 < 2 ^ 31"
  shows "\<exists>s'. receive_other E b s = Some s' \<and> d_counter s \<le> d_counter s' \<and> d_counter s' \<le> d_counter s + 1"
proof -
  have addr: "\<exists>x. stun_attr_get_addr_str (n_tbl E) (buf b) (len b) (Some p) ca None = Some x"
    if "stun_attr_get_first_by_type_str (buf b) (len b) ty = Some (Some p)" for p ty ca
    using get_addr_safe [OF assms(1,2) by_type_visited [OF assms(2) that]] unfolding safe_iff by blast
  obtain oth org where f: "stun_attr_get_first_by_type_str (buf b) (len b) STUN_ATTRIBUTE_OTHER_ADDRESS = Some oth"
    "stun_attr_get_first_by_type_str (buf b) (len b) STUN_ATTRIBUTE_RESPONSE_ORIGIN = Some org"
    using by_type_safe [OF assms(2)] unfolding safe_iff by metis
  obtain m where m: "stun_attr_get_first_addr (n_tbl E) b STUN_ATTRIBUTE_MAPPED_ADDRESS zero_addr None = Some m"
    using first_addr_safe [OF assms(1,2)] unfolding stun_attr_get_first_addr_def safe_iff by blast
  have cnt: "c_int (d_counter s + 1) = Some (d_counter s + 1)"
    using assms(3,4) by simp
  show ?thesis
  proof (cases oth)
    case None
    then show ?thesis
      using f by (simp add: receive_other_def)
  next
    case (Some p)
    obtain r c where "stun_attr_get_addr_str (n_tbl E) (buf b) (len b) (Some p) (d_other s) None = Some (r, c)"
      using addr f(1) Some by (metis surj_pair)
    moreover obtain y where "(if org \<noteq> None then stun_attr_get_addr_str (n_tbl E) (buf b) (len b) org (n_junk E) None else Some (0, zero_addr)) = Some y"
      using addr [where ty = STUN_ATTRIBUTE_RESPONSE_ORIGIN and ca = "n_junk E"] f(2) by (cases org) force+
    ultimately show ?thesis
      using f m cnt Some unfolding receive_other_def by (simp del: not_None_eq)
  qed
qed

lemma receive_response_safe:
  assumes "length (buf b) = 65507" and "len b \<le> 65507 \<or> len b = 2 ^ 64 - 1" and "- (2 ^ 31) \<le> d_counter s" and "d_counter s + 1 < 2 ^ 31"
  shows "\<exists>r s'. receive_response E b s = Some (r, s') \<and> d_counter s \<le> d_counter s' \<and> d_counter s' \<le> d_counter s + 1"
proof (cases "len b = 2 ^ 64 - 1")
  case True
  then show ?thesis
    by (simp add: receive_timeout [OF assms(1) True])
next
  case False
  then have l: "20 \<le> length (buf b)" "len b \<le> length (buf b)"
    using assms(1,2) by simp_all
  obtain c where c: "stun_is_command_message (Some b) = Some c"
    using command_safe [OF l(1), of "len b"] by (cases "len b = 0") (auto simp: stun_is_command_message_def safe_iff)
  obtain r ok br q where h: "stun_is_response b = Some r" "stun_is_success_response b = Some ok"
    "stun_is_binding_response b = Some br" "stun_is_request b = Some q"
    using class_safe [OF l(2)] binding_response_safe [OF l]
    by (auto simp: stun_is_response_def stun_is_success_response_def stun_is_binding_response_def stun_is_request_def safe_iff)
  obtain g a where g: "stun_attr_get_first_addr (n_tbl E) b STUN_ATTRIBUTE_XOR_MAPPED_ADDRESS zero_addr None = Some (g, a)"
    using first_addr_safe [OF l] unfolding stun_attr_get_first_addr_def safe_iff by (metis surj_pair)
  obtain s1 where s1: "receive_other E b (s\<lparr>d_reflexive := a\<rparr>) = Some s1" "d_counter s \<le> d_counter s1" "d_counter s1 \<le> d_counter s + 1"
    using receive_other_safe [OF l, of "s\<lparr>d_reflexive := a\<rparr>" E] assms(3,4) by auto
  have "safe (stun_is_error_response b (Some 0) (Some (replicate 1025 0)) 1025)"
    unfolding stun_is_error_response_def by (rule error_response_safe [OF l(2)]) auto
  then obtain x where "stun_is_error_response b (Some 0) (Some (replicate 1025 0)) 1025 = Some x"
    by (auto simp: safe_iff)
  then show ?thesis
    using c h g s1 by (auto simp: receive_response_def Let_def)
qed

lemma receive_returns:
  assumes "timely (n_os E)" and "length (buf b) = 65507" and "- (2 ^ 31) \<le> d_counter s" and "d_counter s + 1 < 2 ^ 31"
  shows "returns (\<lambda>(r, b). length (buf b) = 65507) 1 s (stunclient_receive E b fd s w)"
proof -
  obtain x w1 where w1: "os_setsockopt (n_os E) fd (SO_RCVTIMEO 3) w = (x, w1)"
    by fastforce
  from ends_retry [OF timelyD(3) [OF assms(1)], of fd w1] obtain n bs w2 w3 where
    r: "retry (\<lambda>w. case os_recv (n_os E) fd 65507 w of (n, bs, w) \<Rightarrow> ((n, bs), w)) (\<lambda>(n, bs) w. n < 0 \<and> os_errno (n_os E) w = EINTR) w1
      = Some ((n, bs), w2)" "(case os_recv (n_os E) fd 65507 w3 of (n, bs, w) \<Rightarrow> ((n, bs), w)) = ((n, bs), w2)"
    by (auto simp: split_paired_Ex)
  then have "os_recv (n_os E) fd 65507 w3 = (n, bs, w2)"
    by (auto split: prod.splits)
  then consider "n = -1" | "n = int (length bs)" "length bs \<le> 65507"
    using timelyD(4) [OF assms(1)] by blast
  then have "\<exists>b'. receive_loop (n_os E) fd b w1 = Some (b', w2) \<and> length (buf b') = 65507 \<and> (len b' \<le> 65507 \<or> len b' = 2 ^ 64 - 1)"
  proof cases
    case 1
    then show ?thesis
      using r(1) assms(2) by (simp add: receive_loop_def unsigned_minus_1_eq_mask mask_eq_exp_minus_1)
  next
    case 2
    then have "unat (word_of_int n :: u64) = length bs"
      by (simp add: unat_of_nat)
    then show ?thesis
      using r(1) assms(2) 2 by (cases bs) (simp_all add: receive_loop_def wrn_def)
  qed
  then obtain b' where b': "receive_loop (n_os E) fd b w1 = Some (b', w2)" "length (buf b') = 65507" "len b' \<le> 65507 \<or> len b' = 2 ^ 64 - 1"
    by blast
  obtain v s' where "receive_response E b' s = Some (v, s')" "d_counter s \<le> d_counter s'" "d_counter s' \<le> d_counter s + 1"
    using receive_response_safe [OF b'(2,3) assms(3,4)] by blast
  then show ?thesis
    using w1 b' by (simp add: stunclient_receive_def returns_def)
qed

lemma run_returns:
  assumes "timely (n_os E)" and "length (buf (n_buffer E)) = 65507" and "- (2 ^ 31) \<le> d_counter s" and "d_counter s + 1 < 2 ^ 31"
  shows "returns (\<lambda>_. True) 1 s (nd_run_stunclient E change_ip change_port padding s w)"
proof -
  have "returns (\<lambda>_. True) (0 + (0 + (1 + 0))) s (nd_run_stunclient E change_ip change_port padding s w)"
    unfolding nd_run_stunclient_def
    by (intro returns_then [OF init_socket_returns [OF assms(1)]] returns_then [OF send_returns [OF assms(1,2)]]
      returns_then [OF receive_returns [OF assms(1)]]) (use assms in \<open>auto intro!: returns_Some\<close>)
  then show ?thesis
    by simp
qed

lemma pair_step:
  assumes "returns (\<lambda>(r, b). length (buf b) = 65507) 1 s m" and "0 \<le> k"
    and "\<And>r b s' w'. length (buf b) = 65507 \<Longrightarrow> d_counter s \<le> d_counter s' \<Longrightarrow> d_counter s' \<le> d_counter s + 1 \<Longrightarrow> returns Q k s' (f r b s' w')"
  shows "returns Q (1 + k) s (and_then m (case_prod f))"
  by (rule returns_then [OF assms(1) _ assms(2)]) (use assms(3) in auto)

text \<open>Steps of a test, the first two from a state that may differ in other variables.\<close>

lemmas init_step = returns_then [OF returns_from [OF init_socket_returns]]
lemmas run_step = returns_then [OF returns_from [OF run_returns]]
lemmas send_step = returns_then [OF send_returns]
lemmas receive_step = pair_step [OF receive_returns]

lemma again_returns:
  assumes "timely (n_os E)" and "length (buf b) = 65507" and "- (2 ^ 31) \<le> d_counter s" and "d_counter s + 1 < 2 ^ 31"
  shows "returns (\<lambda>(r, b). length (buf b) = 65507) 1 s (if r \<noteq> (0::int) then stunclient_receive E b fd s w else Some (Returned (r, b), s, w))"
  using receive_returns [OF assms, of fd w] assms(2) by (cases "r = 0") (simp_all add: returns_Some)

lemma hairpinning_returns:
  assumes "timely (n_os E)" and "length (buf (n_buffer E)) = 65507" and "- (2 ^ 31) \<le> d_counter s" and "d_counter s + 3 < 2 ^ 31"
  shows "returns (\<lambda>_. True) 3 s (run_stunclient_hairpinning E change_ip change_port padding s w)"
proof -
  have "returns (\<lambda>_. True) (0 + (0 + (1 + (0 + (0 + (1 + (1 + 0))))))) s (run_stunclient_hairpinning E change_ip change_port padding s w)"
    unfolding run_stunclient_hairpinning_def Let_def
    by (intro init_step [OF assms(1)] send_step [OF assms(1,2)] receive_step [OF assms(1)] pair_step [OF again_returns [OF assms(1)]])
      (use assms in \<open>auto intro!: returns_Some\<close>)
  then show ?thesis
    by simp
qed

lemma lifetime_returns:
  assumes "timely (n_os E)" and "length (buf (n_buffer E)) = 65507" and "- (2 ^ 31) \<le> d_counter s" and "d_counter s + 2 < 2 ^ 31"
  shows "returns (\<lambda>_. True) 2 s (run_stunclient_lifetime E timer change_ip change_port padding s w)"
proof -
  have "returns (\<lambda>_. True) (0 + (0 + (1 + (0 + (0 + (1 + 0)))))) s (run_stunclient_lifetime E timer change_ip change_port padding s w)"
    unfolding run_stunclient_lifetime_def Let_def
    by (intro init_step [OF assms(1)] send_step [OF assms(1,2)] receive_step [OF assms(1)])
      (use assms in \<open>auto intro!: returns_Some\<close>)
  then show ?thesis
    by simp
qed

text \<open>Reading an address never fails on a C string.\<close>

lemma strncpy_defined: "0 \<in> set s \<Longrightarrow> \<exists>d. c_strncpy n s = Some d \<and> length d = n"
  by (induction n s rule: c_strncpy.induct) auto

lemma strlen_defined: "0 \<in> set s \<Longrightarrow> \<exists>n. c_strlen s = Some n"
  by (induction s rule: c_strlen.induct) auto

lemma last_in_drop: "p < length m \<Longrightarrow> m ! (length m - 1) = 0 \<Longrightarrow> 0 \<in> set (drop p m)"
  by (metis last_conv_nth last_drop last_in_set list.size(3) drop_eq_Nil2 not_le not_less_zero)

lemma trim_loop_defined:
  "p + n < length m \<Longrightarrow> m ! (length m - 1) = 0 \<Longrightarrow> \<exists>m' k. trim_loop m p n = Some (m', k) \<and> length m' = length m \<and> m' ! (length m - 1) = 0"
proof (induction m p n rule: trim_loop.induct)
  case (2 m p n)
  then obtain m' where m': "wrn m (p + n) [0] = Some m'"
    by (simp add: wrn_def)
  have "p + n + length [0::u8] \<le> length m - 1"
    using 2(2) by simp
  then have m': "wr8 m (p + n) 0 = Some m'" "length m' = length m" "m' ! (length m - 1) = 0"
    using wrn_SomeD(2) [OF m'] wrn_nth_other [OF m' disjI2] m' 2(3) by (simp_all add: wr8_def)
  show ?case
  proof (cases "m ! (p + n) = 32")
    case True
    then have r: "rd8 m (p + n) = Some 32"
      using 2(2) by (simp add: rd8_def)
    show ?thesis
      using 2(1) [OF r refl m'(1)] 2(2) r m' by simp
  next
    case False
    then show ?thesis
      using 2(2,3) by (simp add: rd8_def)
  qed
qed simp

lemma skip_blanks_defined: "p < length m \<Longrightarrow> m ! (length m - 1) = 0 \<Longrightarrow> \<exists>q. skip_blanks m p = Some q \<and> q < length m"
proof (induction m p rule: skip_blanks.induct)
  case (1 m i)
  have "Suc i < length m" if "m ! i = 32"
    using that 1(2,3) by (cases "i = length m - 1") auto
  then show ?case
    using 1 by (subst skip_blanks.simps) (auto simp: rd8_def)
qed

lemma make_ioa_addr_defined:
  assumes "0 \<in> set sa"
  shows "\<exists>r x. make_ioa_addr R (Some sa) port (Some a) = Some (r, Some x)"
proof -
  obtain d where d: "c_strncpy 257 sa = Some d" "length d = 257"
    using strncpy_defined [OF assms] by blast
  obtain e where e: "wrn d 256 [0] = Some e"
    using d(2) by (simp add: wrn_def)
  have e': "wr8 d 256 0 = Some e" "length e = 257" "e ! (length e - 1) = 0"
    using wrn_SomeD(2) [OF e] wrn_nth_in [OF e, of 256] e d(2) by (simp_all add: wr8_def)
  obtain p where p: "skip_blanks e 0 = Some p" "p < length e"
    using skip_blanks_defined [of 0 e] e'(2,3) by auto
  obtain n where n: "c_strlen (drop p e) = Some n"
    using strlen_defined last_in_drop [OF p(2) e'(3)] by blast
  have "p + n < length e"
    using c_strlen_Some [OF n] p(2) by (simp add: less_diff_conv add.commute)
  then obtain f k where f: "trim_loop e p n = Some (f, k)" "length f = length e" "f ! (length e - 1) = 0"
    using trim_loop_defined [of p n e] e'(3) by auto
  obtain j where "c_str (drop p f) = Some j"
    using strlen_defined last_in_drop [of p f] p(2) f(2,3) by (force simp: c_str_def)
  then show ?thesis
    using d e' p n f by (auto simp: make_ioa_addr_def Let_def split: option.split)
qed

lemma nd_init_returns:
  assumes "0 \<in> set lstr" and "0 \<in> set param"
  shows "returns (\<lambda>_. True) 0 s (nd_init E first port lstr param s w)"
proof -
  have c: "\<exists>c. rd8 lstr 0 = Some c"
    using assms(1) by (cases lstr) (auto simp: rd8_def)
  obtain r la where "make_ioa_addr (n_resolver E) (Some lstr) 0 (Some zero_addr) = Some (r, Some la)"
    using make_ioa_addr_defined [OF assms(1)] by blast
  moreover obtain r' ra where "make_ioa_addr (n_resolver E) (Some param) port (Some (d_remote s)) = Some (r', Some ra)"
    using make_ioa_addr_defined [OF assms(2)] by blast
  ultimately show ?thesis
    using c by (auto simp: nd_init_def returns_def Let_def split: outcome.splits)
qed

lemma counter_discoveryresult [simp]: "d_counter (discoveryresult d s) = d_counter s"
  by (simp add: discoveryresult_def)

lemma counter_no_nat [simp]: "d_counter (no_nat s) = d_counter s"
  by (simp add: no_nat_def)

lemmas start_step = returns_then [OF nd_init_returns]

lemma mapping_tests_returns:
  assumes "timely (n_os E)" and "length (buf (n_buffer E)) = 65507" and "- (2 ^ 31) \<le> d_counter s" and "d_counter s + 2 < 2 ^ 31"
    and "d_counter t = d_counter s"
  shows "returns (\<lambda>_. True) 2 s (mapping_tests E opts t w)"
proof -
  have "returns (\<lambda>_. True) (1 + (1 + 0)) s (mapping_tests E opts t w)"
  proof (cases "d_rfc5780 t \<and> \<not> addr_any (Some (d_other t))")
    case True
    show ?thesis
      unfolding mapping_tests_def Let_def if_P [OF True]
      by (rule run_step [OF assms(1,2)])
        (use assms in \<open>auto intro!: returns_Some run_step [OF assms(1,2), where k = 0, simplified]\<close>)
  next
    case False
    then show ?thesis
      using assms(5) by (auto simp: mapping_tests_def intro!: returns_Some)
  qed
  then show ?thesis
    by simp
qed

lemma filtering_tests_returns:
  assumes "timely (n_os E)" and "length (buf (n_buffer E)) = 65507" and "- (2 ^ 31) \<le> d_counter s" and "d_counter s + 2 < 2 ^ 31"
    and "d_counter t = d_counter s"
  shows "returns (\<lambda>_. True) 2 s (filtering_tests E opts t w)"
proof -
  have "returns (\<lambda>_. True) (1 + (1 + 0)) s (filtering_tests E opts t w)"
  proof (cases "d_rfc5780 t \<and> \<not> addr_any (Some (d_other t))")
    case True
    show ?thesis
      unfolding filtering_tests_def if_P [OF True]
      by (rule run_step [OF assms(1,2)])
        (use assms in \<open>auto intro!: returns_Some run_step [OF assms(1,2), where k = 0, simplified]\<close>)
  next
    case False
    then show ?thesis
      using assms(5) by (auto simp: filtering_tests_def intro!: returns_Some)
  qed
  then show ?thesis
    by simp
qed

text \<open>A test, or nothing, after which at most \<open>k\<close> more responses are counted.\<close>

lemma test_returns:
  assumes "timely (n_os E)" and "length (buf (n_buffer E)) = 65507" and "- (2 ^ 31) \<le> d_counter s" and "d_counter s + 3 < 2 ^ 31"
    and "0 \<in> set (local_addr_string opts)" and "0 \<in> set (local2_addr_string opts)" and "0 \<in> set param"
  shows "returns (\<lambda>_. True) 3 s (mapping_discovery E opts param first s w)"
    and "returns (\<lambda>_. True) 3 s (filtering_discovery E opts param first s w)"
    and "returns (\<lambda>_. True) 3 s (lifetime_discovery E opts param first s w)"
    and "returns (\<lambda>_. True) 3 s (hairpinning_discovery E opts param first s w)"
    and "returns (\<lambda>_. True) 3 s (collision_discovery E opts param first s w)"
proof -
  note start = start_step [OF assms(5,7)] and run = run_step [OF assms(1,2)]
  have "returns (\<lambda>_. True) (0 + (1 + 2)) s (mapping_discovery E opts param first s w)"
    unfolding mapping_discovery_def by (intro start run mapping_tests_returns [OF assms(1,2)]) (use assms in auto)
  then show "returns (\<lambda>_. True) 3 s (mapping_discovery E opts param first s w)"
    by simp
  have "returns (\<lambda>_. True) (0 + (1 + 2)) s (filtering_discovery E opts param first s w)"
    unfolding filtering_discovery_def by (intro start run filtering_tests_returns [OF assms(1,2)]) (use assms in auto)
  then show "returns (\<lambda>_. True) 3 s (filtering_discovery E opts param first s w)"
    by simp
  have "returns (\<lambda>_. True) (0 + (2 + 1)) s (lifetime_discovery E opts param first s w)"
    unfolding lifetime_discovery_def
    by (intro start returns_then [OF lifetime_returns [OF assms(1,2)]]) (use assms in \<open>auto intro!: returns_Some\<close>)
  then show "returns (\<lambda>_. True) 3 s (lifetime_discovery E opts param first s w)"
    by simp
  have "returns (\<lambda>_. True) (0 + (3 + 0)) s (hairpinning_discovery E opts param first s w)"
    unfolding hairpinning_discovery_def
    by (intro start returns_then [OF hairpinning_returns [OF assms(1,2)]]) (use assms in \<open>auto intro!: returns_Some\<close>)
  then show "returns (\<lambda>_. True) 3 s (hairpinning_discovery E opts param first s w)"
    by simp
  obtain c where c: "rd8 (local2_addr_string opts) 0 = Some c"
    using assms(6) by (cases "local2_addr_string opts") (auto simp: rd8_def)
  obtain r la where l: "(if c \<noteq> 0 then make_ioa_addr (n_resolver E) (Some (local2_addr_string opts)) 0 (Some zero_addr) else Some (0, Some zero_addr))
      = Some (r, Some la)"
    using make_ioa_addr_defined [OF assms(6), of "n_resolver E" 0 zero_addr] by (cases "c = 0") auto
  have two: "returns (\<lambda>_. True) (1 + (1 + 1)) s' (and_then (nd_run_stunclient E False False (o_padding opts) s' w') (\<lambda>_ s w.
      and_then (nd_run_stunclient E False False (o_padding opts)
        (s\<lparr>d_local := the (addr_set_port (Some la) (addr_get_port (Some (d_local s))))\<rparr>) w) (\<lambda>_ s w. Some (Returned (), s, w))))"
    if "d_counter s' = d_counter s" for s' w'
    by (intro run) (use assms that in \<open>auto intro!: returns_Some\<close>)
  have "returns (\<lambda>_. True) (0 + 3) s (collision_discovery E opts param first s w)"
    unfolding collision_discovery_def c l bind.bind_lunit prod.case Let_def
    by (rule start, cases "r < 0") (use two in \<open>auto simp: returns_def [of _ _ _ "Some _"]\<close>)
  then show "returns (\<lambda>_. True) 3 s (collision_discovery E opts param first s w)"
    by simp
qed

lemma optional_returns: "returns (\<lambda>_. True) 3 s r \<Longrightarrow> returns (\<lambda>_. True) 3 s (if c then r else Some (Returned (), s, w))"
  by (simp add: returns_Some)

lemma run_tests_returns:
  assumes "timely (n_os E)" and "length (buf (n_buffer E)) = 65507" and "- (2 ^ 31) \<le> d_counter s" and "d_counter s + 15 < 2 ^ 31"
    and "0 \<in> set (local_addr_string opts)" and "0 \<in> set (local2_addr_string opts)" and "0 \<in> set param"
  shows "returns (\<lambda>_. True) 15 s (run_tests E opts param s w)"
proof -
  have "returns (\<lambda>_. True) (3 + (3 + (3 + (3 + (3 + 0))))) s (run_tests E opts param s w)"
    unfolding run_tests_def Let_def
    by (intro returns_then [OF optional_returns] test_returns [OF assms(1,2)]) (use assms in \<open>auto intro!: returns_Some\<close>)
  then show ?thesis
    by simp
qed

lemma STRCPY_string:
  assumes "STRCPY n s = Some m" and "0 < n"
  shows "0 \<in> set m"
proof -
  obtain d where d: "c_strncpy n s = Some d" "wrn d (n - 1) [0] = Some m"
    using assms(1) by (auto simp: STRCPY_def wr8_def bind_eq_Some_conv)
  have "m ! (n - 1) = 0" "n - 1 < length m"
    using wrn_nth_in [OF d(2), of "n - 1"] wrn_SomeD(1,2) [OF d(2)] by auto
  then show ?thesis
    by (metis nth_mem)
qed

definition terminated :: "nd_options \<Rightarrow> bool" where
  "terminated opts \<longleftrightarrow> 0 \<in> set (local_addr_string opts) \<and> 0 \<in> set (local2_addr_string opts)"

lemma parse_option_terminated: "parse_option x opts = Some (Some opts') \<Longrightarrow> terminated opts \<Longrightarrow> terminated opts'"
  by (cases x) (auto simp: parse_option_def terminated_def bind_eq_Some_conv split: if_splits dest: STRCPY_string)

lemma parse_options_terminated: "parse_options xs opts = Some (Some opts') \<Longrightarrow> terminated opts \<Longrightarrow> terminated opts'"
proof (induction xs arbitrary: opts)
  case (Cons x xs)
  then obtain r where r: "parse_option x opts = Some r"
    by (auto simp: bind_eq_Some_conv)
  then show ?case
    using Cons parse_option_terminated [of x opts] by (cases r) auto
qed simp

text \<open>C40: Whatever the system and the network do (calls that fail, responses of any content, or none at all, so that each \<open>recv\<close>
  times out), the tool returns or leaves the process, for all options and arguments, if signals do not interrupt \<open>bind\<close> or \<open>recv\<close>
  forever, \<open>sendto\<close> finds room in the end, and no number on the command line is out of range: every read and write of its tests stays
  inside the buffers, and no counter overflows.\<close>

theorem nd_main_returns:
  fixes E :: "'w nd_env"
  assumes "timely (n_os E)" and "length (buf (n_buffer E)) = 65507" and "parse_options optlist initial_options \<noteq> None"
    and "list_all (\<lambda>a. 0 \<in> set a) args"
  shows "\<exists>x s' w'. nd_main E optlist args w = Some (x, s', w')"
proof -
  let ?s = "\<lparr>d_fd = -1, d_fd2 = -1, d_counter = 0, d_local = n_junk E, d_remote = zero_addr, d_reflexive = zero_addr, d_other = zero_addr,
    d_local_port = -1, d_rfc5780 = False, decisions = []\<rparr>"
  obtain r where r: "parse_options optlist initial_options = Some r"
    using assms(3) by auto
  show ?thesis
  proof (cases r)
    case None
    then show ?thesis
      using r by (simp add: nd_main_def)
  next
    case (Some opts)
    have t: "0 \<in> set (local_addr_string opts)" "0 \<in> set (local2_addr_string opts)"
      using parse_options_terminated [of optlist initial_options opts] r Some by (simp_all add: terminated_def initial_options_def)
    then obtain l1 l2 where l: "rd8 (local_addr_string opts) 0 = Some l1" "rd8 (local2_addr_string opts) 0 = Some l2"
      by (cases "local_addr_string opts"; cases "local2_addr_string opts") (auto simp: rd8_def)
    let ?t = "?s\<lparr>d_local_port := o_local_port opts\<rparr>"
    have tests: "\<exists>x s' w'. and_then (run_tests E opts param ?t w) (\<lambda>_ s w. Some (Returned (0::int), s, f s w)) = Some (x, s', w')"
      if p: "0 \<in> set param" for param and f :: "discovery \<Rightarrow> 'w \<Rightarrow> 'w"
    proof -
      obtain x s' w' where "run_tests E opts param ?t w = Some (x, s', w')"
        using run_tests_returns [OF assms(1,2) _ _ t p, of ?t w] by (auto simp: returns_def)
      then show ?thesis
        by (cases x) (simp_all add: and_then_def)
    qed
    show ?thesis
    proof (cases args)
      case Nil
      then show ?thesis
        using r Some l by (simp add: nd_main_def)
    next
      case (Cons param rest)
      then show ?thesis
        using r Some l assms(4) tests [of param "\<lambda>s w. os_close (n_os E) (d_fd2 s) (os_close (n_os E) (d_fd s) w)"] by (simp add: nd_main_def Let_def)
    qed
  qed
qed

subsection \<open>An example\<close>

text \<open>
  The world is the last datagram sent.  The server has the addresses 5 and 9 and the ports 3478 and 3479, and the NAT maps by the
  address of the destination.
\<close>

definition answer_to :: "ioa_addr \<Rightarrow> ioa_addr \<Rightarrow> mem" where
  "answer_to m a = header (stun_make_success_response STUN_METHOD_BINDING) 24 STUN_MAGIC_COOKIE (replicate 12 7)
     @ enc_attr STUN_ATTRIBUTE_XOR_MAPPED_ADDRESS (enc_addr m True STUN_MAGIC_COOKIE (replicate 12 7)) []
     @ enc_attr STUN_ATTRIBUTE_OTHER_ADDRESS (enc_addr a False STUN_MAGIC_COOKIE (replicate 12 7)) []"

definition swapped :: "ioa_addr \<Rightarrow> ioa_addr" where
  "swapped a = sample4 (if sa_family a = AF_INET \<and> sin_addr a = 5 then 9 else 5) (if sin_port a = nswap16 3478 then nswap16 3479 else nswap16 3478)"

definition by_address :: "ioa_addr \<Rightarrow> ioa_addr" where
  "by_address a = sample4 (if sa_family a = AF_INET then sin_addr a else 0) 7"

definition nat_os :: "(bool \<times> bool \<Rightarrow> bool) \<Rightarrow> (ioa_addr \<times> mem) os" where
  "nat_os F = (sample_os (sample4 8 80) [])\<lparr>os_errno := \<lambda>w. EAGAIN, os_sendto := \<lambda>fd m a w. (int (length m), (a, m)),
     os_recv := \<lambda>fd n w. if F (change_flags (snd w)) then (44, answer_to (by_address (fst w)) (swapped (fst w)), w) else (-1, [], w)\<rparr>"

definition nat_env :: "(bool \<times> bool \<Rightarrow> bool) \<Rightarrow> (ioa_addr \<times> mem) nd_env" where
  "nat_env F = \<lparr>n_os = nat_os F, n_resolver = sample_resolver, n_random = \<lambda>w. (sample_entropy, w), n_tbl = empty_map,
     n_buffer = sample_buffer, n_junk = zero_addr\<rparr>"

lemma answer_to_msg:
  "stun_msg (answer_to (sample4 i p) (sample4 j q)) (length (answer_to (sample4 i p) (sample4 j q)))
     (stun_make_success_response STUN_METHOD_BINDING) STUN_MAGIC_COOKIE (replicate 12 7)
     [addr_attr empty_map (replicate 12 7) STUN_ATTRIBUTE_XOR_MAPPED_ADDRESS (sample4 i p),
      addr_attr empty_map (replicate 12 7) STUN_ATTRIBUTE_OTHER_ADDRESS (sample4 j q)]" (is "stun_msg ?m ?l ?mt ?ck ?t ?as")
  and answer_to_length: "length (answer_to (sample4 i p) (sample4 j q)) = 44"
proof -
  let ?u = "enc_addr (sample4 i p) True ?ck ?t" and ?v = "enc_addr (sample4 j q) False ?ck ?t"
  let ?r = "enc_attr STUN_ATTRIBUTE_XOR_MAPPED_ADDRESS ?u [] @ enc_attr STUN_ATTRIBUTE_OTHER_ADDRESS ?v []"
  have l: "length ?u = 8" "length ?v = 8"
    by (simp_all add: length_enc_addr sample4_def wf_addr_def zero_addr_def)
  have x: "is_xor_type STUN_ATTRIBUTE_XOR_MAPPED_ADDRESS" "\<not> is_xor_type STUN_ATTRIBUTE_OTHER_ADDRESS"
    by code_simp+
  have m: "map_addr_from_private_to_public empty_map a = a" for a
    by (simp add: map_addr_from_private_to_public_def empty_map_def)
  have e: "attrs_exact (enc_attr ty w [])" "parse_attrs (enc_attr ty w []) = [(ty, w)]" if "length w = 8" for ty w
    using enc_attr_exact [of w "[]" ty] that by (simp_all add: pad4_def)
  have "attrs_exact ?r" "parse_attrs ?r = ?as"
    using e(1) [OF l(2)] exact_append [OF e(1) [OF l(1)]] e(2) l x by (simp_all add: addr_attr_def m)
  moreover have "length ?r = 24"
    using l by simp
  ultimately show "stun_msg ?m ?l ?mt ?ck ?t ?as"
    unfolding stun_msg_def answer_to_def by (intro exI [of _ ?r] exI [of _ "[]"]) simp
  show "length (answer_to (sample4 i p) (sample4 j q)) = 44"
    using l by (simp add: answer_to_def)
qed

lemma example_network: "nat_network (nat_env F) id (sample4 8 80) by_address swapped F"
proof -
  have c: "carries empty_map (replicate 12 7) [addr_attr empty_map (replicate 12 7) STUN_ATTRIBUTE_XOR_MAPPED_ADDRESS (sample4 i p),
      addr_attr empty_map (replicate 12 7) STUN_ATTRIBUTE_OTHER_ADDRESS (sample4 j q)] STUN_ATTRIBUTE_XOR_MAPPED_ADDRESS (Some (sample4 i p))"
    "carries empty_map (replicate 12 7) [addr_attr empty_map (replicate 12 7) STUN_ATTRIBUTE_XOR_MAPPED_ADDRESS (sample4 i p),
      addr_attr empty_map (replicate 12 7) STUN_ATTRIBUTE_OTHER_ADDRESS (sample4 j q)] STUN_ATTRIBUTE_OTHER_ADDRESS (Some (sample4 j q))" for i p j q
    using sample4_translatable by (simp_all add: carries_def addr_attr_def) (simp_all add: sample4_def)
  have l: "length (answer_to (by_address a) (swapped a)) = 44" for a
    using answer_to_length unfolding by_address_def swapped_def by blast
  have "\<exists>t as. stun_msg (answer_to (by_address a) (swapped a)) 44 (stun_make_success_response STUN_METHOD_BINDING) STUN_MAGIC_COOKIE t as
      \<and> carries empty_map t as STUN_ATTRIBUTE_XOR_MAPPED_ADDRESS (Some (by_address a))
      \<and> carries empty_map t as STUN_ATTRIBUTE_OTHER_ADDRESS (Some (swapped a))" for a
    using answer_to_msg [unfolded answer_to_length] c unfolding by_address_def swapped_def by blast
  then show ?thesis
    using l by (simp add: nat_network_def nat_env_def sample_buffer_def) (simp add: nat_os_def sample_os_def)
qed

definition sample_discovery :: discovery where
  "sample_discovery = \<lparr>d_fd = -1, d_fd2 = -1, d_counter = 0, d_local = zero_addr, d_remote = zero_addr, d_reflexive = zero_addr,
     d_other = zero_addr, d_local_port = -1, d_rfc5780 = False, decisions = []\<rparr>"

lemma example_server: "rfc5780_server swapped (sample4 5 (nswap16 3478)) (sample4 9 (nswap16 3479))"
proof -
  have "of_address swapped"
    by (auto simp: of_address_def swapped_def addr_eq_def sample4_def split: if_splits)
  moreover have "nswap16 3479 \<noteq> (nswap16 3478 :: u16)"
    by code_simp
  ultimately show ?thesis
    by (simp add: rfc5780_server_def addr_any_def) (simp add: swapped_def addr_eq_def sample4_def)
qed

lemma by_address_dependent: "of_address by_address" "address_dependent by_address"
  by (auto simp: of_address_def address_dependent_def by_address_def addr_eq_def sample4_def split: if_splits)

theorem filtering_discovered_witness:
  "\<exists>s' w'. filtering_discovery (nat_env (\<lambda>(ip, port). \<not> ip)) initial_options [53, 0] True sample_discovery (zero_addr, []) = Some (Returned (), s', w')
    \<and> decisions s' = [''NAT with Address Dependent Filtering!'']"
proof -
  have "rd8 (local_addr_string initial_options) 0 = Some 0" "remote_port initial_options = 3478"
    by (simp_all add: initial_options_def rd8_def)
  moreover have "\<not> addr_any (Some (swapped (sample4 5 (nswap16 3478))))" "\<not> addr_eq (Some (sample4 8 80)) (Some (by_address (sample4 5 (nswap16 3478))))"
    by code_simp+
  moreover have "n_resolver (nat_env F) = sample_resolver" for F
    by (simp add: nat_env_def)
  ultimately show ?thesis
    using filtering_discovered [OF example_network [of "\<lambda>(ip, port). \<not> ip"], of sample_discovery initial_options "[53, 0]" "sample4 5 (nswap16 3478)"
      True "(zero_addr, [])"] sample_rip by (simp add: sample_discovery_def)
qed

theorem mapping_discovered_witness:
  "address_dependent by_address \<and> (\<exists>s' w'. mapping_discovery (nat_env (\<lambda>_. True)) initial_options [53, 0] True sample_discovery (zero_addr, [])
      = Some (Returned (), s', w')
    \<and> decisions s' = [''NAT with Address and Port Dependent Mapping!''])"
proof -
  have "rd8 (local_addr_string initial_options) 0 = Some 0" "remote_port initial_options = 3478"
    by (simp_all add: initial_options_def rd8_def)
  moreover have "\<not> addr_eq (Some (sample4 8 80)) (Some (by_address (sample4 5 (nswap16 3478))))" "sin_port (sample4 5 (nswap16 3478)) = nswap16 (word_of_int 3478)"
    by code_simp+
  moreover have "n_resolver (nat_env F) = sample_resolver" for F
    by (simp add: nat_env_def)
  ultimately obtain s' w' d where
      "mapping_discovery (nat_env (\<lambda>_. True)) initial_options [53, 0] True sample_discovery (zero_addr, []) = Some (Returned (), s', w')"
      "decisions s' = [d]" "address_dependent by_address \<longrightarrow> d = ''NAT with Address and Port Dependent Mapping!''"
    using mapping_discovered [OF example_network [of "\<lambda>_. True"], of sample_discovery initial_options "[53, 0]" "sample4 5 (nswap16 3478)"
      "sample4 9 (nswap16 3479)" True "(zero_addr, [])"] sample_rip example_server by_address_dependent(1)
    by (force simp: sample_discovery_def)
  then show ?thesis
    using by_address_dependent(2) by blast
qed

text \<open>A network that lets nothing through: each \<open>recv\<close> times out.\<close>

lemma silent_timely: "timely (nat_os (\<lambda>_. False))"
  unfolding timely_def by (simp add: nat_os_def sample_os_def) (simp add: ends_def attempt_def)

theorem nd_main_returns_witness:
  "\<exists>x s' w'. nd_main (nat_env (\<lambda>_. False)) [(CHR ''m'', []), (CHR ''f'', []), (CHR ''p'', [53, 0])] [[53, 0]] (zero_addr, [])
     = Some (x, s', w')" (is "\<exists>x s' w'. nd_main ?E ?o ?a ?w = _")
proof -
  have "timely (n_os ?E)"
    using silent_timely by (simp add: nat_env_def)
  moreover have "length (buf (n_buffer ?E)) = 65507"
    by (simp add: nat_env_def sample_buffer_def)
  moreover have "parse_options ?o initial_options \<noteq> None"
    by (simp add: parse_option_def c_atoi_def c_int_def)
  ultimately show ?thesis
    using nd_main_returns [of ?E ?o ?a ?w] by simp
qed

end
