(* ===== verification/Spec2Isabelle.thy ===== *)
theory Spec2Isabelle
  imports Turn_Uclient Nat_Behaviour
begin

text \<open>
  The STUN/TURN client library of the application, under \<open>src/app/src/main/cpp\<close>: the message library of
  \<open>client/\<close>, the message buffer and the helpers of \<open>common/\<close>, the STUN client of \<open>stunclient/\<close>, the TURN client of
  \<open>p2p/\<close> and the discovery tool of \<open>natdiscovery/\<close>.  The clients build and read messages through the buffer, which calls the
  message library; the application calls \<open>init_stun\<close> of the first and \<open>start_uclient\<close> and \<open>start_bind_client\<close> of the second; the tool is a program of its own.

  \<^bold>\<open>The parts and the theories.\<close>  In the order of the imports:

  \<^item> \<open>Prelude\<close>: bytes and words (\<open>le16\<close>, \<open>bytes32\<close>, \dots), \<open>nswap16/32/64\<close> of \<open>ns_turn_defs.h\<close> on a little-endian machine,
    arrays of bytes with checked reads and writes (\<open>rd8\<close>, \<open>rdn\<close>, \<open>wrn\<close>, \dots; \<open>None\<close> is an access outside the array), C
    integers (\<open>c_int\<close>; \<open>None\<close> is a signed overflow) and C strings.  \<open>C_Strings\<close> adds blanks, numbers and searching.
  \<^item> \<open>Io_Addr\<close>, \<open>Io_Addr_Text\<close> (\<open>client/ns_turn_ioaddr.c\<close>): the address union as a record, comparison, hashing, ranges,
    the table of public and private addresses as state; reading and printing addresses.
  \<^item> \<open>Msg_Addr\<close> (\<open>client/ns_turn_msg_addr.c\<close>): \<open>stun_addr_encode\<close> and \<open>stun_addr_decode\<close>.
  \<^item> \<open>Stun_Header\<close> (\<open>client/ns_turn_msg.c\<close>): message types and classes, lengths, transaction identifiers, the recogniser
    \<open>stun_is_command_message_str\<close>.
  \<^item> \<open>Stun_Attr\<close>, \<open>Attr_Store\<close>, \<open>Attr_Last\<close>, \<open>Attr_Typed\<close>: walking over the attributes of received bytes, appending, and the
    typed readers and writers.  The abstract state is the list of attributes \<open>attrs_of\<close>; \<open>stun_msg\<close> says that a buffer holds a
    message with a given list.
  \<^item> \<open>Crc32\<close>, \<open>Fingerprint\<close>, \<open>Framing\<close>: the checksum, FINGERPRINT, cutting messages off a stream, ChannelData and HTTP.
  \<^item> \<open>Messages\<close>: error responses, challenges, ALLOCATE, CHANNEL-BIND and BINDING messages.  \<open>Recv_Safety\<close>: the readers applied
    to arbitrary bytes.
  \<^item> \<open>Integrity\<close>, \<open>Credentials\<close>, \<open>Oauth\<close>: MESSAGE-INTEGRITY, SASLprep and stored passwords, OAuth keys and tokens.
    \<open>Base64\<close> (\<open>common/apputils.c\<close>): base64 and the raw form of keys.
  \<^item> \<open>Stun_Buffer\<close> (\<open>common/stun_buffer.c\<close>): the record \<open>stun_buffer\<close>, its wrappers, and the building of messages as a state
    machine (\<open>building\<close>).
  \<^item> \<open>Sockets\<close> (\<open>common/apputils.c\<close>): socket options, connecting, binding, and the loops around system calls.
  \<^item> \<open>Stun_Client\<close> (\<open>stunclient/stun_manager.c\<close>): the client as a function over its variables and the state of the system, with
    the callbacks it makes as a log.
  \<^item> \<open>Turn_Io\<close> (\<open>p2p/p2p_client.c\<close>, \<open>p2p/session.h\<close>): the records \<open>settings\<close>, \<open>app_ur_conn_info\<close> and \<open>lib\<close>; \<open>wait_fd\<close>, \<open>send_buffer\<close> and
    \<open>recv_buffer\<close> over UDP, TCP and TLS.
  \<^item> \<open>Turn_Session\<close> (\<open>p2p/p2p_client.c\<close>, \<open>p2p/connect_manager.c\<close>): credentials and integrity of requests, the exchange of a
    request and its response with challenges, CHANNEL-BIND, CREATE-PERMISSION and the refreshing of a session.
  \<^item> \<open>Turn_Connect\<close>, \<open>Turn_Allocate\<close> (\<open>p2p/connect_manager.c\<close>): \<open>clnet_connect\<close> with TLS; \<open>clnet_allocate\<close> with its attempts,
    alternate servers, the refresh and mobility.  \<open>Turn_Frame\<close> says what these leave unchanged; \<open>Turn_Served\<close> has their theorems.
  \<^item> \<open>Turn_Client\<close> (both files): \<open>client_read\<close>, \<open>client_input_handler\<close>, \<open>start_client\<close>, \<open>start_c2c\<close>, \<open>start_p2p_client\<close>, \<open>bind_real\<close>.
    \<open>Turn_Input\<close>: the states that a started client reaches, and what it counts.
  \<^item> \<open>Turn_Uclient\<close> (\<open>p2p/uclient_manager.c\<close>): the variables with their initial values, the setters, \<open>start_uclient\<close> with the
    credentials for a shared secret and the TLS contexts, and the sequences of calls as a step relation.
  \<^item> \<open>Nat_Discovery\<close> (the C part of \<open>natdiscovery/natdiscovery.c\<close>): the tool that finds out how a NAT behaves, with its options and
    tests.  \<open>Nat_Behaviour\<close>: what it reports of a NAT that is given by its mapping and its filter, and that it returns.

  \<^bold>\<open>How the model reads.\<close>  A C function on a buffer is a function of the bytes and the length; what it writes is returned
  with its result, so \<open>stun_attr_add_str buf len \<dots> = Some (r, buf', len')\<close>.  \<open>None\<close> always means that the C code
  leaves its memory, overflows a signed integer or does not return; a theorem with \<open>Some\<close> on the right therefore includes
  memory safety and termination.  Errors of the code are its own result values.  Uninitialised memory is a parameter.

  \<^bold>\<open>What is shown.\<close>  Reading: lookups are safe on arbitrary bytes and return the first attribute of the parsed list; the
  recogniser and the framing accept exactly what they should, with the wrap-around of 16-bit sums.  Writing:
  appending refines appending to the list, whole messages carry the attributes asked for, and everything written is read back
  (attributes, addresses, errors, challenges, channel headers, tokens, passwords, base64).  Checks: the table-driven CRC is the
  bitwise one, FINGERPRINT is accepted, the HMAC covers what it should, and the integrity check does not compare it.
  Composition: every message built through \<open>stun_buffer\<close> is well-formed at every moment, the STUN client sends the right
  probe, reports the IPv4 addresses of the response in order, and returns whatever is received, if no call is repeated forever.
  The TURN client: what is sent over the socket is the message, and what is received for a request has its transaction identifier;
  a binding, a permission and an allocation are reported only at the end of a run that sent the request and received a response with
  its transaction identifier that passed the integrity check, once there is a nonce (\<open>challenges\<close>, \<open>rounds\<close>, \<open>alloc_cycles\<close> and
  \<open>alloc_waits\<close> are these runs); a request carries the HMAC and the fingerprint of its bytes; a connection has an address that
  was resolved and a TLS session whose handshake was completed; an allocation is obtained from a server that grants it; the event handler reads all waiting messages and counts the gaps in their numbers; a
  started client has channel number 0 in every state, so that it never accepts ChannelData; the credentials for a shared
  secret are those of the REST interface; each start over TLS adds contexts to an array that has room for 32 of them.
  The discovery tool: the filtering it reports is the one the NAT has; endpoint-independent mapping is recognised, but address-dependent
  mapping is not told from address- and port-dependent mapping; it returns whatever the network does, even if nothing arrives.  The theorems about overruns and
  misreadings state what the code does where that differs from its purpose.

  \<^bold>\<open>Interfaces.\<close>  Locales state what a client relies on, and are interpreted on the model: the address table
  (\<open>Io_Addr\<close>), the store of attributes (\<open>Attr_Store\<close>, and \<open>Stun_Buffer\<close> for its wrappers).

  \<^bold>\<open>Parameters.\<close>  Code outside the repository is an argument of the definitions that call it, with what is relied on as
  a named hypothesis: OpenSSL digests and HMAC (\<open>digest_ok\<close>, \<open>hmac_ok\<close>), the cipher context (\<open>gcm_ok\<close>), \<open>malloc\<close>
  (\<open>malloc_ok\<close>, \<open>alloc_ok\<close>), \<open>inet_pton\<close>, \<open>inet_ntop\<close> and \<open>getaddrinfo\<close> (\<open>inet_ok\<close>), random bytes (\<open>entropy\<close>), system calls
  (the record \<open>os\<close>; \<open>answers\<close> for a network that responds, \<open>responsive\<close> and \<open>timely\<close> for calls that the
  STUN client and the discovery tool do not repeat forever).  For the TURN client the
  record \<open>lib\<close> adds sockets, time, TLS sessions and contexts, and the event loop: \<open>sends_on\<close> and \<open>accepts\<close> describe a socket that
  sends, \<open>quiet\<close> a source of random bytes that sends nothing, \<open>delivers\<close> a socket with given messages to read, \<open>serves\<close> and \<open>ready\<close> a
  server that grants requests.  \<open>nat_network\<close> is a network with a NAT and a server of RFC 5780.
  Each hypothesis is satisfied by a concrete instance in a witness.

  \<^bold>\<open>Loops.\<close>  Loops with a bound are functions with a termination proof; the loop around a system call may run forever and is a
  \<open>partial_function\<close>, whose value is \<open>None\<close> in that case; so is the exchange \<open>transact\<close>, which a server can keep going with challenges, and the loop of the
  event handler.  An allocation is asked for 32 times and refreshed 33 times at most, as in the code.  The cipher loop is given the 127 rounds that its longest
  input needs.  A message has at most 65507 bytes, the size of the buffer.  The doubling of a timeout
  is defined up to 32 bits of \<open>time_t\<close>, the smallest width of the supported platforms; \<open>unsigned long\<close> and \<open>size_t\<close> have 64.

  \<^bold>\<open>Not modelled.\<close>  Printing and logging, and code that is in comments; the C++ variants in \<open>natdiscovery/\<close>; the load
  generator \<open>uclient/\<close>, which the build leaves out; the MTU read from a socket, the search for files and the CPU-time loop of
  \<open>common/apputils.c\<close>, which the clients do not use; the C++ glue and the header-only wrapper \<open>TurnMsgLib.h\<close>; libevent and
  hiredis, which are vendored; the Android user interface.
\<close>

end
